(* ===== verification/Prelude.thy ===== *)
theory Prelude
  imports Complex_Main "HOL-Library.AList"
begin

text \<open>
  Shared vocabulary of the development: results as sums (an \<open>Inl\<close> for every raise of the
  source, an \<open>Inr\<close> for a normal return), the bind that runs two fallible steps in order,
  the rule collections, and generic lemmas on lists, maps and association lists.
\<close>

named_theorems result_simps \<open>rewrite rules for fallible computations\<close>
named_theorems inv_intros \<open>introduction rules for the invariants of the state machines\<close>

section \<open>Fallible computations\<close>

fun bindE :: "'e + 'a \<Rightarrow> ('a \<Rightarrow> 'e + 'b) \<Rightarrow> 'e + 'b" where
  "bindE (Inl e) f = Inl e"
| "bindE (Inr a) f = f a"

fun mapE :: "('a \<Rightarrow> 'b) \<Rightarrow> 'e + 'a \<Rightarrow> 'e + 'b" where
  "mapE f (Inl e) = Inl e"
| "mapE f (Inr a) = Inr (f a)"

fun map_errE :: "('e \<Rightarrow> 'f) \<Rightarrow> 'e + 'a \<Rightarrow> 'f + 'a" where
  "map_errE g (Inl e) = Inl (g e)"
| "map_errE g (Inr a) = Inr a"

fun raise_if :: "'e option \<Rightarrow> 'e + unit" where
  "raise_if None = Inr ()"
| "raise_if (Some e) = Inl e"

lemma bindE_Inr_iff [result_simps]:
  "bindE m f = Inr b \<longleftrightarrow> (\<exists>a. m = Inr a \<and> f a = Inr b)"
  by (cases m) auto

lemma bindE_Inl_iff [result_simps]:
  "bindE m f = Inl e \<longleftrightarrow> m = Inl e \<or> (\<exists>a. m = Inr a \<and> f a = Inl e)"
  by (cases m) auto

lemma mapE_Inr_iff [result_simps]: "mapE f m = Inr b \<longleftrightarrow> (\<exists>a. m = Inr a \<and> b = f a)"
  by (cases m) auto

lemma mapE_Inl_iff [result_simps]: "mapE f m = Inl e \<longleftrightarrow> m = Inl e"
  by (cases m) auto

lemma map_errE_Inr_iff [result_simps]: "map_errE g m = Inr a \<longleftrightarrow> m = Inr a"
  by (cases m) auto

lemma map_errE_Inl_iff [result_simps]: "map_errE g m = Inl e' \<longleftrightarrow> (\<exists>e. m = Inl e \<and> e' = g e)"
  by (cases m) auto

lemma raise_if_Inr_iff [result_simps]: "raise_if x = Inr u \<longleftrightarrow> x = None"
  by (cases x) auto

lemma raise_if_Inl_iff [result_simps]: "raise_if x = Inl e \<longleftrightarrow> x = Some e"
  by (cases x) auto

lemma bindE_assoc: "bindE (bindE m f) g = bindE m (\<lambda>a. bindE (f a) g)"
  by (cases m) auto

section \<open>Lists\<close>

definition last_n :: "nat \<Rightarrow> 'a list \<Rightarrow> 'a list" where
  "last_n n xs = drop (length xs - n) xs"

lemma length_last_n [simp]: "length (last_n n xs) = min n (length xs)"
  by (simp add: last_n_def min_def)

lemma last_n_all [simp]: "length xs \<le> n \<Longrightarrow> last_n n xs = xs"
  by (simp add: last_n_def)

lemma set_last_n: "set (last_n n xs) \<subseteq> set xs"
  by (simp add: last_n_def set_drop_subset)

lemma last_n_snoc: "0 < n \<Longrightarrow> last_n n (xs @ [x]) = last_n (n - 1) xs @ [x]"
  by (simp add: last_n_def Suc_diff_le)

lemma last_n_last_n: "last_n n (last_n m xs) = last_n (min n m) xs"
  by (cases "length xs \<le> m"; cases "n \<le> m") (auto simp: last_n_def min_def)

lemma sorted_wrt_last_n: "sorted_wrt P xs \<Longrightarrow> sorted_wrt P (last_n n xs)"
  by (simp add: last_n_def sorted_wrt_drop)

lemma filter_gt_upt: "filter (\<lambda>i. m < i) [a..<b] = [max a (Suc m)..<b]"
proof (induction b)
  case 0
  then show ?case by simp
next
  case (Suc b)
  then show ?case by (auto simp: max_def)
qed

section \<open>Runs of a step relation\<close>

text \<open>
  Every state machine of the development is a step relation; a run is its reflexive transitive
  closure. The two interfaces below say what a machine has to show of one step, and prove the
  consequence for a whole run once.
\<close>

locale step_invariant =
  fixes step :: "'s \<Rightarrow> 's \<Rightarrow> bool" and inv :: "'s \<Rightarrow> bool"
  assumes preserved: "step s t \<Longrightarrow> inv s \<Longrightarrow> inv t"
begin

lemma along_run: "rtranclp step s t \<Longrightarrow> inv s \<Longrightarrow> inv t"
  by (induction rule: rtranclp_induct) (auto intro: preserved)

lemma step_in_run:
  "rtranclp step s t \<Longrightarrow> step t u \<Longrightarrow> inv s \<Longrightarrow> inv t \<and> inv u"
  by (blast intro: along_run preserved)

end

locale step_monotone =
  fixes step :: "'s \<Rightarrow> 's \<Rightarrow> bool" and obs :: "'s \<Rightarrow> 'a" and leq :: "'a \<Rightarrow> 'a \<Rightarrow> bool"
  assumes leq_refl: "leq a a"
    and leq_trans: "leq a b \<Longrightarrow> leq b c \<Longrightarrow> leq a c"
    and grows: "step s t \<Longrightarrow> leq (obs s) (obs t)"
begin

lemma run_grows: "rtranclp step s t \<Longrightarrow> leq (obs s) (obs t)"
  by (induction rule: rtranclp_induct) (auto intro: leq_refl leq_trans grows)

end

section \<open>Operations on a state\<close>

text \<open>
  An operation that can raise returns its result or its error with the state it leaves: what was
  done before the error stays done. \<open>for_each\<close> is the loop over a list, stopped by the first error.
\<close>

type_synonym ('s, 'e, 'a) op = "'s \<Rightarrow> ('e + 'a) \<times> 's"

definition then_op :: "('s, 'e, 'a) op \<Rightarrow> ('a \<Rightarrow> ('s, 'e, 'b) op) \<Rightarrow> ('s, 'e, 'b) op" where
  "then_op m k s = (case m s of (Inl e, t) \<Rightarrow> (Inl e, t) | (Inr x, t) \<Rightarrow> k x t)"

definition pure_op :: "('s \<Rightarrow> 'e + 'a) \<Rightarrow> ('s, 'e, 'a) op" where
  "pure_op f s = (f s, s)"

definition when_op :: "bool \<Rightarrow> ('s, 'e, unit) op \<Rightarrow> ('s, 'e, unit) op" where
  "when_op b m = (if b then m else (\<lambda>s. (Inr (), s)))"

fun for_each :: "('a \<Rightarrow> ('s, 'e, unit) op) \<Rightarrow> 'a list \<Rightarrow> ('s, 'e, unit) op" where
  "for_each f [] s = (Inr (), s)"
| "for_each f (x # xs) s = (case f x s of (Inl e, t) \<Rightarrow> (Inl e, t) | (Inr _, t) \<Rightarrow> for_each f xs t)"

lemma then_op_Inr: "then_op m k s = (Inr y, u) \<longleftrightarrow> (\<exists>x t. m s = (Inr x, t) \<and> k x t = (Inr y, u))"
  by (auto simp: then_op_def split: prod.splits sum.splits)

lemma then_op_Inl: "then_op m k s = (Inl e, u) \<longleftrightarrow>
    m s = (Inl e, u) \<or> (\<exists>x t. m s = (Inr x, t) \<and> k x t = (Inl e, u))"
  by (auto simp: then_op_def split: prod.splits sum.splits)

lemma then_op_cases:
  assumes "then_op m k s = (r, u)"
  obtains (stop) e where "m s = (Inl e, u)" "r = Inl e" | (go) x t where "m s = (Inr x, t)" "k x t = (r, u)"
  using assms by (auto simp: then_op_def split: prod.splits sum.splits)

lemma pure_op_eq: "pure_op f s = (r, t) \<longleftrightarrow> f s = r \<and> t = s"
  by (auto simp: pure_op_def)

lemma for_each_append_Inr:
  "for_each f (xs @ ys) s = (Inr (), u) \<longleftrightarrow> (\<exists>t. for_each f xs s = (Inr (), t) \<and> for_each f ys t = (Inr (), u))"
  by (induction xs arbitrary: s) (auto split: prod.splits sum.splits)

text \<open>An operation keeps a predicate when it holds afterwards however the operation ends.\<close>

definition op_keeps :: "('s \<Rightarrow> bool) \<Rightarrow> ('s, 'e, 'a) op \<Rightarrow> bool" where
  "op_keeps J m \<longleftrightarrow> (\<forall>s r t. J s \<longrightarrow> m s = (r, t) \<longrightarrow> J t)"

lemma op_keepsD: "op_keeps J m \<Longrightarrow> m s = (r, t) \<Longrightarrow> J s \<Longrightarrow> J t"
  by (simp add: op_keeps_def)

lemma keeps_then:
  "op_keeps J m \<Longrightarrow> (\<And>s x t. m s = (Inr x, t) \<Longrightarrow> op_keeps J (k x)) \<Longrightarrow> op_keeps J (then_op m k)"
  unfolding op_keeps_def by (metis then_op_cases)

lemma keeps_pure: "op_keeps J (pure_op f)"
  by (simp add: op_keeps_def pure_op_eq)

lemma keeps_when: "op_keeps J m \<Longrightarrow> op_keeps J (when_op b m)"
  by (simp add: op_keeps_def when_op_def)

text \<open>What every round keeps, the loop keeps, however it ends.\<close>

lemma for_each_keeps:
  assumes run: "for_each f xs s = (r, t)" "J s"
    and round: "\<And>x s r t. x \<in> set xs \<Longrightarrow> J s \<Longrightarrow> f x s = (r, t) \<Longrightarrow> J t"
  shows "J t"
  using run round
proof (induction xs arbitrary: s)
  case (Cons x xs)
  obtain q u where f: "f x s = (q, u)" by (cases "f x s")
  then have "J u" using Cons.prems(3) [of x s q u] Cons.prems(2) by simp
  moreover have "for_each f xs u = (r, t) \<or> t = u"
    using Cons.prems(1) f by (cases q) auto
  ultimately show ?case using Cons.IH Cons.prems(3) by (metis list.set_intros(2))
qed simp

text \<open>The loop rule: an invariant over the elements done so far, when every round returns.\<close>

lemma for_each_total:
  assumes "\<And>done x rest s. xs = done @ x # rest \<Longrightarrow> I done s \<Longrightarrow> \<exists>t. f x s = (Inr (), t) \<and> I (done @ [x]) t"
    and "I [] s"
  shows "\<exists>t. for_each f xs s = (Inr (), t) \<and> I xs t"
  using assms
proof (induction xs rule: rev_induct)
  case (snoc x xs)
  have "\<exists>t. f y s = (Inr (), t) \<and> I (pre @ [y]) t" if "xs = pre @ y # rest" "I pre s" for pre y rest s
    using snoc.prems(1) [of pre y "rest @ [x]" s] that by simp
  then have "\<exists>t. for_each f xs s = (Inr (), t) \<and> I xs t" using snoc.prems(2) by (rule snoc.IH)
  then obtain t where t: "for_each f xs s = (Inr (), t)" "I xs t" by blast
  obtain u where u: "f x t = (Inr (), u)" "I (xs @ [x]) u" using snoc.prems(1) [of xs x "[]" t] t(2) by blast
  have "for_each f [x] t = (Inr (), u)" using u(1) by simp
  with t(1) have "for_each f (xs @ [x]) s = (Inr (), u)" unfolding for_each_append_Inr by (intro exI conjI)
  with u(2) show ?case by (intro exI conjI)
qed simp

section \<open>Python dictionaries as association lists\<close>

text \<open>
  A Python dict keeps its insertion order; assigning to a present key keeps the key's place.
  \<^const>\<open>AList.update\<close> does exactly this, and \<^const>\<open>map_of\<close> reads the dict.
\<close>

type_synonym ('k, 'v) dict = "('k \<times> 'v) list"

abbreviation dict_get :: "('k, 'v) dict \<Rightarrow> 'k \<Rightarrow> 'v option" where
  "dict_get d k \<equiv> map_of d k"

abbreviation dict_set :: "'k \<Rightarrow> 'v \<Rightarrow> ('k, 'v) dict \<Rightarrow> ('k, 'v) dict" where
  "dict_set \<equiv> AList.update"

definition dict_keys :: "('k, 'v) dict \<Rightarrow> 'k list" where
  "dict_keys d = map fst d"

definition dict_merge :: "('k, 'v) dict \<Rightarrow> ('k, 'v) dict \<Rightarrow> ('k, 'v) dict" where
  "dict_merge d e = fold (\<lambda>(k, v). dict_set k v) e d"

lemma dict_get_set [simp]: "dict_get (dict_set k v d) j = (if j = k then Some v else dict_get d j)"
  by (simp add: update_conv')

lemma dict_get_merge_notin: "k \<notin> fst ` set e \<Longrightarrow> dict_get (dict_merge d e) k = dict_get d k"
  unfolding dict_merge_def
  by (induction e arbitrary: d) auto

text \<open>Python's \<open>rstrip\<close> of slashes, as every base URL is normalised.\<close>

definition rstrip_slash :: "string \<Rightarrow> string" where
  "rstrip_slash s = rev (dropWhile (\<lambda>c. c = CHR ''/'') (rev s))"

end
