(* ===== verification/Py_Values.thy ===== *)
theory Py_Values
  imports Prelude "HOL-Library.Sublist" "HOL-Library.Char_ord" "HOL-Library.List_Lexorder"
begin

text \<open>
  The Python values the program moves around: floats with their non-finite members, the dynamic
  values a JSON body decodes to, truthiness, \<open>int()\<close>, \<open>str()\<close> and \<open>repr()\<close>, and messages kept
  as unrendered f-strings. Strings are lists of \<^typ>\<open>char\<close>, so a code point is at most 255.
  Finite floats are exact rationals: rounding is not modelled, comparison and the non-finite
  members are.
\<close>

section \<open>Floats\<close>

datatype pyfloat = Finite rat | PosInf | NegInf | NotANumber

definition flt_lt :: "pyfloat \<Rightarrow> pyfloat \<Rightarrow> bool" where
  "flt_lt a b = (case (a, b) of
     (Finite x, Finite y) \<Rightarrow> x < y
   | (NotANumber, _) \<Rightarrow> False
   | (_, NotANumber) \<Rightarrow> False
   | (NegInf, NegInf) \<Rightarrow> False
   | (NegInf, _) \<Rightarrow> True
   | (PosInf, _) \<Rightarrow> False
   | (Finite _, PosInf) \<Rightarrow> True
   | (Finite _, NegInf) \<Rightarrow> False)"

definition flt_unit :: "pyfloat \<Rightarrow> bool" where
  "flt_unit f = (case f of Finite r \<Rightarrow> 0 \<le> r \<and> r \<le> 1 | _ \<Rightarrow> False)"

text \<open>Python's two-argument \<open>max\<close> and \<open>min\<close> keep the first argument unless the second wins.\<close>

definition py_max :: "pyfloat \<Rightarrow> pyfloat \<Rightarrow> pyfloat" where
  "py_max a b = (if flt_lt a b then b else a)"

definition py_min :: "pyfloat \<Rightarrow> pyfloat \<Rightarrow> pyfloat" where
  "py_min a b = (if flt_lt b a then b else a)"

lemma flt_lt_Finite [simp]: "flt_lt (Finite x) (Finite y) \<longleftrightarrow> x < y"
  by (simp add: flt_lt_def)

lemma flt_lt_nan [simp]: "\<not> flt_lt NotANumber b" "\<not> flt_lt a NotANumber"
  by (cases b; simp add: flt_lt_def) (cases a; simp add: flt_lt_def)

lemma flt_lt_inf [simp]:
  "flt_lt (Finite x) PosInf" "\<not> flt_lt PosInf b" "flt_lt NegInf (Finite x)"
  "\<not> flt_lt a NegInf" "flt_lt NegInf PosInf"
  by (cases a; cases b; simp add: flt_lt_def)+

lemma flt_unit_simps [simp]:
  "flt_unit (Finite r) \<longleftrightarrow> 0 \<le> r \<and> r \<le> 1"
  "\<not> flt_unit PosInf" "\<not> flt_unit NegInf" "\<not> flt_unit NotANumber"
  by (simp_all add: flt_unit_def)

section \<open>Dynamic values\<close>

datatype pyval =
  PNone
| PBool bool
| PInt int
| PFloat pyfloat
| PStr string
| PList "pyval list"
| PDict "(string \<times> pyval) list"

type_synonym params = "(string, pyval) dict"

definition py_truthy :: "pyval \<Rightarrow> bool" where
  "py_truthy v = (case v of
     PNone \<Rightarrow> False
   | PBool b \<Rightarrow> b
   | PInt i \<Rightarrow> i \<noteq> 0
   | PFloat f \<Rightarrow> f \<noteq> Finite 0
   | PStr s \<Rightarrow> s \<noteq> []
   | PList xs \<Rightarrow> xs \<noteq> []
   | PDict d \<Rightarrow> d \<noteq> [])"

lemma py_truthy_simps [simp]:
  "py_truthy PNone \<longleftrightarrow> False"
  "py_truthy (PBool b) \<longleftrightarrow> b"
  "py_truthy (PInt i) \<longleftrightarrow> i \<noteq> 0"
  "py_truthy (PFloat f) \<longleftrightarrow> f \<noteq> Finite 0"
  "py_truthy (PStr s) \<longleftrightarrow> s \<noteq> []"
  "py_truthy (PList xs) \<longleftrightarrow> xs \<noteq> []"
  "py_truthy (PDict d) \<longleftrightarrow> d \<noteq> []"
  by (simp_all add: py_truthy_def)

text \<open>\<open>d.get(k)\<close> used as a truth value.\<close>

definition get_truthy :: "params \<Rightarrow> string \<Rightarrow> bool" where
  "get_truthy d k = (case dict_get d k of None \<Rightarrow> False | Some v \<Rightarrow> py_truthy v)"

section \<open>Exceptions of the language\<close>

datatype py_exc = TypeError | ValueError | OverflowError | KeyError | IndexError | AttributeError | RuntimeError

section \<open>Decimal strings\<close>

definition digit_char :: "nat \<Rightarrow> char" where
  "digit_char d = char_of (48 + d)"

definition digit_val :: "char \<Rightarrow> nat option" where
  "digit_val c = (let n = of_char c :: nat in if 48 \<le> n \<and> n \<le> 57 then Some (n - 48) else None)"

fun show_nat :: "nat \<Rightarrow> string" where
  "show_nat n = (if n < 10 then [digit_char n] else show_nat (n div 10) @ [digit_char (n mod 10)])"

declare show_nat.simps [simp del]

definition show_int :: "int \<Rightarrow> string" where
  "show_int i = (if i < 0 then CHR ''-'' # show_nat (nat (- i)) else show_nat (nat i))"

fun read_digits :: "nat \<Rightarrow> string \<Rightarrow> nat option" where
  "read_digits acc [] = Some acc"
| "read_digits acc (c # cs) =
     (case digit_val c of None \<Rightarrow> None | Some d \<Rightarrow> read_digits (10 * acc + d) cs)"

lemma of_char_of_nat: "n < 256 \<Longrightarrow> of_char (char_of n :: char) = (n :: nat)"
  by (simp only: of_char_of take_bit_eq_mod) simp

lemma digit_val_digit_char: "d < 10 \<Longrightarrow> digit_val (digit_char d) = Some d"
  by (simp only: digit_val_def digit_char_def Let_def of_char_of_nat) simp

lemma read_digits_append:
  "read_digits a (xs @ ys) = (case read_digits a xs of None \<Rightarrow> None | Some b \<Rightarrow> read_digits b ys)"
  by (induction xs arbitrary: a) (auto split: option.splits)

lemma show_nat_nonempty: "show_nat n \<noteq> []"
  by (subst show_nat.simps) simp

lemma read_show_nat: "read_digits 0 (show_nat n) = Some n"
proof (induction n rule: show_nat.induct)
  case (1 n)
  show ?case
  proof (cases "n < 10")
    case True
    then show ?thesis by (simp add: show_nat.simps [of n] digit_val_digit_char)
  next
    case False
    with "1.IH" have "read_digits 0 (show_nat (n div 10)) = Some (n div 10)" by simp
    with False show ?thesis
      by (simp add: show_nat.simps [of n] read_digits_append digit_val_digit_char)
  qed
qed

lemma show_nat_inj: "show_nat m = show_nat n \<Longrightarrow> m = n"
  by (metis option.inject read_show_nat)

text \<open>
  \<open>int(s)\<close>: surrounding white space, one sign, digits with single underscores between them, at
  most 4300 digits.
\<close>

definition is_space :: "char \<Rightarrow> bool" where
  "is_space c = (let n = of_char c :: nat in
     (9 \<le> n \<and> n \<le> 13) \<or> (28 \<le> n \<and> n \<le> 32) \<or> n = 133 \<or> n = 160)"

definition strip :: "string \<Rightarrow> string" where
  "strip s = rev (dropWhile is_space (rev (dropWhile is_space s)))"

fun drop_underscores :: "string \<Rightarrow> string option" where
  "drop_underscores [] = None"
| "drop_underscores [c] = (if digit_val c = None then None else Some [c])"
| "drop_underscores (c # d # cs) =
     (if digit_val c = None then None
      else if d = CHR ''_'' then map_option ((#) c) (drop_underscores cs)
      else map_option ((#) c) (drop_underscores (d # cs)))"

definition parse_unsigned :: "string \<Rightarrow> int option" where
  "parse_unsigned s = (case drop_underscores s of
     None \<Rightarrow> None
   | Some ds \<Rightarrow> if 4300 < length ds then None else map_option int (read_digits 0 ds))"

definition parse_int :: "string \<Rightarrow> int option" where
  "parse_int s = (case strip s of
     [] \<Rightarrow> None
   | c # cs \<Rightarrow>
       if c = CHR ''-'' then map_option uminus (parse_unsigned cs)
       else if c = CHR ''+'' then parse_unsigned cs
       else parse_unsigned (c # cs))"

definition trunc_rat :: "rat \<Rightarrow> int" where
  "trunc_rat r = (if r < 0 then - \<lfloor>- r\<rfloor> else \<lfloor>r\<rfloor>)"

definition py_int :: "pyval \<Rightarrow> py_exc + int" where
  "py_int v = (case v of
     PNone \<Rightarrow> Inl TypeError
   | PBool b \<Rightarrow> Inr (if b then 1 else 0)
   | PInt i \<Rightarrow> Inr i
   | PFloat (Finite r) \<Rightarrow> Inr (trunc_rat r)
   | PFloat NotANumber \<Rightarrow> Inl ValueError
   | PFloat _ \<Rightarrow> Inl OverflowError
   | PStr s \<Rightarrow> (case parse_int s of None \<Rightarrow> Inl ValueError | Some i \<Rightarrow> Inr i)
   | PList _ \<Rightarrow> Inl TypeError
   | PDict _ \<Rightarrow> Inl TypeError)"

lemma py_int_PInt [simp]: "py_int (PInt i) = Inr i"
  by (simp add: py_int_def)

lemma py_int_PNone [simp]: "py_int PNone = Inl TypeError"
  by (simp add: py_int_def)

section \<open>Unrendered messages\<close>

text \<open>
  A message is kept as the pieces of its f-string: literal text and the values it interpolates,
  \<open>MRepr\<close> for a \<open>!r\<close> conversion. Rendering is not modelled; which values a message exposes is.
\<close>

datatype msg_part =
  MLit string
| MStr string
| MRepr string
| MInt int
| MInts "int list"
| MStrs "string list"
| MVal pyval

type_synonym message = "msg_part list"

section \<open>Subscripts of parsed JSON\<close>

definition py_get :: "pyval \<Rightarrow> string \<Rightarrow> pyval \<Rightarrow> py_exc + pyval" where
  "py_get v k d = (case v of
     PDict kvs \<Rightarrow> Inr (case dict_get kvs k of None \<Rightarrow> d | Some x \<Rightarrow> x)
   | _ \<Rightarrow> Inl AttributeError)"

definition py_first :: "pyval \<Rightarrow> py_exc + pyval" where
  "py_first v = (case v of
     PList [] \<Rightarrow> Inl IndexError
   | PList (x # xs) \<Rightarrow> Inr x
   | PStr [] \<Rightarrow> Inl IndexError
   | PStr (c # cs) \<Rightarrow> Inr (PStr [c])
   | PDict kvs \<Rightarrow> Inl KeyError
   | _ \<Rightarrow> Inl TypeError)"

definition py_item :: "pyval \<Rightarrow> string \<Rightarrow> py_exc + pyval" where
  "py_item v k = (case v of
     PDict kvs \<Rightarrow> (case dict_get kvs k of None \<Rightarrow> Inl KeyError | Some x \<Rightarrow> Inr x)
   | _ \<Rightarrow> Inl TypeError)"

section \<open>Conversions to float, to text and to the nearest integer\<close>

text \<open>
  A float is the exact rational it stands for; rounding is not modelled, the range is: an integer or
  a quotient that rounds beyond the largest double raises \<open>OverflowError\<close>.
\<close>

definition FLOAT_BOUND :: rat where "FLOAT_BOUND = 2 ^ 1024 - 2 ^ 970"

definition float_of_rat :: "rat \<Rightarrow> py_exc + pyfloat" where
  "float_of_rat r = (if FLOAT_BOUND \<le> \<bar>r\<bar> then Inl OverflowError else Inr (Finite r))"

definition py_float :: "(string \<Rightarrow> py_exc + pyfloat) \<Rightarrow> pyval \<Rightarrow> py_exc + pyfloat" where
  "py_float parse v = (case v of
     PBool b \<Rightarrow> Inr (Finite (if b then 1 else 0))
   | PInt i \<Rightarrow> float_of_rat (of_int i)
   | PFloat f \<Rightarrow> Inr f
   | PStr s \<Rightarrow> parse s
   | _ \<Rightarrow> Inl TypeError)"

text \<open>\<open>str(v)\<close> of a string is the string; \<open>strf\<close> renders every other value.\<close>

definition py_str :: "(pyval \<Rightarrow> string) \<Rightarrow> pyval \<Rightarrow> string" where
  "py_str strf v = (case v of PStr s \<Rightarrow> s | _ \<Rightarrow> strf v)"

text \<open>\<open>round\<close> to the nearest integer, ties to even.\<close>

definition py_round :: "rat \<Rightarrow> int" where
  "py_round r =
     (let f = \<lfloor>r\<rfloor>; d = r - of_int f
      in if d < 1 / 2 \<or> (d = 1 / 2 \<and> even f) then f else f + 1)"

text \<open>\<open>int(d.get(k, v))\<close> and \<open>float(d.get(k, v))\<close>; a present \<open>None\<close> is not the default.\<close>

definition int_get :: "params \<Rightarrow> string \<Rightarrow> int \<Rightarrow> py_exc + int" where
  "int_get p k d = (case dict_get p k of None \<Rightarrow> Inr d | Some v \<Rightarrow> py_int v)"

definition float_get :: "(string \<Rightarrow> py_exc + pyfloat) \<Rightarrow> params \<Rightarrow> string \<Rightarrow> rat \<Rightarrow> py_exc + pyfloat" where
  "float_get parse p k d = (case dict_get p k of None \<Rightarrow> Inr (Finite d) | Some v \<Rightarrow> py_float parse v)"

definition val_get :: "params \<Rightarrow> string \<Rightarrow> pyval" where
  "val_get p k = (case dict_get p k of None \<Rightarrow> PNone | Some v \<Rightarrow> v)"

section \<open>String helpers\<close>

definition lower_char :: "char \<Rightarrow> char" where
  "lower_char c = (let n = of_char c :: nat in
     if (65 \<le> n \<and> n \<le> 90) \<or> (192 \<le> n \<and> n \<le> 222 \<and> n \<noteq> 215) then char_of (n + 32) else c)"

definition str_lower :: "string \<Rightarrow> string" where
  "str_lower = map lower_char"

text \<open>\<open>str.upper\<close> of the letters whose upper case is one character of the model's.\<close>

definition upper_char :: "char \<Rightarrow> char" where
  "upper_char c = (let n = of_char c :: nat in
     if (97 \<le> n \<and> n \<le> 122) \<or> (224 \<le> n \<and> n \<le> 254 \<and> n \<noteq> 247) then char_of (n - 32) else c)"

definition str_upper :: "string \<Rightarrow> string" where "str_upper = map upper_char"

fun join :: "string \<Rightarrow> string list \<Rightarrow> string" where
  "join sep [] = []"
| "join sep [x] = x"
| "join sep (x # y # xs) = x @ sep @ join sep (y # xs)"

end
