(* ===== verification/Residency.thy ===== *)
theory Residency
  imports Py_Values
begin

text \<open>
  The identity of the heavy GPU planes and how each is launched and probed
  (\<open>api/orchestrator/planes.py\<close>), the serving configuration of the reasoner that one launch
  line embeds (\<open>api/engines/vllm/loader.py\<close>), and the single-slot residency decision
  (\<open>api/orchestrator/residency.py\<close>). \<open>show_float\<close> stands for Python's \<open>str\<close> of a float.
\<close>

section \<open>Planes and launch specifications\<close>

datatype plane = GENERATION | REASONING

definition plane_value :: "plane \<Rightarrow> string" where
  "plane_value p = (case p of GENERATION \<Rightarrow> ''generation'' | REASONING \<Rightarrow> ''reasoning'')"

definition all_planes :: "plane list" where
  "all_planes = [GENERATION, REASONING]"

datatype probe_kind = HTTP | READY_FILE

record plane_spec =
  ps_plane :: plane
  ps_argv :: "string list"
  ps_probe_kind :: probe_kind
  ps_probe_target :: string
  ps_strip_parent_env :: bool
  ps_env_overrides :: "(string \<times> string) list option"

record reasoner_config =
  rc_model_dir :: string
  rc_max_model_len :: int
  rc_max_output_tokens :: int
  rc_gpu_memory_utilization :: pyfloat
  rc_dtype :: string
  rc_seed :: int
  rc_served_model_name :: string
  rc_device :: string

definition server_launch_argv :: "(pyfloat \<Rightarrow> string) \<Rightarrow> reasoner_config \<Rightarrow> string list" where
  "server_launch_argv show_float cfg =
     [''vllm'', ''serve'', rc_model_dir cfg,
      ''--served-model-name'', rc_served_model_name cfg,
      ''--max-model-len'', show_int (rc_max_model_len cfg),
      ''--gpu-memory-utilization'', show_float (rc_gpu_memory_utilization cfg),
      ''--dtype'', rc_dtype cfg,
      ''--seed'', show_int (rc_seed cfg)]"

definition reasoning_spec ::
  "(pyfloat \<Rightarrow> string) \<Rightarrow> reasoner_config \<Rightarrow> string \<Rightarrow> int \<Rightarrow> string \<Rightarrow> bool \<Rightarrow> plane_spec" where
  "reasoning_spec show_float cfg vllm_bin port host enforce_eager =
     (let extra = [''--port'', show_int port] @ (if enforce_eager then [''--enforce-eager''] else [])
      in \<lparr>ps_plane = REASONING,
          ps_argv = [vllm_bin] @ tl (server_launch_argv show_float cfg) @ extra,
          ps_probe_kind = HTTP,
          ps_probe_target = ''http://'' @ host @ '':'' @ show_int port @ ''/health'',
          ps_strip_parent_env = True, ps_env_overrides = None\<rparr>)"

definition generation_spec ::
  "string \<Rightarrow> string \<Rightarrow> string option \<Rightarrow> string \<Rightarrow> string option \<Rightarrow> plane_spec" where
  "generation_spec sys_executable ready_file python_bin modname model_dir =
     \<lparr>ps_plane = GENERATION,
      ps_argv = [(case python_bin of Some b \<Rightarrow> if b \<noteq> [] then b else sys_executable
                  | None \<Rightarrow> sys_executable), ''-m'', modname, ready_file],
      ps_probe_kind = READY_FILE, ps_probe_target = ready_file,
      ps_strip_parent_env = False,
      ps_env_overrides = (case model_dir of
         Some d \<Rightarrow> if d \<noteq> [] then Some [(''COSMOS3_MODEL_DIR'', d)] else None
       | None \<Rightarrow> None)\<rparr>"

definition container_generation_spec :: "string \<Rightarrow> string \<Rightarrow> plane_spec" where
  "container_generation_spec base_url health_path =
     \<lparr>ps_plane = GENERATION, ps_argv = [], ps_probe_kind = HTTP,
      ps_probe_target = rstrip_slash base_url @ health_path,
      ps_strip_parent_env = False, ps_env_overrides = None\<rparr>"

definition container_reasoning_spec :: "string \<Rightarrow> string \<Rightarrow> plane_spec" where
  "container_reasoning_spec base_url health_path =
     \<lparr>ps_plane = REASONING, ps_argv = [], ps_probe_kind = HTTP,
      ps_probe_target = rstrip_slash base_url @ health_path,
      ps_strip_parent_env = False, ps_env_overrides = None\<rparr>"

section \<open>The residency decision\<close>

text \<open>
  The label is annotated \<open>str | None\<close>, and nothing checks it: the generic job route passes on whatever
  JSON value the request has. \<open>None\<close> is Python's \<open>None\<close>.
\<close>

record residency_id =
  rid_plane :: plane
  rid_label :: "pyval option"

record residency_plan =
  plan_evict :: "residency_id option"
  plan_load :: "residency_id option"

definition plan_acquire :: "residency_id option \<Rightarrow> residency_id \<Rightarrow> residency_plan" where
  "plan_acquire current requested =
     (if current = Some requested then \<lparr>plan_evict = None, plan_load = None\<rparr>
      else if current = None then \<lparr>plan_evict = None, plan_load = Some requested\<rparr>
      else \<lparr>plan_evict = current, plan_load = Some requested\<rparr>)"

lemma plan_acquire_simps [simp]:
  "plan_acquire (Some r) r = \<lparr>plan_evict = None, plan_load = None\<rparr>"
  "plan_acquire None r = \<lparr>plan_evict = None, plan_load = Some r\<rparr>"
  "c \<noteq> r \<Longrightarrow> plan_acquire (Some c) r = \<lparr>plan_evict = Some c, plan_load = Some r\<rparr>"
  by (simp_all add: plan_acquire_def)

text \<open>
  What a plan does to the slot when both halves are carried out in order: the evicted identity
  leaves, then the loaded one enters.
\<close>

definition apply_plan :: "residency_plan \<Rightarrow> residency_id option \<Rightarrow> residency_id option" where
  "apply_plan p slot =
     (let slot1 = (if plan_evict p = None then slot else None)
      in (case plan_load p of None \<Rightarrow> slot1 | Some r \<Rightarrow> Some r))"

lemma apply_plan_acquire: "apply_plan (plan_acquire current r) current = Some r"
  by (cases current) (auto simp: plan_acquire_def apply_plan_def Let_def)

end
