(* ===== verification/Plane_Workers.thy ===== *)
theory Plane_Workers
  imports Residency
begin

text \<open>
  The out-of-process plane workers: the subprocess group (\<open>api/orchestrator/worker.py\<close>) and the
  docker container (\<open>api/orchestrator/container.py\<close>), with the polling loop both use. The
  operating system is a world \<open>'w\<close> and a set of calls on it, passed as arguments: the clock, the
  sleep, the HTTP probe, process signals and the \<open>docker\<close> command line. Times are clock ticks.
\<close>

section \<open>The polling loop\<close>

text \<open>
  \<open>check\<close> is one round of the loop body: \<open>Some r\<close> when it returns, \<open>None\<close> when it goes on to
  sleep; \<open>final\<close> is what is computed once the deadline has passed. The loop may run forever when
  the clock stands still, so its value is an option.
\<close>

partial_function (option) poll_loop ::
  "('w \<Rightarrow> int) \<Rightarrow> (int \<Rightarrow> 'w \<Rightarrow> 'w) \<Rightarrow> int \<Rightarrow> int \<Rightarrow> ('w \<Rightarrow> 'r option \<times> 'w) \<Rightarrow> ('w \<Rightarrow> 'r \<times> 'w)
     \<Rightarrow> 'w \<Rightarrow> ('r \<times> 'w) option" where
  "poll_loop now sleep poll deadline check final w =
     (if now w < deadline then
        (case check w of
           (Some r, w1) \<Rightarrow> Some (r, w1)
         | (None, w1) \<Rightarrow> poll_loop now sleep poll deadline check final (sleep poll w1))
      else Some (final w))"

definition clock_lawful :: "('w \<Rightarrow> int) \<Rightarrow> (int \<Rightarrow> 'w \<Rightarrow> 'w) \<Rightarrow> bool" where
  "clock_lawful now sleep \<longleftrightarrow> (\<forall>d w. 0 \<le> d \<longrightarrow> now w + d \<le> now (sleep d w))"

lemma poll_loop_returns:
  assumes "clock_lawful now sleep" "0 < poll" "\<And>w. now w \<le> now (snd (check w))"
  shows "\<exists>r. poll_loop now sleep poll deadline check final w = Some r"
proof (induction "nat (deadline - now w)" arbitrary: w rule: less_induct)
  case less
  show ?case
  proof (cases "now w < deadline \<and> fst (check w) = None")
    case True
    let ?w' = "sleep poll (snd (check w))"
    have "now w + poll \<le> now ?w'"
      using assms(1,2) assms(3) [of w] unfolding clock_lawful_def by (smt (verit))
    with True assms(2) have "nat (deadline - now ?w') < nat (deadline - now w)" by simp
    from less [OF this] True show ?thesis
      by (subst poll_loop.simps) (auto split: prod.splits)
  next
    case False
    then show ?thesis
      by (subst poll_loop.simps) (auto split: prod.splits option.splits)
  qed
qed

text \<open>Whatever the loop returns comes from one of its two exits.\<close>

lemma poll_loop_result:
  fixes now :: "'w \<Rightarrow> int" and check :: "'w \<Rightarrow> 'r option \<times> 'w"
  assumes "poll_loop now sleep poll deadline check final w = Some y"
  shows "(\<exists>v. check v = (Some (fst y), snd y)) \<or> (\<exists>v. final v = y)"
proof (rule poll_loop.raw_induct
    [where P = "\<lambda>now sleep poll deadline check final w y.
       (\<exists>v. check v = (Some (fst y), snd y)) \<or> (\<exists>v. final v = y)", OF _ assms])
  fix f :: "('w \<Rightarrow> int) \<Rightarrow> (int \<Rightarrow> 'w \<Rightarrow> 'w) \<Rightarrow> int \<Rightarrow> int \<Rightarrow> ('w \<Rightarrow> 'r option \<times> 'w) \<Rightarrow> ('w \<Rightarrow> 'r \<times> 'w) \<Rightarrow> 'w
     \<Rightarrow> ('r \<times> 'w) option"
    and now sleep poll deadline check final w y
  assume IH: "\<And>now sleep poll deadline check final w y.
      f now sleep poll deadline check final w = Some y \<Longrightarrow>
        (\<exists>v. check v = (Some (fst y), snd y)) \<or> (\<exists>v. final v = y)"
    and eq: "(if now w < deadline then
        (case check w of
           (None, w1) \<Rightarrow> f now sleep poll deadline check final (sleep poll w1)
         | (Some r, w1) \<Rightarrow> Some (r, w1))
      else Some (final w)) = Some y"
  show "(\<exists>v. check v = (Some (fst y), snd y)) \<or> (\<exists>v. final v = y)"
    using eq by (auto split: if_splits prod.splits option.splits dest!: IH)
qed

section \<open>The container plane worker\<close>

datatype worker_exc = WorkerStartError | CommandRaised

datatype run_result = RunRaise | RunDone int string

definition argv_start :: "string \<Rightarrow> string list" where
  "argv_start name = [''docker'', ''start'', name]"

definition argv_stop :: "string \<Rightarrow> string list" where
  "argv_stop name = [''docker'', ''stop'', name]"

definition argv_inspect :: "string \<Rightarrow> string list" where
  "argv_inspect name = [''docker'', ''inspect'', ''-f'', ''{{.State.Running}}'', name]"

record 'w docker_host =
  dk_run :: "string list \<Rightarrow> 'w \<Rightarrow> run_result \<times> 'w"
  dk_probe :: "string \<Rightarrow> 'w \<Rightarrow> bool \<times> 'w"
  dk_now :: "'w \<Rightarrow> int"
  dk_sleep :: "int \<Rightarrow> 'w \<Rightarrow> 'w"

text \<open>\<open>DockerCliController\<close>: three fixed argument vectors on the configured container name.\<close>

definition docker_start :: "'w docker_host \<Rightarrow> string \<Rightarrow> 'w \<Rightarrow> (worker_exc + unit) \<times> 'w" where
  "docker_start h name w = (case dk_run h (argv_start name) w of
     (RunRaise, w1) \<Rightarrow> (Inl CommandRaised, w1)
   | (RunDone rc out, w1) \<Rightarrow> (if rc = 0 then Inr () else Inl CommandRaised, w1))"

definition docker_stop :: "'w docker_host \<Rightarrow> string \<Rightarrow> 'w \<Rightarrow> (worker_exc + unit) \<times> 'w" where
  "docker_stop h name w = (case dk_run h (argv_stop name) w of
     (RunRaise, w1) \<Rightarrow> (Inl CommandRaised, w1)
   | (RunDone rc out, w1) \<Rightarrow> (Inr (), w1))"

definition docker_is_running :: "'w docker_host \<Rightarrow> string \<Rightarrow> 'w \<Rightarrow> (worker_exc + bool) \<times> 'w" where
  "docker_is_running h name w = (case dk_run h (argv_inspect name) w of
     (RunRaise, w1) \<Rightarrow> (Inl CommandRaised, w1)
   | (RunDone rc out, w1) \<Rightarrow> (Inr (rc = 0 \<and> strip out = ''true''), w1))"

record 'w container_worker =
  cw_spec :: plane_spec
  cw_name :: string
  cw_host :: "'w docker_host"
  cw_poll :: int
  cw_world :: 'w

definition container_start :: "'w container_worker \<Rightarrow> (worker_exc + unit) \<times> 'w container_worker" where
  "container_start c =
     (let (r, w) = docker_start (cw_host c) (cw_name c) (cw_world c) in (r, c\<lparr>cw_world := w\<rparr>))"

text \<open>One round of \<open>wait_ready\<close>, and its last look after the deadline.\<close>

definition container_round :: "'w container_worker \<Rightarrow> 'w \<Rightarrow> (worker_exc + bool) option \<times> 'w" where
  "container_round c w = (case docker_is_running (cw_host c) (cw_name c) w of
     (Inl e, w1) \<Rightarrow> (Some (Inl e), w1)
   | (Inr running, w1) \<Rightarrow>
       if \<not> running then (Some (Inr False), w1)
       else (case dk_probe (cw_host c) (ps_probe_target (cw_spec c)) w1 of
               (ok, w2) \<Rightarrow> (if ok then Some (Inr True) else None, w2)))"

definition container_last :: "'w container_worker \<Rightarrow> 'w \<Rightarrow> (worker_exc + bool) \<times> 'w" where
  "container_last c w = (case docker_is_running (cw_host c) (cw_name c) w of
     (Inl e, w1) \<Rightarrow> (Inl e, w1)
   | (Inr running, w1) \<Rightarrow>
       if \<not> running then (Inr False, w1)
       else (case dk_probe (cw_host c) (ps_probe_target (cw_spec c)) w1 of (ok, w2) \<Rightarrow> (Inr ok, w2)))"

definition container_wait_ready ::
  "int \<Rightarrow> 'w container_worker \<Rightarrow> ((worker_exc + bool) \<times> 'w container_worker) option" where
  "container_wait_ready timeout c =
     map_option (\<lambda>(r, w). (r, c\<lparr>cw_world := w\<rparr>))
       (poll_loop (dk_now (cw_host c)) (dk_sleep (cw_host c)) (cw_poll c)
          (dk_now (cw_host c) (cw_world c) + timeout) (container_round c) (container_last c) (cw_world c))"

definition container_evict :: "'w container_worker \<Rightarrow> 'w container_worker" where
  "container_evict c = c\<lparr>cw_world := snd (docker_stop (cw_host c) (cw_name c) (cw_world c))\<rparr>"

definition container_is_alive :: "'w container_worker \<Rightarrow> (worker_exc + bool) \<times> 'w container_worker" where
  "container_is_alive c =
     (let (r, w) = docker_is_running (cw_host c) (cw_name c) (cw_world c) in (r, c\<lparr>cw_world := w\<rparr>))"

section \<open>The subprocess plane worker\<close>

datatype unix_signal = SIGTERM | SIGKILL

definition PARENT_ENV_LEAK :: "string list" where
  "PARENT_ENV_LEAK = [''PYTHONPATH'', ''VIRTUAL_ENV'', ''LD_LIBRARY_PATH'']"

record 'w proc_host =
  ph_environ :: "(string, string) dict"
  ph_unlink :: "string \<Rightarrow> 'w \<Rightarrow> 'w"
  ph_exists :: "string \<Rightarrow> 'w \<Rightarrow> bool"
  ph_open_log :: "string \<Rightarrow> 'w \<Rightarrow> bool \<times> 'w"
  ph_spawn :: "string list \<Rightarrow> (string, string) dict option \<Rightarrow> 'w \<Rightarrow> nat option \<times> 'w"
  ph_http_ok :: "string \<Rightarrow> 'w \<Rightarrow> bool \<times> 'w"
  ph_exited :: "nat \<Rightarrow> 'w \<Rightarrow> bool"
  ph_killpg :: "nat \<Rightarrow> unix_signal \<Rightarrow> 'w \<Rightarrow> bool \<times> 'w"
  ph_wait :: "nat \<Rightarrow> int \<Rightarrow> 'w \<Rightarrow> bool \<times> 'w"
  ph_now :: "'w \<Rightarrow> int"
  ph_sleep :: "int \<Rightarrow> 'w \<Rightarrow> 'w"

record 'w sub_worker =
  sw_spec :: plane_spec
  sw_log_path :: string
  sw_poll :: int
  sw_proc :: "nat option"
  sw_log_open :: bool
  sw_host :: "'w proc_host"
  sw_world :: 'w

text \<open>\<open>None\<close> is inheriting the parent's environment unchanged.\<close>

definition worker_env :: "(string, string) dict \<Rightarrow> plane_spec \<Rightarrow> (string, string) dict option" where
  "worker_env environ spec =
     (let overrides = (case ps_env_overrides spec of None \<Rightarrow> [] | Some kvs \<Rightarrow> dict_merge [] kvs)
      in if \<not> ps_strip_parent_env spec \<and> overrides = [] then None
         else Some (dict_merge
                (if ps_strip_parent_env spec then fold AList.delete PARENT_ENV_LEAK environ else environ)
                overrides))"

definition subprocess_start :: "'w sub_worker \<Rightarrow> (worker_exc + unit) \<times> 'w sub_worker" where
  "subprocess_start s =
     (let h = sw_host s;
          w1 = (if ps_probe_kind (sw_spec s) = READY_FILE
                then ph_unlink h (ps_probe_target (sw_spec s)) (sw_world s) else sw_world s);
          (opened, w2) = ph_open_log h (sw_log_path s) w1
      in if \<not> opened then (Inl CommandRaised, s\<lparr>sw_world := w2\<rparr>)
         else (case ph_spawn h (ps_argv (sw_spec s)) (worker_env (ph_environ h) (sw_spec s)) w2 of
                 (None, w3) \<Rightarrow> (Inl CommandRaised, s\<lparr>sw_log_open := True, sw_world := w3\<rparr>)
               | (Some pid, w3) \<Rightarrow>
                   (Inr (), s\<lparr>sw_log_open := True, sw_proc := Some pid, sw_world := w3\<rparr>)))"

definition subprocess_probe :: "'w sub_worker \<Rightarrow> 'w \<Rightarrow> bool \<times> 'w" where
  "subprocess_probe s w =
     (if ps_probe_kind (sw_spec s) = HTTP then ph_http_ok (sw_host s) (ps_probe_target (sw_spec s)) w
      else (ph_exists (sw_host s) (ps_probe_target (sw_spec s)) w, w))"

definition subprocess_round :: "'w sub_worker \<Rightarrow> nat \<Rightarrow> 'w \<Rightarrow> bool option \<times> 'w" where
  "subprocess_round s pid w =
     (if ph_exited (sw_host s) pid w then (Some False, w)
      else (case subprocess_probe s w of (ok, w1) \<Rightarrow> (if ok then Some True else None, w1)))"

definition subprocess_wait_ready ::
  "int \<Rightarrow> 'w sub_worker \<Rightarrow> ((worker_exc + bool) \<times> 'w sub_worker) option" where
  "subprocess_wait_ready timeout s = (case sw_proc s of
     None \<Rightarrow> Some (Inr False, s)
   | Some pid \<Rightarrow>
       map_option (\<lambda>(r, w). (Inr r, s\<lparr>sw_world := w\<rparr>))
         (poll_loop (ph_now (sw_host s)) (ph_sleep (sw_host s)) (sw_poll s)
            (ph_now (sw_host s) (sw_world s) + timeout) (subprocess_round s pid) (subprocess_probe s)
            (sw_world s)))"

definition subprocess_is_alive :: "'w sub_worker \<Rightarrow> bool" where
  "subprocess_is_alive s = (case sw_proc s of
     None \<Rightarrow> False | Some pid \<Rightarrow> \<not> ph_exited (sw_host s) pid (sw_world s))"

fun kill_group :: "'w proc_host \<Rightarrow> nat \<Rightarrow> unix_signal list \<Rightarrow> 'w \<Rightarrow> 'w" where
  "kill_group h pid [] w = w"
| "kill_group h pid (sig # sigs) w =
     (let (found, w1) = ph_killpg h pid sig w
      in if \<not> found then w1
         else (let (reaped, w2) = ph_wait h pid 30 w1
               in if reaped then w2 else kill_group h pid sigs w2))"

definition close_log :: "'w sub_worker \<Rightarrow> 'w sub_worker" where
  "close_log s = s\<lparr>sw_log_open := False\<rparr>"

definition subprocess_evict :: "'w sub_worker \<Rightarrow> 'w sub_worker" where
  "subprocess_evict s = (case sw_proc s of
     None \<Rightarrow> close_log s
   | Some pid \<Rightarrow> close_log (s\<lparr>sw_world := kill_group (sw_host s) pid [SIGTERM, SIGKILL] (sw_world s)\<rparr>))"

section \<open>The VRAM gate\<close>

definition vram_round :: "('w \<Rightarrow> int \<times> 'w) \<Rightarrow> int \<Rightarrow> 'w \<Rightarrow> bool option \<times> 'w" where
  "vram_round used threshold w = (case used w of (n, w1) \<Rightarrow> (if n \<le> threshold then Some True else None, w1))"

definition vram_last :: "('w \<Rightarrow> int \<times> 'w) \<Rightarrow> int \<Rightarrow> 'w \<Rightarrow> bool \<times> 'w" where
  "vram_last used threshold w = (case used w of (n, w1) \<Rightarrow> (n \<le> threshold, w1))"

definition wait_vram_below ::
  "('w \<Rightarrow> int) \<Rightarrow> (int \<Rightarrow> 'w \<Rightarrow> 'w) \<Rightarrow> ('w \<Rightarrow> int \<times> 'w) \<Rightarrow> int \<Rightarrow> int \<Rightarrow> int \<Rightarrow> 'w \<Rightarrow> (bool \<times> 'w) option" where
  "wait_vram_below now sleep used threshold timeout poll w =
     poll_loop now sleep poll (now w + timeout) (vram_round used threshold) (vram_last used threshold) w"

section \<open>The interface the manager drives\<close>

text \<open>
  Loading a plane is start, wait, and evict again when the worker is not ready (the second half of
  \<open>Orchestrator.acquire\<close>). \<open>None\<close> is a wait that never returns.
\<close>

definition load_worker ::
  "('s \<Rightarrow> (worker_exc + unit) \<times> 's) \<Rightarrow> (int \<Rightarrow> 's \<Rightarrow> ((worker_exc + bool) \<times> 's) option) \<Rightarrow> ('s \<Rightarrow> 's)
     \<Rightarrow> int \<Rightarrow> 's \<Rightarrow> ((worker_exc + unit) \<times> 's) option" where
  "load_worker start_op wait_op evict_op timeout s = (case start_op s of
     (Inl e, s1) \<Rightarrow> Some (Inl e, s1)
   | (Inr _, s1) \<Rightarrow>
       (case wait_op timeout s1 of
          None \<Rightarrow> None
        | Some (Inl e, s2) \<Rightarrow> Some (Inl e, s2)
        | Some (Inr ready, s2) \<Rightarrow>
            if ready then Some (Inr (), s2) else Some (Inl WorkerStartError, evict_op s2)))"

locale plane_worker =
  fixes start_op :: "'s \<Rightarrow> (worker_exc + unit) \<times> 's"
    and wait_op :: "int \<Rightarrow> 's \<Rightarrow> ((worker_exc + bool) \<times> 's) option"
    and evict_op :: "'s \<Rightarrow> 's"
    and alive :: "'s \<Rightarrow> bool"
    and lawful :: "'s \<Rightarrow> bool"
  assumes lawful_start: "lawful s \<Longrightarrow> lawful (snd (start_op s))"
    and lawful_wait: "lawful s \<Longrightarrow> wait_op t s = Some (r, s') \<Longrightarrow> lawful s'"
    and lawful_evict: "lawful s \<Longrightarrow> lawful (evict_op s)"
    and failed_start: "lawful s \<Longrightarrow> \<not> alive s \<Longrightarrow> start_op s = (Inl e, s') \<Longrightarrow> \<not> alive s'"
    and wait_returns: "lawful s \<Longrightarrow> \<exists>b s'. wait_op t s = Some (Inr b, s')"
    and evict_frees: "lawful s \<Longrightarrow> \<not> alive (evict_op s)"
begin

lemma load_returns: "lawful s \<Longrightarrow> \<exists>r s'. load_worker start_op wait_op evict_op t s = Some (r, s')"
  using wait_returns [of "snd (start_op s)" t] lawful_start [of s]
  by (auto simp: load_worker_def split: prod.splits sum.splits)

lemma load_lawful:
  assumes "lawful s" "load_worker start_op wait_op evict_op t s = Some (r, s')"
  shows "lawful s'"
  using assms lawful_start [OF assms(1)]
  by (auto simp: load_worker_def lawful_wait lawful_evict
        split: prod.splits sum.splits option.splits if_splits)

lemma failed_load_is_clean:
  assumes "lawful s" "\<not> alive s" "load_worker start_op wait_op evict_op t s = Some (Inl e, s')"
  shows "\<not> alive s'"
proof (cases "start_op s")
  case (Pair r s1)
  show ?thesis
  proof (cases r)
    case (Inl e')
    with Pair assms show ?thesis using failed_start by (auto simp: load_worker_def)
  next
    case (Inr u)
    have l1: "lawful s1" using lawful_start [OF assms(1)] Pair by simp
    obtain b s2 where w: "wait_op t s1 = Some (Inr b, s2)" using wait_returns [OF l1] by blast
    with Pair Inr assms(3) have "\<not> b" "s' = evict_op s2"
      by (auto simp: load_worker_def split: if_splits)
    then show ?thesis using evict_frees [OF lawful_wait [OF l1 w]] by simp
  qed
qed

lemma evict_then_load_alternates:
  "lawful s \<Longrightarrow> \<not> alive (evict_op s) \<and> lawful (evict_op s)"
  by (simp add: evict_frees lawful_evict)

end

section \<open>The container is a plane worker\<close>

text \<open>
  What the worker relies on of docker: \<open>inspect\<close> answers, \<open>stop\<close> completes and leaves the container
  stopped, a failing \<open>start\<close> does not leave a stopped container running, and time does not go back.
\<close>

definition container_running :: "'w docker_host \<Rightarrow> string \<Rightarrow> 'w \<Rightarrow> bool" where
  "container_running h name w \<longleftrightarrow> fst (docker_is_running h name w) = Inr True"

definition docker_lawful :: "'w docker_host \<Rightarrow> string \<Rightarrow> bool" where
  "docker_lawful h name \<longleftrightarrow>
     clock_lawful (dk_now h) (dk_sleep h) \<and>
     (\<forall>argv w. dk_now h w \<le> dk_now h (snd (dk_run h argv w))) \<and>
     (\<forall>url w. dk_now h w \<le> dk_now h (snd (dk_probe h url w))) \<and>
     (\<forall>w. fst (dk_run h (argv_inspect name) w) \<noteq> RunRaise) \<and>
     (\<forall>w. fst (dk_run h (argv_stop name) w) \<noteq> RunRaise) \<and>
     (\<forall>w. \<not> container_running h name (snd (dk_run h (argv_stop name) w))) \<and>
     (\<forall>w rc out w1. dk_run h (argv_start name) w = (RunDone rc out, w1) \<longrightarrow> rc \<noteq> 0 \<longrightarrow>
        \<not> container_running h name w \<longrightarrow> \<not> container_running h name w1) \<and>
     (\<forall>w w1. dk_run h (argv_start name) w = (RunRaise, w1) \<longrightarrow>
        \<not> container_running h name w \<longrightarrow> \<not> container_running h name w1)"

definition container_lawful :: "'w container_worker \<Rightarrow> bool" where
  "container_lawful c \<longleftrightarrow> docker_lawful (cw_host c) (cw_name c) \<and> 0 < cw_poll c"

definition container_alive :: "'w container_worker \<Rightarrow> bool" where
  "container_alive c \<longleftrightarrow> container_running (cw_host c) (cw_name c) (cw_world c)"

lemma docker_stop_world: "snd (docker_stop h name w) = snd (dk_run h (argv_stop name) w)"
  by (simp add: docker_stop_def split: prod.splits run_result.splits)

lemma docker_is_running_Inr:
  assumes "docker_lawful h name"
  obtains b w1 where "docker_is_running h name w = (Inr b, w1)" "dk_now h w \<le> dk_now h w1"
proof -
  have r: "fst (dk_run h (argv_inspect name) w) \<noteq> RunRaise"
    and t: "dk_now h w \<le> dk_now h (snd (dk_run h (argv_inspect name) w))"
    using assms by (simp_all add: docker_lawful_def)
  show ?thesis
  proof (cases "dk_run h (argv_inspect name) w")
    case (Pair res w1)
    with r obtain rc out where "res = RunDone rc out" by (cases res) auto
    with Pair t that show ?thesis by (simp add: docker_is_running_def)
  qed
qed

lemma probe_time: "docker_lawful h name \<Longrightarrow> dk_probe h u w = (b, w1) \<Longrightarrow> dk_now h w \<le> dk_now h w1"
  unfolding docker_lawful_def by (metis snd_conv)

lemma container_round_lawful:
  assumes "container_lawful c"
  shows "dk_now (cw_host c) w \<le> dk_now (cw_host c) (snd (container_round c w))"
    and "fst (container_round c w) \<noteq> Some (Inl e)"
proof -
  have l: "docker_lawful (cw_host c) (cw_name c)" using assms by (simp add: container_lawful_def)
  obtain b w1 where "docker_is_running (cw_host c) (cw_name c) w = (Inr b, w1)"
    and "dk_now (cw_host c) w \<le> dk_now (cw_host c) w1" by (rule docker_is_running_Inr [OF l])
  then show "dk_now (cw_host c) w \<le> dk_now (cw_host c) (snd (container_round c w))"
    and "fst (container_round c w) \<noteq> Some (Inl e)"
    using probe_time [OF l, of "ps_probe_target (cw_spec c)" w1]
    by (auto simp: container_round_def split: prod.splits intro: order_trans)
qed

lemma container_last_Inr:
  assumes "container_lawful c"
  shows "fst (container_last c w) \<noteq> Inl e"
proof -
  have l: "docker_lawful (cw_host c) (cw_name c)" using assms by (simp add: container_lawful_def)
  obtain b w1 where "docker_is_running (cw_host c) (cw_name c) w = (Inr b, w1)"
    by (rule docker_is_running_Inr [OF l])
  then show ?thesis by (auto simp: container_last_def split: prod.splits)
qed

lemma container_wait_returns:
  assumes "container_lawful c"
  shows "\<exists>b c'. container_wait_ready t c = Some (Inr b, c')"
proof -
  have ck: "clock_lawful (dk_now (cw_host c)) (dk_sleep (cw_host c))" "0 < cw_poll c"
    using assms by (simp_all add: container_lawful_def docker_lawful_def)
  obtain r where r: "poll_loop (dk_now (cw_host c)) (dk_sleep (cw_host c)) (cw_poll c)
      (dk_now (cw_host c) (cw_world c) + t) (container_round c) (container_last c) (cw_world c) = Some r"
    using poll_loop_returns [OF ck container_round_lawful(1) [OF assms]] by blast
  have "fst r \<noteq> Inl e" for e
    using poll_loop_result [OF r] container_round_lawful(2) [OF assms] container_last_Inr [OF assms]
    by (metis fst_conv)
  then obtain b where "fst r = Inr b" by (cases "fst r") auto
  with r show ?thesis by (cases r) (simp add: container_wait_ready_def)
qed

interpretation container: plane_worker
  container_start container_wait_ready container_evict container_alive container_lawful
proof unfold_locales
  fix c :: "'w container_worker" and t r c' e
  show "container_lawful c \<Longrightarrow> container_lawful (snd (container_start c))"
    by (simp add: container_start_def container_lawful_def split: prod.splits)
  show "container_lawful c \<Longrightarrow> container_wait_ready t c = Some (r, c') \<Longrightarrow> container_lawful c'"
    by (auto simp: container_wait_ready_def container_lawful_def)
  show "container_lawful c \<Longrightarrow> container_lawful (container_evict c)"
    by (simp add: container_evict_def container_lawful_def)
  show "container_lawful c \<Longrightarrow> \<exists>b s'. container_wait_ready t c = Some (Inr b, s')"
    by (rule container_wait_returns)
  show "container_lawful c \<Longrightarrow> \<not> container_alive (container_evict c)"
    by (simp add: container_evict_def container_lawful_def container_alive_def docker_stop_world
        docker_lawful_def)
  assume "container_lawful c" "\<not> container_alive c" "container_start c = (Inl e, c')"
  then show "\<not> container_alive c'"
    by (auto simp: container_start_def docker_start_def container_lawful_def container_alive_def
        docker_lawful_def split: prod.splits run_result.splits if_splits)
qed

section \<open>The subprocess group is a plane worker\<close>

text \<open>
  What the worker relies on of the operating system: signalling a group that is gone means its
  leader has exited, \<open>wait\<close> returns in time only for an exited leader, and does so after SIGKILL.
\<close>

definition proc_lawful :: "'w proc_host \<Rightarrow> bool" where
  "proc_lawful h \<longleftrightarrow>
     clock_lawful (ph_now h) (ph_sleep h) \<and>
     (\<forall>url w. ph_now h w \<le> ph_now h (snd (ph_http_ok h url w))) \<and>
     (\<forall>pid sig w. \<not> fst (ph_killpg h pid sig w) \<longrightarrow> ph_exited h pid (snd (ph_killpg h pid sig w))) \<and>
     (\<forall>pid t w. fst (ph_wait h pid t w) \<longrightarrow> ph_exited h pid (snd (ph_wait h pid t w))) \<and>
     (\<forall>pid w. fst (ph_killpg h pid SIGKILL w) \<longrightarrow>
        fst (ph_wait h pid 30 (snd (ph_killpg h pid SIGKILL w)))) \<and>
     (\<forall>pid f w. ph_exited h pid w \<longrightarrow> ph_exited h pid (ph_unlink h f w)) \<and>
     (\<forall>pid f w. ph_exited h pid w \<longrightarrow> ph_exited h pid (snd (ph_open_log h f w))) \<and>
     (\<forall>pid a e w. fst (ph_spawn h a e w) = None \<longrightarrow> ph_exited h pid w \<longrightarrow>
        ph_exited h pid (snd (ph_spawn h a e w)))"

definition subprocess_lawful :: "'w sub_worker \<Rightarrow> bool" where
  "subprocess_lawful s \<longleftrightarrow> proc_lawful (sw_host s) \<and> 0 < sw_poll s"

lemma kill_group_exits:
  "proc_lawful h \<Longrightarrow> ph_exited h pid (kill_group h pid [SIGTERM, SIGKILL] w)"
  by (simp add: proc_lawful_def case_prod_beta Let_def)

lemma subprocess_wait_returns:
  assumes "subprocess_lawful s"
  shows "\<exists>b s'. subprocess_wait_ready t s = Some (Inr b, s')"
proof (cases "sw_proc s")
  case None
  then show ?thesis by (auto simp: subprocess_wait_ready_def intro: exI [of _ False])
next
  case (Some pid)
  have ck: "clock_lawful (ph_now (sw_host s)) (ph_sleep (sw_host s))" "0 < sw_poll s"
    using assms by (simp_all add: subprocess_lawful_def proc_lawful_def)
  have "ph_now (sw_host s) w \<le> ph_now (sw_host s) (snd (subprocess_round s pid w))" for w
    using assms
    by (simp add: subprocess_lawful_def proc_lawful_def subprocess_round_def subprocess_probe_def
        case_prod_beta)
  from poll_loop_returns [OF ck this, of "ph_now (sw_host s) (sw_world s) + t" "subprocess_probe s"
      "sw_world s"] Some
  show ?thesis by (auto simp: subprocess_wait_ready_def)
qed

interpretation subprocess: plane_worker
  subprocess_start subprocess_wait_ready subprocess_evict subprocess_is_alive subprocess_lawful
proof unfold_locales
  fix s :: "'w sub_worker" and t r s' e
  show "subprocess_lawful s \<Longrightarrow> subprocess_lawful (snd (subprocess_start s))"
    by (simp add: subprocess_start_def subprocess_lawful_def Let_def split: prod.splits option.splits)
  show "subprocess_lawful s \<Longrightarrow> subprocess_wait_ready t s = Some (r, s') \<Longrightarrow> subprocess_lawful s'"
    by (auto simp: subprocess_wait_ready_def subprocess_lawful_def split: option.splits)
  show "subprocess_lawful s \<Longrightarrow> subprocess_lawful (subprocess_evict s)"
    by (simp add: subprocess_evict_def close_log_def subprocess_lawful_def split: option.splits)
  show "subprocess_lawful s \<Longrightarrow> \<exists>b s'. subprocess_wait_ready t s = Some (Inr b, s')"
    by (rule subprocess_wait_returns)
  show "subprocess_lawful s \<Longrightarrow> \<not> subprocess_is_alive (subprocess_evict s)"
    by (auto simp: subprocess_evict_def close_log_def subprocess_lawful_def subprocess_is_alive_def
        split: option.splits intro: kill_group_exits simp del: kill_group.simps)
  assume "subprocess_lawful s" "\<not> subprocess_is_alive s" "subprocess_start s = (Inl e, s')"
  then show "\<not> subprocess_is_alive s'"
    by (auto simp: subprocess_start_def subprocess_is_alive_def subprocess_lawful_def proc_lawful_def
        Let_def case_prod_beta split: option.splits if_splits)
qed

end
