(* ===== verification/Orchestrator.thy ===== *)
theory Orchestrator
  imports Plane_Workers
begin

text \<open>
  The single-slot residency manager (\<open>api/orchestrator/manager.py\<close>) as a state machine. A state
  holds the manager's attributes (slot, worker, lock, idle timer and idle task), the place where each
  coroutine is suspended, and what the GPU holds. One step runs one coroutine from an \<open>await\<close> to
  the next; coroutines interleave freely, and every step function below is such a stretch of code.
  A cancelled coroutine leaves at the \<open>await\<close> it is suspended in, and its \<open>async with\<close> gives the
  lock back; the thread it was waiting for runs on. Whether a worker's memory is back is a separate
  matter from the call that asks for it: an eviction only ends the manager's tracking of the worker,
  and a VRAM wait that succeeds is what shows the memory released.
\<close>

section \<open>State\<close>

type_synonym task = nat
type_synonym worker = nat

datatype task_result = Returned | Raised | WasCancelled

datatype orch_pc =
    AcqLock residency_id
  | AcqEvict residency_plan residency_id
  | AcqVram residency_plan residency_id
  | AcqStart residency_id worker
  | AcqReady residency_id worker
  | AcqAbort residency_id worker
  | AllLock
  | AllEvict
  | IdleStart
  | Finished task_result

text \<open>
  The attributes, then the history of the workers: \<open>oc_made\<close> is the identity each was made for,
  \<open>oc_live\<close> those that may hold GPU memory (handed to \<open>start\<close>, and neither seen gone by a VRAM wait
  nor dead: an \<open>evict\<close> that returns proves nothing, since the container's swallows a failed stop),
  \<open>oc_let_go\<close> those the manager no longer tracks (evicted, aborted, or left by a failing load),
  \<open>oc_orphans\<close> those whose load was interrupted, with a thread that may still be starting them, and
  \<open>oc_dirty\<close> is set when a worker is let go until the VRAM wait next succeeds.
\<close>

record orch =
  oc_slot :: "residency_id option"
  oc_worker :: "worker option"
  oc_lock :: "task option"
  oc_timer :: bool
  oc_idle :: "task option"
  oc_idle_timeout :: int
  oc_pc :: "task \<Rightarrow> orch_pc option"
  oc_made :: "worker \<Rightarrow> residency_id option"
  oc_next :: worker
  oc_live :: "worker set"
  oc_let_go :: "worker set"
  oc_orphans :: "worker set"
  oc_dirty :: bool

definition new_orchestrator :: "int \<Rightarrow> orch" where
  "new_orchestrator timeout =
     \<lparr>oc_slot = None, oc_worker = None, oc_lock = None, oc_timer = False, oc_idle = None,
      oc_idle_timeout = timeout, oc_pc = (\<lambda>t. None), oc_made = (\<lambda>w. None), oc_next = 0,
      oc_live = {}, oc_let_go = {}, oc_orphans = {}, oc_dirty = False\<rparr>"

section \<open>The coroutines, one definition per stretch between two awaits\<close>

definition goto :: "task \<Rightarrow> orch_pc \<Rightarrow> orch \<Rightarrow> orch" where
  "goto t pc s = s\<lparr>oc_pc := (oc_pc s)(t \<mapsto> pc)\<rparr>"

text \<open>Leaving a coroutine: its lock, and its place as the idle task, are given back.\<close>

definition finish :: "task \<Rightarrow> task_result \<Rightarrow> orch \<Rightarrow> orch" where
  "finish t res s =
     s\<lparr>oc_pc := (oc_pc s)(t \<mapsto> Finished res),
       oc_lock := (if oc_lock s = Some t then None else oc_lock s),
       oc_idle := (if oc_idle s = Some t then None else oc_idle s)\<rparr>"

definition cancel_idle_handle :: "orch \<Rightarrow> orch" where
  "cancel_idle_handle s = s\<lparr>oc_timer := False\<rparr>"

definition cancel_idle_timer :: "orch \<Rightarrow> orch" where
  "cancel_idle_timer s = (let s1 = cancel_idle_handle s in
     (case oc_idle s1 of None \<Rightarrow> s1 | Some t \<Rightarrow> finish t WasCancelled s1))"

text \<open>
  \<open>if plan.load is not None\<close>: the factory makes a worker (\<open>ok\<close> is False when it raises) and
  its start is handed to a thread.
\<close>

definition acquire_load :: "bool \<Rightarrow> task \<Rightarrow> residency_plan \<Rightarrow> residency_id \<Rightarrow> orch \<Rightarrow> orch" where
  "acquire_load ok t plan target s =
     (if plan_load plan = None then finish t Returned s
      else if \<not> ok then finish t Raised s
      else (let w = oc_next s
            in goto t (AcqStart target w)
                 (s\<lparr>oc_next := Suc w, oc_made := (oc_made s)(w \<mapsto> target),
                    oc_live := insert w (oc_live s)\<rparr>)))"

definition acquire_enter :: "bool \<Rightarrow> task \<Rightarrow> residency_id \<Rightarrow> orch \<Rightarrow> orch" where
  "acquire_enter ok t target s =
     (let s1 = cancel_idle_timer (s\<lparr>oc_lock := Some t\<rparr>);
          plan = plan_acquire (oc_slot s1) target
      in if plan_evict plan \<noteq> None \<and> oc_worker s1 \<noteq> None then goto t (AcqEvict plan target) s1
         else acquire_load ok t plan target s1)"

text \<open>
  A worker the manager stops tracking, and the VRAM wait's success: device memory at or below the idle
  threshold, so only a start that is still running in a thread can come to hold any.
\<close>

definition let_go :: "worker set \<Rightarrow> orch \<Rightarrow> orch" where
  "let_go ws s = s\<lparr>oc_let_go := oc_let_go s \<union> ws, oc_dirty := True\<rparr>"

definition vram_released :: "orch \<Rightarrow> orch" where
  "vram_released s = s\<lparr>oc_live := oc_live s \<inter> oc_orphans s, oc_dirty := False\<rparr>"

definition acquire_evicted :: "task \<Rightarrow> residency_plan \<Rightarrow> residency_id \<Rightarrow> orch \<Rightarrow> orch" where
  "acquire_evicted t plan target s =
     goto t (AcqVram plan target)
       ((let_go (set_option (oc_worker s)) s)\<lparr>oc_worker := None, oc_slot := None\<rparr>)"

definition acquire_vram :: "bool \<Rightarrow> bool \<Rightarrow> task \<Rightarrow> residency_plan \<Rightarrow> residency_id \<Rightarrow> orch \<Rightarrow> orch" where
  "acquire_vram released ok t plan target s =
     (if \<not> released then finish t Raised s
      else acquire_load ok t plan target (vram_released s))"

definition acquire_ready :: "bool \<Rightarrow> task \<Rightarrow> residency_id \<Rightarrow> worker \<Rightarrow> orch \<Rightarrow> orch" where
  "acquire_ready ready t target w s =
     (if \<not> ready then goto t (AcqAbort target w) s
      else finish t Returned (s\<lparr>oc_worker := Some w, oc_slot := Some target\<rparr>))"

definition acquire_aborted :: "task \<Rightarrow> worker \<Rightarrow> orch \<Rightarrow> orch" where
  "acquire_aborted t w s = finish t Raised (let_go {w} s)"

text \<open>
  \<open>worker.start\<close> raised, whatever it had begun. The other way to lose a load is an exception at a later
  \<open>await\<close> of it, or a cancellation, which leaves the thread running.
\<close>

definition start_raised :: "task \<Rightarrow> worker \<Rightarrow> orch \<Rightarrow> orch" where
  "start_raised t w s = finish t Raised (let_go {w} s)"

definition load_interrupted :: "task \<Rightarrow> worker \<Rightarrow> task_result \<Rightarrow> orch \<Rightarrow> orch" where
  "load_interrupted t w res s =
     finish t res ((let_go {w} s)\<lparr>oc_orphans := insert w (oc_orphans s)\<rparr>)"

definition evict_all_enter :: "task \<Rightarrow> orch \<Rightarrow> orch" where
  "evict_all_enter t s =
     (let s1 = cancel_idle_handle (s\<lparr>oc_lock := Some t\<rparr>)
      in if oc_worker s1 \<noteq> None then goto t AllEvict s1
         else finish t Returned (s1\<lparr>oc_worker := None, oc_slot := None\<rparr>))"

definition evict_all_evicted :: "task \<Rightarrow> orch \<Rightarrow> orch" where
  "evict_all_evicted t s =
     finish t Returned
       ((let_go (set_option (oc_worker s)) s)\<lparr>oc_worker := None, oc_slot := None\<rparr>)"

definition notify_idle :: "orch \<Rightarrow> orch" where
  "notify_idle s = (let s1 = cancel_idle_timer s in
     if 0 < oc_idle_timeout s1 \<and> oc_slot s1 \<noteq> None then s1\<lparr>oc_timer := True\<rparr> else s1)"

definition on_idle_timeout :: "task \<Rightarrow> orch \<Rightarrow> orch" where
  "on_idle_timeout t s = goto t IdleStart (s\<lparr>oc_timer := False, oc_idle := Some t\<rparr>)"

definition try_idle_evict :: "task \<Rightarrow> orch \<Rightarrow> orch" where
  "try_idle_evict t s = (if oc_lock s \<noteq> None then finish t Returned s else goto t AllLock s)"

lemmas stretch_defs =
  acquire_enter_def acquire_load_def acquire_evicted_def acquire_vram_def acquire_ready_def
  acquire_aborted_def start_raised_def load_interrupted_def let_go_def vram_released_def evict_all_enter_def evict_all_evicted_def notify_idle_def on_idle_timeout_def
  try_idle_evict_def cancel_idle_timer_def cancel_idle_handle_def

section \<open>The steps\<close>

definition loading :: "orch_pc \<Rightarrow> worker option" where
  "loading pc = (case pc of AcqStart r w \<Rightarrow> Some w | AcqReady r w \<Rightarrow> Some w | AcqAbort r w \<Rightarrow> Some w
     | _ \<Rightarrow> None)"

inductive orch_step :: "orch \<Rightarrow> orch \<Rightarrow> bool" where
  call_acquire: "oc_pc s t = None \<Longrightarrow> orch_step s (goto t (AcqLock r) s)"
| call_evict_all: "oc_pc s t = None \<Longrightarrow> orch_step s (goto t AllLock s)"
| acq_enter: "oc_pc s t = Some (AcqLock r) \<Longrightarrow> oc_lock s = None \<Longrightarrow> orch_step s (acquire_enter ok t r s)"
| acq_evicted: "oc_pc s t = Some (AcqEvict p r) \<Longrightarrow> orch_step s (acquire_evicted t p r s)"
| acq_evict_raises: "oc_pc s t = Some (AcqEvict p r) \<Longrightarrow> orch_step s (finish t Raised s)"
| acq_vram: "oc_pc s t = Some (AcqVram p r) \<Longrightarrow> orch_step s (acquire_vram released ok t p r s)"
| acq_started: "oc_pc s t = Some (AcqStart r w) \<Longrightarrow> orch_step s (goto t (AcqReady r w) s)"
| acq_start_raises: "oc_pc s t = Some (AcqStart r w) \<Longrightarrow> orch_step s (start_raised t w s)"
| acq_ready: "oc_pc s t = Some (AcqReady r w) \<Longrightarrow> orch_step s (acquire_ready ready t r w s)"
| acq_aborted: "oc_pc s t = Some (AcqAbort r w) \<Longrightarrow> orch_step s (acquire_aborted t w s)"
| all_enter: "oc_pc s t = Some AllLock \<Longrightarrow> oc_lock s = None \<Longrightarrow> orch_step s (evict_all_enter t s)"
| all_evicted: "oc_pc s t = Some AllEvict \<Longrightarrow> orch_step s (evict_all_evicted t s)"
| all_evict_raises: "oc_pc s t = Some AllEvict \<Longrightarrow> orch_step s (finish t Raised s)"
| idle_notified: "orch_step s (notify_idle s)"
| idle_fires: "oc_timer s \<Longrightarrow> oc_pc s t = None \<Longrightarrow> orch_step s (on_idle_timeout t s)"
| idle_checks: "oc_pc s t = Some IdleStart \<Longrightarrow> orch_step s (try_idle_evict t s)"
| task_cancelled: "oc_pc s t = Some pc \<Longrightarrow> pc \<notin> range Finished \<Longrightarrow> loading pc = None \<Longrightarrow>
    orch_step s (finish t WasCancelled s)"
| acq_interrupted: "oc_pc s t = Some pc \<Longrightarrow> loading pc = Some w \<Longrightarrow> res \<noteq> Returned \<Longrightarrow>
    orch_step s (load_interrupted t w res s)"
| worker_dies: "orch_step s (s\<lparr>oc_live := oc_live s - {w}\<rparr>)"

section \<open>The invariant\<close>

text \<open>
  \<open>critical\<close> places lie inside \<open>async with self._lock\<close>; \<open>held t lw\<close> is what is true of the state
  while task \<open>t\<close> owns the lock and \<open>lw\<close> is the worker it is loading.
\<close>

definition critical :: "orch_pc \<Rightarrow> bool" where
  "critical pc = (case pc of AcqEvict p r \<Rightarrow> True | AcqVram p r \<Rightarrow> True | AcqStart r w \<Rightarrow> True
     | AcqReady r w \<Rightarrow> True | AcqAbort r w \<Rightarrow> True | AllEvict \<Rightarrow> True | _ \<Rightarrow> False)"

definition pc_ok :: "orch \<Rightarrow> orch_pc \<Rightarrow> bool" where
  "pc_ok s pc = (case pc of
       AcqEvict p r \<Rightarrow> plan_load p = Some r \<and> oc_worker s \<noteq> None
     | AcqVram p r \<Rightarrow> plan_load p = Some r \<and> oc_worker s = None
     | AcqStart r w \<Rightarrow> oc_made s w = Some r \<and> w < oc_next s \<and> oc_worker s = None
     | AcqReady r w \<Rightarrow> oc_made s w = Some r \<and> w < oc_next s \<and> oc_worker s = None
     | AcqAbort r w \<Rightarrow> oc_made s w = Some r \<and> w < oc_next s \<and> oc_worker s = None
     | AllEvict \<Rightarrow> oc_worker s \<noteq> None
     | _ \<Rightarrow> True)"

definition slot_ok :: "worker option \<Rightarrow> orch \<Rightarrow> bool" where
  "slot_ok lw s \<longleftrightarrow>
     (oc_slot s = None \<longleftrightarrow> oc_worker s = None) \<and>
     (\<forall>w. oc_worker s = Some w \<longrightarrow> oc_made s w = oc_slot s \<and> w < oc_next s) \<and>
     oc_live s \<subseteq> set_option (oc_worker s) \<union> set_option lw \<union> oc_let_go s \<and>
     oc_let_go s \<inter> (set_option (oc_worker s) \<union> set_option lw) = {} \<and>
     (\<forall>w\<in>oc_let_go s. w < oc_next s) \<and>
     (oc_dirty s \<or> oc_live s \<inter> oc_let_go s \<subseteq> oc_orphans s)"

definition held :: "task \<Rightarrow> worker option \<Rightarrow> orch \<Rightarrow> bool" where
  "held t lw s \<longleftrightarrow> oc_lock s = Some t \<and> slot_ok lw s \<and>
     (\<forall>t' pc. t' \<noteq> t \<longrightarrow> oc_pc s t' = Some pc \<longrightarrow> \<not> critical pc)"

definition orch_inv :: "orch \<Rightarrow> bool" where
  "orch_inv s \<longleftrightarrow> (case oc_lock s of
       None \<Rightarrow> slot_ok None s \<and> (\<forall>t pc. oc_pc s t = Some pc \<longrightarrow> \<not> critical pc)
     | Some t \<Rightarrow> (\<exists>pc. oc_pc s t = Some pc \<and> critical pc \<and> pc_ok s pc \<and> held t (loading pc) s))"

lemma inv_holder:
  assumes "orch_inv s" "oc_pc s t = Some pc" "critical pc"
  shows "held t (loading pc) s" "pc_ok s pc"
proof -
  have "oc_lock s = Some t"
  proof (cases "oc_lock s")
    case (Some u)
    then obtain pu where "held u (loading pu) s" using assms(1) by (auto simp: orch_inv_def)
    then show ?thesis using assms(2,3) Some unfolding held_def by metis
  qed (use assms in \<open>auto simp: orch_inv_def\<close>)
  then show "held t (loading pc) s" "pc_ok s pc"
    using assms by (auto simp: orch_inv_def)
qed

lemma critical_simps [simp]:
  "critical (AcqEvict p r)" "critical (AcqVram p r)" "critical (AcqStart r w)" "critical (AcqReady r w)"
  "critical (AcqAbort r w)" "critical AllEvict" "\<not> critical (AcqLock r)" "\<not> critical AllLock"
  "\<not> critical IdleStart" "\<not> critical (Finished x)"
  by (simp_all add: critical_def)

lemma loading_simps [simp]:
  "loading (AcqEvict p r) = None" "loading (AcqVram p r) = None" "loading (AcqStart r w) = Some w"
  "loading (AcqReady r w) = Some w" "loading (AcqAbort r w) = Some w" "loading AllEvict = None"
  "loading (AcqLock r) = None" "loading AllLock = None" "loading IdleStart = None" "loading (Finished x) = None"
  by (simp_all add: loading_def)

lemma pc_ok_cong:
  "oc_worker s' = oc_worker s \<Longrightarrow> oc_made s' = oc_made s \<Longrightarrow> oc_next s' = oc_next s \<Longrightarrow> pc_ok s' pc = pc_ok s pc"
  by (simp add: pc_ok_def split: orch_pc.splits)

lemma slot_ok_updates [simp]:
  "slot_ok lw (s\<lparr>oc_pc := f\<rparr>) = slot_ok lw s" "slot_ok lw (s\<lparr>oc_lock := l\<rparr>) = slot_ok lw s"
  "slot_ok lw (s\<lparr>oc_idle := i\<rparr>) = slot_ok lw s" "slot_ok lw (s\<lparr>oc_timer := b\<rparr>) = slot_ok lw s"
  by (simp_all add: slot_ok_def)

lemma pc_ok_updates [simp]:
  "pc_ok (s\<lparr>oc_pc := f\<rparr>) = pc_ok s" "pc_ok (s\<lparr>oc_lock := l\<rparr>) = pc_ok s"
  "pc_ok (s\<lparr>oc_idle := i\<rparr>) = pc_ok s" "pc_ok (s\<lparr>oc_timer := b\<rparr>) = pc_ok s"
  "pc_ok (s\<lparr>oc_dirty := b\<rparr>) = pc_ok s"
  by (auto simp: pc_ok_def split: orch_pc.splits)

lemma held_goto:
  assumes "held t (loading pc) s" "critical pc" "pc_ok s pc"
  shows "orch_inv (goto t pc s)"
  using assms by (auto simp: orch_inv_def held_def goto_def)

lemma held_finish:
  assumes "held t None s"
  shows "orch_inv (finish t res s)"
  using assms by (auto simp: orch_inv_def held_def finish_def)

lemma other_keeps:
  assumes "orch_inv s" "oc_lock s' = oc_lock s" "oc_worker s' = oc_worker s" "oc_slot s' = oc_slot s"
    "oc_made s' = oc_made s" "oc_next s' = oc_next s" "oc_live s' \<subseteq> oc_live s"
    "oc_let_go s' = oc_let_go s" "oc_orphans s' = oc_orphans s" "oc_dirty s' = oc_dirty s"
    and origin: "\<And>t pc. oc_pc s' t = Some pc \<Longrightarrow> critical pc \<Longrightarrow> oc_pc s t = Some pc"
    and same: "\<And>t. oc_lock s = Some t \<Longrightarrow> oc_pc s' t = oc_pc s t"
  shows "orch_inv s'"
proof (cases "oc_lock s")
  case None
  then have "\<not> critical pc" if "oc_pc s' t = Some pc" for t pc
    using origin [OF that] assms(1) by (auto simp: orch_inv_def)
  moreover have "slot_ok None s'" using None assms(1-10) by (auto simp: orch_inv_def slot_ok_def)
  ultimately show ?thesis using None assms(2) by (simp add: orch_inv_def)
next
  case (Some t)
  with assms(1) obtain pc where pc: "oc_pc s t = Some pc" "critical pc" "pc_ok s pc" "held t (loading pc) s"
    by (auto simp: orch_inv_def)
  have "slot_ok (loading pc) s'" using pc(4) assms(2-10) by (auto simp: held_def slot_ok_def)
  moreover have "\<not> critical pc'" if "t' \<noteq> t" "oc_pc s' t' = Some pc'" for t' pc'
    using origin [OF that(2)] that(1) pc(4) by (auto simp: held_def)
  ultimately have "held t (loading pc) s'" using Some assms(2) by (simp add: held_def)
  moreover have "pc_ok s' pc" using pc(3) assms by (simp add: pc_ok_cong [of s' s])
  ultimately show ?thesis using pc Some assms(2) same [OF Some] by (simp add: orch_inv_def)
qed

lemma finish_other:
  assumes "orch_inv s" "oc_lock s \<noteq> Some t"
  shows "orch_inv (finish t res s)"
  using assms by (intro other_keeps [OF assms(1)]) (auto simp: finish_def split: if_splits)

lemma goto_other:
  assumes "orch_inv s" "oc_lock s \<noteq> Some t" "\<not> critical pc"
  shows "orch_inv (goto t pc s)"
  using assms by (intro other_keeps [OF assms(1)]) (auto simp: goto_def split: if_splits)

lemma inv_not_holder:
  "orch_inv s \<Longrightarrow> oc_pc s t = Some pc \<Longrightarrow> \<not> critical pc \<Longrightarrow> oc_lock s \<noteq> Some t"
  "orch_inv s \<Longrightarrow> oc_pc s t = None \<Longrightarrow> oc_lock s \<noteq> Some t"
  by (auto simp: orch_inv_def)

lemma loading_critical: "loading pc \<noteq> None \<Longrightarrow> critical pc"
  by (auto simp: loading_def split: orch_pc.splits)

lemma finish_inv:
  assumes "orch_inv s" "oc_pc s t = Some pc" "loading pc = None"
  shows "orch_inv (finish t res s)"
proof (cases "critical pc")
  case True
  then show ?thesis using inv_holder [OF assms(1,2)] assms(3) by (simp add: held_finish)
next
  case False
  then show ?thesis using assms by (blast intro: finish_other dest: inv_not_holder)
qed

definition idle_ok :: "orch \<Rightarrow> bool" where
  "idle_ok s \<longleftrightarrow> (\<forall>t. oc_idle s = Some t \<longrightarrow>
     oc_pc s t = Some IdleStart \<or> oc_pc s t = Some AllLock \<or> oc_pc s t = Some AllEvict)"

lemma finish_idle_ok: "idle_ok s \<Longrightarrow> idle_ok (finish t res s)"
  by (auto simp: idle_ok_def finish_def)

lemma goto_idle_ok:
  "idle_ok s \<Longrightarrow> oc_idle s \<noteq> Some t \<or> pc = IdleStart \<or> pc = AllLock \<or> pc = AllEvict \<Longrightarrow> idle_ok (goto t pc s)"
  by (auto simp: idle_ok_def goto_def)

lemma idle_ok_updates [simp]:
  "idle_ok (s\<lparr>oc_lock := l\<rparr>) = idle_ok s" "idle_ok (s\<lparr>oc_timer := b\<rparr>) = idle_ok s"
  "idle_ok (s\<lparr>oc_slot := sl\<rparr>) = idle_ok s" "idle_ok (s\<lparr>oc_worker := wk\<rparr>) = idle_ok s"
  "idle_ok (s\<lparr>oc_live := lv\<rparr>) = idle_ok s" "idle_ok (s\<lparr>oc_dirty := b\<rparr>) = idle_ok s"
  "idle_ok (s\<lparr>oc_let_go := lg\<rparr>) = idle_ok s" "idle_ok (s\<lparr>oc_orphans := os\<rparr>) = idle_ok s"
  "idle_ok (s\<lparr>oc_made := m\<rparr>) = idle_ok s" "idle_ok (s\<lparr>oc_next := n\<rparr>) = idle_ok s"
  by (simp_all add: idle_ok_def)

lemma cancel_idle_idle: "oc_idle (cancel_idle_timer s) = None"
  by (auto simp: cancel_idle_timer_def cancel_idle_handle_def finish_def Let_def split: option.splits)

lemma cancel_idle_ok: "idle_ok s \<Longrightarrow> idle_ok (cancel_idle_timer s)"
  by (auto simp: cancel_idle_timer_def cancel_idle_handle_def Let_def finish_idle_ok split: option.splits)

lemma acquire_load_idle_ok: "idle_ok s \<Longrightarrow> oc_idle s \<noteq> Some t \<Longrightarrow> idle_ok (acquire_load ok t p r s)"
  by (auto simp: acquire_load_def Let_def intro!: finish_idle_ok goto_idle_ok)

lemma not_idle:
  "idle_ok s \<Longrightarrow> oc_pc s t = None \<Longrightarrow> oc_idle s \<noteq> Some t"
  "idle_ok s \<Longrightarrow> oc_pc s t = Some pc \<Longrightarrow> pc \<noteq> IdleStart \<Longrightarrow> pc \<noteq> AllLock \<Longrightarrow> pc \<noteq> AllEvict
   \<Longrightarrow> oc_idle s \<noteq> Some t"
  by (auto simp: idle_ok_def)

lemma orch_step_idle_ok: "orch_step s s' \<Longrightarrow> idle_ok s \<Longrightarrow> idle_ok s'"
proof (induction rule: orch_step.induct)
  case (acq_enter s t r ok)
  then have "idle_ok (cancel_idle_timer (s\<lparr>oc_lock := Some t\<rparr>))" by (simp add: cancel_idle_ok)
  then show ?case
    by (auto simp: acquire_enter_def Let_def cancel_idle_idle intro!: goto_idle_ok acquire_load_idle_ok)
next
  case (idle_fires s t)
  then show ?case by (auto simp: on_idle_timeout_def goto_def idle_ok_def)
qed (auto simp: not_idle acquire_evicted_def acquire_vram_def acquire_ready_def acquire_aborted_def
       start_raised_def load_interrupted_def let_go_def vram_released_def
       evict_all_enter_def evict_all_evicted_def notify_idle_def try_idle_evict_def
       cancel_idle_handle_def cancel_idle_ok Let_def
     intro!: finish_idle_ok goto_idle_ok acquire_load_idle_ok)

lemma cancel_idle_inv:
  assumes "orch_inv s" "idle_ok s"
  shows "orch_inv (cancel_idle_timer s)"
proof -
  have i: "orch_inv (s\<lparr>oc_timer := False\<rparr>)"
    using assms(1) by (auto simp: orch_inv_def held_def split: option.splits)
  show ?thesis
  proof (cases "oc_idle s")
    case None
    with i show ?thesis by (simp add: cancel_idle_timer_def cancel_idle_handle_def)
  next
    case (Some t)
    with assms(2) obtain pc where "oc_pc s t = Some pc" "loading pc = None"
      by (auto simp: idle_ok_def loading_def)
    with finish_inv [OF i] Some show ?thesis
      by (simp add: cancel_idle_timer_def cancel_idle_handle_def)
  qed
qed

lemma enter_held:
  assumes "orch_inv s" "idle_ok s" "oc_lock s = None" "oc_idle s \<noteq> Some t"
  shows "held t None (cancel_idle_timer (s\<lparr>oc_lock := Some t\<rparr>))"
  using assms
  by (auto simp: cancel_idle_timer_def cancel_idle_handle_def Let_def held_def orch_inv_def finish_def
      split: option.splits)

lemma acquire_load_inv:
  assumes "held t None s" "oc_worker s = None \<or> plan_load p = None" "plan_load p = None \<or> plan_load p = Some r"
  shows "orch_inv (acquire_load ok t p r s)"
proof (cases "plan_load p = None \<or> \<not> ok")
  case True
  then show ?thesis using assms(1) by (auto simp: acquire_load_def intro: held_finish)
next
  case False
  let ?s = "s\<lparr>oc_next := Suc (oc_next s), oc_made := (oc_made s)(oc_next s \<mapsto> r),
              oc_live := insert (oc_next s) (oc_live s)\<rparr>"
  have "held t (loading (AcqStart r (oc_next s))) ?s"
    using assms(1,2) False by (auto simp: held_def slot_ok_def)
  then have "orch_inv (goto t (AcqStart r (oc_next s)) ?s)"
    using assms(2) False by (intro held_goto) (auto simp: pc_ok_def)
  with False show ?thesis by (auto simp: acquire_load_def Let_def)
qed

lemma acquire_enter_inv:
  assumes "orch_inv s" "idle_ok s" "oc_lock s = None" "oc_idle s \<noteq> Some t"
  shows "orch_inv (acquire_enter ok t r s)"
proof -
  let ?s = "cancel_idle_timer (s\<lparr>oc_lock := Some t\<rparr>)"
  let ?p = "plan_acquire (oc_slot ?s) r"
  have h: "held t None ?s" using enter_held [OF assms] .
  then have sw: "oc_slot ?s = None \<longleftrightarrow> oc_worker ?s = None" by (simp add: held_def slot_ok_def)
  show ?thesis
  proof (cases "plan_evict ?p \<noteq> None \<and> oc_worker ?s \<noteq> None")
    case True
    then have "orch_inv (goto t (AcqEvict ?p r) ?s)"
      using h by (intro held_goto) (auto simp: pc_ok_def plan_acquire_def split: if_splits)
    with True show ?thesis by (simp add: acquire_enter_def Let_def)
  next
    case False
    then have "orch_inv (acquire_load ok t ?p r ?s)"
      using h sw by (intro acquire_load_inv) (auto simp: plan_acquire_def split: if_splits)
    with False show ?thesis by (auto simp: acquire_enter_def Let_def)
  qed
qed

lemma freed_held:
  "held t None s \<Longrightarrow>
   held t None ((let_go (set_option (oc_worker s)) s)\<lparr>oc_worker := None, oc_slot := None\<rparr>)"
  by (auto simp: held_def slot_ok_def let_go_def)

lemma let_go_held:
  "held t (Some w) s \<Longrightarrow> w < oc_next s \<Longrightarrow> oc_worker s = None \<Longrightarrow> held t None (let_go {w} s)"
  by (auto simp: held_def slot_ok_def let_go_def)

lemma orphaned_held:
  "held t None (let_go {w} s) \<Longrightarrow>
   held t None ((let_go {w} s)\<lparr>oc_orphans := insert w (oc_orphans s)\<rparr>)"
  by (auto simp: held_def slot_ok_def let_go_def)

lemma released_held: "held t None s \<Longrightarrow> oc_worker s = None \<Longrightarrow> held t None (vram_released s)"
  by (auto simp: held_def slot_ok_def vram_released_def)

lemma loading_pc_ok: "pc_ok s pc \<Longrightarrow> loading pc = Some w \<Longrightarrow> w < oc_next s \<and> oc_worker s = None"
  by (auto simp: pc_ok_def loading_def split: orch_pc.splits)

lemma less_live_inv: "orch_inv s \<Longrightarrow> orch_inv (s\<lparr>oc_live := oc_live s - {w}\<rparr>)"
  by (rule other_keeps [of s]) auto

lemma orch_step_inv: "orch_step s s' \<Longrightarrow> orch_inv s \<and> idle_ok s \<Longrightarrow> orch_inv s'"
proof (induction rule: orch_step.induct)
  case (call_acquire s t r)
  then show ?case by (auto intro: goto_other dest: inv_not_holder)
next
  case (call_evict_all s t)
  then show ?case by (auto intro: goto_other dest: inv_not_holder)
next
  case (acq_enter s t r ok)
  then show ?case by (auto intro!: acquire_enter_inv dest: not_idle)
next
  case (acq_evicted s t p r)
  then have "held t None s" "pc_ok s (AcqEvict p r)" using inv_holder by fastforce+
  moreover from this(1) have
    "held t None ((let_go (set_option (oc_worker s)) s)\<lparr>oc_worker := None, oc_slot := None\<rparr>)" by (rule freed_held)
  ultimately show ?case by (auto simp: acquire_evicted_def pc_ok_def intro!: held_goto)
next
  case (acq_vram s t p r released ok)
  then have h: "held t None s" "pc_ok s (AcqVram p r)" using inv_holder by fastforce+
  moreover from h have "held t None (vram_released s)" by (intro released_held) (auto simp: pc_ok_def)
  ultimately show ?case
    by (auto simp: acquire_vram_def pc_ok_def vram_released_def intro!: held_finish acquire_load_inv)
next
  case (acq_started s t r w)
  then have "held t (Some w) s" "pc_ok s (AcqStart r w)" using inv_holder by fastforce+
  then show ?case by (auto simp: pc_ok_def intro!: held_goto)
next
  case (acq_start_raises s t r w)
  then have "held t (Some w) s" "pc_ok s (AcqStart r w)" using inv_holder by fastforce+
  then show ?case by (auto simp: start_raised_def pc_ok_def intro!: held_finish let_go_held)
next
  case (acq_interrupted s t pc w res)
  then have "held t (Some w) s" "pc_ok s pc" using inv_holder [of s t pc] loading_critical [of pc] by auto
  then show ?case using loading_pc_ok acq_interrupted(2)
    by (auto simp: load_interrupted_def intro!: held_finish orphaned_held let_go_held)
next
  case (acq_ready s t r w ready)
  then have h: "held t (Some w) s" "pc_ok s (AcqReady r w)" using inv_holder by fastforce+
  then have "held t None (s\<lparr>oc_worker := Some w, oc_slot := Some r\<rparr>)"
    by (auto simp: held_def slot_ok_def pc_ok_def)
  with h show ?case by (auto simp: acquire_ready_def pc_ok_def intro!: held_finish held_goto)
next
  case (acq_aborted s t r w)
  then have "held t (Some w) s" "pc_ok s (AcqAbort r w)" using inv_holder by fastforce+
  then show ?case by (auto simp: acquire_aborted_def pc_ok_def intro!: held_finish let_go_held)
next
  case (all_enter s t)
  then have "held t None (cancel_idle_handle (s\<lparr>oc_lock := Some t\<rparr>))"
    by (auto simp: held_def orch_inv_def cancel_idle_handle_def)
  then show ?case
    by (auto simp: evict_all_enter_def Let_def pc_ok_def held_def slot_ok_def intro!: held_goto held_finish)
next
  case (all_evicted s t)
  then have "held t None s" using inv_holder by fastforce
  then show ?case by (auto simp: evict_all_evicted_def intro!: held_finish freed_held)
next
  case (idle_notified s)
  then have "orch_inv (cancel_idle_timer s)" by (simp add: cancel_idle_inv)
  then show ?case by (auto simp: notify_idle_def Let_def intro: other_keeps)
next
  case (idle_fires s t)
  then have "orch_inv (s\<lparr>oc_timer := False, oc_idle := Some t\<rparr>)" by (auto intro: other_keeps)
  with idle_fires show ?case by (auto simp: on_idle_timeout_def intro!: goto_other dest: inv_not_holder)
next
  case (idle_checks s t)
  then show ?case by (auto simp: try_idle_evict_def intro!: goto_other finish_other dest: inv_not_holder)
qed (auto intro: finish_inv less_live_inv)


interpretation residency: step_invariant orch_step "\<lambda>s. orch_inv s \<and> idle_ok s"
  by unfold_locales (blast intro: orch_step_inv orch_step_idle_ok)

lemma new_orchestrator_inv: "orch_inv (new_orchestrator T) \<and> idle_ok (new_orchestrator T)"
  by (simp add: new_orchestrator_def orch_inv_def idle_ok_def slot_ok_def)

lemma reachable_inv: "orch_step\<^sup>*\<^sup>* (new_orchestrator T) s \<Longrightarrow> orch_inv s \<and> idle_ok s"
  using residency.along_run new_orchestrator_inv by blast

text \<open>The one worker the manager tracks: the recorded one, or the one being loaded under the lock.\<close>

definition tracked :: "orch \<Rightarrow> worker option" where
  "tracked s = (case oc_worker s of Some w \<Rightarrow> Some w
     | None \<Rightarrow> Option.bind (oc_lock s) (\<lambda>t. Option.bind (oc_pc s t) loading))"

lemma tracked_slot_ok:
  assumes "orch_inv s"
  obtains lw where "slot_ok lw s" "set_option (tracked s) = set_option (oc_worker s) \<union> set_option lw"
proof (cases "oc_lock s")
  case None
  then show ?thesis using assms that [of None] by (auto simp: orch_inv_def tracked_def split: option.splits)
next
  case (Some t)
  then obtain pc where pc: "oc_pc s t = Some pc" "pc_ok s pc" "held t (loading pc) s"
    using assms by (auto simp: orch_inv_def)
  then have "oc_worker s = None \<or> loading pc = None"
    by (auto simp: pc_ok_def loading_def split: orch_pc.splits)
  with Some pc show ?thesis
    by (intro that [of "loading pc"]) (auto simp: held_def tracked_def split: option.splits)
qed

lemma set_option_unique: "a \<in> set_option x \<Longrightarrow> b \<in> set_option x \<Longrightarrow> a = b"
  by (cases x) simp_all

lemma inv_live:
  assumes "orch_inv s" "w \<in> oc_live s"
  shows "w \<in> oc_let_go s \<and> (oc_dirty s \<or> w \<in> oc_orphans s) \<or> tracked s = Some w \<and> w \<notin> oc_let_go s"
proof -
  obtain lw where lw: "slot_ok lw s" "set_option (tracked s) = set_option (oc_worker s) \<union> set_option lw"
    using assms(1) by (rule tracked_slot_ok)
  show ?thesis
  proof (cases "w \<in> oc_let_go s")
    case True
    then show ?thesis using lw assms(2) by (auto simp: slot_ok_def)
  next
    case False
    then have "w \<in> set_option (tracked s)" using lw assms(2) unfolding slot_ok_def by blast
    with False show ?thesis by (simp add: elem_set)
  qed
qed

section \<open>The abstract slot\<close>

text \<open>What a client may rely on: the slot is freed before it is given to another identity.\<close>

inductive slot_step :: "residency_id option \<Rightarrow> residency_id option \<Rightarrow> bool" where
  slot_keeps: "slot_step x x"
| slot_loads: "slot_step None (Some r)"
| slot_frees: "slot_step (Some r) None"

lemma finish_slot [simp]: "oc_slot (finish t res s) = oc_slot s"
  by (simp add: finish_def)

lemma goto_slot [simp]: "oc_slot (goto t pc s) = oc_slot s"
  by (simp add: goto_def)

lemma cancel_idle_slot [simp]: "oc_slot (cancel_idle_timer s) = oc_slot s"
  by (simp add: cancel_idle_timer_def cancel_idle_handle_def Let_def split: option.splits)

lemma acquire_load_slot [simp]: "oc_slot (acquire_load ok t p r s) = oc_slot s"
  by (simp add: acquire_load_def Let_def)

lemma slot_to_None: "slot_step x None"
  by (cases x) (auto intro: slot_step.intros)

lemma orch_step_slot: "orch_step s s' \<Longrightarrow> orch_inv s \<Longrightarrow> slot_step (oc_slot s) (oc_slot s')"
proof (induction rule: orch_step.induct)
  case (acq_ready s t r w ready)
  then have "held t (Some w) s" "pc_ok s (AcqReady r w)" using inv_holder by fastforce+
  then have "oc_slot s = None" by (auto simp: held_def slot_ok_def pc_ok_def)
  then show ?case by (auto simp: acquire_ready_def intro: slot_step.intros)
qed (auto simp: acquire_enter_def acquire_evicted_def acquire_vram_def acquire_aborted_def
       start_raised_def load_interrupted_def let_go_def vram_released_def evict_all_enter_def evict_all_evicted_def notify_idle_def on_idle_timeout_def try_idle_evict_def
       cancel_idle_handle_def Let_def slot_to_None slot_keeps)

section \<open>Runs\<close>

text \<open>An acquisition of a cold slot, from the lock to its return.\<close>

lemma cold_enter:
  assumes "oc_slot s = None" "oc_idle s = None"
  shows "acquire_enter True t r s =
    goto t (AcqStart r (oc_next s))
      (s\<lparr>oc_lock := Some t, oc_timer := False, oc_next := Suc (oc_next s),
         oc_made := (oc_made s)(oc_next s \<mapsto> r), oc_live := insert (oc_next s) (oc_live s)\<rparr>)"
  using assms by (simp add: acquire_enter_def acquire_load_def cancel_idle_timer_def cancel_idle_handle_def Let_def)

text \<open>
  An acquisition from the lock to its end, alone, with the answer of each thing it waits for: whether
  the eviction returns, the memory is released, the factory makes a worker, \<open>start\<close> returns and the
  worker becomes ready.
\<close>

definition finish_load :: "bool \<Rightarrow> bool \<Rightarrow> task \<Rightarrow> orch \<Rightarrow> orch" where
  "finish_load started ready t s = (case oc_pc s t of
     Some (AcqStart r w) \<Rightarrow>
       if \<not> started then start_raised t w s
       else (let s1 = acquire_ready ready t r w (goto t (AcqReady r w) s)
             in (case oc_pc s1 t of Some (AcqAbort r' w') \<Rightarrow> acquire_aborted t w' s1 | _ \<Rightarrow> s1))
   | _ \<Rightarrow> s)"

definition run_acquire :: "bool \<Rightarrow> bool \<Rightarrow> bool \<Rightarrow> bool \<Rightarrow> bool \<Rightarrow> task \<Rightarrow> residency_id \<Rightarrow> orch \<Rightarrow> orch" where
  "run_acquire evicts released made started ready t r s =
     (let s1 = acquire_enter made t r s;
          s2 = (case oc_pc s1 t of
                  Some (AcqEvict p r') \<Rightarrow>
                    if evicts then acquire_vram released made t p r' (acquire_evicted t p r' s1)
                    else finish t Raised s1
                | _ \<Rightarrow> s1)
      in finish_load started ready t s2)"

lemma orch_steps: "orch_step\<^sup>*\<^sup>* s s1 \<Longrightarrow> orch_step s1 s2 \<Longrightarrow> orch_step\<^sup>*\<^sup>* s s2"
  by (rule rtranclp.rtrancl_into_rtrancl)

lemma finish_load_run: "orch_step\<^sup>*\<^sup>* s (finish_load started ready t s)"
proof (cases "\<exists>r w. oc_pc s t = Some (AcqStart r w)")
  case True
  then obtain r w where pc: "oc_pc s t = Some (AcqStart r w)" by blast
  let ?s1 = "goto t (AcqReady r w) s" and ?s2 = "goto t (AcqAbort r w) (goto t (AcqReady r w) s)"
  have s1: "orch_step s ?s1" using pc by (rule acq_started)
  have s2: "orch_step ?s1 (acquire_ready b t r w ?s1)" for b by (rule acq_ready) (simp add: goto_def)
  have s3: "orch_step ?s2 (acquire_aborted t w ?s2)" by (rule acq_aborted) (simp add: goto_def)
  have t: "orch_step\<^sup>*\<^sup>* s (acquire_ready b t r w ?s1)" for b
    using s1 s2 by (blast intro: orch_steps r_into_rtranclp)
  have "orch_step\<^sup>*\<^sup>* s (acquire_aborted t w ?s2)"
    using t [of False] s3 by (simp add: acquire_ready_def orch_steps)
  moreover have "orch_step s (start_raised t w s)" using pc by (rule acq_start_raises)
  ultimately show ?thesis using t [of True]
    by (cases started; cases ready)
       (auto simp: finish_load_def pc acquire_ready_def goto_def finish_def Let_def intro: r_into_rtranclp)
qed (auto simp: finish_load_def split: option.splits orch_pc.splits)

lemma run_acquire_run:
  assumes "oc_pc s t = Some (AcqLock r)" "oc_lock s = None"
  shows "orch_step\<^sup>*\<^sup>* s (run_acquire evicts released made started ready t r s)"
proof -
  let ?s1 = "acquire_enter made t r s"
  have s1: "orch_step s ?s1" using assms by (rule acq_enter)
  have gate: "orch_step\<^sup>*\<^sup>* s (acquire_vram released made t p r' (acquire_evicted t p r' ?s1))"
    if "oc_pc ?s1 t = Some (AcqEvict p r')" for p r'
  proof -
    have "orch_step ?s1 (acquire_evicted t p r' ?s1)" using that by (rule acq_evicted)
    moreover have "orch_step (acquire_evicted t p r' ?s1) (acquire_vram released made t p r' (acquire_evicted t p r' ?s1))"
      by (rule acq_vram) (simp add: acquire_evicted_def goto_def)
    ultimately show ?thesis using s1 by (blast intro: orch_steps r_into_rtranclp)
  qed
  have "orch_step\<^sup>*\<^sup>* s (finish t Raised ?s1)" if "oc_pc ?s1 t = Some (AcqEvict p r')" for p r'
    using s1 acq_evict_raises [OF that] by (blast intro: orch_steps r_into_rtranclp)
  with gate s1 show ?thesis
    by (auto simp: run_acquire_def Let_def split: option.split orch_pc.split
        intro!: rtranclp_trans [OF _ finish_load_run])
qed

lemma finish_load_result:
  fixes made started ready :: bool
  assumes "oc_lock s = Some t" "oc_slot s = None" "plan_load p = Some r"
  defines "s' \<equiv> finish_load started ready t (acquire_load made t p r s)"
  shows "oc_lock s' = None" "oc_pc s' t = Some (Finished (if made \<and> started \<and> ready then Returned else Raised))"
    "oc_slot s' = (if made \<and> started \<and> ready then Some r else None)"
  using assms
  by (cases made; cases started; cases ready;
      simp add: finish_load_def acquire_load_def acquire_ready_def acquire_aborted_def start_raised_def
        let_go_def goto_def finish_def Let_def)+

lemma run_acquire_result:
  fixes evicts released made started ready :: bool
  assumes inv: "orch_inv s" "idle_ok s" and pc: "oc_pc s t = Some (AcqLock r)" and free: "oc_lock s = None"
  defines "s' \<equiv> run_acquire evicts released made started ready t r s"
    and "fine \<equiv> oc_slot s = Some r \<or> (oc_slot s \<noteq> None \<longrightarrow> evicts \<and> released) \<and> made \<and> started \<and> ready"
  shows "oc_lock s' = None \<and> oc_pc s' t = Some (Finished (if fine then Returned else Raised)) \<and>
    oc_slot s' = (if fine then Some r else if evicts then None else oc_slot s)"
proof -
  let ?c = "cancel_idle_timer (s\<lparr>oc_lock := Some t\<rparr>)"
  have "oc_idle s \<noteq> Some t" using not_idle(2) [OF inv(2) pc] by simp
  then have h: "held t None ?c" using inv free by (intro enter_held)
  then have l: "oc_lock ?c = Some t" and sw: "oc_slot ?c = None \<longleftrightarrow> oc_worker ?c = None"
    by (simp_all add: held_def slot_ok_def)
  note defs = s'_def fine_def run_acquire_def acquire_enter_def
  consider (same) "oc_slot s = Some r" | (cold) "oc_slot s = None" | (other) q where "oc_slot s = Some q" "q \<noteq> r"
    by (cases "oc_slot s") auto
  then show ?thesis
  proof cases
    case same
    then show ?thesis using l
      by (simp add: defs acquire_load_def finish_load_def finish_def Let_def)
  next
    case cold
    let ?p = "\<lparr>plan_evict = None, plan_load = Some r\<rparr>"
    have "oc_pc (acquire_load made t ?p r ?c) t \<noteq> Some (AcqEvict p r')" for p r'
      by (simp add: acquire_load_def goto_def finish_def Let_def)
    then have "s' = finish_load started ready t (acquire_load made t ?p r ?c)"
      using cold by (auto simp: defs Let_def split: option.split orch_pc.split)
    then show ?thesis
      using finish_load_result [where p = ?p and s = ?c and t = t and r = r and made = made and started = started and ready = ready] l cold
      by (simp add: fine_def)
  next
    case other
    let ?p = "\<lparr>plan_evict = Some q, plan_load = Some r\<rparr>"
    let ?e = "acquire_evicted t ?p r (goto t (AcqEvict ?p r) ?c)"
    have "oc_worker ?c \<noteq> None" using sw other by simp
    then have e: "acquire_enter made t r s = goto t (AcqEvict ?p r) ?c"
      using other by (simp add: acquire_enter_def Let_def)
    have el: "oc_lock ?e = Some t" "oc_slot ?e = None"
      using l by (simp_all add: acquire_evicted_def let_go_def goto_def)
    have s': "s' = finish_load started ready t
        (if evicts then acquire_vram released made t ?p r ?e else finish t Raised (goto t (AcqEvict ?p r) ?c))"
      by (simp add: s'_def run_acquire_def e Let_def) (simp add: goto_def)
    have over: "finish_load started ready t (finish t Raised x) = finish t Raised x" for x
      by (simp add: finish_load_def finish_def)
    show ?thesis
    proof (cases "evicts \<and> released")
      case True
      then have "s' = finish_load started ready t (acquire_load made t ?p r (vram_released ?e))"
        by (simp add: s' acquire_vram_def)
      then show ?thesis
        using finish_load_result [where p = ?p and s = "vram_released ?e" and t = t and r = r and made = made and started = started and ready = ready] el True other
        by (simp add: fine_def vram_released_def)
    next
      case False
      then have "s' = finish t Raised (if evicts then ?e else goto t (AcqEvict ?p r) ?c)"
        by (auto simp: s' acquire_vram_def over)
      then show ?thesis using False el l other by (simp add: fine_def finish_def goto_def)
    qed
  qed
qed

text \<open>Two clients; the first is interrupted while its worker becomes ready.\<close>

definition gen_rid :: residency_id where
  "gen_rid = \<lparr>rid_plane = GENERATION, rid_label = None\<rparr>"

definition reason_rid :: residency_id where
  "reason_rid = \<lparr>rid_plane = REASONING, rid_label = None\<rparr>"

definition fresh :: orch where
  "fresh = new_orchestrator 0"

definition asked :: orch where
  "asked = goto 0 (AcqLock reason_rid) fresh"

definition entered :: orch where
  "entered = acquire_enter True 0 reason_rid asked"

definition started :: orch where
  "started = goto 0 (AcqReady reason_rid 0) entered"

definition loaded :: orch where
  "loaded = acquire_ready True 0 reason_rid 0 started"

definition reasked :: orch where
  "reasked = goto 1 (AcqLock gen_rid) loaded"

definition evicting :: orch where
  "evicting = acquire_enter True 1 gen_rid reasked"

definition evicted :: orch where
  "evicted = acquire_evicted 1 (plan_acquire (Some reason_rid) gen_rid) gen_rid evicting"

definition refused :: orch where
  "refused = acquire_vram False True 1 (plan_acquire (Some reason_rid) gen_rid) gen_rid evicted"

definition retried :: orch where
  "retried = goto 2 (AcqLock gen_rid) refused"

definition ungated :: orch where
  "ungated = acquire_enter True 2 gen_rid retried"

lemma rids_differ [simp]: "gen_rid \<noteq> reason_rid" "reason_rid \<noteq> gen_rid"
  by (simp_all add: gen_rid_def reason_rid_def)

lemma started_state:
  "started =
     \<lparr>oc_slot = None, oc_worker = None, oc_lock = Some 0, oc_timer = False, oc_idle = None,
      oc_idle_timeout = 0, oc_pc = [0 \<mapsto> AcqReady reason_rid 0], oc_made = [0 \<mapsto> reason_rid], oc_next = 1,
      oc_live = {0}, oc_let_go = {}, oc_orphans = {}, oc_dirty = False\<rparr>"
  by (simp add: started_def entered_def asked_def fresh_def new_orchestrator_def acquire_enter_def acquire_load_def cancel_idle_timer_def cancel_idle_handle_def goto_def)

lemma loaded_state:
  "loaded =
     \<lparr>oc_slot = Some reason_rid, oc_worker = Some 0, oc_lock = None, oc_timer = False, oc_idle = None,
      oc_idle_timeout = 0, oc_pc = [0 \<mapsto> Finished Returned], oc_made = [0 \<mapsto> reason_rid], oc_next = 1,
      oc_live = {0}, oc_let_go = {}, oc_orphans = {}, oc_dirty = False\<rparr>"
  by (simp add: loaded_def acquire_ready_def finish_def started_state)

lemma evicting_state:
  "evicting =
     \<lparr>oc_slot = Some reason_rid, oc_worker = Some 0, oc_lock = Some 1, oc_timer = False, oc_idle = None,
      oc_idle_timeout = 0, oc_pc = [0 \<mapsto> Finished Returned, 1 \<mapsto> AcqEvict (plan_acquire (Some reason_rid) gen_rid) gen_rid], oc_made = [0 \<mapsto> reason_rid], oc_next = 1,
      oc_live = {0}, oc_let_go = {}, oc_orphans = {}, oc_dirty = False\<rparr>"
  by (simp add: evicting_def reasked_def loaded_state acquire_enter_def acquire_load_def cancel_idle_timer_def cancel_idle_handle_def goto_def)

lemma evicted_state:
  "evicted =
     \<lparr>oc_slot = None, oc_worker = None, oc_lock = Some 1, oc_timer = False, oc_idle = None,
      oc_idle_timeout = 0, oc_pc = [0 \<mapsto> Finished Returned, 1 \<mapsto> AcqVram (plan_acquire (Some reason_rid) gen_rid) gen_rid], oc_made = [0 \<mapsto> reason_rid], oc_next = 1,
      oc_live = {0}, oc_let_go = {0}, oc_orphans = {}, oc_dirty = True\<rparr>"
  by (simp add: evicted_def acquire_evicted_def let_go_def goto_def evicting_state)

lemma refused_state:
  "refused =
     \<lparr>oc_slot = None, oc_worker = None, oc_lock = None, oc_timer = False, oc_idle = None,
      oc_idle_timeout = 0, oc_pc = [0 \<mapsto> Finished Returned, 1 \<mapsto> Finished Raised], oc_made = [0 \<mapsto> reason_rid], oc_next = 1,
      oc_live = {0}, oc_let_go = {0}, oc_orphans = {}, oc_dirty = True\<rparr>"
  by (simp add: refused_def acquire_vram_def finish_def evicted_state)

lemma ungated_state:
  "ungated =
     \<lparr>oc_slot = None, oc_worker = None, oc_lock = Some 2, oc_timer = False, oc_idle = None,
      oc_idle_timeout = 0, oc_pc = [0 \<mapsto> Finished Returned, 1 \<mapsto> Finished Raised, 2 \<mapsto> AcqStart gen_rid 1], oc_made = [0 \<mapsto> reason_rid, 1 \<mapsto> gen_rid], oc_next = 2,
      oc_live = {0, 1}, oc_let_go = {0}, oc_orphans = {}, oc_dirty = True\<rparr>"
  by (simp add: ungated_def retried_def refused_state acquire_enter_def acquire_load_def cancel_idle_timer_def cancel_idle_handle_def goto_def insert_commute)

lemma started_steps: "orch_step fresh asked" "orch_step asked entered" "orch_step entered started"
proof -
  show "orch_step fresh asked" unfolding asked_def
    by (rule call_acquire) (simp add: fresh_def new_orchestrator_def)
  show "orch_step asked entered" unfolding entered_def
    by (rule acq_enter) (simp_all add: asked_def fresh_def new_orchestrator_def goto_def)
  show "orch_step entered started" unfolding started_def
    by (rule acq_started)
       (simp add: entered_def asked_def fresh_def new_orchestrator_def acquire_enter_def acquire_load_def
         cancel_idle_timer_def cancel_idle_handle_def goto_def)
qed

lemma started_run: "orch_step\<^sup>*\<^sup>* (new_orchestrator 0) started"
  using started_steps unfolding fresh_def
  by (blast intro: rtranclp.rtrancl_into_rtrancl r_into_rtranclp)

lemma ungated_steps:
  "orch_step started loaded" "orch_step loaded reasked" "orch_step reasked evicting"
  "orch_step evicting evicted" "orch_step evicted refused" "orch_step refused retried"
  "orch_step retried ungated"
proof -
  show "orch_step started loaded" unfolding loaded_def by (rule acq_ready) (simp add: started_state)
  show "orch_step loaded reasked" unfolding reasked_def by (rule call_acquire) (simp add: loaded_state)
  show "orch_step reasked evicting" unfolding evicting_def
    by (rule acq_enter) (simp_all add: reasked_def goto_def loaded_state)
  show "orch_step evicting evicted" unfolding evicted_def by (rule acq_evicted) (simp add: evicting_state)
  show "orch_step evicted refused" unfolding refused_def by (rule acq_vram) (simp add: evicted_state)
  show "orch_step refused retried" unfolding retried_def by (rule call_acquire) (simp add: refused_state)
  show "orch_step retried ungated" unfolding ungated_def
    by (rule acq_enter) (simp_all add: retried_def goto_def refused_state)
qed

lemma ungated_run: "orch_step\<^sup>*\<^sup>* (new_orchestrator 0) ungated"
  using started_run ungated_steps by (meson rtranclp.rtrancl_into_rtrancl)

text \<open>The recorded worker is the one made for the recorded identity.\<close>

lemma recorded_worker:
  assumes "orch_step\<^sup>*\<^sup>* (new_orchestrator T) s"
  shows "(oc_worker s = None \<longleftrightarrow> oc_slot s = None) \<and> (oc_worker s = Some w \<longrightarrow> oc_made s w = oc_slot s)"
proof -
  have "\<exists>lw. slot_ok lw s" using reachable_inv [OF assms] by (auto simp: orch_inv_def held_def split: option.splits)
  then show ?thesis by (auto simp: slot_ok_def)
qed

section \<open>Properties\<close>

lemma gated_load:
  "orch_step s s' \<Longrightarrow> oc_pc s t = Some (AcqVram p r) \<Longrightarrow> oc_pc s' t = Some (AcqStart r' v) \<Longrightarrow>
   oc_live s' \<subseteq> insert v (oc_orphans s')"
  by (induction rule: orch_step.induct)
     (auto simp: stretch_defs goto_def finish_def Let_def split: if_splits option.splits)

text \<open>
  C1: At most one worker holds the GPU, up to what a VRAM wait has not confirmed. In every state
  reachable through any interleaving of acquisitions, evictions, idle timeouts, failing, raising and
  interrupted loads, cancellations and worker deaths: of two different workers that may hold GPU memory
  one was let go by the manager and its release is unconfirmed (no VRAM wait has succeeded since a worker
  was let go, or its own load was interrupted). And an acquisition that evicted starts its worker
  only when nothing else holds memory, interrupted loads apart.
\<close>

theorem at_most_one_resident:
  assumes "orch_step\<^sup>*\<^sup>* (new_orchestrator T) s"
  shows "(w \<in> oc_live s \<and> w' \<in> oc_live s \<longrightarrow>
      w = w' \<or> (\<exists>x\<in>{w, w'}. x \<in> oc_let_go s \<and> (oc_dirty s \<or> x \<in> oc_orphans s))) \<and>
    (orch_step s s' \<and> oc_pc s t = Some (AcqVram p r) \<and> oc_pc s' t = Some (AcqStart r' v) \<longrightarrow>
      oc_live s' \<subseteq> insert v (oc_orphans s'))"
  using inv_live [of s w] inv_live [of s w'] reachable_inv [OF assms] gated_load by fastforce

theorem at_most_one_resident_witness:
  "(\<exists>x\<in>{0, Suc 0}. x \<in> oc_let_go ungated \<and> (oc_dirty ungated \<or> x \<in> oc_orphans ungated)) \<and>
   oc_live (acquire_vram True True 1 (plan_acquire (Some reason_rid) gen_rid) gen_rid evicted) \<subseteq> {1}"
proof -
  let ?s' = "acquire_vram True True 1 (plan_acquire (Some reason_rid) gen_rid) gen_rid evicted"
  have e: "orch_step\<^sup>*\<^sup>* (new_orchestrator 0) evicted"
    using started_run ungated_steps by (meson rtranclp.rtrancl_into_rtrancl)
  have pc: "oc_pc evicted 1 = Some (AcqVram (plan_acquire (Some reason_rid) gen_rid) gen_rid)" by (simp add: evicted_state)
  have "orch_step evicted ?s'" using pc by (rule acq_vram)
  moreover have "oc_pc ?s' 1 = Some (AcqStart gen_rid 1)" "oc_orphans ?s' = {}"
    by (simp_all add: evicted_state acquire_vram_def acquire_load_def vram_released_def goto_def Let_def)
  ultimately have "oc_live ?s' \<subseteq> {1}"
    using at_most_one_resident [OF e, THEN conjunct2, of ?s' 1] pc by fastforce
  moreover have "0 \<in> oc_live ungated \<and> Suc 0 \<in> oc_live ungated" by (simp add: ungated_state)
  ultimately show ?thesis
    using at_most_one_resident [OF ungated_run, THEN conjunct1, of 0 "Suc 0"] by fastforce
qed

text \<open>
  C4: Evict before load: the manager refines the abstract slot. No step takes the recorded residency
  from one identity to another; it is freed first, whatever coroutine runs.
\<close>

theorem slot_refines:
  "orch_step\<^sup>*\<^sup>* (new_orchestrator T) s \<Longrightarrow> orch_step s s' \<Longrightarrow> slot_step (oc_slot s) (oc_slot s')"
  using orch_step_slot reachable_inv by blast

theorem slot_refines_witness:
  "slot_step (oc_slot started) (oc_slot (acquire_ready True 0 reason_rid 0 started))"
  by (rule slot_refines [OF started_run acq_ready]) (simp add: started_state)

text \<open>
  The critical sections of \<open>acquire\<close> and \<open>evict_all\<close> exclude each other and the lock is never
  left behind: a task inside one owns the lock, and a locked manager has exactly one such task. The
  recorded worker is the one made for the recorded identity.
\<close>

theorem manager_lock_discipline:
  assumes "orch_step\<^sup>*\<^sup>* (new_orchestrator T) s"
  shows "(oc_lock s = Some t \<longleftrightarrow> (\<exists>pc. oc_pc s t = Some pc \<and> critical pc))
       \<and> (oc_worker s = None \<longleftrightarrow> oc_slot s = None)
       \<and> (oc_worker s = Some w \<longrightarrow> oc_made s w = oc_slot s)"
proof -
  have inv: "orch_inv s" using reachable_inv [OF assms] by simp
  have "oc_lock s = Some t \<Longrightarrow> \<exists>pc. oc_pc s t = Some pc \<and> critical pc"
    using inv by (auto simp: orch_inv_def)
  moreover have "oc_pc s t = Some pc \<Longrightarrow> critical pc \<Longrightarrow> oc_lock s = Some t" for pc
    using inv_holder(1) [OF inv] by (simp add: held_def)
  ultimately show ?thesis using recorded_worker [OF assms] by blast
qed

theorem manager_lock_discipline_witness:
  "oc_lock started = Some 0 \<and> critical (AcqReady reason_rid 0)"
  using manager_lock_discipline [OF started_run, of 0 0] by (simp add: started_state)

text \<open>
  C29: An acquisition that gets the lock runs to its end: it returns, with its target resident, exactly
  when the target was resident already, or the eviction of another identity returns and its memory
  is seen released, a worker is made, its start returns and it becomes ready. Otherwise it raises, and
  the slot is cold, unless the eviction itself raised. It leaves the lock free either way.
\<close>

theorem acquire_completes:
  fixes evicts released made started ready :: bool
  assumes "orch_step\<^sup>*\<^sup>* (new_orchestrator T) s" "oc_pc s t = Some (AcqLock r)" "oc_lock s = None"
  defines "s' \<equiv> run_acquire evicts released made started ready t r s"
    and "fine \<equiv> oc_slot s = Some r \<or> (oc_slot s \<noteq> None \<longrightarrow> evicts \<and> released) \<and> made \<and> started \<and> ready"
  shows "orch_step\<^sup>*\<^sup>* s s' \<and> oc_lock s' = None \<and>
    oc_pc s' t = Some (Finished (if fine then Returned else Raised)) \<and>
    oc_slot s' = (if fine then Some r else if evicts then None else oc_slot s)"
  unfolding s'_def fine_def
  using run_acquire_run [OF assms(2,3)] run_acquire_result [OF _ _ assms(2,3)] reachable_inv [OF assms(1)] by blast

theorem acquire_completes_witness:
  "oc_slot (run_acquire True True True True True 1 gen_rid reasked) = Some gen_rid \<and>
   oc_slot (run_acquire True True True True False 1 gen_rid reasked) = None"
proof -
  have r: "orch_step\<^sup>*\<^sup>* (new_orchestrator 0) reasked"
    using started_run ungated_steps by (meson rtranclp.rtrancl_into_rtrancl)
  have s: "oc_pc reasked 1 = Some (AcqLock gen_rid)" "oc_lock reasked = None" "oc_slot reasked = Some reason_rid"
    by (simp_all add: reasked_def goto_def loaded_state)
  show ?thesis
    using acquire_completes [OF r s(1,2), of True True True True True]
      acquire_completes [OF r s(1,2), of True True True True False] s(3) by simp
qed

text \<open>
  An acquisition interrupted between starting its worker and recording it (the client of a
  reasoning stream disconnects while the plane loads) leaves the worker running and unrecorded: the
  slot reads cold, and the next acquisition starts a second worker beside it.
\<close>

theorem interrupted_load_leaks_worker:
  "\<exists>s1 s2. orch_step\<^sup>*\<^sup>* (new_orchestrator 0) started \<and> orch_step started s1 \<and>
     orch_step\<^sup>*\<^sup>* s1 s2 \<and> oc_slot s1 = None \<and> oc_lock s1 = None \<and> oc_live s2 = {0, 1}"
proof -
  let ?s1 = "load_interrupted 0 0 WasCancelled started"
  let ?c = "goto 1 (AcqLock gen_rid) ?s1"
  let ?s2 = "acquire_enter True 1 gen_rid ?c"
  note defs = load_interrupted_def let_go_def finish_def started_state
  have "orch_step started ?s1"
    by (rule acq_interrupted [of _ _ "AcqReady reason_rid 0"]) (auto simp: started_state)
  moreover have "orch_step ?s1 ?c" by (rule call_acquire) (simp add: defs)
  moreover have "orch_step ?c ?s2" by (rule acq_enter) (simp_all add: goto_def defs)
  moreover have "oc_live ?s2 = {0, 1}"
    by (subst cold_enter) (auto simp: goto_def defs)
  moreover have "oc_slot ?s1 = None" "oc_lock ?s1 = None" by (simp_all add: defs)
  ultimately show ?thesis
    using started_run by (blast intro: rtranclp.rtrancl_into_rtrancl r_into_rtranclp)
qed

text \<open>
  The VRAM gate guards only the load of the acquisition that evicted: after an eviction whose
  memory was not released (the gate fails and the acquisition raises), the next acquisition finds a
  cold slot and starts its worker without waiting, while the evicted one may still hold its memory.
\<close>

theorem vram_gate_bypassed:
  "orch_step\<^sup>*\<^sup>* (new_orchestrator 0) ungated \<and> oc_pc ungated 1 = Some (Finished Raised) \<and>
   oc_pc ungated 2 = Some (AcqStart gen_rid 1) \<and> oc_dirty ungated \<and> oc_live ungated = {0, 1}"
  by (rule conjI [OF ungated_run]) (simp add: ungated_state)

end
