(* ===== verification/Schemas.thy ===== *)
theory Schemas
  imports Py_Values
begin

text \<open>
  The data layer (\<open>api/app/schemas.py\<close>): the job status, the error body, the job view, the
  health body and the request bodies. Field names carry a prefix, since Isabelle records share
  one name space; the prefix is dropped in the code.
\<close>

datatype job_status = Queued | Running | Succeeded | Failed | Cancelled

definition status_value :: "job_status \<Rightarrow> string" where
  "status_value s = (case s of
     Queued \<Rightarrow> ''queued'' | Running \<Rightarrow> ''running'' | Succeeded \<Rightarrow> ''succeeded''
   | Failed \<Rightarrow> ''failed'' | Cancelled \<Rightarrow> ''cancelled'')"

definition all_statuses :: "job_status list" where
  "all_statuses = [Queued, Running, Succeeded, Failed, Cancelled]"

lemma in_all_statuses [simp]: "s \<in> set all_statuses"
  by (cases s) (simp_all add: all_statuses_def)

lemma status_value_inj [simp]: "status_value s = status_value t \<longleftrightarrow> s = t"
  by (cases s; cases t) (simp_all add: status_value_def)

text \<open>
  The life cycle orders the statuses: queued, running, then the three ends. The order is the
  one the enumeration lists them in.
\<close>

fun status_rank :: "job_status \<Rightarrow> nat" where
  "status_rank Queued = 0"
| "status_rank Running = 1"
| "status_rank Succeeded = 2"
| "status_rank Failed = 3"
| "status_rank Cancelled = 4"

lemma status_rank_inj: "status_rank s = status_rank t \<Longrightarrow> s = t"
  by (cases s; cases t) simp_all

instantiation job_status :: linorder
begin

definition less_eq_job_status :: "job_status \<Rightarrow> job_status \<Rightarrow> bool" where
  "s \<le> t \<longleftrightarrow> status_rank s \<le> status_rank t"

definition less_job_status :: "job_status \<Rightarrow> job_status \<Rightarrow> bool" where
  "s < t \<longleftrightarrow> status_rank s < status_rank t"

instance
  by standard (auto simp: less_eq_job_status_def less_job_status_def intro: status_rank_inj)

end

lemmas job_status_order = less_eq_job_status_def less_job_status_def

record error_model =
  em_code :: string
  em_message :: message
  em_details :: "params option"

record job_view =
  jv_id :: string
  jv_status :: job_status
  jv_mode :: string
  jv_created_at :: string
  jv_progress :: pyfloat
  jv_artifact_url :: "string option"
  jv_error :: "error_model option"
  jv_precision :: "pyval option"
  jv_trajectory_url :: "string option"

record health_status =
  hs_status :: string
  hs_detail :: "string option"

record inline_media =
  im_kind :: string
  im_data_base64 :: string

record job_submit =
  js_mode :: string
  js_params :: params
  js_media :: "inline_media option"

record generation_body =
  gb_prompt :: string
  gb_negative_prompt :: "string option"
  gb_resolution :: "int option"
  gb_height :: "int option"
  gb_width :: "int option"
  gb_num_frames :: "int option"
  gb_num_inference_steps :: "int option"
  gb_seed :: int
  gb_checkpoint :: "string option"
  gb_image_path :: "string option"
  gb_image :: "inline_media option"

record action_body =
  ab_domain_name :: string
  ab_chunk_size :: int
  ab_raw_actions :: "pyval list option"
  ab_resolution_tier :: int
  ab_view_point :: string
  ab_prompt :: "string option"
  ab_seed :: int
  ab_checkpoint :: "string option"
  ab_image_path :: "string option"
  ab_video_path :: "string option"
  ab_image :: "inline_media option"

record reasoning_body =
  rb_prompt :: string
  rb_image_path :: "string option"
  rb_video_path :: "string option"
  rb_max_output_tokens :: "int option"

end
