(* ===== verification/Job_Model.thy ===== *)
theory Job_Model
  imports Schemas Residency
begin

text \<open>
  The immutable job record and its life cycle (\<open>api/jobs/model.py\<close>): five transitions, each a
  copy of the record or a \<open>JobTransitionError\<close> carrying the offending pair of states.
\<close>

record job_record =
  jr_id :: string
  jr_mode :: string
  jr_plane :: plane
  jr_status :: job_status
  jr_created_at :: string
  jr_params :: params
  jr_progress :: pyfloat
  jr_artifact_path :: "string option"
  jr_error :: "error_model option"
  jr_fingerprint :: "string option"
  jr_result_meta :: "params option"

definition terminal :: "job_status \<Rightarrow> bool" where
  "terminal s \<longleftrightarrow> s \<in> {Succeeded, Failed, Cancelled}"

lemma terminal_simps [simp]:
  "\<not> terminal Queued" "\<not> terminal Running" "terminal Succeeded" "terminal Failed" "terminal Cancelled"
  by (simp_all add: terminal_def)

lemma not_terminal_iff: "\<not> terminal s \<longleftrightarrow> s = Queued \<or> s = Running"
  by (cases s) simp_all

datatype transition_error = JobTransitionError job_status job_status

definition new_job :: "string \<Rightarrow> string \<Rightarrow> plane \<Rightarrow> string \<Rightarrow> params \<Rightarrow> string option \<Rightarrow> job_record" where
  "new_job i mode pl created ps fp =
     \<lparr>jr_id = i, jr_mode = mode, jr_plane = pl, jr_status = Queued, jr_created_at = created,
      jr_params = ps, jr_progress = Finite 0, jr_artifact_path = None, jr_error = None,
      jr_fingerprint = fp, jr_result_meta = None\<rparr>"

definition clamp01 :: "pyfloat \<Rightarrow> pyfloat" where
  "clamp01 v = (if flt_lt v (Finite 0) then Finite 0
                else if flt_lt (Finite 1) v then Finite 1 else v)"

definition start :: "job_record \<Rightarrow> transition_error + job_record" where
  "start job =
     (if jr_status job \<noteq> Queued then Inl (JobTransitionError (jr_status job) Running)
      else Inr (job\<lparr>jr_status := Running\<rparr>))"

definition progress :: "job_record \<Rightarrow> pyfloat \<Rightarrow> transition_error + job_record" where
  "progress job fraction =
     (if jr_status job \<noteq> Running then Inl (JobTransitionError (jr_status job) Running)
      else Inr (job\<lparr>jr_progress := clamp01 fraction\<rparr>))"

definition succeed :: "job_record \<Rightarrow> string \<Rightarrow> params option \<Rightarrow> transition_error + job_record" where
  "succeed job artifact meta =
     (if jr_status job \<noteq> Running then Inl (JobTransitionError (jr_status job) Succeeded)
      else Inr (job\<lparr>jr_status := Succeeded, jr_artifact_path := Some artifact,
                    jr_progress := Finite 1, jr_result_meta := meta\<rparr>))"

definition fail :: "job_record \<Rightarrow> error_model \<Rightarrow> transition_error + job_record" where
  "fail job err =
     (if terminal (jr_status job) then Inl (JobTransitionError (jr_status job) Failed)
      else Inr (job\<lparr>jr_status := Failed, jr_error := Some err\<rparr>))"

definition cancel :: "job_record \<Rightarrow> transition_error + job_record" where
  "cancel job =
     (if terminal (jr_status job) then Inl (JobTransitionError (jr_status job) Cancelled)
      else Inr (job\<lparr>jr_status := Cancelled\<rparr>))"

lemmas transition_defs = start_def progress_def succeed_def fail_def cancel_def

section \<open>The life cycle as a step relation\<close>

inductive job_step :: "job_record \<Rightarrow> job_record \<Rightarrow> bool" where
  js_start: "start j = Inr j' \<Longrightarrow> job_step j j'"
| js_progress: "progress j f = Inr j' \<Longrightarrow> job_step j j'"
| js_succeed: "succeed j p m = Inr j' \<Longrightarrow> job_step j j'"
| js_fail: "fail j e = Inr j' \<Longrightarrow> job_step j j'"
| js_cancel: "cancel j = Inr j' \<Longrightarrow> job_step j j'"

inductive_simps job_step_iff: "job_step j j'"

text \<open>What the fields of a record say about each other, in every state of the life cycle.\<close>

definition job_wf :: "job_record \<Rightarrow> bool" where
  "job_wf j \<longleftrightarrow>
     (jr_status j = Succeeded \<longleftrightarrow> jr_artifact_path j \<noteq> None) \<and>
     (jr_status j = Succeeded \<longrightarrow> jr_progress j = Finite 1) \<and>
     (jr_status j = Failed \<longleftrightarrow> jr_error j \<noteq> None) \<and>
     (jr_result_meta j \<noteq> None \<longrightarrow> jr_status j = Succeeded) \<and>
     (jr_status j = Queued \<longrightarrow> jr_progress j = Finite 0) \<and>
     (flt_unit (jr_progress j) \<or> jr_progress j = NotANumber)"

lemma clamp01_range: "flt_unit (clamp01 v) \<or> v = NotANumber"
  by (cases v) (auto simp: clamp01_def)

lemma clamp01_unit: "clamp01 v \<noteq> NotANumber \<Longrightarrow> flt_unit (clamp01 v)"
  by (cases v) (auto simp: clamp01_def split: if_splits)

lemma clamp01_nan [simp]: "clamp01 NotANumber = NotANumber"
  by (simp add: clamp01_def)

lemma clamp01_id: "flt_unit v \<Longrightarrow> clamp01 v = v"
  by (cases v) (auto simp: clamp01_def)

lemma new_job_wf [inv_intros]: "job_wf (new_job i m pl c ps fp)"
  by (simp add: new_job_def job_wf_def)

lemma job_step_wf [inv_intros]: "job_step j j' \<Longrightarrow> job_wf j \<Longrightarrow> job_wf j'"
  by (auto simp: job_step_iff transition_defs job_wf_def clamp01_unit split: if_splits)

interpretation job_life: step_invariant job_step job_wf
  by unfold_locales (rule job_step_wf)

text \<open>Terminal records are final, and no step leaves them.\<close>

lemma terminal_no_step: "terminal (jr_status j) \<Longrightarrow> \<not> job_step j j'"
  by (auto simp: job_step_iff transition_defs terminal_def split: if_splits)

lemma job_step_status_mono: "job_step j j' \<Longrightarrow> jr_status j \<le> jr_status j'"
  by (auto simp: job_step_iff transition_defs not_terminal_iff job_status_order split: if_splits)

definition job_identity :: "job_record \<Rightarrow> string \<times> string \<times> plane \<times> string \<times> params \<times> string option" where
  "job_identity j = (jr_id j, jr_mode j, jr_plane j, jr_created_at j, jr_params j, jr_fingerprint j)"

lemma job_step_identity: "job_step j j' \<Longrightarrow> job_identity j' = job_identity j"
  by (auto simp: job_step_iff transition_defs job_identity_def split: if_splits)

interpretation job_status_mono: step_monotone job_step jr_status "(\<le>)"
  by unfold_locales (auto intro: job_step_status_mono)

interpretation job_identity_kept: step_monotone job_step job_identity "(=)"
  by unfold_locales (auto dest: job_step_identity)

lemma terminal_run: "rtranclp job_step j k \<Longrightarrow> terminal (jr_status j) \<Longrightarrow> k = j"
  by (induction rule: rtranclp_induct) (auto dest: terminal_no_step)

end
