(* ===== verification/Job_Store.thy ===== *)
theory Job_Store
  imports Job_Model
begin

text \<open>
  The event log of a job (\<open>api/jobs/events.py\<close>) and the in-memory job store with its
  idempotency registry (\<open>api/jobs/store.py\<close>). Every operation runs under the store's lock, so
  each is one atomic function of the state. The id factory and the clock are injected in the
  source: the values they return are arguments here. The content hash (\<open>fingerprint\<close>) is the
  SHA-256 of a canonical JSON text; \<open>digest\<close> and \<open>dumps_sorted\<close> stand for the two library calls.
\<close>

section \<open>Events\<close>

record job_event =
  jev_id :: nat
  jev_type :: string
  jev_data :: params

definition PROGRESS :: string where "PROGRESS = ''progress''"
definition HEARTBEAT :: string where "HEARTBEAT = ''heartbeat''"

definition events_since :: "job_event list \<Rightarrow> nat option \<Rightarrow> job_event list" where
  "events_since evs last_event_id = (case last_event_id of
     None \<Rightarrow> evs
   | Some k \<Rightarrow> filter (\<lambda>e. k < jev_id e) evs)"

section \<open>The store\<close>

datatype job_exc =
  JobNotFound string
| IdempotencyConflict string
| IllegalTransition transition_error
| DanglingKey string

record store =
  st_jobs :: "(string, job_record) dict"
  st_events :: "(string, job_event list) dict"
  st_seq :: "(string, nat) dict"
  st_idem :: "(string, string) dict"

definition EVENT_LOG_BOUND :: nat where "EVENT_LOG_BOUND = 1024"

definition empty_store :: store where
  "empty_store = \<lparr>st_jobs = [], st_events = [], st_seq = [], st_idem = []\<rparr>"

definition fingerprint :: "(string \<Rightarrow> string) \<Rightarrow> (pyval \<Rightarrow> string) \<Rightarrow> string \<Rightarrow> params \<Rightarrow> string" where
  "fingerprint digest dumps_sorted mode ps =
     digest (dumps_sorted (PDict [(''mode'', PStr mode), (''params'', PDict ps)]))"

text \<open>A \<open>deque(maxlen=1024)\<close> drops from the left when it is full.\<close>

definition deque_append :: "job_event list \<Rightarrow> job_event \<Rightarrow> job_event list" where
  "deque_append d e = last_n EVENT_LOG_BOUND (d @ [e])"

definition append_event_locked :: "string \<Rightarrow> string \<Rightarrow> params \<Rightarrow> store \<Rightarrow> job_event \<times> store" where
  "append_event_locked job_id event_type data st =
     (let seq = (case dict_get (st_seq st) job_id of None \<Rightarrow> 0 | Some n \<Rightarrow> n) + 1;
          event = \<lparr>jev_id = seq, jev_type = event_type, jev_data = data\<rparr>;
          d = (case dict_get (st_events st) job_id of None \<Rightarrow> [] | Some d \<Rightarrow> d)
      in (event, st\<lparr>st_seq := dict_set job_id seq (st_seq st),
                    st_events := dict_set job_id (deque_append d event) (st_events st)\<rparr>))"

definition append_event :: "string \<Rightarrow> string \<Rightarrow> params option \<Rightarrow> store \<Rightarrow> job_event \<times> store" where
  "append_event job_id event_type data st =
     append_event_locked job_id event_type (case data of None \<Rightarrow> [] | Some d \<Rightarrow> d) st"

definition store_submit ::
  "(string \<Rightarrow> params \<Rightarrow> string) \<Rightarrow> string \<Rightarrow> string \<Rightarrow> string \<Rightarrow> plane \<Rightarrow> params \<Rightarrow> string option
     \<Rightarrow> store \<Rightarrow> job_exc + ((job_record \<times> bool) \<times> store)" where
  "store_submit fpr new_id now mode pl ps key st =
     (let fp = fpr mode ps;
          create =
            (let record = new_job new_id mode pl now ps (if key \<noteq> None then Some fp else None);
                 st1 = st\<lparr>st_jobs := dict_set new_id record (st_jobs st),
                          st_events := dict_set new_id [] (st_events st),
                          st_seq := dict_set new_id 0 (st_seq st)\<rparr>;
                 st2 = (case key of None \<Rightarrow> st1
                        | Some k \<Rightarrow> st1\<lparr>st_idem := dict_set k new_id (st_idem st1)\<rparr>);
                 st3 = snd (append_event_locked new_id (status_value Queued) [] st2)
             in Inr ((record, False), st3))
      in case key of
           None \<Rightarrow> create
         | Some k \<Rightarrow>
             (case dict_get (st_idem st) k of
                None \<Rightarrow> create
              | Some jid \<Rightarrow>
                  (case dict_get (st_jobs st) jid of
                     None \<Rightarrow> Inl (DanglingKey k)
                   | Some existing \<Rightarrow>
                       if jr_fingerprint existing = Some fp then Inr ((existing, True), st)
                       else Inl (IdempotencyConflict k))))"

definition store_get :: "store \<Rightarrow> string \<Rightarrow> job_exc + job_record" where
  "store_get st job_id = (case dict_get (st_jobs st) job_id of
     None \<Rightarrow> Inl (JobNotFound job_id) | Some r \<Rightarrow> Inr r)"

definition store_try_get :: "store \<Rightarrow> string \<Rightarrow> job_record option" where
  "store_try_get st job_id = dict_get (st_jobs st) job_id"

definition store_put :: "job_record \<Rightarrow> store \<Rightarrow> store" where
  "store_put r st = st\<lparr>st_jobs := dict_set (jr_id r) r (st_jobs st)\<rparr>"

definition store_update ::
  "string \<Rightarrow> (job_record \<Rightarrow> transition_error + job_record) \<Rightarrow> store
     \<Rightarrow> job_exc + (job_record \<times> store)" where
  "store_update job_id fn st = (case dict_get (st_jobs st) job_id of
     None \<Rightarrow> Inl (JobNotFound job_id)
   | Some r \<Rightarrow>
       (case fn r of
          Inl e \<Rightarrow> Inl (IllegalTransition e)
        | Inr r' \<Rightarrow> Inr (r', st\<lparr>st_jobs := dict_set job_id r' (st_jobs st)\<rparr>)))"

definition store_log :: "store \<Rightarrow> string \<Rightarrow> job_exc + job_event list" where
  "store_log st job_id = (case dict_get (st_jobs st) job_id of
     None \<Rightarrow> Inl (JobNotFound job_id)
   | Some _ \<Rightarrow> Inr (case dict_get (st_events st) job_id of None \<Rightarrow> [] | Some d \<Rightarrow> d))"


section \<open>The abstract job board\<close>

text \<open>
  What the store promises, without the bound on its logs: a map of jobs, the whole history of
  each job's events (numbered from 1), and the registry of idempotency keys.
\<close>

record job_board =
  jb_jobs :: "string \<rightharpoonup> job_record"
  jb_hist :: "string \<rightharpoonup> job_event list"
  jb_idem :: "string \<rightharpoonup> string"

definition numbered :: "job_event list \<Rightarrow> bool" where
  "numbered h \<longleftrightarrow> map jev_id h = [1..<Suc (length h)]"

definition board_wf :: "job_board \<Rightarrow> bool" where
  "board_wf jb \<longleftrightarrow>
     (\<forall>i r. jb_jobs jb i = Some r \<longrightarrow> jr_id r = i \<and> job_wf r \<and> jb_hist jb i \<noteq> None) \<and>
     (\<forall>i h. jb_hist jb i = Some h \<longrightarrow> numbered h) \<and>
     (\<forall>k i. jb_idem jb k = Some i \<longrightarrow> (\<exists>r. jb_jobs jb i = Some r \<and> jr_fingerprint r \<noteq> None))"

definition board_append :: "string \<Rightarrow> string \<Rightarrow> params \<Rightarrow> job_board \<Rightarrow> job_board" where
  "board_append i ty data jb =
     (let h = (case jb_hist jb i of None \<Rightarrow> [] | Some h \<Rightarrow> h)
      in jb\<lparr>jb_hist := (jb_hist jb)(i \<mapsto> h @ [\<lparr>jev_id = Suc (length h), jev_type = ty, jev_data = data\<rparr>])\<rparr>)"

definition board_create :: "job_record \<Rightarrow> string option \<Rightarrow> job_board \<Rightarrow> job_board" where
  "board_create r key jb =
     board_append (jr_id r) (status_value Queued) []
       (jb\<lparr>jb_jobs := (jb_jobs jb)(jr_id r \<mapsto> r), jb_hist := (jb_hist jb)(jr_id r \<mapsto> []),
          jb_idem := (case key of None \<Rightarrow> jb_idem jb | Some k \<Rightarrow> (jb_idem jb)(k \<mapsto> jr_id r))\<rparr>)"

definition store_refines :: "store \<Rightarrow> job_board \<Rightarrow> bool" where
  "store_refines st jb \<longleftrightarrow>
     (\<forall>i. dict_get (st_jobs st) i = jb_jobs jb i) \<and>
     (\<forall>k. dict_get (st_idem st) k = jb_idem jb k) \<and>
     (\<forall>i. dict_get (st_seq st) i = map_option length (jb_hist jb i)) \<and>
     (\<forall>i. dict_get (st_events st) i = map_option (last_n EVENT_LOG_BOUND) (jb_hist jb i))"

lemma EVENT_LOG_BOUND_pos [simp]: "0 < EVENT_LOG_BOUND"
  by (simp add: EVENT_LOG_BOUND_def)

lemma last_n_snoc_last_n: "0 < n \<Longrightarrow> last_n n (last_n n xs @ [x]) = last_n n (xs @ [x])"
  by (simp add: last_n_snoc last_n_last_n)

lemma numbered_Nil [simp]: "numbered []"
  by (simp add: numbered_def)

lemma numbered_snoc: "numbered h \<Longrightarrow> numbered (h @ [\<lparr>jev_id = Suc (length h), jev_type = t, jev_data = d\<rparr>])"
  by (simp add: numbered_def)

lemma append_refines:
  "store_refines st jb \<Longrightarrow>
     store_refines (snd (append_event_locked i ty data st)) (board_append i ty data jb)"
  by (auto simp: store_refines_def append_event_locked_def board_append_def deque_append_def Let_def
        last_n_snoc_last_n split: option.splits)

lemma append_event_id:
  "store_refines st jb \<Longrightarrow>
     jev_id (fst (append_event_locked i ty data st)) =
       Suc (case jb_hist jb i of None \<Rightarrow> 0 | Some h \<Rightarrow> length h)"
  by (auto simp: store_refines_def append_event_locked_def Let_def split: option.splits)

lemma board_append_wf:
  "board_wf jb \<Longrightarrow> board_wf (board_append i ty data jb)"
  by (auto simp: board_wf_def board_append_def Let_def intro: numbered_snoc
        split: option.splits if_splits)
     (simp add: numbered_def)+


lemma board_create_wf:
  assumes "board_wf jb" "job_wf r" "jb_jobs jb (jr_id r) = None"
    and "key \<noteq> None \<longrightarrow> jr_fingerprint r \<noteq> None"
  shows "board_wf (board_create r key jb)"
proof -
  have "board_wf (jb\<lparr>jb_jobs := (jb_jobs jb)(jr_id r \<mapsto> r), jb_hist := (jb_hist jb)(jr_id r \<mapsto> []),
          jb_idem := (case key of None \<Rightarrow> jb_idem jb | Some k \<Rightarrow> (jb_idem jb)(k \<mapsto> jr_id r))\<rparr>)"
    using assms by (auto simp: board_wf_def split: option.splits) fastforce+
  then show ?thesis
    unfolding board_create_def by (rule board_append_wf)
qed

definition board_update :: "job_record \<Rightarrow> job_board \<Rightarrow> job_board" where
  "board_update r jb = jb\<lparr>jb_jobs := (jb_jobs jb)(jr_id r \<mapsto> r)\<rparr>"

lemma board_update_wf:
  "board_wf jb \<Longrightarrow> jb_jobs jb (jr_id r) = Some q \<Longrightarrow> job_wf r \<Longrightarrow>
     jr_fingerprint r = jr_fingerprint q \<Longrightarrow> board_wf (board_update r jb)"
  by (fastforce simp: board_wf_def board_update_def)

section \<open>Refinement of the store's operations\<close>

lemma refines_get: "store_refines st jb \<Longrightarrow> dict_get (st_jobs st) i = jb_jobs jb i"
  by (simp add: store_refines_def)

lemma refines_idem: "store_refines st jb \<Longrightarrow> dict_get (st_idem st) k = jb_idem jb k"
  by (simp add: store_refines_def)

lemma create_refines:
  assumes "store_refines st jb"
  shows "store_refines
    (snd (append_event_locked i (status_value Queued) []
       (case key of
          None \<Rightarrow> st\<lparr>st_jobs := dict_set i r (st_jobs st), st_events := dict_set i [] (st_events st),
                     st_seq := dict_set i 0 (st_seq st)\<rparr>
        | Some k \<Rightarrow> st\<lparr>st_jobs := dict_set i r (st_jobs st), st_events := dict_set i [] (st_events st),
                     st_seq := dict_set i 0 (st_seq st), st_idem := dict_set k i (st_idem st)\<rparr>)))
    (board_append i (status_value Queued) []
       (jb\<lparr>jb_jobs := (jb_jobs jb)(i \<mapsto> r), jb_hist := (jb_hist jb)(i \<mapsto> []),
          jb_idem := (case key of None \<Rightarrow> jb_idem jb | Some k \<Rightarrow> (jb_idem jb)(k \<mapsto> i))\<rparr>))"
  using assms by (intro append_refines) (auto simp: store_refines_def split: option.splits)

text \<open>The three outcomes of a submission, told by the board.\<close>

definition board_submit ::
  "(string \<Rightarrow> params \<Rightarrow> string) \<Rightarrow> string \<Rightarrow> string \<Rightarrow> string \<Rightarrow> plane \<Rightarrow> params \<Rightarrow> string option
     \<Rightarrow> job_board \<Rightarrow> job_exc + ((job_record \<times> bool) \<times> job_board)" where
  "board_submit fpr new_id now mode pl ps key jb =
     (let fp = fpr mode ps;
          fresh = new_job new_id mode pl now ps (map_option (\<lambda>_. fp) key)
      in case Option.bind key (jb_idem jb) of
           None \<Rightarrow> Inr ((fresh, False), board_create fresh key jb)
         | Some jid \<Rightarrow>
             (case jb_jobs jb jid of
                None \<Rightarrow> Inl (DanglingKey (the key))
              | Some old \<Rightarrow> if jr_fingerprint old = Some fp then Inr ((old, True), jb)
                            else Inl (IdempotencyConflict (the key))))"

definition result_refines ::
  "job_exc + ('a \<times> store) \<Rightarrow> job_exc + ('a \<times> job_board) \<Rightarrow> bool" where
  "result_refines c a = (case (c, a) of
     (Inl e, Inl e') \<Rightarrow> e = e'
   | (Inr (x, st), Inr (y, jb)) \<Rightarrow> x = y \<and> store_refines st jb
   | _ \<Rightarrow> False)"

lemma submit_refines:
  assumes "store_refines st jb"
  shows "result_refines (store_submit fpr i now mode pl ps key st) (board_submit fpr i now mode pl ps key jb)"
proof (cases key)
  case None
  then show ?thesis
    using create_refines [OF assms, where key = None and i = i]
    by (simp add: store_submit_def board_submit_def board_create_def new_job_def result_refines_def Let_def)
next
  case (Some k)
  show ?thesis
  proof (cases "jb_idem jb k")
    case None
    with Some show ?thesis
      using create_refines [OF assms, where key = "Some k" and i = i] refines_idem [OF assms, of k]
      by (simp add: store_submit_def board_submit_def board_create_def new_job_def result_refines_def Let_def)
  next
    case (Some jid)
    with \<open>key = Some k\<close> show ?thesis
      using refines_idem [OF assms, of k] refines_get [OF assms, of jid] assms
      by (simp add: store_submit_def board_submit_def result_refines_def Let_def split: option.splits)
  qed
qed

definition board_modify ::
  "string \<Rightarrow> (job_record \<Rightarrow> transition_error + job_record) \<Rightarrow> job_board
     \<Rightarrow> job_exc + (job_record \<times> job_board)" where
  "board_modify i fn jb = (case jb_jobs jb i of
     None \<Rightarrow> Inl (JobNotFound i)
   | Some r \<Rightarrow> (case fn r of
        Inl e \<Rightarrow> Inl (IllegalTransition e)
      | Inr r' \<Rightarrow> Inr (r', jb\<lparr>jb_jobs := (jb_jobs jb)(i \<mapsto> r')\<rparr>)))"

lemma update_refines:
  assumes "store_refines st jb"
  shows "result_refines (store_update i fn st) (board_modify i fn jb)"
  using assms
  by (auto simp: store_update_def board_modify_def result_refines_def store_refines_def
        split: option.splits sum.splits)

section \<open>Replay\<close>

lemma numbered_ids: "numbered h \<Longrightarrow> n < length h \<Longrightarrow> jev_id (h ! n) = Suc n"
proof -
  assume "numbered h" "n < length h"
  then have "map jev_id h ! n = [1..<Suc (length h)] ! n" by (simp add: numbered_def)
  with \<open>n < length h\<close> show ?thesis by (simp del: upt_Suc)
qed

lemma numbered_filter:
  assumes "numbered h"
  shows "filter (\<lambda>e. k < jev_id e) h = drop k h"
proof -
  have "filter (\<lambda>e. k < jev_id e) (take k h) = []"
    using numbered_ids [OF assms] by (auto simp: filter_empty_conv in_set_conv_nth)
  moreover have "filter (\<lambda>e. k < jev_id e) (drop k h) = drop k h"
    using numbered_ids [OF assms] by (auto simp: filter_id_conv in_set_conv_nth)
  ultimately show ?thesis
    by (metis append_take_drop_id append_Nil filter_append)
qed

lemma events_since_window:
  assumes "numbered h"
  shows "events_since (last_n b h) (Some k) = drop (max k (length h - b)) h"
proof -
  have "last_n b h = filter (\<lambda>e. length h - b < jev_id e) h"
    by (simp add: last_n_def numbered_filter [OF assms])
  then have "events_since (last_n b h) (Some k) = filter (\<lambda>e. max k (length h - b) < jev_id e) h"
    by (auto simp: events_since_def intro: filter_cong)
  then show ?thesis by (simp only: numbered_filter [OF assms])
qed

section \<open>The registry interface\<close>

text \<open>
  What the job runner relies on of a store: reading a record, an atomic read-modify-write of one
  record, and appending an event, which touches no record.
\<close>

locale job_registry =
  fixes lookup :: "'s \<Rightarrow> string \<Rightarrow> job_record option"
    and modify_job :: "string \<Rightarrow> (job_record \<Rightarrow> transition_error + job_record) \<Rightarrow> 's
      \<Rightarrow> job_exc + (job_record \<times> 's)"
    and note_event :: "string \<Rightarrow> string \<Rightarrow> params \<Rightarrow> 's \<Rightarrow> 's"
  assumes modify_missing: "lookup s i = None \<Longrightarrow> modify_job i fn s = Inl (JobNotFound i)"
    and modify_illegal: "lookup s i = Some r \<Longrightarrow> fn r = Inl e \<Longrightarrow> modify_job i fn s = Inl (IllegalTransition e)"
    and modify_legal: "lookup s i = Some r \<Longrightarrow> fn r = Inr r' \<Longrightarrow>
      \<exists>s'. modify_job i fn s = Inr (r', s') \<and> lookup s' = (lookup s)(i \<mapsto> r')"
    and note_keeps [simp]: "lookup (note_event i ty d s) = lookup s"
begin

lemma modify_Inr:
  assumes "modify_job i fn s = Inr (r', s')"
  shows "\<exists>r. lookup s i = Some r \<and> fn r = Inr r' \<and> lookup s' = (lookup s)(i \<mapsto> r')"
proof (cases "lookup s i")
  case None
  then show ?thesis using assms modify_missing by fastforce
next
  case (Some r)
  then show ?thesis
    using assms modify_illegal [OF Some] modify_legal [OF Some] by (cases "fn r") fastforce+
qed

lemma modify_rejected:
  "lookup s i = Some r \<Longrightarrow> modify_job i fn s = Inl x \<Longrightarrow> \<exists>e. fn r = Inl e \<and> x = IllegalTransition e"
  using modify_illegal modify_legal by (cases "fn r") fastforce+

lemma modify_lifecycle:
  assumes "modify_job i fn s = Inr (r', s')" and "\<And>r r'. fn r = Inr r' \<Longrightarrow> job_step\<^sup>*\<^sup>* r r'"
    and "lookup s j = Some q"
  shows "\<exists>q'. lookup s' j = Some q' \<and> job_step\<^sup>*\<^sup>* q q'"
  using modify_Inr [OF assms(1)] assms(2,3) by auto

end

definition note_store :: "string \<Rightarrow> string \<Rightarrow> params \<Rightarrow> store \<Rightarrow> store" where
  "note_store i ty d st = snd (append_event i ty (Some d) st)"

interpretation registry: job_registry "\<lambda>st. dict_get (st_jobs st)" store_update note_store
  by unfold_locales
     (auto simp: store_update_def note_store_def append_event_def append_event_locked_def Let_def)

interpretation board_registry: job_registry jb_jobs board_modify board_append
  by unfold_locales (auto simp: board_modify_def board_append_def Let_def)

end
