(* ===== verification/Trust_Paths.thy ===== *)
theory Trust_Paths
  imports Py_Values "HOL-Library.Word"
begin

text \<open>
  The trust boundary on paths (\<open>api/preprocessing/paths.py\<close>) and the artifact files named from job
  ids (\<open>api/jobs/artifacts.py\<close>). \<open>realpath\<close> is \<open>os.path.realpath\<close> of the machine's file system,
  an argument of the model; what the code relies on is that it yields canonical absolute paths.
\<close>

type_synonym byte = "8 word"

section \<open>Containment\<close>

datatype path_exc = UntrustedPathError string "string list"

definition is_letter :: "char \<Rightarrow> bool" where
  "is_letter c = (let n = of_char c :: nat in (65 \<le> n \<and> n \<le> 90) \<or> (97 \<le> n \<and> n \<le> 122))"

definition is_digit :: "char \<Rightarrow> bool" where
  "is_digit c = (let n = of_char c :: nat in 48 \<le> n \<and> n \<le> 57)"

text \<open>The regular expression \<open>^[a-zA-Z][a-zA-Z0-9+.\-]*://\<close>; its class has no colon.\<close>

definition url_scheme :: "string \<Rightarrow> bool" where
  "url_scheme s = (case s of
     [] \<Rightarrow> False
   | c # cs \<Rightarrow> is_letter c \<and>
       prefix ''://'' (dropWhile (\<lambda>d. is_letter d \<or> is_digit d \<or> d \<in> set ''+.-'') cs))"

definition is_within :: "string \<Rightarrow> string \<Rightarrow> bool" where
  "is_within candidate_real root_real \<longleftrightarrow>
     candidate_real = root_real \<or> prefix (root_real @ ''/'') candidate_real"

fun first_root :: "(string \<Rightarrow> string) \<Rightarrow> string \<Rightarrow> string list \<Rightarrow> bool" where
  "first_root realpath cand [] = False"
| "first_root realpath cand (r # rs) = (is_within cand (realpath r) \<or> first_root realpath cand rs)"

definition resolve_within :: "(string \<Rightarrow> string) \<Rightarrow> string \<Rightarrow> string list \<Rightarrow> path_exc + string" where
  "resolve_within realpath path allowlist =
     (if CHR 0x00 \<in> set path \<or> url_scheme path then Inl (UntrustedPathError path allowlist)
      else if first_root realpath (realpath path) allowlist then Inr (realpath path)
      else Inl (UntrustedPathError path allowlist))"

section \<open>Canonical paths\<close>

definition component_ok :: "string \<Rightarrow> bool" where
  "component_ok c \<longleftrightarrow> c \<noteq> [] \<and> CHR ''/'' \<notin> set c \<and> c \<noteq> ''.'' \<and> c \<noteq> ''..''"

definition encode_path :: "string list \<Rightarrow> string" where
  "encode_path cs = concat (map (\<lambda>c. CHR ''/'' # c) cs)"

definition path_of :: "string list \<Rightarrow> string" where
  "path_of cs = (if cs = [] then ''/'' else encode_path cs)"

text \<open>What \<open>realpath\<close> returns: an absolute path of proper components, no \<open>.\<close> and no \<open>..\<close>.\<close>

definition canonical :: "string \<Rightarrow> bool" where
  "canonical p \<longleftrightarrow> (\<exists>cs. list_all component_ok cs \<and> p = path_of cs)"

definition realpath_lawful :: "(string \<Rightarrow> string) \<Rightarrow> bool" where
  "realpath_lawful realpath \<longleftrightarrow> (\<forall>p. canonical (realpath p))"

lemma encode_path_simps [simp]:
  "encode_path [] = []" "encode_path (c # cs) = CHR ''/'' # c @ encode_path cs"
  by (simp_all add: encode_path_def)

lemma split_component:
  assumes "CHR ''/'' \<notin> set a" "CHR ''/'' \<notin> set b" "xs = [] \<or> hd xs = CHR ''/''" "ys = [] \<or> hd ys = CHR ''/''"
    and "a @ xs = b @ ys"
  shows "a = b \<and> xs = ys"
proof -
  have "takeWhile (\<lambda>c. c \<noteq> CHR ''/'') (a @ xs) = a" if "CHR ''/'' \<notin> set a" "xs = [] \<or> hd xs = CHR ''/''" for a xs
    using that by (cases xs) (auto simp: takeWhile_append)
  with assms have "a = b" by metis
  with assms(5) show ?thesis by simp
qed

lemma encode_path_hd: "encode_path cs = [] \<or> hd (encode_path cs) = CHR ''/''"
  by (cases cs) auto

lemma encode_prefix_iff:
  assumes "list_all component_ok as" "list_all component_ok bs"
  shows "(encode_path as = encode_path bs \<or> prefix (encode_path bs @ ''/'') (encode_path as)) \<longleftrightarrow> prefix bs as"
  using assms
proof (induction bs arbitrary: as)
  case Nil
  then show ?case by (cases as) auto
next
  case (Cons b bs)
  show ?case
  proof (cases as)
    case Nil
    then show ?thesis by simp
  next
    case (Cons a as')
    have ok: "CHR ''/'' \<notin> set a" "CHR ''/'' \<notin> set b" "list_all component_ok as'" "list_all component_ok bs"
      using Cons Cons.prems by (simp_all add: component_ok_def [of a] component_ok_def [of b])
    have eq: "a @ encode_path as' = b @ encode_path bs \<longleftrightarrow> a = b \<and> encode_path as' = encode_path bs"
      using split_component [OF ok(1,2) encode_path_hd encode_path_hd] by blast
    have pre: "prefix (b @ encode_path bs @ ''/'') (a @ encode_path as') \<longleftrightarrow>
        a = b \<and> prefix (encode_path bs @ ''/'') (encode_path as')"
    proof
      assume "prefix (b @ encode_path bs @ ''/'') (a @ encode_path as')"
      then obtain z where z: "a @ encode_path as' = b @ (encode_path bs @ ''/'' @ z)" by (auto simp: prefix_def)
      have "encode_path bs @ ''/'' @ z = [] \<or> hd (encode_path bs @ ''/'' @ z) = CHR ''/''"
        by (cases bs) auto
      from split_component [OF ok(1,2) encode_path_hd this z]
      show "a = b \<and> prefix (encode_path bs @ ''/'') (encode_path as')" by (auto simp: prefix_def)
    qed auto
    show ?thesis using Cons eq pre Cons.IH [OF ok(3,4)] by auto
  qed
qed

lemma is_within_path_of:
  assumes "list_all component_ok as" "list_all component_ok bs" "bs \<noteq> []"
  shows "is_within (path_of as) (path_of bs) \<longleftrightarrow> prefix bs as"
proof (cases "as = []")
  case True
  obtain b bs' where "bs = b # bs'" using assms(3) by (cases bs) auto
  with assms(2) True show ?thesis by (auto simp: is_within_def path_of_def component_ok_def)
next
  case False
  then show ?thesis using encode_prefix_iff [OF assms(1,2)] assms(3) by (simp add: is_within_def path_of_def)
qed

lemma first_root_iff: "first_root realpath c rs \<longleftrightarrow> (\<exists>r\<in>set rs. is_within c (realpath r))"
  by (induction rs) auto

lemma resolve_within_Inr:
  "resolve_within realpath p al = Inr r \<longleftrightarrow>
     r = realpath p \<and> CHR 0x00 \<notin> set p \<and> \<not> url_scheme p \<and> (\<exists>root\<in>set al. is_within r (realpath root))"
  by (auto simp: resolve_within_def first_root_iff)

section \<open>Artifacts\<close>

definition DEFAULT_ARTIFACTS_DIR :: string where "DEFAULT_ARTIFACTS_DIR = ''/srv/artifacts''"

definition artifacts_dir :: "(string, string) dict \<Rightarrow> string" where
  "artifacts_dir environ =
     (case dict_get environ ''ARTIFACTS_DIR'' of None \<Rightarrow> DEFAULT_ARTIFACTS_DIR | Some d \<Rightarrow> d)"

definition safe_char :: "char \<Rightarrow> bool" where
  "safe_char c \<longleftrightarrow> is_letter c \<or> is_digit c \<or> c = CHR ''_'' \<or> c = CHR ''-''"

definition safe_name :: "string \<Rightarrow> string" where
  "safe_name job_id =
     (let s = map (\<lambda>c. if safe_char c then c else CHR ''_'') job_id
      in if s \<noteq> [] then s else ''artifact'')"

definition path_join :: "string \<Rightarrow> string \<Rightarrow> string" where
  "path_join d n =
     (if n \<noteq> [] \<and> hd n = CHR ''/'' then n
      else if d = [] \<or> last d = CHR ''/'' then d @ n else d @ ''/'' @ n)"

text \<open>\<open>directory or artifacts_dir()\<close>.\<close>

definition artifact_root :: "(string, string) dict \<Rightarrow> string option \<Rightarrow> string" where
  "artifact_root environ directory =
     (case directory of Some d \<Rightarrow> if d \<noteq> [] then d else artifacts_dir environ | None \<Rightarrow> artifacts_dir environ)"

definition artifact_path_for ::
  "(string \<Rightarrow> string) \<Rightarrow> (string, string) dict \<Rightarrow> string \<Rightarrow> string option \<Rightarrow> string \<Rightarrow> path_exc + string" where
  "artifact_path_for realpath environ job_id directory ext =
     (let d = artifact_root environ directory;
          candidate = path_join d (safe_name job_id @ ''.'' @ ext)
      in resolve_within realpath candidate [d])"

text \<open>Files are a map from paths to their bytes; creating the directory is not recorded.\<close>

type_synonym files = "string \<rightharpoonup> byte list"

definition write_video_bytes ::
  "(string \<Rightarrow> string) \<Rightarrow> (string, string) dict \<Rightarrow> byte list \<Rightarrow> string \<Rightarrow> string option \<Rightarrow> files
     \<Rightarrow> path_exc + (string \<times> files)" where
  "write_video_bytes realpath environ data job_id directory fs =
     mapE (\<lambda>path. (path, fs(path \<mapsto> data))) (artifact_path_for realpath environ job_id directory ''mp4'')"

definition write_stub ::
  "byte list \<Rightarrow> (string \<Rightarrow> string) \<Rightarrow> (string, string) dict \<Rightarrow> string \<Rightarrow> string option \<Rightarrow> files
     \<Rightarrow> path_exc + (string \<times> files)" where
  "write_stub stub_png realpath environ job_id directory fs =
     mapE (\<lambda>path. (path, fs(path \<mapsto> stub_png))) (artifact_path_for realpath environ job_id directory ''png'')"

definition fetch ::
  "(string \<Rightarrow> string) \<Rightarrow> (string, string) dict \<Rightarrow> string \<Rightarrow> string option \<Rightarrow> files
     \<Rightarrow> path_exc + (string \<times> string) option" where
  "fetch realpath environ job_id directory fs =
     mapE (\<lambda>path. if fs path \<noteq> None then Some (path, ''image/png'') else None)
       (artifact_path_for realpath environ job_id directory ''png'')"

lemma safe_char_simps [simp]: "safe_char CHR ''_''" "\<not> safe_char CHR ''/''" "\<not> safe_char CHR ''.''"
  by (simp_all add: safe_char_def is_letter_def is_digit_def)

lemma safe_artifact: "list_all safe_char ''artifact''"
  by (simp add: safe_char_def is_letter_def)

lemma safe_name_chars: "list_all safe_char (safe_name i)"
  using safe_artifact by (auto simp: safe_name_def Let_def list_all_iff)

lemma safe_name_nonempty: "safe_name i \<noteq> []"
  by (simp add: safe_name_def Let_def)

lemma safe_name_component:
  assumes "CHR ''/'' \<notin> set ext" "ext \<noteq> []" "hd ext \<noteq> CHR ''.''"
  shows "component_ok (safe_name i @ ''.'' @ ext)"
proof -
  obtain c cs where n: "safe_name i = c # cs" using safe_name_nonempty by (cases "safe_name i") blast
  have "CHR ''/'' \<notin> set (safe_name i)"
    using safe_name_chars [of i] safe_char_simps(2) by (auto simp: list_all_iff)
  moreover have "c \<noteq> CHR ''.''"
    using safe_name_chars [of i] n safe_char_simps(3) by (auto simp: list_all_iff)
  ultimately show ?thesis using assms n by (auto simp: component_ok_def)
qed

section \<open>Components of a path\<close>

fun components_from :: "string \<Rightarrow> string \<Rightarrow> string list" where
  "components_from acc [] = (if acc = [] then [] else [rev acc])"
| "components_from acc (c # cs) =
     (if c = CHR ''/'' then (if acc = [] then components_from [] cs else rev acc # components_from [] cs)
      else components_from (c # acc) cs)"

definition components :: "string \<Rightarrow> string list" where
  "components p = components_from [] p"

lemma components_from_append:
  "CHR ''/'' \<notin> set a \<Longrightarrow> components_from acc (a @ xs) = components_from (rev a @ acc) xs"
  by (induction a arbitrary: acc) auto

lemma components_from_encode:
  "list_all component_ok cs \<Longrightarrow> acc = [] \<or> acc = rev c \<and> c \<noteq> [] \<Longrightarrow>
   components_from acc (encode_path cs) = (if acc = [] then cs else rev acc # cs)"
proof (induction cs arbitrary: acc c)
  case (Cons d cs)
  then have d: "CHR ''/'' \<notin> set d" "d \<noteq> []" "list_all component_ok cs"
    by (simp_all add: component_ok_def [of d])
  then have "components_from [] (d @ encode_path cs) = d # cs"
    using Cons.IH [of "rev d" d] by (simp add: components_from_append)
  then show ?case by simp
qed auto

lemma components_path_of: "list_all component_ok cs \<Longrightarrow> components (path_of cs) = cs"
  by (simp add: components_def path_of_def components_from_encode)

lemma canonical_components:
  assumes "canonical p"
  shows "list_all component_ok (components p)" "p = path_of (components p)"
  using assms by (auto simp: canonical_def components_path_of)

lemma is_within_canonical:
  assumes "canonical p" "canonical q" "q \<noteq> ''/''"
  shows "is_within p q \<longleftrightarrow> prefix (components q) (components p)"
proof -
  note cp = canonical_components [OF assms(1)] and cq = canonical_components [OF assms(2)]
  have "components q \<noteq> []"
  proof
    assume "components q = []"
    then have "q = ''/''" using cq(2) by (simp add: path_of_def)
    with assms(3) show False by simp
  qed
  then show ?thesis using is_within_path_of [OF cp(1) cq(1)] cp(2) cq(2) by simp
qed

lemma is_within_sound:
  "canonical p \<Longrightarrow> canonical q \<Longrightarrow> is_within p q \<Longrightarrow> prefix (components q) (components p)"
  by (cases "q = ''/''") (auto simp: is_within_canonical, simp add: components_def)

text \<open>A purely lexical resolution: what \<open>realpath\<close> does where there are no symbolic links.\<close>

fun collapse :: "string list \<Rightarrow> string list \<Rightarrow> string list" where
  "collapse acc [] = rev acc"
| "collapse acc (c # cs) =
     (if c = ''.'' then collapse acc cs else if c = ''..'' then collapse (tl acc) cs else collapse (c # acc) cs)"

definition lexical_realpath :: "string \<Rightarrow> string" where
  "lexical_realpath p = path_of (collapse [] (components p))"

lemma components_from_ok:
  "c \<in> set (components_from acc p) \<Longrightarrow> CHR ''/'' \<notin> set acc \<Longrightarrow> c \<noteq> [] \<and> CHR ''/'' \<notin> set c"
  by (induction acc p rule: components_from.induct) (auto split: if_splits)

lemma collapse_ok:
  "\<forall>c\<in>set cs. c \<noteq> [] \<and> CHR ''/'' \<notin> set c \<Longrightarrow> list_all component_ok acc \<Longrightarrow> list_all component_ok (collapse acc cs)"
proof (induction acc cs rule: collapse.induct)
  case (2 acc c cs)
  have "list_all component_ok (tl acc)" using "2.prems"(2) by (cases acc) auto
  with 2 show ?case by (auto simp: component_ok_def [of c])
qed simp

lemma lexical_realpath_lawful: "realpath_lawful lexical_realpath"
  unfolding realpath_lawful_def canonical_def lexical_realpath_def
  using collapse_ok components_from_ok by (metis components_def empty_iff empty_set list.pred_inject(1))

section \<open>Properties\<close>

text \<open>
  C33: Containment is exact: a request path is accepted iff it has no NUL and no URL scheme and its
  resolved components extend those of an allowlisted root, component by component, so neither
  \<open>..\<close>, nor a sibling with the root's name as a prefix, nor a remote URL passes. This is for an allowlist
  without \<open>/\<close>; as a root that one admits nothing but itself.
\<close>

theorem resolve_within_exact:
  assumes "realpath_lawful realpath" "\<forall>root\<in>set al. realpath root \<noteq> ''/''"
  shows "resolve_within realpath p al = Inr r \<longleftrightarrow>
     r = realpath p \<and> CHR 0x00 \<notin> set p \<and> \<not> url_scheme p \<and>
     (\<exists>root\<in>set al. prefix (components (realpath root)) (components r))"
  using assms is_within_canonical unfolding resolve_within_Inr realpath_lawful_def by auto

theorem resolve_within_exact_witness:
  "resolve_within lexical_realpath ''/data/in/../in/x.png'' [''/data/in''] = Inr ''/data/in/x.png''
   \<and> resolve_within lexical_realpath ''/data/in/../x.png'' [''/data/in''] \<noteq> Inr ''/data/x.png''"
proof -
  have "\<forall>root\<in>set [''/data/in'']. lexical_realpath root \<noteq> ''/''"
    by (simp add: lexical_realpath_def components_def path_of_def)
  note t = resolve_within_exact [OF lexical_realpath_lawful this]
  show ?thesis
    unfolding t
    by (simp add: lexical_realpath_def components_def path_of_def url_scheme_def is_letter_def)
qed

text \<open>
  An artifact is written only inside the artifact directory, under one sanitized file name, and
  its bytes are stored verbatim, whatever the job id is; every other file is untouched.
\<close>

theorem artifact_write_contained:
  assumes "realpath_lawful realpath" "write_video_bytes realpath env data job_id dir fs = Inr (path, fs')"
  shows "prefix (components (realpath (artifact_root env dir))) (components path)
       \<and> path = realpath (path_join (artifact_root env dir) (safe_name job_id @ ''.mp4''))
       \<and> component_ok (safe_name job_id @ ''.mp4'') \<and> fs' = fs(path \<mapsto> data)"
proof -
  have "component_ok (safe_name job_id @ ''.mp4'')" using safe_name_component [of "''mp4''" job_id] by simp
  moreover have "is_within path (realpath (artifact_root env dir))"
    "path = realpath (path_join (artifact_root env dir) (safe_name job_id @ ''.mp4''))" "fs' = fs(path \<mapsto> data)"
    using assms(2)
    by (auto simp: write_video_bytes_def artifact_path_for_def result_simps resolve_within_Inr Let_def)
  ultimately show ?thesis using is_within_sound assms(1) by (simp add: realpath_lawful_def)
qed

theorem artifact_write_contained_witness:
  "prefix (components ''/srv/artifacts'') (components ''/srv/artifacts/______x.mp4'')"
proof -
  have "write_video_bytes lexical_realpath [] [1, 2] ''../../x'' None (\<lambda>f. None)
      = Inr (''/srv/artifacts/______x.mp4'', [''/srv/artifacts/______x.mp4'' \<mapsto> [1, 2]])"
    by (simp add: write_video_bytes_def artifact_path_for_def artifact_root_def artifacts_dir_def
        DEFAULT_ARTIFACTS_DIR_def safe_name_def safe_char_def is_letter_def is_digit_def path_join_def
        resolve_within_def url_scheme_def lexical_realpath_def components_def path_of_def is_within_def Let_def)
  from artifact_write_contained [OF lexical_realpath_lawful this, THEN conjunct1]
  show ?thesis
    by (simp add: artifact_root_def artifacts_dir_def DEFAULT_ARTIFACTS_DIR_def lexical_realpath_def
        components_def path_of_def)
qed

end
