(* ===== verification/Wave_Files.thy ===== *)
theory Wave_Files
  imports Byte_Layout
begin

text \<open>
  The standard library's \<open>wave\<close> module, as far as \<open>api/preprocessing/media.py\<close> reads with it and
  \<open>api/jobs/artifacts.py\<close> writes with it (Python 3.12, the version of the image): the RIFF container read
  chunk by chunk with the module's own seeking, and the header it writes before the frames. Seeking past
  the end of the RIFF chunk is a \<open>RuntimeError\<close> of the module, which is not one of its \<open>wave.Error\<close>s.
\<close>

section \<open>Reading\<close>

datatype wave_exc = WaveError message | WaveEOF | WaveRuntime

text \<open>
  The state of the outer chunk is its position \<open>pos\<close> in \<open>body\<close>, the bytes after the eight of its head;
  \<open>extent\<close> is the size it declares. A read that ends an odd chunk swallows the padding byte.
\<close>

definition riff_read :: "byte list \<Rightarrow> nat \<Rightarrow> nat \<Rightarrow> nat \<Rightarrow> byte list \<times> nat" where
  "riff_read body extent n pos =
     (if extent \<le> pos then ([], pos)
      else (let data = take (min n (extent - pos)) (drop pos body); p = pos + length data
            in (data, if p = extent \<and> odd extent then p + length (take 1 (drop p body)) else p)))"

text \<open>A chunk inside it: its size, the bytes read of it, and the position of the outer chunk.\<close>

record wave_chunk =
  wc_size :: nat
  wc_read :: nat
  wc_pos :: nat

definition chunk_read :: "byte list \<Rightarrow> nat \<Rightarrow> nat \<Rightarrow> wave_chunk \<Rightarrow> byte list \<times> wave_chunk" where
  "chunk_read body extent n c =
     (if wc_size c \<le> wc_read c then ([], c)
      else (let (data, p) = riff_read body extent (min n (wc_size c - wc_read c)) (wc_pos c);
                r = wc_read c + length data
            in if r = wc_size c \<and> odd (wc_size c)
               then (let (pad, p2) = riff_read body extent 1 p in (data, c\<lparr>wc_read := r + length pad, wc_pos := p2\<rparr>))
               else (data, c\<lparr>wc_read := r, wc_pos := p\<rparr>)))"

definition chunk_skip :: "nat \<Rightarrow> wave_chunk \<Rightarrow> wave_exc + nat" where
  "chunk_skip extent c =
     (let target = wc_pos c + ((if odd (wc_size c) then wc_size c + 1 else wc_size c) - wc_read c)
      in if extent < target then Inl WaveRuntime else Inr target)"

definition WAVE_FORMAT_PCM :: nat where "WAVE_FORMAT_PCM = 1"
definition WAVE_FORMAT_EXTENSIBLE :: nat where "WAVE_FORMAT_EXTENSIBLE = 0xFFFE"

definition KSDATAFORMAT_SUBTYPE_PCM :: "byte list" where
  "KSDATAFORMAT_SUBTYPE_PCM = [0x01, 0, 0, 0, 0, 0, 0x10, 0, 0x80, 0, 0, 0xAA, 0, 0x38, 0x9B, 0x71]"

text \<open>The format chunk: channels, frame rate and the bytes of a frame.\<close>

record wave_format =
  wf_channels :: nat
  wf_rate :: nat
  wf_framesize :: nat

definition read_extension :: "byte list \<Rightarrow> nat \<Rightarrow> wave_chunk \<Rightarrow> wave_exc + wave_chunk" where
  "read_extension body extent c =
     (let (d8, c1) = chunk_read body extent 8 c in
      if length d8 < 8 then Inl WaveEOF
      else (let (guid, c2) = chunk_read body extent 16 c1 in
        if length guid < 16 then Inl WaveEOF
        else if guid \<noteq> KSDATAFORMAT_SUBTYPE_PCM then Inl (WaveError [MLit ''unknown extended format''])
        else Inr c2))"

definition read_fmt_chunk :: "byte list \<Rightarrow> nat \<Rightarrow> wave_chunk \<Rightarrow> wave_exc + (wave_format \<times> wave_chunk)" where
  "read_fmt_chunk body extent c =
     (let (d, c1) = chunk_read body extent 14 c;
          tag = from_le (take 2 d); channels = from_le (take 2 (drop 2 d)); rate = from_le (take 4 (drop 4 d))
      in if length d < 14 then Inl WaveEOF
         else if tag \<noteq> WAVE_FORMAT_PCM \<and> tag \<noteq> WAVE_FORMAT_EXTENSIBLE then Inl (WaveError [MLit ''unknown format''])
         else (let (w, c2) = chunk_read body extent 2 c1; width = (from_le w + 7) div 8 in
           if length w < 2 then Inl WaveEOF
           else bindE (if tag = WAVE_FORMAT_EXTENSIBLE then read_extension body extent c2 else Inr c2) (\<lambda>c3.
             if width = 0 then Inl (WaveError [MLit ''bad sample width''])
             else if channels = 0 then Inl (WaveError [MLit ''bad # of channels''])
             else Inr (\<lparr>wf_channels = channels, wf_rate = rate, wf_framesize = channels * width\<rparr>, c3))))"

lemma riff_read_pos: "riff_read body extent n pos = (d, p) \<Longrightarrow> pos + length d \<le> p"
  by (auto simp: riff_read_def Let_def split: if_splits)

lemma riff_read_room: "riff_read body extent n pos = (d, p) \<Longrightarrow> d \<noteq> [] \<Longrightarrow> pos < extent"
  by (auto simp: riff_read_def split: if_splits)

lemma chunk_read_pos: "chunk_read body extent n c = (d, c1) \<Longrightarrow> wc_pos c \<le> wc_pos c1"
  by (fastforce simp: chunk_read_def Let_def split: if_splits prod.splits dest: riff_read_pos)

lemma read_extension_pos: "read_extension body extent c = Inr c1 \<Longrightarrow> wc_pos c \<le> wc_pos c1"
  by (fastforce simp: read_extension_def Let_def split: if_splits prod.splits dest: chunk_read_pos)

lemma read_fmt_pos: "read_fmt_chunk body extent c = Inr (f, c1) \<Longrightarrow> wc_pos c \<le> wc_pos c1"
  by (fastforce simp: read_fmt_chunk_def Let_def bindE_Inr_iff
        split: if_splits prod.splits dest: chunk_read_pos read_extension_pos)

lemma chunk_skip_pos: "chunk_skip extent c = Inr p \<Longrightarrow> wc_pos c \<le> p \<and> p \<le> extent"
  by (auto simp: chunk_skip_def Let_def split: if_splits)

text \<open>The chunks up to the data: frame rate, channels and frames.\<close>

definition no_data :: "wave_exc" where "no_data = WaveError [MLit ''fmt chunk and/or data chunk missing'']"

text \<open>One chunk: the answer at the data, else the format known so far and the next position.\<close>

definition wave_step :: "byte list \<Rightarrow> nat \<Rightarrow> wave_format option \<Rightarrow> nat
    \<Rightarrow> wave_exc + ((nat \<times> nat \<times> nat) + (wave_format option \<times> nat))" where
  "wave_step body extent fmt pos =
     (let (name, p1) = riff_read body extent 4 pos; (len, p2) = riff_read body extent 4 p1;
          c = \<lparr>wc_size = from_le len, wc_read = 0, wc_pos = p2\<rparr>
      in if length name < 4 \<or> length len < 4 then Inl no_data
         else if name = ascii_bytes ''data'' then
           (case fmt of None \<Rightarrow> Inl (WaveError [MLit ''data chunk before fmt chunk''])
            | Some f \<Rightarrow> Inr (Inl (wf_rate f, wf_channels f, from_le len div wf_framesize f)))
         else bindE (if name = ascii_bytes ''fmt '' then mapE (\<lambda>(f, c1). (Some f, c1)) (read_fmt_chunk body extent c)
                     else Inr (fmt, c)) (\<lambda>(fmt1, c1).
              mapE (\<lambda>p. Inr (fmt1, p)) (chunk_skip extent c1)))"

lemma wave_step_pos: "wave_step body extent fmt pos = Inr (Inr (fmt1, p)) \<Longrightarrow> pos < p \<and> p \<le> extent"
  by (fastforce simp: wave_step_def Let_def bindE_Inr_iff mapE_Inr_iff
        split: if_splits prod.splits option.splits dest: riff_read_pos read_fmt_pos chunk_skip_pos)

function wave_chunks :: "byte list \<Rightarrow> nat \<Rightarrow> wave_format option \<Rightarrow> nat \<Rightarrow> wave_exc + (nat \<times> nat \<times> nat)" where
  "wave_chunks body extent fmt pos =
     (case wave_step body extent fmt pos of
        Inl e \<Rightarrow> Inl e
      | Inr (Inl answer) \<Rightarrow> Inr answer
      | Inr (Inr (fmt1, p)) \<Rightarrow> wave_chunks body extent fmt1 p)"
  by pat_completeness auto
termination
  by (relation "measure (\<lambda>(body, extent, fmt, pos). extent - pos)") (auto dest!: wave_step_pos)

declare wave_chunks.simps [simp del]

definition wave_header :: "byte list \<Rightarrow> wave_exc + (nat \<times> nat \<times> nat)" where
  "wave_header data =
     (if length data < 8 then Inl WaveEOF
      else if take 4 data \<noteq> ascii_bytes ''RIFF'' then Inl (WaveError [MLit ''file does not start with RIFF id''])
      else (let extent = from_le (take 4 (drop 4 data)); body = drop 8 data; (form, p) = riff_read body extent 4 0
            in if form \<noteq> ascii_bytes ''WAVE'' then Inl (WaveError [MLit ''not a WAVE file''])
               else wave_chunks body extent None p))"

section \<open>Writing\<close>

text \<open>
  What one \<open>wave.open(path, "wb")\<close> block leaves: the header for \<open>n\<close> bytes of frames and the frames. A
  block that sets no channel leaves an empty file; a field too large for \<open>struct\<close> leaves the four magic
  bytes twice, since closing the writer tries the header again.
\<close>

definition fmt_fields :: "nat \<Rightarrow> nat \<Rightarrow> nat \<Rightarrow> byte list" where
  "fmt_fields channels width rate =
     le_bytes 2 WAVE_FORMAT_PCM @ le_bytes 2 channels @ le_bytes 4 rate @ le_bytes 4 (channels * rate * width)
       @ le_bytes 2 (channels * width) @ le_bytes 2 (width * 8)"

definition wave_head :: "nat \<Rightarrow> nat \<Rightarrow> nat \<Rightarrow> nat \<Rightarrow> byte list" where
  "wave_head channels width rate n =
     ascii_bytes ''RIFF'' @ le_bytes 4 (36 + n) @ ascii_bytes ''WAVE'' @ ascii_bytes ''fmt '' @ le_bytes 4 16
       @ fmt_fields channels width rate @ ascii_bytes ''data'' @ le_bytes 4 n"

definition wave_packable :: "nat \<Rightarrow> nat \<Rightarrow> nat \<Rightarrow> nat \<Rightarrow> bool" where
  "wave_packable channels width rate n \<longleftrightarrow>
     36 + n < 2 ^ 32 \<and> channels * width < 2 ^ 16 \<and> channels < 2 ^ 16 \<and> width * 8 < 2 ^ 16 \<and>
     rate < 2 ^ 32 \<and> channels * rate * width < 2 ^ 32"

definition wave_write :: "nat \<Rightarrow> nat \<Rightarrow> nat \<Rightarrow> byte list \<Rightarrow> byte list \<times> string option" where
  "wave_write channels width rate frames =
     (if channels < 1 then ([], Some ''bad # of channels'')
      else if width < 1 \<or> 4 < width then ([], Some ''bad sample width'')
      else if rate \<le> 0 then ([], Some ''bad frame rate'')
      else if wave_packable channels width rate (length frames)
        then (wave_head channels width rate (length frames) @ frames, None)
      else (ascii_bytes ''RIFFRIFF'', Some ''struct.error''))"

section \<open>Reading what was written\<close>

lemma riff_read_prefix:
  assumes "drop pos body = xs @ ys" "length xs = k" "0 < k" "pos + k \<le> extent" "pos + k = extent \<Longrightarrow> even extent"
  shows "riff_read body extent k pos = (xs, pos + k)"
  using assms by (auto simp: riff_read_def Let_def)

lemma ascii_literal_neq [simp]: "ascii_bytes ''fmt '' \<noteq> ascii_bytes ''data''"
  by (simp add: ascii_bytes_def)

lemma read_fmt_written:
  assumes d: "drop pos body = fmt_fields channels width rate @ ys" and r: "pos + 16 < extent"
    and p: "wave_packable channels width rate n" and c: "0 < channels" "0 < width"
  shows "read_fmt_chunk body extent \<lparr>wc_size = 16, wc_read = 0, wc_pos = pos\<rparr> =
    Inr (\<lparr>wf_channels = channels, wf_rate = rate, wf_framesize = channels * width\<rparr>, \<lparr>wc_size = 16, wc_read = 16, wc_pos = pos + 16\<rparr>)"
proof -
  let ?d = "le_bytes 2 WAVE_FORMAT_PCM @ le_bytes 2 channels @ le_bytes 4 rate @ le_bytes 4 (channels * rate * width)
    @ le_bytes 2 (channels * width)"
  have one: "riff_read body extent 14 pos = (?d, pos + 14)"
    using d r by (intro riff_read_prefix [where ys = "le_bytes 2 (width * 8) @ ys"]) (simp_all add: fmt_fields_def)
  have "drop (pos + 14) body = drop 14 (drop pos body)" by (simp add: add.commute)
  then have "drop (pos + 14) body = le_bytes 2 (width * 8) @ ys" by (simp add: d fmt_fields_def)
  then have two: "riff_read body extent 2 (pos + 14) = (le_bytes 2 (width * 8), pos + 14 + 2)"
    using r by (intro riff_read_prefix [where ys = ys]) simp_all
  show ?thesis using p c
    by (simp add: read_fmt_chunk_def chunk_read_def one two wave_packable_def WAVE_FORMAT_PCM_def WAVE_FORMAT_EXTENSIBLE_def add.commute)
qed

lemma wave_header_written:
  assumes p: "wave_packable channels width rate (length frames)" and c: "0 < channels" "0 < width"
  shows "wave_header (wave_head channels width rate (length frames) @ frames) =
    Inr (rate, channels, length frames div (channels * width))"
proof -
  let ?n = "length frames"
  define body where "body = ascii_bytes ''WAVE'' @ ascii_bytes ''fmt '' @ le_bytes 4 16 @ fmt_fields channels width rate
    @ ascii_bytes ''data'' @ le_bytes 4 ?n @ frames"
  let ?x = "36 + ?n" and ?f = "\<lparr>wf_channels = channels, wf_rate = rate, wf_framesize = channels * width\<rparr>"
  have l: "length (fmt_fields channels width rate) = 16" by (simp add: fmt_fields_def)
  have n: "?n < 2 ^ 32" "?x < 2 ^ 32" using p by (simp_all add: wave_packable_def)
  note at = riff_read_prefix [where body = body and extent = ?x]
  have w: "riff_read body ?x 4 0 = (ascii_bytes ''WAVE'', 4)"
    by (subst at) (simp_all add: body_def)
  have f: "riff_read body ?x 4 4 = (ascii_bytes ''fmt '', 8)" "riff_read body ?x 4 8 = (le_bytes 4 16, 12)"
    by (subst at; simp add: body_def)+
  have d: "riff_read body ?x 4 28 = (ascii_bytes ''data'', 32)" "riff_read body ?x 4 32 = (le_bytes 4 ?n, 36)"
    by (subst at; simp add: body_def l)+
  have "drop 12 body = fmt_fields channels width rate @ ascii_bytes ''data'' @ le_bytes 4 ?n @ frames"
    by (simp add: body_def)
  from read_fmt_written [OF this _ p c, of ?x]
  have "read_fmt_chunk body ?x \<lparr>wc_size = 16, wc_read = 0, wc_pos = 12\<rparr> = Inr (?f, \<lparr>wc_size = 16, wc_read = 16, wc_pos = 28\<rparr>)"
    by simp
  then have "wave_step body ?x None 4 = Inr (Inr (Some ?f, 28))"
    by (simp add: wave_step_def f chunk_skip_def)
  moreover have "wave_step body ?x (Some ?f) 28 = Inr (Inl (rate, channels, ?n div (channels * width)))"
    using n by (simp add: wave_step_def d)
  ultimately have "wave_chunks body ?x None 4 = Inr (rate, channels, ?n div (channels * width))"
    by (simp add: wave_chunks.simps [of body ?x None] wave_chunks.simps [of body ?x "Some ?f"])
  moreover have "wave_head channels width rate ?n @ frames = ascii_bytes ''RIFF'' @ le_bytes 4 ?x @ body"
    by (simp add: wave_head_def body_def)
  ultimately show ?thesis using n w by (simp add: wave_header_def)
qed

end
