(* ===== verification/Media.thy ===== *)
theory Media
  imports Wave_Files
begin

text \<open>
  The public media limits (\<open>api/preprocessing/limits.py\<close>), the validators over probed metadata and
  the header probes over untrusted bytes (\<open>api/preprocessing/media.py\<close>).
\<close>

section \<open>Limits\<close>

definition MiB :: int where "MiB = 1024 * 1024"

record media_limits =
  ml_resolutions :: "int list"
  ml_valid_dimensions :: "int list"
  ml_max_num_frames :: int
  ml_audio_sample_rate :: int
  ml_audio_channels :: int
  ml_max_audio_seconds :: pyfloat
  ml_max_image_bytes :: int
  ml_max_video_bytes :: int
  ml_max_audio_bytes :: int
  ml_max_image_dimension :: int

text \<open>The two frozen sets are kept sorted, the order every message shows them in.\<close>

definition default_limits :: media_limits where
  "default_limits =
     \<lparr>ml_resolutions = [256, 480, 720], ml_valid_dimensions = [256, 480, 640, 720, 960, 1280],
      ml_max_num_frames = 720, ml_audio_sample_rate = 48000, ml_audio_channels = 2,
      ml_max_audio_seconds = Finite 60, ml_max_image_bytes = 32 * MiB, ml_max_video_bytes = 512 * MiB,
      ml_max_audio_bytes = 64 * MiB, ml_max_image_dimension = 4096\<rparr>"

definition env_int :: "(string, string) dict \<Rightarrow> string \<Rightarrow> int \<Rightarrow> py_exc + int" where
  "env_int environ name d = (case dict_get environ name of None \<Rightarrow> Inr d | Some s \<Rightarrow> py_int (PStr s))"

definition env_float :: "(string \<Rightarrow> py_exc + pyfloat) \<Rightarrow> (string, string) dict \<Rightarrow> string \<Rightarrow> pyfloat \<Rightarrow> py_exc + pyfloat" where
  "env_float parse_float environ name d = (case dict_get environ name of None \<Rightarrow> Inr d | Some s \<Rightarrow> parse_float s)"

definition limits_from_env :: "(string \<Rightarrow> py_exc + pyfloat) \<Rightarrow> (string, string) dict \<Rightarrow> py_exc + media_limits" where
  "limits_from_env parse_float environ =
     (let d = default_limits in
      bindE (env_int environ ''COSMOS3_MAX_NUM_FRAMES'' (ml_max_num_frames d)) (\<lambda>nf.
      bindE (env_int environ ''COSMOS3_AUDIO_SAMPLE_RATE'' (ml_audio_sample_rate d)) (\<lambda>sr.
      bindE (env_int environ ''COSMOS3_AUDIO_CHANNELS'' (ml_audio_channels d)) (\<lambda>ch.
      bindE (env_float parse_float environ ''COSMOS3_MAX_AUDIO_SECONDS'' (ml_max_audio_seconds d)) (\<lambda>secs.
      bindE (env_int environ ''COSMOS3_MAX_IMAGE_BYTES'' (ml_max_image_bytes d)) (\<lambda>ib.
      bindE (env_int environ ''COSMOS3_MAX_VIDEO_BYTES'' (ml_max_video_bytes d)) (\<lambda>vb.
      bindE (env_int environ ''COSMOS3_MAX_AUDIO_BYTES'' (ml_max_audio_bytes d)) (\<lambda>ab.
      mapE (\<lambda>dim. d\<lparr>ml_max_num_frames := nf, ml_audio_sample_rate := sr, ml_audio_channels := ch,
                ml_max_audio_seconds := secs, ml_max_image_bytes := ib, ml_max_video_bytes := vb,
                ml_max_audio_bytes := ab, ml_max_image_dimension := dim\<rparr>)
        (env_int environ ''COSMOS3_MAX_IMAGE_DIMENSION'' (ml_max_image_dimension d))))))))))"

section \<open>Metadata and rejections\<close>

definition IMAGE_MIMES :: "string list" where
  "IMAGE_MIMES = [''image/jpeg'', ''image/png'', ''image/webp'']"

definition VIDEO_MIMES :: "string list" where
  "VIDEO_MIMES = [''video/mp4'', ''video/webm'']"

definition AUDIO_MIMES :: "string list" where
  "AUDIO_MIMES = [''audio/flac'', ''audio/wav'', ''audio/x-wav'']"

datatype media_error_code = PAYLOAD_TOO_LARGE | UNSUPPORTED_MEDIA_TYPE | INVALID_DIMENSION | INVALID_PARAM

definition media_code_value :: "media_error_code \<Rightarrow> string" where
  "media_code_value c = (case c of
     PAYLOAD_TOO_LARGE \<Rightarrow> ''payload_too_large'' | UNSUPPORTED_MEDIA_TYPE \<Rightarrow> ''unsupported_media_type''
   | INVALID_DIMENSION \<Rightarrow> ''invalid_dimension'' | INVALID_PARAM \<Rightarrow> ''invalid_param'')"

record probed_media =
  pm_modality :: string
  pm_size_bytes :: int
  pm_mime :: "string option"
  pm_width :: "int option"
  pm_height :: "int option"
  pm_frames :: "int option"
  pm_sample_rate :: "int option"
  pm_channels :: "int option"
  pm_duration_s :: "pyfloat option"

definition probed :: "string \<Rightarrow> int \<Rightarrow> string option \<Rightarrow> probed_media" where
  "probed modality nbytes mime =
     \<lparr>pm_modality = modality, pm_size_bytes = nbytes, pm_mime = mime, pm_width = None, pm_height = None,
      pm_frames = None, pm_sample_rate = None, pm_channels = None, pm_duration_s = None\<rparr>"

record media_error =
  me_code :: media_error_code
  me_message :: message
  me_expected :: "msg_part option"
  me_got :: "msg_part option"

definition media_error :: "media_error_code \<Rightarrow> message \<Rightarrow> msg_part option \<Rightarrow> msg_part option \<Rightarrow> media_error" where
  "media_error c m e g = \<lparr>me_code = c, me_message = m, me_expected = e, me_got = g\<rparr>"

definition mime_in :: "string option \<Rightarrow> string list \<Rightarrow> bool" where
  "mime_in m ms \<longleftrightarrow> (case m of None \<Rightarrow> False | Some s \<Rightarrow> s \<in> set ms)"

definition mime_message :: "string \<Rightarrow> string option \<Rightarrow> string list \<Rightarrow> message" where
  "mime_message kind m ms =
     [MStr kind, MLit '' mime '', (case m of None \<Rightarrow> MVal PNone | Some s \<Rightarrow> MRepr s), MLit '' not in '', MStrs ms]"

section \<open>Validators\<close>

definition validate_image :: "probed_media \<Rightarrow> media_limits \<Rightarrow> media_error option" where
  "validate_image meta lims =
     (if ml_max_image_bytes lims < pm_size_bytes meta then
        Some (media_error PAYLOAD_TOO_LARGE [MLit ''image exceeds the byte cap'']
          (Some (MInt (ml_max_image_bytes lims))) (Some (MInt (pm_size_bytes meta))))
      else if \<not> mime_in (pm_mime meta) IMAGE_MIMES then
        Some (media_error UNSUPPORTED_MEDIA_TYPE (mime_message ''image'' (pm_mime meta) IMAGE_MIMES) None None)
      else (case (pm_width meta, pm_height meta) of
        (Some w, Some h) \<Rightarrow>
          if min w h \<le> 0 \<or> ml_max_image_dimension lims < max w h then
            Some (media_error INVALID_DIMENSION
              [MLit ''image dimensions '', MInt w, MLit ''x'', MInt h, MLit '' outside (0, '',
               MInt (ml_max_image_dimension lims), MLit '']'']
              (Some (MInt (ml_max_image_dimension lims))) (Some (MInt (max w h))))
          else None
      | _ \<Rightarrow> None))"

definition or_zero :: "int option \<Rightarrow> int" where
  "or_zero x = (case x of None \<Rightarrow> 0 | Some n \<Rightarrow> n)"

definition validate_video :: "probed_media \<Rightarrow> media_limits \<Rightarrow> media_error option" where
  "validate_video meta lims =
     (if ml_max_video_bytes lims < pm_size_bytes meta then
        Some (media_error PAYLOAD_TOO_LARGE [MLit ''video exceeds the byte cap'']
          (Some (MInt (ml_max_video_bytes lims))) (Some (MInt (pm_size_bytes meta))))
      else if \<not> mime_in (pm_mime meta) VIDEO_MIMES then
        Some (media_error UNSUPPORTED_MEDIA_TYPE (mime_message ''video'' (pm_mime meta) VIDEO_MIMES) None None)
      else if (case pm_frames meta of None \<Rightarrow> False | Some f \<Rightarrow> f \<le> 0 \<or> ml_max_num_frames lims < f) then
        Some (media_error INVALID_PARAM
          [MLit ''video frames '', MInt (or_zero (pm_frames meta)), MLit '' outside (0, '',
           MInt (ml_max_num_frames lims), MLit '']'']
          (Some (MInt (ml_max_num_frames lims))) (map_option MInt (pm_frames meta)))
      else if (or_zero (pm_width meta) \<noteq> 0 \<or> or_zero (pm_height meta) \<noteq> 0)
          \<and> ml_max_image_dimension lims < max (or_zero (pm_width meta)) (or_zero (pm_height meta)) then
        Some (media_error INVALID_DIMENSION [MLit ''video frame dimension exceeds the cap'']
          (Some (MInt (ml_max_image_dimension lims)))
          (Some (MInt (max (or_zero (pm_width meta)) (or_zero (pm_height meta))))))
      else None)"

definition validate_audio :: "probed_media \<Rightarrow> media_limits \<Rightarrow> media_error option" where
  "validate_audio meta lims =
     (if ml_max_audio_bytes lims < pm_size_bytes meta then
        Some (media_error PAYLOAD_TOO_LARGE [MLit ''audio exceeds the byte cap'']
          (Some (MInt (ml_max_audio_bytes lims))) (Some (MInt (pm_size_bytes meta))))
      else if \<not> mime_in (pm_mime meta) AUDIO_MIMES then
        Some (media_error UNSUPPORTED_MEDIA_TYPE (mime_message ''audio'' (pm_mime meta) AUDIO_MIMES) None None)
      else if (case pm_sample_rate meta of None \<Rightarrow> False | Some r \<Rightarrow> r \<noteq> ml_audio_sample_rate lims) then
        Some (media_error INVALID_PARAM
          [MLit ''audio sample_rate must be '', MInt (ml_audio_sample_rate lims), MLit '' Hz'']
          (Some (MInt (ml_audio_sample_rate lims))) (map_option MInt (pm_sample_rate meta)))
      else if (case pm_channels meta of None \<Rightarrow> False | Some c \<Rightarrow> c \<noteq> ml_audio_channels lims) then
        Some (media_error INVALID_PARAM
          [MLit ''audio must have '', MInt (ml_audio_channels lims), MLit '' channels'']
          (Some (MInt (ml_audio_channels lims))) (map_option MInt (pm_channels meta)))
      else if (case pm_duration_s meta of None \<Rightarrow> False | Some d \<Rightarrow> flt_lt (ml_max_audio_seconds lims) d) then
        Some (media_error INVALID_PARAM
          [MLit ''audio longer than '', MVal (PFloat (ml_max_audio_seconds lims)), MLit ''s''] None None)
      else None)"

definition validate_resolution :: "int \<Rightarrow> media_limits \<Rightarrow> media_error option" where
  "validate_resolution v lims =
     (if v \<notin> set (ml_resolutions lims) then
        Some (media_error INVALID_DIMENSION
          [MLit ''resolution '', MInt v, MLit '' not in '', MInts (ml_resolutions lims)]
          (Some (MInts (ml_resolutions lims))) (Some (MInt v)))
      else None)"

definition validate_dimension :: "int \<Rightarrow> media_limits \<Rightarrow> media_error option" where
  "validate_dimension v lims =
     (if v \<notin> set (ml_valid_dimensions lims) then
        Some (media_error INVALID_DIMENSION
          [MLit ''dimension '', MInt v, MLit '' not in '', MInts (ml_valid_dimensions lims)]
          (Some (MInts (ml_valid_dimensions lims))) (Some (MInt v)))
      else None)"

definition validate_num_frames :: "int \<Rightarrow> media_limits \<Rightarrow> media_error option" where
  "validate_num_frames v lims =
     (if v \<le> 0 \<or> ml_max_num_frames lims < v then
        Some (media_error INVALID_PARAM
          [MLit ''num_frames '', MInt v, MLit '' outside (0, '', MInt (ml_max_num_frames lims), MLit '']'']
          (Some (MInt (ml_max_num_frames lims))) (Some (MInt v)))
      else None)"

section \<open>Header probes\<close>

text \<open>A Python slice \<open>data[a:b]\<close> of bytes, and a big-endian integer.\<close>

definition slice :: "nat \<Rightarrow> nat \<Rightarrow> byte list \<Rightarrow> byte list" where
  "slice a b data = take (b - a) (drop a data)"

definition from_be :: "byte list \<Rightarrow> nat" where
  "from_be bs = fold (\<lambda>b acc. acc * 256 + unat b) bs 0"

definition PNG_MAGIC :: "byte list" where
  "PNG_MAGIC = [0x89, 0x50, 0x4E, 0x47, 0x0D, 0x0A, 0x1A, 0x0A]"

definition sniff_mime :: "byte list \<Rightarrow> string option" where
  "sniff_mime data =
     (if take 8 data = PNG_MAGIC then Some ''image/png''
      else if take 3 data = [0xFF, 0xD8, 0xFF] then Some ''image/jpeg''
      else if take 4 data = ascii_bytes ''RIFF'' \<and> slice 8 12 data = ascii_bytes ''WEBP'' then Some ''image/webp''
      else if take 4 data = ascii_bytes ''RIFF'' \<and> slice 8 12 data = ascii_bytes ''WAVE'' then Some ''audio/wav''
      else if take 4 data = ascii_bytes ''fLaC'' then Some ''audio/flac''
      else if slice 4 8 data = ascii_bytes ''ftyp'' then Some ''video/mp4''
      else if take 4 data = [0x1A, 0x45, 0xDF, 0xA3] then Some ''video/webm''
      else None)"

definition png_dims :: "byte list \<Rightarrow> (nat \<times> nat) option" where
  "png_dims data =
     (if 24 \<le> length data \<and> slice 12 16 data = ascii_bytes ''IHDR''
      then Some (from_be (slice 16 20 data), from_be (slice 20 24 data)) else None)"

definition jpeg_sof :: "byte \<Rightarrow> bool" where
  "jpeg_sof m \<longleftrightarrow> 0xC0 \<le> m \<and> m < 0xD0 \<and> m \<noteq> 0xC4 \<and> m \<noteq> 0xC8 \<and> m \<noteq> 0xCC"

function jpeg_scan :: "byte list \<Rightarrow> nat \<Rightarrow> (nat \<times> nat) option" where
  "jpeg_scan data i =
     (if i + 9 < length data then
        if data ! i \<noteq> 0xFF then jpeg_scan data (i + 1)
        else (let marker = data ! (i + 1) in
          if marker = 0xD8 \<or> marker = 0xD9 \<or> (0xD0 \<le> marker \<and> marker \<le> 0xD7) then jpeg_scan data (i + 2)
          else if jpeg_sof marker then
            Some (from_be (slice (i + 7) (i + 9) data), from_be (slice (i + 5) (i + 7) data))
          else jpeg_scan data (i + (2 + from_be (slice (i + 2) (i + 4) data))))
      else None)"
  by pat_completeness auto
termination by (relation "measure (\<lambda>(data, i). length data - i)") auto

declare jpeg_scan.simps [simp del]

definition jpeg_dims :: "byte list \<Rightarrow> (nat \<times> nat) option" where
  "jpeg_dims data = jpeg_scan data 2"

definition image_dims :: "byte list \<Rightarrow> string \<Rightarrow> (nat \<times> nat) option" where
  "image_dims data mime =
     (if mime = ''image/png'' then png_dims data
      else if mime = ''image/jpeg'' then jpeg_dims data else None)"

definition probe_image :: "byte list \<Rightarrow> probed_media" where
  "probe_image data =
     (let mime = sniff_mime data;
          dims = (case mime of None \<Rightarrow> None
                  | Some m \<Rightarrow> if m \<in> set IMAGE_MIMES then image_dims data m else None)
      in (probed ''image'' (int (length data)) mime)
           \<lparr>pm_width := map_option (int \<circ> fst) dims, pm_height := map_option (int \<circ> snd) dims\<rparr>)"

text \<open>The probe catches what it expects of \<open>wave\<close>; a \<open>RuntimeError\<close> is not among it.\<close>

definition probe_audio :: "byte list \<Rightarrow> py_exc + probed_media" where
  "probe_audio data =
     (let mime = sniff_mime data;
          base = probed ''audio'' (int (length data)) mime
      in if mime = Some ''audio/wav'' then
           (case wave_header data of
              Inl WaveRuntime \<Rightarrow> Inl RuntimeError
            | Inl _ \<Rightarrow> Inr base
            | Inr (rate, channels, frames) \<Rightarrow>
                Inr (base\<lparr>pm_sample_rate := Some (int rate), pm_channels := Some (int channels),
                     pm_duration_s := (if rate = 0 then None else Some (Finite (of_nat frames / of_nat rate)))\<rparr>))
         else Inr base)"

definition probe_video :: "byte list \<Rightarrow> probed_media" where
  "probe_video data = probed ''video'' (int (length data)) (sniff_mime data)"

section \<open>Writing the headers the probes read\<close>

definition be16 :: "nat \<Rightarrow> byte list" where
  "be16 n = [of_nat (n div 256), of_nat n]"

definition be32 :: "nat \<Rightarrow> byte list" where
  "be32 n = be16 (n div 65536) @ be16 n"

lemma unat_byte: "unat (of_nat n :: byte) = n mod 256"
  by (simp add: unat_of_nat)

lemma from_be_two [simp]: "from_be [a, b] = unat a * 256 + unat b"
  by (simp add: from_be_def)

lemma from_be16: "n < 65536 \<Longrightarrow> from_be (be16 n) = n"
  by (simp add: be16_def unat_byte less_mult_imp_div_less)

lemma from_be32: "n < 4294967296 \<Longrightarrow> from_be (be32 n) = n"
proof -
  assume n: "n < 4294967296"
  have "from_be (be32 n) = ((n div 65536 div 256 mod 256 * 256 + n div 65536 mod 256) * 256
      + n div 256 mod 256) * 256 + n mod 256"
    by (simp add: be32_def be16_def from_be_def unat_byte)
  also have "\<dots> = (n div 65536 div 256 mod 256 * 256 + n div 65536 mod 256) * 65536
      + (n div 256 mod 256 * 256 + n mod 256)" by simp
  also have "n div 256 mod 256 * 256 + n mod 256 = n mod 65536"
    using mod_mult2_eq [of n 256 256] by simp
  also have "n div 65536 div 256 mod 256 * 256 + n div 65536 mod 256 = n div 65536"
    using n mod_mult2_eq [of "n div 65536" 256 256] by (simp add: less_mult_imp_div_less)
  finally show ?thesis by simp
qed

lemma length_be [simp]: "length (be16 n) = 2" "length (be32 n) = 4"
  by (simp_all add: be16_def be32_def)

lemma slice_skip [simp]: "length xs \<le> a \<Longrightarrow> slice a b (xs @ ys) = slice (a - length xs) (b - length xs) ys"
  by (simp add: slice_def)

lemma slice_front [simp]: "slice 0 b (xs @ ys) = (if length xs = b then xs else take b (xs @ ys))"
  by (simp add: slice_def)

definition png_file :: "nat \<Rightarrow> nat \<Rightarrow> byte list \<Rightarrow> byte list" where
  "png_file w h rest = PNG_MAGIC @ be32 13 @ ascii_bytes ''IHDR'' @ be32 w @ be32 h @ rest"

lemma png_dims_file:
  assumes "w < 4294967296" "h < 4294967296"
  shows "png_dims (png_file w h rest) = Some (w, h)"
proof -
  have l: "length PNG_MAGIC = 8" "length (ascii_bytes ''IHDR'') = 4"
    by (simp_all add: PNG_MAGIC_def ascii_bytes_def)
  have "slice 12 16 (png_file w h rest) = ascii_bytes ''IHDR''"
    "slice 16 20 (png_file w h rest) = be32 w" "slice 20 24 (png_file w h rest) = be32 h"
    "24 \<le> length (png_file w h rest)"
    by (simp_all add: png_file_def l)
  then show ?thesis using assms by (simp add: png_dims_def from_be32)
qed

text \<open>A JPEG: the start marker, segments that carry no frame header, then a frame header.\<close>

definition jpeg_segment :: "byte \<times> byte list \<Rightarrow> byte list" where
  "jpeg_segment mp = [0xFF, fst mp] @ be16 (2 + length (snd mp)) @ snd mp"

definition plain_marker :: "byte \<Rightarrow> bool" where
  "plain_marker m \<longleftrightarrow> m \<noteq> 0xD8 \<and> m \<noteq> 0xD9 \<and> \<not> (0xD0 \<le> m \<and> m \<le> 0xD7) \<and> \<not> jpeg_sof m"

definition jpeg_file :: "(byte \<times> byte list) list \<Rightarrow> byte \<Rightarrow> nat \<Rightarrow> nat \<Rightarrow> byte list \<Rightarrow> byte list" where
  "jpeg_file segs sof w h rest =
     [0xFF, 0xD8] @ concat (map jpeg_segment segs) @
     [0xFF, sof] @ be16 17 @ [8] @ be16 h @ be16 w @ rest"

lemma jpeg_scan_segment:
  assumes "plain_marker m" "length p < 65534" "5 \<le> length rest + length p" 
  shows "jpeg_scan (pre @ jpeg_segment (m, p) @ rest) (length pre) =
         (if 5 < length rest + length p
          then jpeg_scan (pre @ jpeg_segment (m, p) @ rest) (length (pre @ jpeg_segment (m, p))) else None)"
proof -
  let ?d = "pre @ jpeg_segment (m, p) @ rest"
  have "slice (length pre + 2) (length pre + 4) ?d = be16 (2 + length p)"
    by (simp add: jpeg_segment_def slice_def be16_def)
  then have l: "from_be (slice (length pre + 2) (length pre + 4) ?d) = 2 + length p"
    using assms(2) by (simp add: from_be16)
  have d: "?d ! length pre = 0xFF" "?d ! (length pre + 1) = m"
    by (simp_all add: jpeg_segment_def nth_append)
  show ?thesis
    using assms(1) l d by (subst jpeg_scan.simps) (auto simp: plain_marker_def Let_def jpeg_segment_def add_ac)
qed

lemma jpeg_scan_frame:
  assumes "jpeg_sof sof" "w < 65536" "h < 65536" "rest \<noteq> []"
  shows "jpeg_scan (pre @ [0xFF, sof] @ be16 17 @ [8] @ be16 h @ be16 w @ rest) (length pre) = Some (w, h)"
proof -
  let ?d = "pre @ [0xFF, sof] @ be16 17 @ [8] @ be16 h @ be16 w @ rest"
  have "slice (length pre + 5) (length pre + 7) ?d = be16 h" "slice (length pre + 7) (length pre + 9) ?d = be16 w"
    by (simp_all add: slice_def be16_def)
  then have hw: "from_be (slice (length pre + 5) (length pre + 7) ?d) = h"
    "from_be (slice (length pre + 7) (length pre + 9) ?d) = w"
    using assms(2,3) by (simp_all add: from_be16)
  have d: "?d ! length pre = 0xFF" "?d ! (length pre + 1) = sof" by (simp_all add: nth_append)
  have n: "sof \<noteq> 0xD8" "sof \<noteq> 0xD9" "\<not> (0xD0 \<le> sof \<and> sof \<le> 0xD7)"
    using assms(1) by (auto simp: jpeg_sof_def word_less_nat_alt word_le_nat_alt)
  have len: "length pre + 9 < length ?d" using assms(4) by (cases rest) simp_all
  show ?thesis
    using assms(1) hw d n len by (subst jpeg_scan.simps) (simp only: Let_def if_True simp_thms if_False)
qed

lemma jpeg_scan_file:
  assumes "list_all (\<lambda>(m, p). plain_marker m \<and> length p < 65534) segs" "jpeg_sof sof" "w < 65536" "h < 65536" "rest \<noteq> []"
  shows "jpeg_scan (pre @ concat (map jpeg_segment segs) @
           [0xFF, sof] @ be16 17 @ [8] @ be16 h @ be16 w @ rest) (length pre) = Some (w, h)"
  using assms(1)
proof (induction segs arbitrary: pre)
  case Nil
  then show ?case using jpeg_scan_frame [OF assms(2-5)] by simp
next
  case (Cons mp segs)
  obtain m p where mp: "mp = (m, p)" by (cases mp)
  let ?rest = "concat (map jpeg_segment segs) @ [0xFF, sof] @ be16 17 @ [8] @ be16 h @ be16 w @ rest"
  have "jpeg_scan (pre @ jpeg_segment (m, p) @ ?rest) (length pre)
      = jpeg_scan (pre @ jpeg_segment (m, p) @ ?rest) (length (pre @ jpeg_segment (m, p)))"
    by (subst jpeg_scan_segment) (use Cons.prems mp in simp_all)
  also have "\<dots> = Some (w, h)"
    using Cons.IH [of "pre @ jpeg_segment (m, p)"] Cons.prems mp by simp
  finally show ?case using mp by simp
qed

section \<open>Properties\<close>

text \<open>
  The image gate is exact: an upload passes the probe and the validator iff it is within the
  byte cap, its magic bytes name one of the three image types (whatever the client declared), and
  the dimensions its header declares, when the probe finds them, are positive and within the cap.
\<close>

theorem image_gate_exact:
  "validate_image (probe_image data) lims = None \<longleftrightarrow>
     int (length data) \<le> ml_max_image_bytes lims \<and>
     (case sniff_mime data of None \<Rightarrow> False
      | Some m \<Rightarrow> m \<in> set IMAGE_MIMES \<and>
          (case image_dims data m of None \<Rightarrow> True
           | Some (w, h) \<Rightarrow> 0 < w \<and> 0 < h \<and> int w \<le> ml_max_image_dimension lims \<and> int h \<le> ml_max_image_dimension lims))"
  by (auto simp: validate_image_def probe_image_def probed_def mime_in_def Let_def min_def max_def
      split: option.splits prod.splits)

text \<open>
  The probes read back the dimensions a well-formed file declares: a PNG's from its IHDR chunk,
  and a JPEG's from its frame header, after any number of other segments, for every width and height
  the formats can carry.
\<close>

theorem header_dimensions_roundtrip:
  assumes "w < 65536" "h < 65536" "rest \<noteq> []" "jpeg_sof sof"
    and "list_all (\<lambda>(m, p). plain_marker m \<and> length p < 65534) segs"
  shows "jpeg_dims (jpeg_file segs sof w h rest) = Some (w, h) \<and> png_dims (png_file w h rest) = Some (w, h)"
  using jpeg_scan_file [OF assms(5,4,1,2,3), of "[0xFF, 0xD8]"] png_dims_file [of w h rest] assms(1,2)
  by (simp add: jpeg_dims_def jpeg_file_def numeral_2_eq_2)

theorem header_dimensions_roundtrip_witness:
  "jpeg_dims (jpeg_file [(0xE0, [1, 2, 3]), (0xDB, [])] 0xC0 1280 720 [0]) = Some (1280, 720)"
  using header_dimensions_roundtrip [of 1280 720 "[0]" "0xC0" "[(0xE0, [1, 2, 3]), (0xDB, [])]"]
  by (simp add: jpeg_sof_def plain_marker_def)

text \<open>
  A chunk that claims more bytes than the file's own size makes the reader seek past the end of the
  file's outermost chunk, and the probe lets that exception through.
\<close>

definition overrun_wave :: "byte list" where
  "overrun_wave = ascii_bytes ''RIFF'' @ le_bytes 4 12 @ ascii_bytes ''WAVE'' @ ascii_bytes ''junk'' @ le_bytes 4 100"

lemma probe_lets_overrun_escape: "probe_audio overrun_wave = Inl RuntimeError"
proof -
  have "wave_header overrun_wave = Inl WaveRuntime"
    by (simp add: wave_header_def overrun_wave_def riff_read_def wave_chunks.simps [of _ 12] wave_step_def chunk_skip_def
        ascii_bytes_def)
  moreover have "sniff_mime overrun_wave = Some ''audio/wav''"
    by (simp add: sniff_mime_def overrun_wave_def PNG_MAGIC_def ascii_bytes_def slice_def)
  ultimately show ?thesis by (simp add: probe_audio_def)
qed

end
