(* ===== verification/Action_Schema.thy ===== *)
theory Action_Schema
  imports Py_Values
begin

text \<open>
  The embodiment registry and the validator of action requests
  (\<open>api/preprocessing/action_schema.py\<close>).
\<close>

datatype action_mode = FORWARD_DYNAMICS | INVERSE_DYNAMICS | POLICY

definition action_mode_value :: "action_mode \<Rightarrow> string" where
  "action_mode_value m = (case m of
     FORWARD_DYNAMICS \<Rightarrow> ''forward_dynamics'' | INVERSE_DYNAMICS \<Rightarrow> ''inverse_dynamics'' | POLICY \<Rightarrow> ''policy'')"

datatype action_code =
  UNKNOWN_EMBODIMENT | UNSUPPORTED_FOR_INFERENCE | WIDTH_MISMATCH | FRAME_WINDOW
| BAD_CHUNK | BAD_RESOLUTION_TIER | CONDITION_MISSING | CONDITION_CONFLICT

definition action_code_value :: "action_code \<Rightarrow> string" where
  "action_code_value c = (case c of
     UNKNOWN_EMBODIMENT \<Rightarrow> ''unknown_embodiment''
   | UNSUPPORTED_FOR_INFERENCE \<Rightarrow> ''unsupported_for_inference''
   | WIDTH_MISMATCH \<Rightarrow> ''width_mismatch''
   | FRAME_WINDOW \<Rightarrow> ''frame_window''
   | BAD_CHUNK \<Rightarrow> ''bad_chunk''
   | BAD_RESOLUTION_TIER \<Rightarrow> ''bad_resolution_tier''
   | CONDITION_MISSING \<Rightarrow> ''condition_missing''
   | CONDITION_CONFLICT \<Rightarrow> ''condition_conflict'')"

definition DOMAIN_ID :: "(string, int) dict" where
  "DOMAIN_ID =
     [(''no_action'', 0), (''av'', 1), (''camera_pose'', 2), (''hand_pose'', 3), (''pusht'', 4),
      (''libero'', 5), (''umi'', 6), (''bridge_orig_lerobot'', 7), (''droid_lerobot'', 8),
      (''robomind-franka'', 8), (''galbot'', 9), (''robomind-franka-dual'', 12), (''robomind-ur'', 13),
      (''agibotworld'', 15), (''agibot_gear_gripper'', 15), (''agibot_gear_gripper_ext'', 15),
      (''fractal'', 20)]"

definition RAW_ACTION_DIM :: "(string, int) dict" where
  "RAW_ACTION_DIM =
     [(''av'', 9), (''camera_pose'', 9), (''pusht'', 2), (''umi'', 10), (''bridge_orig_lerobot'', 10),
      (''droid_lerobot'', 10), (''robomind-franka'', 10), (''robomind-franka-dual'', 20),
      (''robomind-ur'', 10), (''galbot'', 30), (''agibotworld'', 29), (''agibot_gear_gripper'', 29),
      (''agibot_gear_gripper_ext'', 29), (''fractal'', 10), (''hand_pose'', 57)]"

definition FRAME_MIN :: int where "FRAME_MIN = 16"
definition FRAME_MAX :: int where "FRAME_MAX = 400"

definition RESOLUTION_TIERS :: "int list" where
  "RESOLUTION_TIERS = [256, 480, 704, 720]"

record action_spec =
  as_mode :: action_mode
  as_domain_name :: string
  as_chunk_size :: int
  as_raw_action_width :: "int option"
  as_resolution_tier :: int
  as_has_image :: bool
  as_has_video :: bool

record action_error =
  ae_code :: action_code
  ae_message :: message
  ae_expected :: "int option"
  ae_got :: "int option"

definition action_error :: "action_code \<Rightarrow> message \<Rightarrow> int option \<Rightarrow> int option \<Rightarrow> action_error" where
  "action_error c m e g = \<lparr>ae_code = c, ae_message = m, ae_expected = e, ae_got = g\<rparr>"

definition domain_id_of :: "string \<Rightarrow> int option" where
  "domain_id_of d = dict_get DOMAIN_ID d"

definition raw_action_dim_of :: "string \<Rightarrow> int option" where
  "raw_action_dim_of d = dict_get RAW_ACTION_DIM d"

definition missing_condition :: "action_spec \<Rightarrow> action_error option" where
  "missing_condition spec =
     (if as_mode spec = INVERSE_DYNAMICS then
        (if \<not> as_has_video spec then
           Some (action_error CONDITION_MISSING [MLit ''inverse_dynamics requires video conditioning''] None None)
         else None)
      else if \<not> as_has_image spec then
        Some (action_error CONDITION_MISSING
          [MStr (action_mode_value (as_mode spec)), MLit '' requires a conditioning image''] None None)
      else None)"

definition bad_raw_actions :: "action_spec \<Rightarrow> int \<Rightarrow> action_error option" where
  "bad_raw_actions spec expected =
     (if as_mode spec = FORWARD_DYNAMICS then
        (case as_raw_action_width spec of
           None \<Rightarrow> Some (action_error CONDITION_MISSING [MLit ''forward_dynamics requires raw_actions''] None None)
         | Some w \<Rightarrow>
             if w \<noteq> expected then
               Some (action_error WIDTH_MISMATCH
                 [MLit ''raw_actions width ('', MInt w, MLit '') does not match the expected width ('',
                  MInt expected, MLit '') for domain_name='', MRepr (as_domain_name spec)]
                 (Some expected) (Some w))
             else None)
      else None)"

definition validate_action :: "action_spec \<Rightarrow> action_error option" where
  "validate_action spec =
     (if dict_get DOMAIN_ID (as_domain_name spec) = None then
        Some (action_error UNKNOWN_EMBODIMENT
          [MLit ''unknown embodiment domain_name='', MRepr (as_domain_name spec),
           MLit ''; expected one of '', MStrs (sort (dict_keys DOMAIN_ID))] None None)
      else (case dict_get RAW_ACTION_DIM (as_domain_name spec) of
        None \<Rightarrow> Some (action_error UNSUPPORTED_FOR_INFERENCE
          [MLit ''embodiment '', MRepr (as_domain_name spec),
           MLit '' is not supported for action inference (no canonical width); supported: '',
           MStrs (sort (dict_keys RAW_ACTION_DIM))] None None)
      | Some expected \<Rightarrow>
          if as_has_image spec \<and> as_has_video spec then
            Some (action_error CONDITION_CONFLICT
              [MLit ''provide either an image or a video for the action condition, not both''] None None)
          else (case missing_condition spec of Some e \<Rightarrow> Some e
          | None \<Rightarrow>
          if as_resolution_tier spec \<notin> set RESOLUTION_TIERS then
            Some (action_error BAD_RESOLUTION_TIER
              [MLit ''resolution_tier must be one of '', MInts RESOLUTION_TIERS, MLit '', got '',
               MInt (as_resolution_tier spec)] None (Some (as_resolution_tier spec)))
          else if as_chunk_size spec < 1 then
            Some (action_error BAD_CHUNK [MLit ''chunk_size must be >= 1, got '', MInt (as_chunk_size spec)]
              None (Some (as_chunk_size spec)))
          else if \<not> (FRAME_MIN \<le> as_chunk_size spec \<and> as_chunk_size spec \<le> FRAME_MAX) then
            Some (action_error FRAME_WINDOW
              [MLit ''chunk_size (action length) must be in ['', MInt FRAME_MIN, MLit '', '', MInt FRAME_MAX,
               MLit ''], got '', MInt (as_chunk_size spec)] None (Some (as_chunk_size spec)))
          else bad_raw_actions spec expected)))"

section \<open>Properties\<close>

lemma raw_dims_known: "list_all (\<lambda>(d, w). dict_get DOMAIN_ID d \<noteq> None \<and> 0 < w \<and> w \<le> 64) RAW_ACTION_DIM"
  by (simp add: RAW_ACTION_DIM_def DOMAIN_ID_def)

lemma raw_dim_bounds:
  assumes "dict_get RAW_ACTION_DIM d = Some w"
  shows "dict_get DOMAIN_ID d \<noteq> None" "0 < w" "w \<le> 64"
  using map_of_SomeD [OF assms] raw_dims_known by (auto simp: list_all_iff)

text \<open>
  C38: An action request is accepted iff its embodiment has a canonical width, exactly the right
  conditioning for its mode is present (a video and no image for inverse dynamics, an image and no
  video otherwise), its tier and chunk are in range, and forward dynamics drives exactly the
  embodiment's width, which is between 1 and the model's padded 64.
\<close>

theorem validate_action_exact:
  "validate_action spec = None \<longleftrightarrow>
     (\<exists>w. raw_action_dim_of (as_domain_name spec) = Some w \<and> 0 < w \<and> w \<le> 64 \<and>
        (if as_mode spec = FORWARD_DYNAMICS then as_raw_action_width spec = Some w else True)) \<and>
     domain_id_of (as_domain_name spec) \<noteq> None \<and>
     as_has_video spec = (as_mode spec = INVERSE_DYNAMICS) \<and>
     as_has_image spec = (as_mode spec \<noteq> INVERSE_DYNAMICS) \<and>
     as_resolution_tier spec \<in> {256, 480, 704, 720} \<and> 16 \<le> as_chunk_size spec \<and> as_chunk_size spec \<le> 400"
  using raw_dim_bounds [of "as_domain_name spec"]
  by (auto simp: validate_action_def missing_condition_def bad_raw_actions_def raw_action_dim_of_def
      domain_id_of_def RESOLUTION_TIERS_def FRAME_MIN_def FRAME_MAX_def split: option.splits)

end
