(* ===== verification/Reasoner.thy ===== *)
theory Reasoner
  imports Schemas Residency Trust_Paths
begin

text \<open>
  The reasoning plane: the public context window (\<open>api/engines/vllm/context_cap.py\<close>), the serving
  configuration and identity check (\<open>api/engines/vllm/loader.py\<close>), the greedy adapter
  (\<open>api/engines/vllm/adapter.py\<close>), and the streaming endpoint (\<open>api/app/routes/reasoning.py\<close>).
  The tokenizer, the engine, the JSON library and the upstream server are arguments.
\<close>

section \<open>Engine metadata\<close>

datatype precision = NVFP4 | FP8 | BF16

definition precision_value :: "precision \<Rightarrow> string" where
  "precision_value p = (case p of NVFP4 \<Rightarrow> ''nvfp4'' | FP8 \<Rightarrow> ''fp8'' | BF16 \<Rightarrow> ''bf16'')"

record engine_info =
  ei_engine :: string
  ei_precision :: precision
  ei_checkpoint_dir :: string
  ei_n_quantized :: int
  ei_granularity :: string
  ei_recipe :: string

definition engine_info :: "string \<Rightarrow> precision \<Rightarrow> string \<Rightarrow> engine_info" where
  "engine_info e p d = \<lparr>ei_engine = e, ei_precision = p, ei_checkpoint_dir = d, ei_n_quantized = 0,
     ei_granularity = [], ei_recipe = []\<rparr>"

section \<open>The context window\<close>

definition DEFAULT_MAX_CONTEXT_TOKENS :: int where "DEFAULT_MAX_CONTEXT_TOKENS = 32768"

definition DEFAULT_MAX_OUTPUT_TOKENS :: int where
  "DEFAULT_MAX_OUTPUT_TOKENS = DEFAULT_MAX_CONTEXT_TOKENS"

datatype reasoning_code = EMPTY_PROMPT | BAD_MAX_TOKENS | CONTEXT_OVER_CAP

definition reasoning_code_value :: "reasoning_code \<Rightarrow> string" where
  "reasoning_code_value c = (case c of
     EMPTY_PROMPT \<Rightarrow> ''empty_prompt'' | BAD_MAX_TOKENS \<Rightarrow> ''bad_max_tokens''
   | CONTEXT_OVER_CAP \<Rightarrow> ''context_over_cap'')"

record context_cap =
  cc_max_context_tokens :: int
  cc_max_output_tokens :: int

record reasoning_error =
  re_code :: reasoning_code
  re_message :: message
  re_expected :: "int option"
  re_got :: "int option"

definition environ_get :: "(string, string) dict \<Rightarrow> string \<Rightarrow> string \<Rightarrow> string" where
  "environ_get environ k d = (case dict_get environ k of None \<Rightarrow> d | Some v \<Rightarrow> v)"

definition cap_from_env :: "(string, string) dict \<Rightarrow> py_exc + context_cap" where
  "cap_from_env environ =
     bindE (py_int (PStr (environ_get environ ''COSMOS3_REASONER_MAX_CONTEXT'' (show_int DEFAULT_MAX_CONTEXT_TOKENS)))) (\<lambda>c.
     mapE (\<lambda>m. \<lparr>cc_max_context_tokens = c, cc_max_output_tokens = m\<rparr>)
       (py_int (PStr (environ_get environ ''COSMOS3_REASONER_MAX_OUTPUT'' (show_int DEFAULT_MAX_OUTPUT_TOKENS)))))"

definition validate_context :: "int \<Rightarrow> int \<Rightarrow> context_cap \<Rightarrow> reasoning_error option" where
  "validate_context prompt_tokens max_output_tokens cfg =
     (if prompt_tokens \<le> 0 then
        Some \<lparr>re_code = EMPTY_PROMPT,
              re_message = [MLit ''prompt is empty (zero tokens); supply a non-empty prompt''],
              re_expected = None, re_got = Some prompt_tokens\<rparr>
      else if max_output_tokens \<le> 0 \<or> cc_max_output_tokens cfg < max_output_tokens then
        Some \<lparr>re_code = BAD_MAX_TOKENS,
              re_message = [MLit ''max_output_tokens must be in 1..'', MInt (cc_max_output_tokens cfg)],
              re_expected = Some (cc_max_output_tokens cfg), re_got = Some max_output_tokens\<rparr>
      else (let total = prompt_tokens + max_output_tokens in
        if cc_max_context_tokens cfg < total then
          Some \<lparr>re_code = CONTEXT_OVER_CAP,
                re_message = [MLit ''prompt+output tokens ('', MInt total, MLit '') exceed the '',
                  MInt (cc_max_context_tokens cfg), MLit ''-token public context cap''],
                re_expected = Some (cc_max_context_tokens cfg), re_got = Some total\<rparr>
        else None))"

section \<open>Serving configuration and identity\<close>

definition DEFAULT_REASONER_MODEL_DIR :: string where
  "DEFAULT_REASONER_MODEL_DIR = ''/data/models/Cosmos3-Nano''"

definition EXPECTED_ARCH :: string where "EXPECTED_ARCH = ''Cosmos3ForConditionalGeneration''"

definition reasoner_from_env ::
  "(pyfloat \<Rightarrow> string) \<Rightarrow> (string \<Rightarrow> py_exc + pyfloat) \<Rightarrow> (string, string) dict \<Rightarrow> py_exc + reasoner_config" where
  "reasoner_from_env show_float parse_float environ =
     bindE (py_int (PStr (environ_get environ ''COSMOS3_REASONER_MAX_CONTEXT'' (show_int DEFAULT_MAX_CONTEXT_TOKENS)))) (\<lambda>len.
     bindE (py_int (PStr (environ_get environ ''COSMOS3_REASONER_MAX_OUTPUT'' (show_int DEFAULT_MAX_OUTPUT_TOKENS)))) (\<lambda>out.
     bindE (parse_float (environ_get environ ''COSMOS3_REASONER_GPU_MEM_UTIL'' (show_float (Finite (85 / 100))))) (\<lambda>util.
     mapE (\<lambda>seed.
        \<lparr>rc_model_dir = environ_get environ ''COSMOS3_REASONER_MODEL_DIR'' DEFAULT_REASONER_MODEL_DIR,
         rc_max_model_len = len, rc_max_output_tokens = out, rc_gpu_memory_utilization = util,
         rc_dtype = environ_get environ ''COSMOS3_REASONER_DTYPE'' ''bfloat16'', rc_seed = seed,
         rc_served_model_name = ''cosmos3-reasoner'',
         rc_device = environ_get environ ''COSMOS3_DEVICE'' ''cuda''\<rparr>)
       (py_int (PStr (environ_get environ ''COSMOS3_REASONER_SEED'' ''123''))))))"

definition cap_config :: "reasoner_config \<Rightarrow> context_cap" where
  "cap_config cfg =
     \<lparr>cc_max_context_tokens = rc_max_model_len cfg,
      cc_max_output_tokens = min (rc_max_output_tokens cfg) (rc_max_model_len cfg)\<rparr>"

datatype load_exc = ReasonerLoadError message

definition verify_reasoner_info :: "string \<Rightarrow> string \<Rightarrow> string \<Rightarrow> load_exc + engine_info" where
  "verify_reasoner_info observed_arch observed_dtype model_dir =
     (if observed_arch \<noteq> EXPECTED_ARCH then
        Inl (ReasonerLoadError [MStr model_dir, MLit '': served architecture '', MRepr observed_arch,
          MLit '' is not '', MRepr EXPECTED_ARCH])
      else if \<not> sublist ''bfloat16'' (str_lower observed_dtype) \<and> observed_dtype \<notin> set [''bf16''] then
        Inl (ReasonerLoadError [MStr model_dir, MLit '': reasoner dtype '', MRepr observed_dtype,
          MLit '' is not bf16 (the reasoner is unquantized)''])
      else Inr (engine_info ''vllm'' BF16 model_dir))"

section \<open>The greedy adapter\<close>

record reasoning_request =
  rr_prompt :: string
  rr_case_id :: string
  rr_image_path :: "string option"
  rr_video_path :: "string option"
  rr_max_output_tokens :: int
  rr_temperature :: pyfloat
  rr_seed :: int

record greedy_output =
  go_text :: string
  go_output_tokens :: int
  go_vram_peak_bytes :: int

record reasoning_result =
  rs_case_id :: string
  rs_text :: string
  rs_prompt_tokens :: int
  rs_output_tokens :: int
  rs_vram_peak_bytes :: int
  rs_info :: "engine_info option"

text \<open>\<open>calls\<close> is the list of generations the engine was asked for.\<close>

definition adapter_reason ::
  "(string \<Rightarrow> nat) \<Rightarrow> (string \<Rightarrow> int \<Rightarrow> int \<Rightarrow> string option \<Rightarrow> string option \<Rightarrow> greedy_output)
     \<Rightarrow> engine_info \<Rightarrow> context_cap \<Rightarrow> reasoning_request \<Rightarrow> (string \<times> int) list
     \<Rightarrow> (reasoning_error + reasoning_result) \<times> (string \<times> int) list" where
  "adapter_reason encode_len generate_greedy info cap request calls =
     (let prompt_tokens = int (encode_len (rr_prompt request)) in
      case validate_context prompt_tokens (rr_max_output_tokens request) cap of
        Some error \<Rightarrow> (Inl error, calls)
      | None \<Rightarrow>
          (let out = generate_greedy (rr_prompt request) (rr_max_output_tokens request) (rr_seed request)
                       (rr_image_path request) (rr_video_path request)
           in (Inr \<lparr>rs_case_id = (if rr_case_id request \<noteq> [] then rr_case_id request else ''reason''),
                    rs_text = go_text out, rs_prompt_tokens = prompt_tokens,
                    rs_output_tokens = go_output_tokens out,
                    rs_vram_peak_bytes = go_vram_peak_bytes out, rs_info = Some info\<rparr>,
               calls @ [(rr_prompt request, rr_max_output_tokens request)])))"

section \<open>The endpoint, before the stream\<close>

text \<open>\<open>encode_len\<close> is the tokenizer: absent, or a count, or an exception (\<open>None\<close>).\<close>

definition count_tokens :: "(string \<Rightarrow> nat option) option \<Rightarrow> string \<Rightarrow> int" where
  "count_tokens tokenizer prompt =
     (let estimate = int ((length prompt + 2) div 3) in
      case tokenizer of
        None \<Rightarrow> estimate
      | Some encode_len \<Rightarrow> (case encode_len prompt of None \<Rightarrow> estimate | Some n \<Rightarrow> int n))"

definition effective_budget :: "int \<Rightarrow> int option \<Rightarrow> context_cap \<Rightarrow> int" where
  "effective_budget prompt_tokens requested cap =
     (case requested of
        None \<Rightarrow> min (cc_max_output_tokens cap) (max 1 (cc_max_context_tokens cap - prompt_tokens))
      | Some n \<Rightarrow> n)"

record reason_payload =
  rp_prompt :: string
  rp_max_tokens :: int
  rp_image_path :: "string option"
  rp_video_path :: "string option"

datatype reason_exc = ReasoningValidationFailed reasoning_error | ReasonUntrusted path_exc

definition resolve_optional ::
  "(string \<Rightarrow> string) \<Rightarrow> string list \<Rightarrow> string option \<Rightarrow> path_exc + string option" where
  "resolve_optional realpath allowlist p = (case p of
     None \<Rightarrow> Inr None
   | Some s \<Rightarrow> if s = [] then Inr None else mapE Some (resolve_within realpath s allowlist))"

definition reason_request ::
  "(string \<Rightarrow> string) \<Rightarrow> string list \<Rightarrow> (string \<Rightarrow> nat option) option \<Rightarrow> context_cap \<Rightarrow> reasoning_body
     \<Rightarrow> reason_exc + reason_payload" where
  "reason_request realpath allowlist tokenizer cap body =
     (let prompt_tokens = count_tokens tokenizer (rb_prompt body);
          effective = effective_budget prompt_tokens (rb_max_output_tokens body) cap
      in case validate_context prompt_tokens effective cap of
           Some error \<Rightarrow> Inl (ReasoningValidationFailed error)
         | None \<Rightarrow>
             map_errE ReasonUntrusted
               (bindE (resolve_optional realpath allowlist (rb_image_path body)) (\<lambda>image.
                mapE (\<lambda>video. \<lparr>rp_prompt = rb_prompt body, rp_max_tokens = effective,
                               rp_image_path = image, rp_video_path = video\<rparr>)
                  (resolve_optional realpath allowlist (rb_video_path body)))))"

section \<open>The relay\<close>

datatype sse = SseToken string | SseError string | SseHeartbeat | SseDone

definition sse_text :: "((string \<times> pyval) list \<Rightarrow> string) \<Rightarrow> sse \<Rightarrow> string" where
  "sse_text dumps ev = (case ev of
     SseToken s \<Rightarrow> ''event: token'' @ [CHR 0x0A] @ ''data: '' @ dumps [(''delta'', PStr s)] @ [CHR 0x0A, CHR 0x0A]
   | SseError s \<Rightarrow> ''event: error'' @ [CHR 0x0A] @ ''data: '' @ dumps [(''message'', PStr s)] @ [CHR 0x0A, CHR 0x0A]
   | SseHeartbeat \<Rightarrow> ''event: heartbeat'' @ [CHR 0x0A] @ ''data: {}'' @ [CHR 0x0A, CHR 0x0A]
   | SseDone \<Rightarrow> ''event: done'' @ [CHR 0x0A] @ ''data: {}'' @ [CHR 0x0A, CHR 0x0A])"

datatype relay_item = Delta string | Failure string | Sentinel

text \<open>
  \<open>pump\<close> puts each delta on the queue, then the failure of the upstream if it had one, then the
  sentinel; \<open>stopped\<close> is the number of deltas after which it sees the stop flag.
\<close>

definition pump :: "string list \<Rightarrow> string option \<Rightarrow> nat option \<Rightarrow> relay_item list" where
  "pump deltas failure stopped = (case stopped of
     Some k \<Rightarrow> if k < length deltas then map Delta (take k deltas) @ [Sentinel]
               else map Delta deltas @ (case failure of None \<Rightarrow> [] | Some e \<Rightarrow> [Failure e]) @ [Sentinel]
   | None \<Rightarrow> map Delta deltas @ (case failure of None \<Rightarrow> [] | Some e \<Rightarrow> [Failure e]) @ [Sentinel])"

text \<open>
  The consumer loop: each wait on the pending \<open>get\<close> either times out (\<open>True\<close>) or delivers the next
  item. Its result is the events it yields and whether it returned.
\<close>

fun relay :: "bool list \<Rightarrow> relay_item list \<Rightarrow> sse list \<times> bool" where
  "relay [] items = ([], False)"
| "relay (True # waits) items = (let (evs, b) = relay waits items in (SseHeartbeat # evs, b))"
| "relay (False # waits) [] = ([], False)"
| "relay (False # waits) (Sentinel # items) = ([SseDone], True)"
| "relay (False # waits) (Failure e # items) = ([SseError e, SseDone], True)"
| "relay (False # waits) (Delta d # items) = (let (evs, b) = relay waits items in (SseToken d # evs, b))"

section \<open>The upstream server's lines\<close>

text \<open>
  One chat-completion line: skipped, the end marker, or the delta of its first choice. \<open>json_loads\<close>
  raises on malformed JSON; the subscripts and \<open>get\<close>s raise as Python's do.
\<close>

definition chat_delta :: "(string \<Rightarrow> py_exc + pyval) \<Rightarrow> string \<Rightarrow> py_exc + pyval" where
  "chat_delta json_loads data =
     bindE (json_loads data) (\<lambda>obj.
     bindE (py_get obj ''choices'' (PList [PDict []])) (\<lambda>choices.
     bindE (py_first choices) (\<lambda>choice.
     bindE (py_get choice ''delta'' (PDict [])) (\<lambda>delta. py_get delta ''content'' PNone))))"

fun chat_stream :: "(string \<Rightarrow> py_exc + pyval) \<Rightarrow> string list \<Rightarrow> pyval list \<times> py_exc option" where
  "chat_stream json_loads [] = ([], None)"
| "chat_stream json_loads (raw # raws) =
     (let line = strip raw in
      if \<not> prefix ''data:'' line then chat_stream json_loads raws
      else (let data = strip (drop 5 line) in
        if data = ''[DONE]'' then ([], None)
        else (case chat_delta json_loads data of
                Inl e \<Rightarrow> ([], Some e)
              | Inr delta \<Rightarrow>
                  (let (ds, x) = chat_stream json_loads raws
                   in (if py_truthy delta then delta # ds else ds, x)))))"

section \<open>Properties\<close>

lemma validate_context_ok:
  "validate_context p m cfg = None \<longleftrightarrow>
     0 < p \<and> 0 < m \<and> m \<le> cc_max_output_tokens cfg \<and> p + m \<le> cc_max_context_tokens cfg"
  by (auto simp: validate_context_def Let_def)

lemma resolve_optional_Inr:
  "resolve_optional realpath al p = Inr (Some r) \<longleftrightarrow> (\<exists>s. p = Some s \<and> s \<noteq> [] \<and> resolve_within realpath s al = Inr r)"
  by (auto simp: resolve_optional_def result_simps split: option.splits)

text \<open>
  A reasoning request without an output budget is admitted iff its prompt is not empty and leaves
  room in the context window (and the operator allows any output at all).
\<close>

theorem omitted_budget_admits:
  "validate_context p (effective_budget p None cap) cap = None \<longleftrightarrow>
     0 < p \<and> p < cc_max_context_tokens cap \<and> 0 < cc_max_output_tokens cap"
  by (auto simp: validate_context_ok effective_budget_def)

definition media_resolved :: "(string \<Rightarrow> string) \<Rightarrow> string list \<Rightarrow> string option \<Rightarrow> string option \<Rightarrow> bool" where
  "media_resolved realpath al asked got \<longleftrightarrow> (case asked of
     None \<Rightarrow> got = None
   | Some s \<Rightarrow> if s = [] then got = None
       else got = Some (realpath s) \<and> CHR 0x00 \<notin> set s \<and> \<not> url_scheme s \<and> (\<exists>root\<in>set al. is_within (realpath s) (realpath root)))"

lemma resolve_optional_iff: "resolve_optional realpath al asked = Inr got \<longleftrightarrow> media_resolved realpath al asked got"
  by (auto simp: media_resolved_def resolve_optional_def result_simps resolve_within_Inr split: option.splits)

text \<open>
  C40: What the endpoint sends upstream, exactly: a payload is built iff the prompt is not empty, the
  token limit is positive and within the operator's cap, and prompt and limit fit the window; the
  payload then has the request's prompt, the limit it asked for (or what the window and the cap
  leave), and for the image and for the video the resolved path of that very field of the request,
  which names no scheme and no NUL and lies inside an allowlisted root.
\<close>

theorem reason_payload_safe:
  "reason_request realpath al tok cap body = Inr pay \<longleftrightarrow>
     0 < count_tokens tok (rb_prompt body) \<and> 0 < rp_max_tokens pay \<and>
     rp_max_tokens pay \<le> cc_max_output_tokens cap \<and>
     count_tokens tok (rb_prompt body) + rp_max_tokens pay \<le> cc_max_context_tokens cap \<and>
     rp_prompt pay = rb_prompt body \<and>
     rp_max_tokens pay = (case rb_max_output_tokens body of Some n \<Rightarrow> n
       | None \<Rightarrow> min (cc_max_output_tokens cap) (cc_max_context_tokens cap - count_tokens tok (rb_prompt body))) \<and>
     media_resolved realpath al (rb_image_path body) (rp_image_path pay) \<and>
     media_resolved realpath al (rb_video_path body) (rp_video_path pay)"
proof -
  let ?p = "count_tokens tok (rb_prompt body)"
  let ?e = "effective_budget ?p (rb_max_output_tokens body) cap"
  have "reason_request realpath al tok cap body = Inr pay \<longleftrightarrow>
      validate_context ?p ?e cap = None \<and> rp_prompt pay = rb_prompt body \<and> rp_max_tokens pay = ?e \<and>
      resolve_optional realpath al (rb_image_path body) = Inr (rp_image_path pay) \<and>
      resolve_optional realpath al (rb_video_path body) = Inr (rp_video_path pay)"
    by (cases pay; cases "validate_context ?p ?e cap") (auto simp: reason_request_def Let_def result_simps)
  then show ?thesis
    unfolding resolve_optional_iff validate_context_ok
    by (auto simp: effective_budget_def split: option.splits)
qed

theorem reason_payload_safe_witness:
  "reason_request lexical_realpath [''/in''] None \<lparr>cc_max_context_tokens = 10, cc_max_output_tokens = 10\<rparr>
     \<lparr>rb_prompt = ''hi there'', rb_image_path = Some ''/in/a.png'', rb_video_path = Some ''/in/b.mp4'', rb_max_output_tokens = None\<rparr>
   = Inr \<lparr>rp_prompt = ''hi there'', rp_max_tokens = 7, rp_image_path = Some ''/in/a.png'', rp_video_path = Some ''/in/b.mp4''\<rparr>"
  unfolding reason_payload_safe
  by (simp add: count_tokens_def media_resolved_def url_scheme_def is_letter_def lexical_realpath_def
      components_def path_of_def is_within_def)

lemma relay_events:
  "snd (relay waits items) \<Longrightarrow> items = map Delta ds @ (case f of None \<Rightarrow> [] | Some e \<Rightarrow> [Failure e]) @ [Sentinel] \<Longrightarrow>
   filter (\<lambda>ev. ev \<noteq> SseHeartbeat) (fst (relay waits items)) =
     map SseToken ds @ (case f of None \<Rightarrow> [] | Some e \<Rightarrow> [SseError e]) @ [SseDone]"
proof (induction waits items arbitrary: ds rule: relay.induct)
  case (2 waits items)
  then show ?case by (auto simp: case_prod_beta Let_def)
next
  case (4 waits items)
  then show ?case by (cases ds; cases f) auto
next
  case (5 waits e items)
  then show ?case by (cases ds; cases f) auto
next
  case (6 waits d items)
  show ?case
  proof (cases ds)
    case Nil
    with "6.prems"(2) show ?thesis by (cases f) auto
  next
    case (Cons d' ds')
    with 6 show ?thesis by (auto simp: case_prod_beta Let_def)
  qed
qed auto

lemma relay_returns:
  "length items \<le> length (filter Not waits) \<Longrightarrow> Sentinel \<in> set items \<Longrightarrow> snd (relay waits items)"
  by (induction waits items rule: relay.induct) (auto simp: case_prod_beta Let_def)

text \<open>
  C39: The relay drops, repeats and reorders nothing: however the heartbeat ticks interleave with the
  deltas, once the client has taken every item the stream has ended, and its events, heartbeats
  aside, are the upstream's deltas in order, its failure if it had one, and one closing event.
\<close>

theorem relay_faithful:
  assumes "length (pump ds f None) \<le> length (filter Not waits)"
  shows "snd (relay waits (pump ds f None)) \<and>
     filter (\<lambda>ev. ev \<noteq> SseHeartbeat) (fst (relay waits (pump ds f None))) =
       map SseToken ds @ (case f of None \<Rightarrow> [] | Some e \<Rightarrow> [SseError e]) @ [SseDone]"
proof -
  have "Sentinel \<in> set (pump ds f None)" by (simp add: pump_def)
  with relay_returns [OF assms] relay_events [of waits "pump ds f None" ds f] show ?thesis
    by (auto simp: pump_def)
qed

theorem relay_faithful_witness:
  "fst (relay [True, False, False, True, False, False] (pump [''a'', ''b''] (Some ''x'') None)) =
     [SseHeartbeat, SseToken ''a'', SseToken ''b'', SseHeartbeat, SseError ''x'', SseDone]"
  using relay_faithful [of "[''a'', ''b'']" "Some ''x''" "[True, False, False, True, False, False]"]
  by (simp add: pump_def)

end
