(* ===== verification/Errors.thy ===== *)
theory Errors
  imports Job_Store Media Action_Schema Reasoner
begin

text \<open>
  The one table that gives every typed domain error its HTTP status and error body
  (\<open>api/app/errors.py\<close>). \<open>PyRaise\<close> is any other exception of the language.
\<close>

datatype edge_exc =
  MediaValidationFailed media_error
| ActionValidationFailed action_error
| ContextValidationFailed reasoning_error
| Untrusted path_exc
| CheckpointUnavailable message
| JobExc job_exc
| PyRaise py_exc

definition media_status :: "media_error_code \<Rightarrow> int" where
  "media_status c = (case c of
     PAYLOAD_TOO_LARGE \<Rightarrow> 413 | UNSUPPORTED_MEDIA_TYPE \<Rightarrow> 415 | INVALID_DIMENSION \<Rightarrow> 422 | INVALID_PARAM \<Rightarrow> 422)"

text \<open>\<open>str\<close> of a list of integers, which two of the \<open>expected\<close> fields are.\<close>

definition show_ints :: "int list \<Rightarrow> string" where
  "show_ints xs = ''['' @ join '', '' (map show_int xs) @ '']''"

definition detail_value :: "msg_part \<Rightarrow> pyval" where
  "detail_value m = (case m of MInt n \<Rightarrow> PInt n | MInts xs \<Rightarrow> PStr (show_ints xs) | MStr s \<Rightarrow> PStr s
     | MLit s \<Rightarrow> PStr s | MRepr s \<Rightarrow> PStr s | MStrs ss \<Rightarrow> PList (map PStr ss) | MVal v \<Rightarrow> v)"

definition details :: "pyval option \<Rightarrow> pyval option \<Rightarrow> params option" where
  "details expected got =
     (let out = (case expected of None \<Rightarrow> [] | Some v \<Rightarrow> [(''expected'', v)])
              @ (case got of None \<Rightarrow> [] | Some v \<Rightarrow> [(''got'', v)])
      in if out = [] then None else Some out)"

definition error_body :: "string \<Rightarrow> message \<Rightarrow> params option \<Rightarrow> error_model" where
  "error_body c m d = \<lparr>em_code = c, em_message = m, em_details = d\<rparr>"

definition untrusted_message :: "path_exc \<Rightarrow> message" where
  "untrusted_message e = (case e of UntrustedPathError p al \<Rightarrow>
     [MLit ''path '', MRepr p, MLit '' is outside the trusted allowlist '', MStrs al])"

definition job_exc_response :: "job_exc \<Rightarrow> int \<times> error_model" where
  "job_exc_response e = (case e of
     IdempotencyConflict k \<Rightarrow> (409, error_body ''idempotency_conflict''
       [MLit ''Idempotency-Key '', MRepr k, MLit '' reused with a different payload''] None)
   | IllegalTransition t \<Rightarrow> (case t of JobTransitionError frm to \<Rightarrow>
       (409, error_body ''illegal_transition''
         [MLit ''illegal job transition '', MStr (status_value frm), MLit '' -> '', MStr (status_value to)] None))
   | JobNotFound i \<Rightarrow> (404, error_body ''not_found'' [MLit ''job '', MRepr i, MLit '' not found''] None)
   | DanglingKey k \<Rightarrow> (500, error_body ''internal_error'' [MLit ''internal server error''] None))"

definition to_error_response :: "edge_exc \<Rightarrow> int \<times> error_model" where
  "to_error_response exc = (case exc of
     MediaValidationFailed e \<Rightarrow>
       (media_status (me_code e), error_body (media_code_value (me_code e)) (me_message e)
          (details (map_option detail_value (me_expected e)) (map_option detail_value (me_got e))))
   | ActionValidationFailed e \<Rightarrow>
       (422, error_body (action_code_value (ae_code e)) (ae_message e)
          (details (map_option PInt (ae_expected e)) (map_option PInt (ae_got e))))
   | ContextValidationFailed e \<Rightarrow>
       (422, error_body (reasoning_code_value (re_code e)) (re_message e)
          (details (map_option PInt (re_expected e)) (map_option PInt (re_got e))))
   | Untrusted p \<Rightarrow> (422, error_body ''untrusted_path'' (untrusted_message p) None)
   | CheckpointUnavailable m \<Rightarrow> (422, error_body ''checkpoint_unavailable'' m None)
   | JobExc e \<Rightarrow> job_exc_response e
   | PyRaise e \<Rightarrow> (500, error_body ''internal_error'' [MLit ''internal server error''] None))"

section \<open>Properties\<close>

text \<open>
  The error table is total and honest: every typed domain error becomes a 404, 409, 413, 415 or
  422 with a code of its own, and the generic 500 body is given exactly to the errors of no typed
  class; an untrusted path is reported as the client sent it, never as what it resolved to.
\<close>

theorem error_table_total:
  "fst (to_error_response exc) \<in> {404, 409, 413, 415, 422, 500} \<and>
   (fst (to_error_response exc) = 500 \<longleftrightarrow> (\<exists>e. exc = PyRaise e) \<or> (\<exists>k. exc = JobExc (DanglingKey k))) \<and>
   (fst (to_error_response exc) = 500 \<longleftrightarrow> em_code (snd (to_error_response exc)) = ''internal_error'') \<and>
   em_message (snd (to_error_response (Untrusted (UntrustedPathError p al)))) =
     [MLit ''path '', MRepr p, MLit '' is outside the trusted allowlist '', MStrs al]"
  by (auto simp: to_error_response_def media_status_def job_exc_response_def error_body_def
      media_code_value_def action_code_value_def reasoning_code_value_def untrusted_message_def
      split: edge_exc.splits job_exc.splits media_error_code.splits action_code.splits reasoning_code.splits
        transition_error.splits)

end
