(* ===== verification/Job_Runner.thy ===== *)
theory Job_Runner
  imports Job_Store
begin

text \<open>
  The serialized job runner (\<open>api/jobs/runner.py\<close>) as a state machine over the job store: the drain
  loop, the cancel coroutines, and the work thread with its progress callback. One step runs one of
  them from an \<open>await\<close> (or a lock of the store) to the next. The GPU lease, the orchestrator and the
  work itself answer at the steps that wait for them.
\<close>

section \<open>State\<close>

record work_result =
  wr_artifact_path :: string
  wr_meta :: params

text \<open>An exception of the work or of the acquisition: its \<open>code\<close> attribute, and its \<open>str\<close>.\<close>

record work_exc =
  we_code :: "pyval option"
  we_str :: string

datatype runner_pc =
    Idle
  | WaitLease string
  | Acquiring string
  | EvictAfterAcquire string
  | Working string
  | EvictAfterWork string
  | Stopped

text \<open>How an exception reaches the loop's last resort: a refused transition, or an \<open>evict_all\<close> that raises.\<close>

datatype crash_cause = TransitionRefused | EvictionRaised

text \<open>
  \<open>rn_thread\<close> is the job whose work a thread is running, \<open>rn_report\<close> a progress report that has
  updated the record and not yet appended its event, \<open>rn_cancels\<close> the cancel coroutines that wait
  for \<open>evict_all\<close>, and \<open>rn_lost\<close> and \<open>rn_crashed\<close> are history: the jobs of the cancels that ended in
  that \<open>await\<close>, and the jobs whose processing reached the loop's last resort.
\<close>

record runner =
  rn_store :: store
  rn_queue :: "string list"
  rn_cancelled :: "string set"
  rn_current :: "string option"
  rn_pc :: runner_pc
  rn_thread :: "string option"
  rn_report :: "(string \<times> pyfloat) option"
  rn_cancels :: "nat \<Rightarrow> string option"
  rn_lost :: "string set"
  rn_crashed :: "(string \<times> crash_cause) set"

definition new_runner :: runner where
  "new_runner = \<lparr>rn_store = empty_store, rn_queue = [], rn_cancelled = {}, rn_current = None, rn_pc = Idle,
     rn_thread = None, rn_report = None, rn_cancels = (\<lambda>c. None), rn_lost = {}, rn_crashed = {}\<rparr>"

section \<open>The loop, one definition per stretch\<close>

definition error_of :: "work_exc \<Rightarrow> error_model" where
  "error_of exc =
     \<lparr>em_code = (case we_code exc of Some (PStr c) \<Rightarrow> c | _ \<Rightarrow> ''internal_error''),
      em_message = [MStr (we_str exc)], em_details = None\<rparr>"

definition emit :: "string \<Rightarrow> string \<Rightarrow> params \<Rightarrow> runner \<Rightarrow> runner" where
  "emit i event_type data s = s\<lparr>rn_store := snd (append_event i event_type (Some data) (rn_store s))\<rparr>"

definition modify :: "string \<Rightarrow> (job_record \<Rightarrow> transition_error + job_record) \<Rightarrow> runner
    \<Rightarrow> job_exc + (job_record \<times> runner)" where
  "modify i fn s = mapE (\<lambda>(r, st). (r, s\<lparr>rn_store := st\<rparr>)) (store_update i fn (rn_store s))"

text \<open>The \<open>finally\<close> of \<open>_process\<close>; \<open>crash\<close> is the same with an exception on its way to the loop.\<close>

definition finish_process :: "string \<Rightarrow> runner \<Rightarrow> runner" where
  "finish_process i s = s\<lparr>rn_cancelled := rn_cancelled s - {i}, rn_current := None, rn_pc := Idle\<rparr>"

definition crash :: "crash_cause \<Rightarrow> string \<Rightarrow> runner \<Rightarrow> runner" where
  "crash cause i s = finish_process i (s\<lparr>rn_crashed := insert (i, cause) (rn_crashed s)\<rparr>)"

definition fail_job :: "string \<Rightarrow> work_exc \<Rightarrow> runner \<Rightarrow> job_exc + runner" where
  "fail_job i exc s =
     mapE (\<lambda>(r, s1). emit i (status_value Failed) [(''message'', PStr (we_str exc))] s1)
       (modify i (\<lambda>r. fail r (error_of exc)) s)"

definition process_enter :: "string \<Rightarrow> runner \<Rightarrow> runner" where
  "process_enter i s =
     (if i \<in> rn_cancelled s then s\<lparr>rn_cancelled := rn_cancelled s - {i}, rn_pc := Idle\<rparr>
      else (case store_try_get (rn_store s) i of
              None \<Rightarrow> s\<lparr>rn_pc := Idle\<rparr>
            | Some r \<Rightarrow> if jr_status r \<noteq> Queued then s\<lparr>rn_pc := Idle\<rparr>
                        else s\<lparr>rn_current := Some i, rn_pc := WaitLease i\<rparr>))"

definition acquire_failed :: "string \<Rightarrow> work_exc \<Rightarrow> runner \<Rightarrow> runner" where
  "acquire_failed i exc s =
     (if i \<in> rn_cancelled s then finish_process i s
      else (case fail_job i exc s of
              Inl e \<Rightarrow> crash TransitionRefused i s
            | Inr s1 \<Rightarrow> s1\<lparr>rn_pc := EvictAfterAcquire i\<rparr>))"

definition acquired :: "string \<Rightarrow> runner \<Rightarrow> runner" where
  "acquired i s =
     (if i \<in> rn_cancelled s then finish_process i s
      else (case modify i start s of
              Inl e \<Rightarrow> crash TransitionRefused i s
            | Inr (r, s1) \<Rightarrow>
                (emit i (status_value Running) [] s1)\<lparr>rn_pc := Working i, rn_thread := Some i\<rparr>))"

definition work_failed :: "string \<Rightarrow> work_exc \<Rightarrow> runner \<Rightarrow> runner" where
  "work_failed i exc s0 =
     (let s = s0\<lparr>rn_thread := None\<rparr>
      in if i \<in> rn_cancelled s then finish_process i s
         else (case fail_job i exc s of
                 Inl e \<Rightarrow> crash TransitionRefused i s
               | Inr s1 \<Rightarrow> s1\<lparr>rn_pc := EvictAfterWork i\<rparr>))"

definition work_returned :: "string \<Rightarrow> work_result \<Rightarrow> runner \<Rightarrow> runner" where
  "work_returned i res s0 =
     (let s = s0\<lparr>rn_thread := None\<rparr>
      in if i \<in> rn_cancelled s then finish_process i s
         else (case modify i (\<lambda>r. succeed r (wr_artifact_path res) (Some (wr_meta res))) s of
                 Inl e \<Rightarrow> crash TransitionRefused i s
               | Inr (r, s1) \<Rightarrow> finish_process i (emit i (status_value Succeeded) (wr_meta res) s1)))"

text \<open>\<open>stop\<close> cancels the loop's task: the \<open>await\<close> it is in raises, and \<open>finally\<close> runs.\<close>

definition stop_loop :: "runner \<Rightarrow> runner" where
  "stop_loop s = (case rn_current s of
     None \<Rightarrow> s\<lparr>rn_pc := Stopped\<rparr> | Some i \<Rightarrow> (finish_process i s)\<lparr>rn_pc := Stopped\<rparr>)"

section \<open>The progress callback and the cancel coroutine\<close>

definition report_update :: "string \<Rightarrow> pyfloat \<Rightarrow> runner \<Rightarrow> runner" where
  "report_update i fraction s =
     (case modify i (\<lambda>r. if jr_status r = Running then progress r fraction else Inr r) s of
        Inl e \<Rightarrow> s
      | Inr (r, s1) \<Rightarrow> if jr_status r = Running then s1\<lparr>rn_report := Some (i, jr_progress r)\<rparr> else s1)"

definition report_append :: "string \<Rightarrow> pyfloat \<Rightarrow> runner \<Rightarrow> runner" where
  "report_append i f s = emit i PROGRESS [(''progress'', PFloat f)] (s\<lparr>rn_report := None\<rparr>)"

definition cancel_finish :: "string \<Rightarrow> runner \<Rightarrow> job_exc + (job_record \<times> runner)" where
  "cancel_finish i s =
     mapE (\<lambda>(r, s1). (r, emit i (status_value Cancelled) [] s1)) (modify i cancel s)"

text \<open>
  \<open>cancel_call\<close> is the coroutine up to its \<open>await\<close>: \<open>None\<close> when it waits for the eviction, and
  otherwise the answer it gives at once.
\<close>

definition cancel_call :: "string \<Rightarrow> runner \<Rightarrow> (job_exc + job_record) option \<times> runner" where
  "cancel_call i s = (case store_get (rn_store s) i of
     Inl e \<Rightarrow> (Some (Inl e), s)
   | Inr r \<Rightarrow>
       if terminal (jr_status r) then
         (Some (Inl (IllegalTransition (JobTransitionError (jr_status r) Cancelled))), s)
       else (let s1 = s\<lparr>rn_cancelled := insert i (rn_cancelled s)\<rparr>
             in if jr_status r = Running \<and> rn_current s1 = Some i then (None, s1)
                else (case cancel_finish i s1 of
                        Inl e \<Rightarrow> (Some (Inl e), s1)
                      | Inr (r', s2) \<Rightarrow> (Some (Inr r'), s2))))"

definition cancel_resume :: "nat \<Rightarrow> string \<Rightarrow> runner \<Rightarrow> runner" where
  "cancel_resume c i s0 =
     (let s = s0\<lparr>rn_cancels := (rn_cancels s0)(c := None)\<rparr>
      in (case cancel_finish i s of Inl e \<Rightarrow> s | Inr (r, s1) \<Rightarrow> s1))"

text \<open>\<open>evict_all\<close> raises in the coroutine, or the coroutine is cancelled there: the rest of it never runs.\<close>

definition cancel_lost :: "nat \<Rightarrow> string \<Rightarrow> runner \<Rightarrow> runner" where
  "cancel_lost c i s = s\<lparr>rn_cancels := (rn_cancels s)(c := None), rn_lost := insert i (rn_lost s)\<rparr>"

definition enqueue :: "job_record \<Rightarrow> store \<Rightarrow> runner \<Rightarrow> runner" where
  "enqueue r st s = s\<lparr>rn_store := st, rn_queue := rn_queue s @ [jr_id r]\<rparr>"

section \<open>The steps\<close>

text \<open>
  \<open>fpr\<close> is the payload fingerprint. An id the factory makes is not in use yet. A work thread ends
  after its last report, so the loop sees its result with no report under way.
\<close>

inductive runner_step :: "(string \<Rightarrow> params \<Rightarrow> string) \<Rightarrow> runner \<Rightarrow> runner \<Rightarrow> bool"
  for fpr :: "string \<Rightarrow> params \<Rightarrow> string" where
  rs_submit: "dict_get (st_jobs (rn_store s)) i = None \<Longrightarrow>
    store_submit fpr i now mode pl ps key (rn_store s) = Inr ((r, False), st) \<Longrightarrow>
    runner_step fpr s (enqueue r st s)"
| rs_dequeue: "rn_pc s = Idle \<Longrightarrow> rn_queue s = i # q \<Longrightarrow>
    runner_step fpr s (process_enter i (s\<lparr>rn_queue := q\<rparr>))"
| rs_lease: "rn_pc s = WaitLease i \<Longrightarrow> runner_step fpr s (s\<lparr>rn_pc := Acquiring i\<rparr>)"
| rs_acquire_failed: "rn_pc s = Acquiring i \<Longrightarrow> runner_step fpr s (acquire_failed i exc s)"
| rs_acquired: "rn_pc s = Acquiring i \<Longrightarrow> runner_step fpr s (acquired i s)"
| rs_evicted: "rn_pc s = EvictAfterAcquire i \<or> rn_pc s = EvictAfterWork i \<Longrightarrow>
    runner_step fpr s (finish_process i s)"
| rs_evict_raises: "rn_pc s = EvictAfterAcquire i \<or> rn_pc s = EvictAfterWork i \<Longrightarrow>
    runner_step fpr s (crash EvictionRaised i s)"
| rs_work_failed: "rn_pc s = Working i \<Longrightarrow> rn_report s = None \<Longrightarrow> runner_step fpr s (work_failed i exc s)"
| rs_work_returned: "rn_pc s = Working i \<Longrightarrow> rn_report s = None \<Longrightarrow> runner_step fpr s (work_returned i res s)"
| rs_report: "rn_thread s = Some i \<Longrightarrow> rn_report s = None \<Longrightarrow> runner_step fpr s (report_update i f s)"
| rs_report_event: "rn_report s = Some (i, f) \<Longrightarrow> runner_step fpr s (report_append i f s)"
| rs_cancel: "cancel_call i s = (Some answer, s') \<Longrightarrow> runner_step fpr s s'"
| rs_cancel_waits: "cancel_call i s = (None, s') \<Longrightarrow> rn_cancels s c = None \<Longrightarrow>
    runner_step fpr s (s'\<lparr>rn_cancels := (rn_cancels s')(c \<mapsto> i)\<rparr>)"
| rs_cancel_resumes: "rn_cancels s c = Some i \<Longrightarrow> runner_step fpr s (cancel_resume c i s)"
| rs_cancel_lost: "rn_cancels s c = Some i \<Longrightarrow> runner_step fpr s (cancel_lost c i s)"
| rs_thread_ends: "rn_pc s = Stopped \<Longrightarrow> rn_report s = None \<Longrightarrow> runner_step fpr s (s\<lparr>rn_thread := None\<rparr>)"
| rs_stop: "runner_step fpr s (stop_loop s)"

section \<open>Statuses\<close>

definition job_of :: "runner \<Rightarrow> string \<Rightarrow> job_record option" where
  "job_of s i = dict_get (st_jobs (rn_store s)) i"

definition status_of :: "runner \<Rightarrow> string \<Rightarrow> job_status option" where
  "status_of s i = map_option jr_status (job_of s i)"

lemma emit_note: "emit i ty d s = s\<lparr>rn_store := note_store i ty d (rn_store s)\<rparr>"
  by (simp add: emit_def note_store_def)

lemma job_of_emit [simp]: "job_of (emit i ty d s) = job_of s"
  by (rule ext) (simp add: job_of_def emit_note)

lemma job_of_updates [simp]:
  "job_of (s\<lparr>rn_queue := q\<rparr>) = job_of s" "job_of (s\<lparr>rn_cancelled := c\<rparr>) = job_of s"
  "job_of (s\<lparr>rn_current := x\<rparr>) = job_of s" "job_of (s\<lparr>rn_pc := pc\<rparr>) = job_of s"
  "job_of (s\<lparr>rn_thread := t\<rparr>) = job_of s" "job_of (s\<lparr>rn_report := rp\<rparr>) = job_of s"
  "job_of (s\<lparr>rn_cancels := cs\<rparr>) = job_of s" "job_of (s\<lparr>rn_crashed := b\<rparr>) = job_of s"
  "job_of (s\<lparr>rn_lost := ls\<rparr>) = job_of s"
  by (rule ext, simp add: job_of_def)+

lemma emit_fields [simp]:
  "rn_queue (emit i ty d s) = rn_queue s" "rn_cancelled (emit i ty d s) = rn_cancelled s"
  "rn_current (emit i ty d s) = rn_current s" "rn_pc (emit i ty d s) = rn_pc s"
  "rn_thread (emit i ty d s) = rn_thread s" "rn_report (emit i ty d s) = rn_report s"
  "rn_cancels (emit i ty d s) = rn_cancels s" "rn_crashed (emit i ty d s) = rn_crashed s"
  "rn_lost (emit i ty d s) = rn_lost s"
  by (simp_all add: emit_def)

lemma run_modify_Inr:
  assumes "modify i fn s = Inr (r', s1)"
  obtains r st where "job_of s i = Some r" "fn r = Inr r'" "job_of s1 = (job_of s)(i \<mapsto> r')"
    "s1 = s\<lparr>rn_store := st\<rparr>"
proof -
  obtain st where st: "store_update i fn (rn_store s) = Inr (r', st)" "s1 = s\<lparr>rn_store := st\<rparr>"
    using assms by (auto simp: modify_def result_simps)
  from registry.modify_Inr [OF st(1)] obtain r where
    "dict_get (st_jobs (rn_store s)) i = Some r" "fn r = Inr r'"
    "dict_get (st_jobs st) = (dict_get (st_jobs (rn_store s)))(i \<mapsto> r')" by blast
  with st(2) that [of r st] show ?thesis by (simp add: job_of_def fun_eq_iff)
qed

lemma modify_Inl:
  "modify i fn s = Inl e \<Longrightarrow> job_of s i = Some r \<Longrightarrow> \<exists>x. fn r = Inl x"
  unfolding modify_def job_of_def mapE_Inl_iff using registry.modify_rejected by blast

text \<open>The ways a modification ends, by the status of the record.\<close>

lemma modify_legal:
  assumes "job_of s i = Some r" "fn r = Inr r'"
  obtains st where "modify i fn s = Inr (r', s\<lparr>rn_store := st\<rparr>)"
    "job_of (s\<lparr>rn_store := st\<rparr>) = (job_of s)(i \<mapsto> r')"
proof (cases "modify i fn s")
  case (Inl e)
  then show ?thesis using modify_Inl [OF Inl assms(1)] assms(2) by simp
next
  case (Inr x)
  then obtain r2 s1 where m: "modify i fn s = Inr (r2, s1)" by (cases x) auto
  from m obtain q st where "job_of s i = Some q" "fn q = Inr r2" "job_of s1 = (job_of s)(i \<mapsto> r2)"
    "s1 = s\<lparr>rn_store := st\<rparr>" by (rule run_modify_Inr)
  with m that assms show ?thesis by simp
qed

section \<open>The invariant\<close>

definition pc_job :: "runner_pc \<Rightarrow> string option" where
  "pc_job pc = (case pc of WaitLease i \<Rightarrow> Some i | Acquiring i \<Rightarrow> Some i | EvictAfterAcquire i \<Rightarrow> Some i
     | Working i \<Rightarrow> Some i | EvictAfterWork i \<Rightarrow> Some i | _ \<Rightarrow> None)"

definition waiting_for :: "runner \<Rightarrow> string \<Rightarrow> bool" where
  "waiting_for s i \<longleftrightarrow> i \<in> set (rn_queue s) \<or> rn_pc s = WaitLease i \<or> rn_pc s = Acquiring i"

text \<open>A cancel of the running job waits for its eviction, or ended there.\<close>

definition cancel_waits :: "runner \<Rightarrow> string \<Rightarrow> bool" where
  "cancel_waits s i \<longleftrightarrow> (\<exists>c. rn_cancels s c = Some i)"

definition cancelling :: "runner \<Rightarrow> string \<Rightarrow> bool" where
  "cancelling s i \<longleftrightarrow> cancel_waits s i \<or> i \<in> rn_lost s"

lemma cancelling_iff: "cancelling s i \<longleftrightarrow> (\<exists>c. rn_cancels s c = Some i) \<or> i \<in> rn_lost s"
  by (simp add: cancelling_def cancel_waits_def)

definition pc_inv :: "runner \<Rightarrow> bool" where
  "pc_inv s \<longleftrightarrow> (case rn_pc s of
       WaitLease i \<Rightarrow> status_of s i = Some (if i \<in> rn_cancelled s then Cancelled else Queued)
     | Acquiring i \<Rightarrow> status_of s i = Some (if i \<in> rn_cancelled s then Cancelled else Queued)
     | Working i \<Rightarrow> (if i \<in> rn_cancelled s
                    then status_of s i = Some Cancelled \<or> (status_of s i = Some Running \<and> cancelling s i)
                    else status_of s i = Some Running \<and> \<not> cancelling s i)
     | EvictAfterAcquire i \<Rightarrow> status_of s i = Some Failed
     | EvictAfterWork i \<Rightarrow> status_of s i = Some Failed
     | _ \<Rightarrow> True)"

definition runner_inv :: "runner \<Rightarrow> bool" where
  "runner_inv s \<longleftrightarrow>
     rn_current s = pc_job (rn_pc s) \<and>
     distinct (rn_queue s) \<and>
     (\<forall>i\<in>set (rn_queue s). rn_current s \<noteq> Some i \<and>
        status_of s i = Some (if i \<in> rn_cancelled s then Cancelled else Queued)) \<and>
     pc_inv s \<and>
     (rn_pc s \<noteq> Stopped \<longrightarrow> (\<forall>i. status_of s i = Some Queued \<longrightarrow> waiting_for s i)) \<and>
     (rn_pc s \<noteq> Stopped \<longrightarrow> (\<forall>i. status_of s i = Some Running \<longrightarrow> rn_pc s = Working i \<or> cancelling s i)) \<and>
     (\<forall>i. cancelling s i \<longrightarrow> status_of s i = Some Running \<or> status_of s i = Some Cancelled) \<and>
     (\<forall>i\<in>rn_cancelled s. status_of s i \<noteq> None) \<and>
     (\<forall>x\<in>rn_crashed s. snd x = EvictionRaised)"

lemma status_of_emit [simp]: "status_of (emit i ty d s) = status_of s"
  by (rule ext) (simp add: status_of_def)

lemma status_of_updates [simp]:
  "status_of (s\<lparr>rn_queue := q\<rparr>) = status_of s" "status_of (s\<lparr>rn_cancelled := c\<rparr>) = status_of s"
  "status_of (s\<lparr>rn_current := x\<rparr>) = status_of s" "status_of (s\<lparr>rn_pc := pc\<rparr>) = status_of s"
  "status_of (s\<lparr>rn_thread := t\<rparr>) = status_of s" "status_of (s\<lparr>rn_report := rp\<rparr>) = status_of s"
  "status_of (s\<lparr>rn_cancels := cs\<rparr>) = status_of s" "status_of (s\<lparr>rn_crashed := b\<rparr>) = status_of s"
  "status_of (s\<lparr>rn_lost := ls\<rparr>) = status_of s"
  by (rule ext, simp add: status_of_def)+

lemma modify_status:
  assumes "status_of s i = Some a" "\<And>r. jr_status r = a \<Longrightarrow> \<exists>r'. fn r = Inr r' \<and> jr_status r' = b"
  obtains r' st where "modify i fn s = Inr (r', s\<lparr>rn_store := st\<rparr>)" "jr_status r' = b"
    "status_of (s\<lparr>rn_store := st\<rparr>) = (status_of s)(i \<mapsto> b)"
proof -
  from assms(1) obtain r where r: "job_of s i = Some r" "jr_status r = a" by (auto simp: status_of_def)
  with assms(2) obtain r' where r': "fn r = Inr r'" "jr_status r' = b" by blast
  obtain st where "modify i fn s = Inr (r', s\<lparr>rn_store := st\<rparr>)"
    "job_of (s\<lparr>rn_store := st\<rparr>) = (job_of s)(i \<mapsto> r')" by (rule modify_legal [OF r(1), of fn r']) (rule r')
  with that r' show ?thesis by (simp add: status_of_def fun_eq_iff)
qed

lemma modify_refused:
  assumes "\<And>r. job_of s i = Some r \<Longrightarrow> \<exists>e. fn r = Inl e"
  shows "\<exists>e. modify i fn s = Inl e"
  using assms by (cases "modify i fn s") (auto elim!: run_modify_Inr)

lemma fail_job_status:
  assumes "status_of s i = Some a" "\<not> terminal a"
  obtains st where "fail_job i exc s = Inr (emit i (status_value Failed) [(''message'', PStr (we_str exc))] (s\<lparr>rn_store := st\<rparr>))"
    "status_of (s\<lparr>rn_store := st\<rparr>) = (status_of s)(i \<mapsto> Failed)"
proof (rule modify_status [OF assms(1), of "\<lambda>r. fail r (error_of exc)" Failed])
  show "\<exists>r'. fail r (error_of exc) = Inr r' \<and> jr_status r' = Failed" if "jr_status r = a" for r
    using that assms(2) by (simp add: fail_def)
qed (simp add: fail_job_def that)

lemma cancel_finish_status:
  assumes "status_of s i = Some a" "\<not> terminal a"
  obtains r st where "cancel_finish i s = Inr (r, emit i (status_value Cancelled) [] (s\<lparr>rn_store := st\<rparr>))"
    "jr_status r = Cancelled" "status_of (s\<lparr>rn_store := st\<rparr>) = (status_of s)(i \<mapsto> Cancelled)"
proof (rule modify_status [OF assms(1), of cancel Cancelled])
  show "\<exists>r'. cancel r = Inr r' \<and> jr_status r' = Cancelled" if "jr_status r = a" for r
    using that assms(2) by (simp add: cancel_def)
qed (simp add: cancel_finish_def that)

lemma cancel_finish_refused:
  assumes "status_of s i = Some a" "terminal a"
  shows "\<exists>e. cancel_finish i s = Inl e"
proof -
  have "\<exists>e. modify i cancel s = Inl e"
    by (rule modify_refused) (use assms in \<open>auto simp: status_of_def cancel_def\<close>)
  then show ?thesis by (auto simp: cancel_finish_def)
qed

lemma waiting_for_emit [simp]: "waiting_for (emit i ty d s) = waiting_for s"
  by (rule ext) (simp add: waiting_for_def)

lemma cancelling_emit [simp]: "cancelling (emit i ty d s) = cancelling s"
  by (rule ext) (simp add: cancelling_iff)

lemma cancelling_updates [simp]:
  "cancelling (s\<lparr>rn_store := st\<rparr>) = cancelling s"
  "cancelling (s\<lparr>rn_queue := q\<rparr>) = cancelling s" "cancelling (s\<lparr>rn_cancelled := c\<rparr>) = cancelling s"
  "cancelling (s\<lparr>rn_current := x\<rparr>) = cancelling s" "cancelling (s\<lparr>rn_pc := pc\<rparr>) = cancelling s"
  "cancelling (s\<lparr>rn_thread := t\<rparr>) = cancelling s" "cancelling (s\<lparr>rn_report := rp\<rparr>) = cancelling s"
  "cancelling (s\<lparr>rn_crashed := b\<rparr>) = cancelling s"
  by (rule ext, simp add: cancelling_iff)+

lemma inv_current: "runner_inv s \<Longrightarrow> rn_current s = pc_job (rn_pc s)"
  by (simp add: runner_inv_def)

lemma pc_job_simps [simp]:
  "pc_job Idle = None" "pc_job Stopped = None" "pc_job (WaitLease i) = Some i"
  "pc_job (Acquiring i) = Some i" "pc_job (Working i) = Some i" "pc_job (EvictAfterAcquire i) = Some i"
  "pc_job (EvictAfterWork i) = Some i"
  by (simp_all add: pc_job_def)

text \<open>Leaving \<open>_process\<close> is sound once the job is terminal, or running under a waiting cancel.\<close>

lemma finish_process_inv:
  assumes "runner_inv s" "rn_current s = Some i" "rn_pc s \<noteq> Stopped"
    and "status_of s i \<noteq> Some Queued" "status_of s i = Some Running \<Longrightarrow> cancelling s i"
  shows "runner_inv (finish_process i s)"
  using assms
  by (cases "rn_pc s") (auto simp: runner_inv_def finish_process_def waiting_for_def pc_inv_def)

lemma finish_cancelled:
  assumes "runner_inv s" "rn_pc s = Acquiring i \<or> rn_pc s = Working i" "i \<in> rn_cancelled s"
  shows "runner_inv (finish_process i s)"
proof (rule finish_process_inv [OF assms(1)])
  show "rn_current s = Some i" using assms by (auto simp: runner_inv_def)
  show "rn_pc s \<noteq> Stopped" using assms by auto
  show "status_of s i \<noteq> Some Queued" "status_of s i = Some Running \<Longrightarrow> cancelling s i"
    using assms by (auto simp: runner_inv_def pc_inv_def)
qed

lemma finish_process_after:
  assumes "runner_inv s" "rn_pc s = pc" "pc_job pc = Some i"
    and "status_of (s\<lparr>rn_store := st\<rparr>) = (status_of s)(i \<mapsto> b)" "terminal b" "i \<notin> rn_cancelled s" "\<not> cancelling s i"
  shows "runner_inv (finish_process i (emit i ty d (s\<lparr>rn_store := st\<rparr>)))"
  using assms
  by (cases pc) (auto simp: runner_inv_def finish_process_def waiting_for_def pc_inv_def split: if_splits)

lemma runner_inv_same_view:
  assumes "runner_inv s" "status_of s' = status_of s" "rn_queue s' = rn_queue s"
    "rn_cancelled s' = rn_cancelled s" "rn_current s' = rn_current s" "rn_pc s' = rn_pc s"
    "cancelling s' = cancelling s" "\<forall>x\<in>rn_crashed s'. snd x = EvictionRaised"
  shows "runner_inv s'"
proof -
  have w: "waiting_for s' = waiting_for s"
    using assms(2-) by (simp add: waiting_for_def fun_eq_iff)
  show ?thesis using assms(1,8) unfolding runner_inv_def pc_inv_def w assms(2-7) by blast
qed

lemma inv_crashed: "runner_inv s \<Longrightarrow> \<forall>x\<in>rn_crashed s. snd x = EvictionRaised"
  by (simp add: runner_inv_def)

lemma inv_crashedD: "runner_inv s \<Longrightarrow> (i, cause) \<in> rn_crashed s \<Longrightarrow> cause = EvictionRaised"
  using inv_crashed by fastforce

lemma lost_cancelling: "rn_cancels s c = Some i \<Longrightarrow> cancelling (cancel_lost c i s) = cancelling s"
  by (rule ext) (auto simp: cancelling_iff cancel_lost_def; metis option.inject)

lemma submit_view:
  assumes "dict_get (st_jobs (rn_store s)) i = None"
    "store_submit fpr i now mode pl ps key (rn_store s) = Inr ((r, False), st)"
  shows "jr_id r = i \<and> status_of (enqueue r st s) = (status_of s)(i \<mapsto> Queued)
    \<and> job_of (enqueue r st s) = (job_of s)(i \<mapsto> new_job i mode pl now ps (if key \<noteq> None then Some (fpr mode ps) else None))"
  using assms
  by (auto simp: store_submit_def Let_def new_job_def enqueue_def status_of_def job_of_def fun_eq_iff
        append_event_locked_def split: option.splits if_splits)

lemma submit_inv:
  assumes inv: "runner_inv s"
    and i: "dict_get (st_jobs (rn_store s)) i = None"
    and r: "store_submit fpr i now mode pl ps key (rn_store s) = Inr ((r, False), st)"
  shows "runner_inv (enqueue r st s)"
proof -
  have v: "jr_id r = i" "status_of (enqueue r st s) = (status_of s)(i \<mapsto> Queued)"
    using submit_view [OF i r] by simp_all
  have n: "status_of s i = None" using i by (simp add: status_of_def job_of_def)
  then have c: "i \<notin> rn_cancelled s" using inv by (auto simp: runner_inv_def)
  have f: "rn_queue (enqueue r st s) = rn_queue s @ [i]" "rn_cancelled (enqueue r st s) = rn_cancelled s"
    "rn_current (enqueue r st s) = rn_current s" "rn_pc (enqueue r st s) = rn_pc s"
    "rn_cancels (enqueue r st s) = rn_cancels s" "rn_crashed (enqueue r st s) = rn_crashed s"
    "cancelling (enqueue r st s) = cancelling s"
    by (simp_all add: enqueue_def v(1) cancelling_iff fun_eq_iff)
  have p: "pc_inv (enqueue r st s)"
    using inv n unfolding runner_inv_def pc_inv_def f v by (cases "rn_pc s") (auto split: if_splits)
  have nq: "i \<notin> set (rn_queue s)" "rn_current s \<noteq> Some i"
    using inv n by (auto simp: runner_inv_def pc_inv_def split: runner_pc.splits if_splits)
  show ?thesis
    using inv n c nq p unfolding runner_inv_def f v by (auto simp: waiting_for_def f)
qed

lemma dequeue_inv:
  assumes inv: "runner_inv s" and pc: "rn_pc s = Idle" and q: "rn_queue s = i # q"
  shows "runner_inv (process_enter i (s\<lparr>rn_queue := q\<rparr>))"
proof -
  have st: "status_of s i = Some (if i \<in> rn_cancelled s then Cancelled else Queued)"
    using inv q by (simp add: runner_inv_def)
  then obtain r where r: "store_try_get (rn_store s) i = Some r"
    "jr_status r = (if i \<in> rn_cancelled s then Cancelled else Queued)"
    by (auto simp: status_of_def job_of_def store_try_get_def)
  show ?thesis
    using inv pc q st r
    by (auto simp: process_enter_def runner_inv_def pc_inv_def waiting_for_def split: if_splits)
qed

lemma cancelled_now_inv:
  assumes "runner_inv s" "status_of s i = Some a" "\<not> terminal a" "a = Running \<longrightarrow> rn_current s \<noteq> Some i"
    and "status_of (s\<lparr>rn_cancelled := insert i (rn_cancelled s), rn_store := st\<rparr>) = (status_of s)(i \<mapsto> Cancelled)"
  shows "runner_inv (emit i ty d (s\<lparr>rn_cancelled := insert i (rn_cancelled s), rn_store := st\<rparr>))"
proof -
  have "rn_pc s \<noteq> Working i" "rn_pc s \<noteq> EvictAfterAcquire i" "rn_pc s \<noteq> EvictAfterWork i"
    using assms(1-4) by (auto simp: runner_inv_def pc_inv_def split: if_splits)
  with assms show ?thesis
    by (cases "rn_pc s") (auto simp: runner_inv_def pc_inv_def waiting_for_def split: if_splits)
qed

lemma resumed_inv:
  assumes "runner_inv s" "status_of s i = Some Running \<or> status_of s i = Some Cancelled" "cancelling s i"
    and "status_of s' = (status_of s)(i \<mapsto> Cancelled)" "\<And>j. j \<noteq> i \<Longrightarrow> cancelling s' j \<longleftrightarrow> cancelling s j"
    and "rn_queue s' = rn_queue s" "rn_cancelled s' = rn_cancelled s" "rn_current s' = rn_current s"
    "rn_pc s' = rn_pc s" "rn_crashed s' = rn_crashed s"
  shows "runner_inv s'"
proof -
  have w: "waiting_for s' = waiting_for s" using assms(6,9) by (simp add: waiting_for_def fun_eq_iff)
  have p: "pc_inv s'"
    using assms(1-5) unfolding runner_inv_def pc_inv_def assms(7,9)
    by (cases "rn_pc s") (auto split: if_splits)
  have q: "\<forall>j\<in>set (rn_queue s). j = i \<longrightarrow> i \<in> rn_cancelled s"
    using assms(1,2) by (auto simp: runner_inv_def split: if_splits)
  have c: "\<forall>j. cancelling s' j \<longrightarrow> j = i \<or> cancelling s j" "\<forall>j. j \<noteq> i \<longrightarrow> cancelling s j \<longrightarrow> cancelling s' j"
    using assms(5) by blast+
  show ?thesis
    using assms(1) p q c unfolding runner_inv_def assms(4,6-10) w
    by (auto simp del: split_paired_All)
qed

lemma runner_step_inv: 
  assumes "runner_step fpr s s'" "runner_inv s"
  shows "runner_inv s'"
  using assms
proof (induction rule: runner_step.induct)
  case (rs_submit s i now mode pl ps key r st)
  then show ?case by (blast intro: submit_inv)
next
  case (rs_dequeue s i q)
  then show ?case by (blast intro: dequeue_inv)
next
  case (rs_lease s i)
  then show ?case by (auto simp: runner_inv_def pc_inv_def waiting_for_def)
next
  case (rs_acquire_failed s i exc)
  show ?case
  proof (cases "i \<in> rn_cancelled s")
    case True
    with rs_acquire_failed show ?thesis by (simp add: acquire_failed_def finish_cancelled)
  next
    case False
    then have "status_of s i = Some Queued" using rs_acquire_failed by (simp add: runner_inv_def pc_inv_def)
    then obtain st where "fail_job i exc s = Inr (emit i (status_value Failed) [(''message'', PStr (we_str exc))] (s\<lparr>rn_store := st\<rparr>))"
      "status_of (s\<lparr>rn_store := st\<rparr>) = (status_of s)(i \<mapsto> Failed)" by (rule fail_job_status) simp
    with rs_acquire_failed False show ?thesis
      by (auto simp: acquire_failed_def runner_inv_def pc_inv_def waiting_for_def split: if_splits)
  qed
next
  case (rs_acquired s i)
  show ?case
  proof (cases "i \<in> rn_cancelled s")
    case True
    with rs_acquired show ?thesis by (simp add: acquired_def finish_cancelled)
  next
    case False
    then have q: "status_of s i = Some Queued" using rs_acquired by (simp add: runner_inv_def pc_inv_def)
    then have nc: "\<not> cancelling s i" using rs_acquired by (auto simp: runner_inv_def)
    obtain r' st where "modify i start s = Inr (r', s\<lparr>rn_store := st\<rparr>)"
      "status_of (s\<lparr>rn_store := st\<rparr>) = (status_of s)(i \<mapsto> Running)"
      by (rule modify_status [OF q, of start Running]) (auto simp: start_def)
    with rs_acquired False nc show ?thesis
      by (auto simp: acquired_def runner_inv_def pc_inv_def waiting_for_def split: if_splits)
  qed
next
  case (rs_evicted s i)
  then show ?case by (intro finish_process_inv) (auto simp: runner_inv_def pc_inv_def)
next
  case (rs_evict_raises s i)
  let ?s = "s\<lparr>rn_crashed := insert (i, EvictionRaised) (rn_crashed s)\<rparr>"
  have "runner_inv ?s"
    by (rule runner_inv_same_view [OF rs_evict_raises(2)]) (simp_all add: inv_crashed [OF rs_evict_raises(2)])
  then have "runner_inv (finish_process i ?s)"
    using rs_evict_raises(1) by (intro finish_process_inv) (auto simp: runner_inv_def pc_inv_def)
  then show ?case by (simp add: crash_def)
next
  case (rs_cancel_lost s c i)
  have "runner_inv (cancel_lost c i s)"
    by (rule runner_inv_same_view [OF rs_cancel_lost(2)])
       (simp_all add: lost_cancelling [OF rs_cancel_lost(1)], simp_all add: cancel_lost_def inv_crashed [OF rs_cancel_lost(2)])
  then show ?case .
next
  case (rs_report s i f)
  show ?case
  proof (cases "modify i (\<lambda>r. if jr_status r = Running then progress r f else Inr r) s")
    case (Inl e)
    with rs_report show ?thesis by (simp add: report_update_def)
  next
    case (Inr x)
    then obtain r' s1 where m: "modify i (\<lambda>r. if jr_status r = Running then progress r f else Inr r) s = Inr (r', s1)"
      by (cases x) auto
    from m obtain r st where r: "job_of s i = Some r"
      "(if jr_status r = Running then progress r f else Inr r) = Inr r'"
      "job_of s1 = (job_of s)(i \<mapsto> r')" "s1 = s\<lparr>rn_store := st\<rparr>" by (rule run_modify_Inr)
    then have "status_of (s\<lparr>rn_store := st\<rparr>) = status_of s"
      by (auto simp: status_of_def progress_def fun_eq_iff split: if_splits)
    with rs_report m r(4) show ?thesis
      by (auto simp: report_update_def intro!: runner_inv_same_view [OF rs_report(3)]
          dest: inv_crashedD)
  qed
next
  case (rs_report_event s i f)
  then show ?case by (intro runner_inv_same_view [OF rs_report_event(2)]) (simp_all add: report_append_def inv_crashed [OF rs_report_event(2)])
next
  case (rs_thread_ends s)
  then show ?case by (intro runner_inv_same_view [OF rs_thread_ends(3)]) (simp_all add: inv_crashed [OF rs_thread_ends(3)])
next
  case (rs_stop s)
  then show ?case
    by (cases "rn_pc s") (auto simp: stop_loop_def finish_process_def runner_inv_def pc_inv_def)
next
  case (rs_work_failed s i exc)
  let ?s = "s\<lparr>rn_thread := None\<rparr>"
  have inv: "runner_inv ?s" by (rule runner_inv_same_view [OF rs_work_failed(3)]) (simp_all add: inv_crashed [OF rs_work_failed(3)])
  show ?case
  proof (cases "i \<in> rn_cancelled s")
    case True
    with inv rs_work_failed show ?thesis by (simp add: work_failed_def Let_def finish_cancelled)
  next
    case False
    then have r: "status_of ?s i = Some Running" "\<not> cancelling s i"
      using rs_work_failed by (auto simp: runner_inv_def pc_inv_def)
    obtain st where "fail_job i exc ?s = Inr (emit i (status_value Failed) [(''message'', PStr (we_str exc))] (?s\<lparr>rn_store := st\<rparr>))"
      "status_of (?s\<lparr>rn_store := st\<rparr>) = (status_of ?s)(i \<mapsto> Failed)" by (rule fail_job_status [OF r(1)]) simp
    with inv rs_work_failed(1) False r(2) show ?thesis
      by (auto simp: work_failed_def Let_def runner_inv_def pc_inv_def waiting_for_def split: if_splits)
  qed
next
  case (rs_work_returned s i res)
  let ?s = "s\<lparr>rn_thread := None\<rparr>"
  have inv: "runner_inv ?s" by (rule runner_inv_same_view [OF rs_work_returned(3)]) (simp_all add: inv_crashed [OF rs_work_returned(3)])
  show ?case
  proof (cases "i \<in> rn_cancelled s")
    case True
    with inv rs_work_returned show ?thesis by (simp add: work_returned_def Let_def finish_cancelled)
  next
    case False
    then have r: "status_of ?s i = Some Running" "\<not> cancelling s i"
      using rs_work_returned by (auto simp: runner_inv_def pc_inv_def)
    let ?fn = "\<lambda>r. succeed r (wr_artifact_path res) (Some (wr_meta res))"
    obtain r' st where m: "modify i ?fn ?s = Inr (r', ?s\<lparr>rn_store := st\<rparr>)"
      "status_of (?s\<lparr>rn_store := st\<rparr>) = (status_of ?s)(i \<mapsto> Succeeded)"
      by (rule modify_status [OF r(1), of ?fn Succeeded]) (auto simp: succeed_def)
    have "runner_inv (finish_process i (emit i (status_value Succeeded) (wr_meta res) (?s\<lparr>rn_store := st\<rparr>)))"
      by (rule finish_process_after [OF inv _ _ m(2)]) (use rs_work_returned(1) False r(2) in auto)
    with m False show ?thesis by (simp add: work_returned_def Let_def)
  qed
next
  case (rs_cancel i s answer s')
  show ?case
  proof (cases "s' = s")
    case True
    with rs_cancel show ?thesis by simp
  next
    case False
    let ?s1 = "s\<lparr>rn_cancelled := insert i (rn_cancelled s)\<rparr>"
    from False rs_cancel(1) obtain r where r: "store_get (rn_store s) i = Inr r" "\<not> terminal (jr_status r)"
      by (cases "store_get (rn_store s) i") (auto simp: cancel_call_def split: if_splits)
    then have st: "status_of ?s1 i = Some (jr_status r)"
      by (auto simp: store_get_def status_of_def job_of_def split: option.splits)
    obtain r' stx where c: "cancel_finish i ?s1 = Inr (r', emit i (status_value Cancelled) [] (?s1\<lparr>rn_store := stx\<rparr>))"
      "status_of (?s1\<lparr>rn_store := stx\<rparr>) = (status_of ?s1)(i \<mapsto> Cancelled)"
      by (rule cancel_finish_status [OF st r(2)])
    with rs_cancel(1) r have s': "s' = emit i (status_value Cancelled) [] (?s1\<lparr>rn_store := stx\<rparr>)"
      "jr_status r = Running \<longrightarrow> rn_current s \<noteq> Some i"
      by (auto simp: cancel_call_def Let_def split: if_splits)
    show ?thesis
      unfolding s'(1) by (rule cancelled_now_inv [OF rs_cancel(2) st [simplified] r(2) s'(2) c(2) [simplified]])
  qed
next
  case (rs_cancel_waits i s s' c)
  from rs_cancel_waits(1) obtain r where r: "store_get (rn_store s) i = Inr r" "jr_status r = Running"
    "rn_current s = Some i" "s' = s\<lparr>rn_cancelled := insert i (rn_cancelled s)\<rparr>"
    by (auto simp: cancel_call_def Let_def split: sum.splits if_splits)
  then have st: "status_of s i = Some Running"
    by (auto simp: store_get_def status_of_def job_of_def split: option.splits)
  have w: "rn_pc s = Working i"
    using rs_cancel_waits(3) r(3) st by (cases "rn_pc s") (auto simp: runner_inv_def pc_inv_def split: if_splits)
  have c: "cancelling (s'\<lparr>rn_cancels := (rn_cancels s')(c \<mapsto> i)\<rparr>) j = (j = i \<or> cancelling s j)" for j
    using rs_cancel_waits(2) by (auto simp: cancelling_iff r(4)) (metis option.distinct(1))
  show ?case
    using rs_cancel_waits(3) st w r(3) c unfolding runner_inv_def pc_inv_def
    by (auto simp: r(4) waiting_for_def)
next
  case (rs_cancel_resumes s c i)
  let ?s = "s\<lparr>rn_cancels := (rn_cancels s)(c := None)\<rparr>"
  have ci: "cancelling s i" using rs_cancel_resumes(1) by (auto simp: cancelling_iff)
  then have st: "status_of s i = Some Running \<or> status_of s i = Some Cancelled"
    using rs_cancel_resumes(2) by (auto simp: runner_inv_def)
  have others: "cancelling ?s j \<longleftrightarrow> cancelling s j" if "j \<noteq> i" for j
    using that rs_cancel_resumes(1) by (auto simp: cancelling_iff) (metis option.inject)
  show ?case
  proof (cases "status_of s i = Some Running")
    case True
    then have t: "status_of ?s i = Some Running" by simp
    obtain r' stx where c: "cancel_finish i ?s = Inr (r', emit i (status_value Cancelled) [] (?s\<lparr>rn_store := stx\<rparr>))"
      "status_of (?s\<lparr>rn_store := stx\<rparr>) = (status_of ?s)(i \<mapsto> Cancelled)"
      by (rule cancel_finish_status [OF t]) simp
    have "runner_inv (emit i (status_value Cancelled) [] (?s\<lparr>rn_store := stx\<rparr>))"
      by (rule resumed_inv [OF rs_cancel_resumes(2) st ci]) (use c(2) others in simp_all)
    with c show ?thesis by (simp add: cancel_resume_def)
  next
    case False
    with st have t: "status_of ?s i = Some Cancelled" by simp
    have "runner_inv ?s"
      by (rule resumed_inv [OF rs_cancel_resumes(2) st ci]) (use t others in \<open>simp_all add: fun_upd_idem\<close>)
    moreover obtain e where "cancel_finish i ?s = Inl e"
      using cancel_finish_refused [OF t] by auto
    ultimately show ?thesis by (simp add: cancel_resume_def)
  qed
qed

lemma new_runner_inv: "runner_inv new_runner"
  by (simp add: runner_inv_def new_runner_def status_of_def job_of_def empty_store_def pc_inv_def cancelling_iff)

interpretation running: step_invariant "runner_step fpr" runner_inv for fpr
  by unfold_locales (rule runner_step_inv)

lemma runner_reachable_inv: "(runner_step fpr)\<^sup>*\<^sup>* new_runner s \<Longrightarrow> runner_inv s"
  using running.along_run new_runner_inv by blast

section \<open>Every step is a step of the life cycle\<close>

text \<open>How a stretch changes the jobs: each record stays, or moves along its life cycle.\<close>

definition jobs_advance :: "runner \<Rightarrow> runner \<Rightarrow> bool" where
  "jobs_advance s s' \<longleftrightarrow> (\<forall>i r. job_of s i = Some r \<longrightarrow> (\<exists>r'. job_of s' i = Some r' \<and> job_step\<^sup>*\<^sup>* r r'))"

lemma jobs_advance_same: "job_of s' = job_of s \<Longrightarrow> jobs_advance s s'"
  by (auto simp: jobs_advance_def)

lemma modify_advance:
  assumes "modify i fn s = Inr (r', s1)" "\<And>r r'. fn r = Inr r' \<Longrightarrow> job_step\<^sup>*\<^sup>* r r'" "job_of s2 = job_of s1"
  shows "jobs_advance s s2"
proof -
  from assms(1) obtain r st where "job_of s i = Some r" "fn r = Inr r'" "job_of s1 = (job_of s)(i \<mapsto> r')"
    by (rule run_modify_Inr)
  with assms(2,3) show ?thesis by (auto simp: jobs_advance_def)
qed

lemma job_of_finish [simp]: "job_of (finish_process i s) = job_of s" "job_of (crash cause i s) = job_of s"
  "job_of (cancel_lost c i s) = job_of s"
  by (simp_all add: finish_process_def crash_def cancel_lost_def)

lemma transitions_step:
  "start r = Inr r' \<Longrightarrow> job_step\<^sup>*\<^sup>* r r'" "fail r e = Inr r' \<Longrightarrow> job_step\<^sup>*\<^sup>* r r'"
  "succeed r a m = Inr r' \<Longrightarrow> job_step\<^sup>*\<^sup>* r r'" "cancel r = Inr r' \<Longrightarrow> job_step\<^sup>*\<^sup>* r r'"
  "(if jr_status r = Running then progress r f else Inr r) = Inr r' \<Longrightarrow> job_step\<^sup>*\<^sup>* r r'"
  by (auto intro!: r_into_rtranclp intro: job_step.intros split: if_splits)

lemma fail_job_advance:
  "fail_job i exc s = Inr s1 \<Longrightarrow> job_of s2 = job_of s1 \<Longrightarrow> jobs_advance s s2"
  by (auto simp: fail_job_def result_simps intro: modify_advance transitions_step)

lemma cancel_finish_advance:
  "cancel_finish i s = Inr (r, s1) \<Longrightarrow> job_of s2 = job_of s1 \<Longrightarrow> job_of s0 = job_of s \<Longrightarrow> jobs_advance s0 s2"
proof -
  assume c: "cancel_finish i s = Inr (r, s1)" and j: "job_of s2 = job_of s1" "job_of s0 = job_of s"
  then have "jobs_advance s s2"
    by (auto simp: cancel_finish_def result_simps intro: modify_advance transitions_step)
  with j show ?thesis by (simp add: jobs_advance_def)
qed

lemma finish_process_same: "job_of s1 = job_of s \<Longrightarrow> jobs_advance s (finish_process i s1)"
  by (simp add: jobs_advance_same)

lemma cancel_call_advance: "cancel_call i s = (answer, s') \<Longrightarrow> jobs_advance s s'"
proof -
  assume c: "cancel_call i s = (answer, s')"
  let ?s1 = "s\<lparr>rn_cancelled := insert i (rn_cancelled s)\<rparr>"
  show ?thesis
  proof (cases "s' = s \<or> s' = ?s1")
    case True
    then show ?thesis by (auto intro: jobs_advance_same)
  next
    case False
    with c obtain r where "cancel_finish i ?s1 = Inr (r, s')"
      by (auto simp: cancel_call_def Let_def split: sum.splits if_splits)
    then show ?thesis by (rule cancel_finish_advance) simp_all
  qed
qed

lemma runner_step_advance: "runner_step fpr s s' \<Longrightarrow> jobs_advance s s'"
proof (induction rule: runner_step.induct)
  case (rs_submit s i now mode pl ps key r st)
  then show ?case using submit_view [OF rs_submit] by (auto simp: jobs_advance_def job_of_def)
next
  case (rs_dequeue s i q)
  then show ?case by (auto simp: process_enter_def intro!: jobs_advance_same split: option.splits)
next
  case (rs_acquire_failed s i exc)
  then show ?case
    by (auto simp: acquire_failed_def intro: jobs_advance_same fail_job_advance split: sum.splits)
next
  case (rs_acquired s i)
  then show ?case
    by (auto simp: acquired_def intro: jobs_advance_same modify_advance transitions_step split: sum.splits)
next
  case (rs_work_failed s i exc)
  have "fail_job i exc (s\<lparr>rn_thread := None\<rparr>) = Inr s1 \<Longrightarrow> jobs_advance s (s1\<lparr>rn_pc := pc\<rparr>)" for s1 pc
    using fail_job_advance [of i exc "s\<lparr>rn_thread := None\<rparr>" s1 "s1\<lparr>rn_pc := pc\<rparr>"]
    by (simp add: jobs_advance_def)
  then show ?case by (auto simp: work_failed_def Let_def intro: jobs_advance_same split: sum.splits)
next
  case (rs_work_returned s i res)
  let ?fn = "\<lambda>r. succeed r (wr_artifact_path res) (Some (wr_meta res))"
  have "modify i ?fn (s\<lparr>rn_thread := None\<rparr>) = Inr (r, s1) \<Longrightarrow> job_of s2 = job_of s1 \<Longrightarrow> jobs_advance s s2" for r s1 s2
    using modify_advance [of i ?fn "s\<lparr>rn_thread := None\<rparr>" r s1 s2] transitions_step(3)
    by (simp add: jobs_advance_def)
  then show ?case by (auto simp: work_returned_def Let_def intro: jobs_advance_same split: sum.splits)
next
  case (rs_report s i f)
  then show ?case
    by (auto simp: report_update_def intro: jobs_advance_same modify_advance transitions_step split: sum.splits)
next
  case (rs_cancel_waits i s s' c)
  then show ?case using cancel_call_advance [OF rs_cancel_waits(1)] by (simp add: jobs_advance_def)
next
  case (rs_cancel_resumes s c i)
  then show ?case
    by (auto simp: cancel_resume_def Let_def intro: jobs_advance_same split: sum.splits
      dest!: cancel_finish_advance [where ?s0.0 = s])
qed (auto intro: jobs_advance_same finish_process_same cancel_call_advance
       simp: report_append_def stop_loop_def split: option.splits)

lemma jobs_advance_trans: "jobs_advance s t \<Longrightarrow> jobs_advance t u \<Longrightarrow> jobs_advance s u"
  unfolding jobs_advance_def by (meson rtranclp_trans)

interpretation jobs_move: step_monotone "runner_step fpr" "\<lambda>s. s" jobs_advance for fpr
  by unfold_locales (auto intro: jobs_advance_same jobs_advance_trans runner_step_advance)

section \<open>A requested cancel prevails\<close>

lemma cancel_resume_status:
  assumes "runner_inv s" "rn_cancels s c = Some i"
  shows "status_of (cancel_resume c i s) i = Some Cancelled"
proof -
  let ?s = "s\<lparr>rn_cancels := (rn_cancels s)(c := None)\<rparr>"
  have st: "status_of s i = Some Running \<or> status_of s i = Some Cancelled"
    using assms by (auto simp: runner_inv_def cancelling_iff)
  show ?thesis
  proof (cases "status_of s i = Some Running")
    case True
    then have t: "status_of ?s i = Some Running" by simp
    obtain r' stx where "cancel_finish i ?s = Inr (r', emit i (status_value Cancelled) [] (?s\<lparr>rn_store := stx\<rparr>))"
      "status_of (?s\<lparr>rn_store := stx\<rparr>) = (status_of ?s)(i \<mapsto> Cancelled)"
      by (rule cancel_finish_status [OF t]) simp
    then show ?thesis by (simp add: cancel_resume_def)
  next
    case False
    with st have t: "status_of ?s i = Some Cancelled" by simp
    obtain e where "cancel_finish i ?s = Inl e" using cancel_finish_refused [OF t] by auto
    with t show ?thesis by (simp add: cancel_resume_def)
  qed
qed

text \<open>Most stretches leave the cancels alone, and only a refused transition reaches the last resort.\<close>

definition keeps :: "runner \<Rightarrow> runner \<Rightarrow> bool" where
  "keeps s s' \<longleftrightarrow> rn_cancels s' = rn_cancels s \<and> rn_lost s' = rn_lost s \<and>
     (\<forall>x\<in>rn_crashed s'. x \<in> rn_crashed s \<or> snd x = TransitionRefused)"

lemma store_results:
  "modify i fn s = Inr (r, s1) \<Longrightarrow> \<exists>st. s1 = s\<lparr>rn_store := st\<rparr>"
  "fail_job i exc s = Inr s1 \<Longrightarrow> \<exists>st. s1 = s\<lparr>rn_store := st\<rparr>"
  "cancel_finish i s = Inr (r, s1) \<Longrightarrow> \<exists>st. s1 = s\<lparr>rn_store := st\<rparr>"
  by (auto simp: fail_job_def cancel_finish_def modify_def emit_def result_simps)

lemma cancel_resume_state:
  "\<exists>st. cancel_resume c i s = s\<lparr>rn_cancels := (rn_cancels s)(c := None), rn_store := st\<rparr>"
  by (cases "cancel_finish i (s\<lparr>rn_cancels := (rn_cancels s)(c := None)\<rparr>)")
     (auto simp: cancel_resume_def Let_def dest!: store_results(3) intro: exI [of _ "rn_store s"])

lemma keeps_finish: "keeps s s1 \<Longrightarrow> keeps s (finish_process i s1)" "keeps s s1 \<Longrightarrow> keeps s (crash TransitionRefused i s1)"
  by (auto simp: keeps_def finish_process_def crash_def)

lemma keeps_acquire_failed: "keeps s (acquire_failed i exc s)"
  by (cases "fail_job i exc s")
     (auto simp: acquire_failed_def intro!: keeps_finish dest!: store_results(2), auto simp: keeps_def)

lemma keeps_acquired: "keeps s (acquired i s)"
  by (cases "modify i start s")
     (auto simp: acquired_def intro!: keeps_finish dest!: store_results(1), auto simp: keeps_def)

lemma keeps_work_failed: "keeps s (work_failed i exc s)"
  by (cases "fail_job i exc (s\<lparr>rn_thread := None\<rparr>)")
     (auto simp: work_failed_def Let_def intro!: keeps_finish dest!: store_results(2), auto simp: keeps_def)

lemma keeps_work_returned: "keeps s (work_returned i res s)"
  by (cases "modify i (\<lambda>r. succeed r (wr_artifact_path res) (Some (wr_meta res))) (s\<lparr>rn_thread := None\<rparr>)")
     (auto simp: work_returned_def Let_def intro!: keeps_finish dest!: store_results(1), auto simp: keeps_def)

lemma keeps_report: "keeps s (report_update i f s)" "keeps s (report_append i f s)"
  by (cases "modify i (\<lambda>r. if jr_status r = Running then progress r f else Inr r) s")
     (auto simp: report_update_def report_append_def dest!: store_results(1), auto simp: keeps_def)

lemma keeps_others:
  "keeps s (enqueue r st s)" "keeps s (process_enter i (s\<lparr>rn_queue := q\<rparr>))" "keeps s (stop_loop s)"
  "keeps s (s\<lparr>rn_pc := pc\<rparr>)" "keeps s (s\<lparr>rn_thread := t\<rparr>)" "keeps s s"
  by (auto simp: enqueue_def process_enter_def stop_loop_def finish_process_def keeps_def split: option.splits)

lemma keeps_cancel_call: "cancel_call i s = (answer, s') \<Longrightarrow> keeps s s'"
  by (cases "store_get (rn_store s) i"; cases "cancel_finish i (s\<lparr>rn_cancelled := insert i (rn_cancelled s)\<rparr>)")
     (auto simp: cancel_call_def Let_def keeps_def dest!: store_results(3) split: if_splits)

lemmas keeps_ops = keeps_acquire_failed keeps_acquired keeps_work_failed keeps_work_returned keeps_report
  keeps_others keeps_finish(1) [OF keeps_others(6)] keeps_cancel_call

lemma step_keeps:
  assumes "runner_step fpr s s'"
  obtains "keeps s s'"
  | (evict) i where "rn_pc s = EvictAfterAcquire i \<or> rn_pc s = EvictAfterWork i" "s' = crash EvictionRaised i s"
  | (waits) i c s1 where "keeps s s1" "rn_cancels s c = None" "s' = s1\<lparr>rn_cancels := (rn_cancels s1)(c \<mapsto> i)\<rparr>"
  | (resumes) i c where "rn_cancels s c = Some i" "s' = cancel_resume c i s"
  | (lost) i c where "rn_cancels s c = Some i" "s' = cancel_lost c i s"
  using assms by cases (auto intro: keeps_ops that)

lemma keeps_cancelling: "keeps s s' \<Longrightarrow> cancelling s' = cancelling s"
  by (rule ext) (simp add: keeps_def cancelling_iff)

lemma step_cancelling:
  assumes "runner_step fpr s s'" "runner_inv s" "cancelling s i"
  shows "cancelling s' i \<or> status_of s' i = Some Cancelled"
  using assms(1)
proof (cases rule: step_keeps)
  case 1
  then show ?thesis using assms(3) keeps_cancelling by simp
next
  case (evict j)
  then show ?thesis using assms(3) by (simp add: cancelling_iff crash_def finish_process_def)
next
  case (waits j c s1)
  then show ?thesis using assms(3) by (auto simp: cancelling_iff keeps_def) (metis option.distinct(1))
next
  case (resumes j c)
  obtain st where "cancel_resume c j s = s\<lparr>rn_cancels := (rn_cancels s)(c := None), rn_store := st\<rparr>"
    using cancel_resume_state by blast
  then show ?thesis
    using assms(3) cancel_resume_status [OF assms(2) resumes(1)] resumes
    by (cases "j = i") (auto simp: cancelling_iff, metis option.inject)
next
  case (lost j c)
  then show ?thesis using assms(3) lost_cancelling by simp
qed

lemma terminal_stays:
  assumes "runner_step fpr s s'" "status_of s i = Some a" "terminal a"
  shows "status_of s' i = Some a"
proof -
  from assms(2) obtain r where r: "job_of s i = Some r" "jr_status r = a" by (auto simp: status_of_def)
  with runner_step_advance [OF assms(1)] obtain r' where "job_of s' i = Some r'" "job_step\<^sup>*\<^sup>* r r'"
    by (auto simp: jobs_advance_def)
  with r terminal_run assms(3) show ?thesis by (fastforce simp: status_of_def)
qed

interpretation cancel_prevails: step_invariant "runner_step fpr"
  "\<lambda>s. runner_inv s \<and> (cancelling s i \<or> status_of s i = Some Cancelled)" for fpr i
  by unfold_locales (blast intro: runner_step_inv dest: step_cancelling terminal_stays [of _ _ _ _ Cancelled, simplified])

section \<open>The last resort\<close>

lemma step_crashed:
  assumes "runner_step fpr s s'" "runner_inv s" "x \<in> rn_crashed s'"
  shows "x \<in> rn_crashed s \<or> snd x = TransitionRefused \<or> status_of s' (fst x) = Some Failed"
  using assms(1)
proof (cases rule: step_keeps)
  case (evict i)
  then have "status_of s i = Some Failed" using assms(2) by (auto simp: runner_inv_def pc_inv_def)
  moreover have "status_of s' = status_of s" unfolding evict(2) by (rule ext) (simp add: status_of_def)
  ultimately show ?thesis using assms(3) evict(2) by (auto simp: crash_def finish_process_def)
next
  case (resumes i c)
  then show ?thesis using cancel_resume_state [of c i s] assms(3) by auto
qed (use assms(3) in \<open>auto simp: keeps_def cancel_lost_def\<close>)

interpretation crashed_failed: step_invariant "runner_step fpr"
  "\<lambda>s. runner_inv s \<and> (\<forall>x\<in>rn_crashed s. status_of s (fst x) = Some Failed)" for fpr
proof
  fix s s' assume st: "runner_step fpr s s'" and inv: "runner_inv s \<and> (\<forall>x\<in>rn_crashed s. status_of s (fst x) = Some Failed)"
  have i: "runner_inv s'" using runner_step_inv [OF st] inv by blast
  moreover have "status_of s' (fst x) = Some Failed" if "x \<in> rn_crashed s'" for x
    using step_crashed [OF st _ that] terminal_stays [OF st, of "fst x" Failed] inv inv_crashed [OF i] that by auto
  ultimately show "runner_inv s' \<and> (\<forall>x\<in>rn_crashed s'. status_of s' (fst x) = Some Failed)" by blast
qed

section \<open>A concrete run\<close>

text \<open>One job, cancelled while its work thread is between updating its progress and logging it.\<close>

definition demo_fpr :: "string \<Rightarrow> params \<Rightarrow> string" where "demo_fpr m ps = m"

definition demo_job :: job_record where
  "demo_job = new_job ''j'' ''t2i'' GENERATION ''now'' [] None"

definition demo_event :: "nat \<Rightarrow> string \<Rightarrow> params \<Rightarrow> job_event" where
  "demo_event k ty d = \<lparr>jev_id = k, jev_type = ty, jev_data = d\<rparr>"

definition demo_store :: "job_record \<Rightarrow> job_event list \<Rightarrow> store" where
  "demo_store r evs = \<lparr>st_jobs = [(''j'', r)], st_events = [(''j'', evs)], st_seq = [(''j'', length evs)], st_idem = []\<rparr>"

definition demo :: "job_record \<Rightarrow> job_event list \<Rightarrow> string list \<Rightarrow> runner_pc \<Rightarrow> string set \<Rightarrow> (string \<times> pyfloat) option
    \<Rightarrow> (nat \<Rightarrow> string option) \<Rightarrow> runner" where
  "demo r evs q pc cs rp cc =
     \<lparr>rn_store = demo_store r evs, rn_queue = q, rn_cancelled = cs, rn_current = pc_job pc, rn_pc = pc,
      rn_thread = (if pc = Working ''j'' then Some ''j'' else None), rn_report = rp, rn_cancels = cc, rn_lost = {}, rn_crashed = {}\<rparr>"

definition ev1 :: job_event where "ev1 = demo_event 1 ''queued'' []"
definition ev2 :: job_event where "ev2 = demo_event 2 ''running'' []"
definition ev3 :: job_event where "ev3 = demo_event 3 ''cancelled'' []"
definition ev4 :: job_event where "ev4 = demo_event 4 ''progress'' [(''progress'', PFloat (Finite (1 / 2)))]"

definition demo_run_job :: job_record where "demo_run_job = demo_job\<lparr>jr_status := Running\<rparr>"
definition demo_half_job :: job_record where "demo_half_job = demo_run_job\<lparr>jr_progress := Finite (1 / 2)\<rparr>"
definition demo_end_job :: job_record where "demo_end_job = demo_half_job\<lparr>jr_status := Cancelled\<rparr>"

lemmas demo_defs = demo_def demo_store_def demo_job_def new_job_def demo_run_job_def demo_half_job_def demo_end_job_def
  ev1_def ev2_def ev3_def ev4_def demo_event_def
  append_event_def append_event_locked_def deque_append_def EVENT_LOG_BOUND_def status_value_def
  modify_def store_update_def emit_def Let_def eval_nat_numeral

lemma demo_submit: "runner_step demo_fpr new_runner (demo demo_job [ev1] [''j''] Idle {} None (\<lambda>c. None))"
proof -
  let ?st = "demo_store demo_job [ev1]"
  have "store_submit demo_fpr ''j'' ''now'' ''t2i'' GENERATION [] None (rn_store new_runner) = Inr ((demo_job, False), ?st)"
    by (simp add: store_submit_def new_runner_def empty_store_def demo_defs)
  then have "runner_step demo_fpr new_runner (enqueue demo_job ?st new_runner)"
    by (rule rs_submit [rotated]) (simp add: new_runner_def empty_store_def)
  then show ?thesis by (simp add: enqueue_def new_runner_def demo_def demo_job_def new_job_def)
qed

lemma demo_dequeue: "runner_step demo_fpr (demo demo_job [ev1] [''j''] Idle {} None cc) (demo demo_job [ev1] [] (WaitLease ''j'') {} None cc)"
  using rs_dequeue [of "demo demo_job [ev1] [''j''] Idle {} None cc" "''j''" "[]" demo_fpr]
  by (simp add: process_enter_def store_try_get_def demo_defs)

lemma demo_lease: "runner_step demo_fpr (demo demo_job [ev1] [] (WaitLease ''j'') {} None cc) (demo demo_job [ev1] [] (Acquiring ''j'') {} None cc)"
  using rs_lease [of "demo demo_job [ev1] [] (WaitLease ''j'') {} None cc" "''j''" demo_fpr]
  by (simp add: demo_def)

lemma demo_acquired: "runner_step demo_fpr (demo demo_job [ev1] [] (Acquiring ''j'') {} None cc) (demo demo_run_job [ev1, ev2] [] (Working ''j'') {} None cc)"
  using rs_acquired [of "demo demo_job [ev1] [] (Acquiring ''j'') {} None cc" "''j''" demo_fpr]
  by (simp add: acquired_def start_def demo_defs)

lemma demo_report: "runner_step demo_fpr (demo demo_run_job evs [] (Working ''j'') {} None cc)
   (demo demo_half_job evs [] (Working ''j'') {} (Some (''j'', Finite (1 / 2))) cc)"
  using rs_report [of "demo demo_run_job evs [] (Working ''j'') {} None cc" "''j''" demo_fpr "Finite (1 / 2)"]
  by (simp add: report_update_def progress_def clamp01_def demo_defs)

lemma demo_cancel: "runner_step demo_fpr (demo demo_half_job evs [] (Working ''j'') {} rp (\<lambda>c. None))
   (demo demo_half_job evs [] (Working ''j'') {''j''} rp [0 \<mapsto> ''j''])"
  using rs_cancel_waits [of "''j''" "demo demo_half_job evs [] (Working ''j'') {} rp (\<lambda>c. None)"
    "demo demo_half_job evs [] (Working ''j'') {''j''} rp (\<lambda>c. None)" 0 demo_fpr]
  by (simp add: cancel_call_def store_get_def demo_defs)

lemma demo_resume: "runner_step demo_fpr (demo demo_half_job [ev1, ev2] [] (Working ''j'') {''j''} rp [0 \<mapsto> ''j''])
   (demo demo_end_job [ev1, ev2, ev3] [] (Working ''j'') {''j''} rp (\<lambda>c. None))"
  using rs_cancel_resumes [of "demo demo_half_job [ev1, ev2] [] (Working ''j'') {''j''} rp [0 \<mapsto> ''j'']" 0 "''j''" demo_fpr]
  by (simp add: cancel_resume_def cancel_finish_def cancel_def demo_defs fun_upd_idem)

lemma demo_event: "runner_step demo_fpr (demo demo_end_job [ev1, ev2, ev3] [] (Working ''j'') {''j''} (Some (''j'', Finite (1 / 2))) cc)
   (demo demo_end_job [ev1, ev2, ev3, ev4] [] (Working ''j'') {''j''} None cc)"
  using rs_report_event [of "demo demo_end_job [ev1, ev2, ev3] [] (Working ''j'') {''j''} (Some (''j'', Finite (1 / 2))) cc" "''j''" "Finite (1 / 2)" demo_fpr]
  by (simp add: report_append_def PROGRESS_def demo_defs)
lemma run_step: "(runner_step fpr)\<^sup>*\<^sup>* s t \<Longrightarrow> runner_step fpr t u \<Longrightarrow> (runner_step fpr)\<^sup>*\<^sup>* s u"
  by (rule rtranclp.rtrancl_into_rtrancl)

lemma one_step: "runner_step fpr s t \<Longrightarrow> (runner_step fpr)\<^sup>*\<^sup>* s t"
  by (rule r_into_rtranclp)

lemma demo_run:
  "(runner_step demo_fpr)\<^sup>*\<^sup>* new_runner
     (demo demo_half_job [ev1, ev2] [] (Working ''j'') {} (Some (''j'', Finite (1 / 2))) (\<lambda>c. None))"
  by (rule run_step [OF run_step [OF run_step [OF run_step [OF one_step [OF demo_submit] demo_dequeue]
      demo_lease] demo_acquired] demo_report])

lemma demo_waits_run:
  "(runner_step demo_fpr)\<^sup>*\<^sup>* new_runner
     (demo demo_half_job [ev1, ev2] [] (Working ''j'') {''j''} (Some (''j'', Finite (1 / 2))) [0 \<mapsto> ''j''])"
  using demo_run demo_cancel by (rule rtranclp.rtrancl_into_rtrancl)

lemma demo_cancelling: "cancelling (demo r evs q pc cs rp [0 \<mapsto> ''j'']) ''j''"
  by (auto simp: cancelling_iff demo_def)

section \<open>Properties\<close>

text \<open>
  C2: No interleaving of the drain loop, the progress thread, the cancel coroutines, submissions and
  a shutdown moves a job backwards: along every run each record only follows the life cycle of
  \<open>jobs/model.py\<close>, so a job that is succeeded, failed or cancelled keeps exactly that record.
\<close>

theorem jobs_follow_life_cycle:
  "(runner_step fpr)\<^sup>*\<^sup>* s s' \<Longrightarrow> job_of s i = Some r \<Longrightarrow>
   \<exists>r'. job_of s' i = Some r' \<and> job_step\<^sup>*\<^sup>* r r' \<and> (terminal (jr_status r) \<longrightarrow> r' = r)"
  using jobs_move.run_grows terminal_run unfolding jobs_advance_def by blast

theorem jobs_follow_life_cycle_witness:
  "\<exists>r'. job_of (demo demo_end_job [ev1, ev2, ev3] [] (Working ''j'') {''j''} None (\<lambda>c. None)) ''j'' = Some r'
      \<and> job_step\<^sup>*\<^sup>* demo_half_job r' \<and> (terminal (jr_status demo_half_job) \<longrightarrow> r' = demo_half_job)"
  by (rule jobs_follow_life_cycle [OF one_step [OF demo_resume]])
     (simp add: job_of_def demo_def demo_store_def)

text \<open>
  C5: The runner loses no job. In every reachable state whose loop runs, a queued job is in the queue
  or being acquired for; a running job is the one being worked on, or a cancel of it waits for the
  eviction, or such a cancel ended there (its \<open>evict_all\<close> raised, or it was cancelled); and the loop's
  last resort only ever caught a raising \<open>evict_all\<close>, after its job had failed: no transition was refused.
\<close>

theorem runner_loses_no_job:
  assumes "(runner_step fpr)\<^sup>*\<^sup>* new_runner s" "rn_pc s \<noteq> Stopped"
  shows "(status_of s i = Some Queued \<longrightarrow> waiting_for s i) \<and>
         (status_of s i = Some Running \<longrightarrow> rn_pc s = Working i \<or> cancel_waits s i \<or> i \<in> rn_lost s) \<and>
         ((i, cause) \<in> rn_crashed s \<longrightarrow> cause = EvictionRaised \<and> status_of s i = Some Failed)"
proof -
  have "runner_inv s \<and> (\<forall>x\<in>rn_crashed s. status_of s (fst x) = Some Failed)"
    using crashed_failed.along_run [OF assms(1)] new_runner_inv by (simp add: new_runner_def)
  then show ?thesis using assms(2) unfolding runner_inv_def cancelling_def by fastforce
qed

theorem runner_loses_no_job_witness:
  "status_of (demo demo_half_job [ev1, ev2] [] (Working ''j'') {} (Some (''j'', Finite (1 / 2))) (\<lambda>c. None)) ''j''
     = Some Running"
  using runner_loses_no_job [OF demo_run, of "''j''"]
  by (simp add: status_of_def job_of_def demo_def demo_store_def demo_half_job_def demo_run_job_def)

text \<open>
  C17: A runner at rest has finished its jobs: when the loop is idle, the queue empty and no cancel
  under way, every job of the store is succeeded, failed or cancelled, except a running job whose cancel
  ended in its eviction; and a second cancel of that job cancels it at once, without an eviction.
\<close>

theorem runner_at_rest:
  assumes "(runner_step fpr)\<^sup>*\<^sup>* new_runner s"
    and "rn_pc s = Idle" "rn_queue s = []" "rn_cancels s = (\<lambda>c. None)" "job_of s i = Some r"
  shows "terminal (jr_status r) \<or>
    i \<in> rn_lost s \<and> jr_status r = Running \<and> (\<exists>r' s'. cancel_call i s = (Some (Inr r'), s') \<and> jr_status r' = Cancelled)"
proof (cases "terminal (jr_status r)")
  case False
  have inv: "runner_inv s" using runner_reachable_inv [OF assms(1)] .
  have st: "status_of s i = Some (jr_status r)" using assms(5) by (simp add: status_of_def)
  have r: "jr_status r = Running" "i \<in> rn_lost s"
    using inv assms(2-4) st False not_terminal_iff [of "jr_status r"]
    by (auto simp: runner_inv_def waiting_for_def cancelling_iff)
  have "store_get (rn_store s) i = Inr r" using assms(5) by (simp add: job_of_def store_get_def)
  moreover have "rn_current s = None" using inv_current [OF inv] assms(2) by simp
  moreover obtain r' st where "cancel_finish i (s\<lparr>rn_cancelled := insert i (rn_cancelled s)\<rparr>) = Inr (r', st)"
    "jr_status r' = Cancelled"
    by (rule cancel_finish_status [of "s\<lparr>rn_cancelled := insert i (rn_cancelled s)\<rparr>" i Running])
       (use st r(1) in auto)
  ultimately show ?thesis using r by (simp add: cancel_call_def Let_def)
qed simp

theorem runner_at_rest_witness:
  "terminal (jr_status demo_end_job)"
proof -
  let ?w = "demo demo_end_job [ev1, ev2, ev3, ev4] [] (Working ''j'') {''j''} None (\<lambda>c. None)"
  let ?e = "demo demo_end_job [ev1, ev2, ev3, ev4] [] Idle {} None (\<lambda>c. None)"
  have "runner_step demo_fpr ?w (work_returned ''j'' \<lparr>wr_artifact_path = [], wr_meta = []\<rparr> ?w)"
    by (rule rs_work_returned) (simp_all add: demo_def)
  then have "runner_step demo_fpr ?w ?e"
    by (simp add: work_returned_def finish_process_def demo_def)
  then have "(runner_step demo_fpr)\<^sup>*\<^sup>* new_runner ?e"
    by (rule run_step [OF run_step [OF run_step [OF demo_waits_run demo_resume] demo_event]])
  then show ?thesis
    using runner_at_rest [of demo_fpr ?e "''j''" demo_end_job] by (simp add: demo_def job_of_def demo_store_def)
qed

text \<open>
  The exception is real: a cancel whose \<open>evict_all\<close> raises has marked the job as cancelled, so the loop
  drops the work's result, and nobody gives the record a terminal state.
\<close>

theorem cancelled_job_left_running:
  "\<exists>s. (runner_step demo_fpr)\<^sup>*\<^sup>* new_runner s \<and> rn_pc s = Idle \<and> rn_queue s = [] \<and>
     rn_cancels s = (\<lambda>c. None) \<and> rn_thread s = None \<and> status_of s ''j'' = Some Running"
proof -
  let ?w = "demo demo_half_job [ev1, ev2] [] (Working ''j'') {''j''} (Some (''j'', Finite (1 / 2))) [0 \<mapsto> ''j'']"
  let ?l = "cancel_lost 0 ''j'' ?w"
  let ?m = "report_append ''j'' (Finite (1 / 2)) ?l"
  let ?s = "work_returned ''j'' \<lparr>wr_artifact_path = [], wr_meta = []\<rparr> ?m"
  have "runner_step demo_fpr ?w ?l" by (rule rs_cancel_lost) (simp add: demo_def)
  moreover have "runner_step demo_fpr ?l ?m"
    by (rule rs_report_event) (simp add: cancel_lost_def demo_def)
  moreover have pc: "rn_pc ?m = Working ''j''" "rn_report ?m = None" "''j'' \<in> rn_cancelled ?m"
    "rn_queue ?m = []" "rn_cancels ?m = (\<lambda>c. None)"
    by (simp_all add: report_append_def cancel_lost_def demo_def)
  then have "runner_step demo_fpr ?m ?s" by (intro rs_work_returned)
  ultimately have "(runner_step demo_fpr)\<^sup>*\<^sup>* new_runner ?s"
    using run_step [OF run_step [OF run_step [OF demo_waits_run]]] by blast
  moreover have "status_of ?s ''j'' = Some Running"
    using pc(3) by (simp add: work_returned_def finish_process_def Let_def)
      (simp add: report_append_def cancel_lost_def, simp add: status_of_def job_of_def demo_def demo_store_def
        demo_half_job_def demo_run_job_def)
  moreover have "rn_pc ?s = Idle" "rn_queue ?s = []" "rn_cancels ?s = (\<lambda>c. None)" "rn_thread ?s = None"
    using pc by (simp_all add: work_returned_def finish_process_def Let_def)
  ultimately show ?thesis by blast
qed

text \<open>
  C21: A requested cancel prevails: once a cancel of a running job waits for the plane's eviction (or
  has ended in it), no later step makes the job succeed or fail, whatever the work thread returns or raises.
\<close>

theorem cancel_never_overtaken:
  assumes "(runner_step fpr)\<^sup>*\<^sup>* new_runner s" "cancelling s i" "(runner_step fpr)\<^sup>*\<^sup>* s s'"
  shows "status_of s' i = Some Running \<or> status_of s' i = Some Cancelled"
proof -
  have "runner_inv s' \<and> (cancelling s' i \<or> status_of s' i = Some Cancelled)"
    using cancel_prevails.along_run [OF assms(3)] runner_reachable_inv [OF assms(1)] assms(2) by blast
  then show ?thesis unfolding runner_inv_def by blast
qed

theorem cancel_never_overtaken_witness:
  "status_of (demo demo_end_job [ev1, ev2, ev3] [] (Working ''j'') {''j''} (Some (''j'', Finite (1 / 2))) (\<lambda>c. None)) ''j''
     \<noteq> Some Succeeded"
  using cancel_never_overtaken [OF demo_waits_run demo_cancelling one_step [OF demo_resume]]
  by auto

text \<open>
  A terminal event need not be the last of a job's log: the progress callback updates the record
  and appends its event under two separate locks, so a cancel in between logs \<open>cancelled\<close> first.
\<close>

theorem progress_event_after_cancelled:
  "\<exists>s. (runner_step demo_fpr)\<^sup>*\<^sup>* new_runner s \<and> status_of s ''j'' = Some Cancelled \<and>
     mapE (map jev_type) (store_log (rn_store s) ''j'')
       = Inr [''queued'', ''running'', ''cancelled'', ''progress'']"
proof -
  let ?s = "demo demo_end_job [ev1, ev2, ev3, ev4] [] (Working ''j'') {''j''} None (\<lambda>c. None)"
  have "(runner_step demo_fpr)\<^sup>*\<^sup>* new_runner ?s"
    by (rule run_step [OF run_step [OF demo_waits_run demo_resume] demo_event])
  moreover have "status_of ?s ''j'' = Some Cancelled"
    by (simp add: status_of_def job_of_def demo_def demo_store_def demo_end_job_def)
  moreover have "mapE (map jev_type) (store_log (rn_store ?s) ''j'')
       = Inr [''queued'', ''running'', ''cancelled'', ''progress'']"
    by (simp add: store_log_def demo_def demo_store_def ev1_def ev2_def ev3_def ev4_def demo_event_def)
  ultimately show ?thesis by blast
qed

end
