(* ===== verification/Submission.thy ===== *)
theory Submission
  imports Errors Job_Runner
begin

text \<open>
  Submitting a job: the shared edge validation, inline media and enqueueing
  (\<open>api/app/jobs_router.py\<close>), the deployed checkpoint (\<open>api/engines/vllm_omni/endpoints.py\<close>,
  \<open>api/app/routes/checkpoint.py\<close>), the default negative prompt
  (\<open>api/preprocessing/negative_prompt.py\<close>) and the typed generation and action routes
  (\<open>api/app/routes/generation.py\<close>, \<open>api/app/routes/action.py\<close>). The record \<open>edge_libs\<close> holds
  what is read from outside: the environment, \<open>realpath\<close>, base64, SHA-256, \<open>str\<close> of a dynamic
  value, the float parser, the JSON check and the text files.
\<close>

record edge_libs =
  el_environ :: "(string, string) dict"
  el_realpath :: "string \<Rightarrow> string"
  el_b64decode :: "string \<Rightarrow> byte list option"
  el_sha256_hex :: "byte list \<Rightarrow> string"
  el_str :: "pyval \<Rightarrow> string"
  el_parse_float :: "string \<Rightarrow> py_exc + pyfloat"
  el_fingerprint :: "string \<Rightarrow> params \<Rightarrow> string"
  el_read_text :: "string \<Rightarrow> string option"
  el_json_ok :: "string \<Rightarrow> bool"

section \<open>The deployed checkpoint\<close>

definition KNOWN_CHECKPOINTS :: "string list" where "KNOWN_CHECKPOINTS = [''fp8'', ''nvfp4'']"
definition DEFAULT_CHECKPOINT :: string where "DEFAULT_CHECKPOINT = ''fp8''"

definition deployed_checkpoint :: "(string, string) dict \<Rightarrow> string" where
  "deployed_checkpoint environ =
     (let label = environ_get environ ''COSMOS3_CHECKPOINT_LABEL'' DEFAULT_CHECKPOINT
      in if label \<in> set KNOWN_CHECKPOINTS then label else DEFAULT_CHECKPOINT)"

record omni_endpoint =
  oe_checkpoint :: string
  oe_container :: string
  oe_base_url :: string

definition endpoint_for :: "(string, string) dict \<Rightarrow> omni_endpoint" where
  "endpoint_for environ =
     \<lparr>oe_checkpoint = deployed_checkpoint environ,
      oe_container = environ_get environ ''COSMOS3_GEN_CONTAINER'' ''cosmos3-nano-webui-vllm-omni'',
      oe_base_url = environ_get environ ''COSMOS3_VLLM_OMNI_URL'' ''http://vllm-omni:8000''\<rparr>"

definition fail_media :: "media_error_code \<Rightarrow> message \<Rightarrow> edge_exc" where
  "fail_media c m = MediaValidationFailed (media_error c m None None)"

definition resolve_checkpoint :: "(string, string) dict \<Rightarrow> string option \<Rightarrow> edge_exc + string" where
  "resolve_checkpoint environ checkpoint =
     (let deployed = deployed_checkpoint environ in
      case checkpoint of
        None \<Rightarrow> Inr deployed
      | Some c \<Rightarrow>
          if c = [] then Inr deployed
          else if c \<notin> set KNOWN_CHECKPOINTS then
            Inl (fail_media INVALID_PARAM [MLit ''unknown checkpoint '', MRepr c, MLit ''; expected one of '',
              MStrs KNOWN_CHECKPOINTS])
          else if c \<noteq> deployed then
            Inl (fail_media INVALID_PARAM [MLit ''checkpoint '', MRepr c,
              MLit '' is not served by this deployment (serves '', MRepr deployed, MLit '')''])
          else Inr deployed)"

section \<open>Coercions of parameters\<close>

definition GENERATION_MODES :: "string list" where
  "GENERATION_MODES = [''t2i'', ''t2v'', ''i2v'', ''t2v_audio'']"

definition ACTION_MODES :: "string list" where
  "ACTION_MODES = [''forward_dynamics'', ''inverse_dynamics'', ''policy'']"

definition require_int :: "params \<Rightarrow> string \<Rightarrow> edge_exc + int" where
  "require_int ps key = (case dict_get ps key of
     None \<Rightarrow> Inl (PyRaise KeyError)
   | Some v \<Rightarrow>
       (case py_int v of
          Inr n \<Rightarrow> Inr n
        | Inl e \<Rightarrow> if e = TypeError \<or> e = ValueError
                   then Inl (fail_media INVALID_PARAM [MRepr key, MLit '' must be an integer''])
                   else Inl (PyRaise e)))"

definition absent_or_none :: "params \<Rightarrow> string \<Rightarrow> bool" where
  "absent_or_none ps key \<longleftrightarrow> dict_get ps key = None \<or> dict_get ps key = Some PNone"

definition int_or :: "params \<Rightarrow> string \<Rightarrow> int \<Rightarrow> edge_exc + int" where
  "int_or ps key d = (if absent_or_none ps key then Inr d else require_int ps key)"

definition opt_int :: "params \<Rightarrow> string \<Rightarrow> edge_exc + int option" where
  "opt_int ps key = (if absent_or_none ps key then Inr None else mapE Some (require_int ps key))"

section \<open>Edge validation\<close>

definition plane_for_mode :: "string \<Rightarrow> edge_exc + plane" where
  "plane_for_mode mode =
     (if mode \<in> set GENERATION_MODES \<or> mode \<in> set ACTION_MODES then Inr GENERATION
      else Inl (fail_media INVALID_PARAM [MLit ''unknown job mode '', MRepr mode]))"

text \<open>One optional output parameter: coerced, then checked.\<close>

definition check_output :: "(int \<Rightarrow> media_limits \<Rightarrow> media_error option) \<Rightarrow> params \<Rightarrow> media_limits \<Rightarrow> string
    \<Rightarrow> edge_exc + unit" where
  "check_output validate ps lims key =
     (if dict_get ps key = None then Inr ()
      else bindE (require_int ps key) (\<lambda>n. raise_if (map_option MediaValidationFailed (validate n lims))))"

definition validate_output_params :: "params \<Rightarrow> media_limits \<Rightarrow> edge_exc + unit" where
  "validate_output_params ps lims =
     bindE (check_output validate_resolution ps lims ''resolution'') (\<lambda>_.
     bindE (check_output validate_dimension ps lims ''height'') (\<lambda>_.
     bindE (check_output validate_dimension ps lims ''width'') (\<lambda>_.
     check_output validate_num_frames ps lims ''num_frames'')))"

definition action_mode_of :: "string \<Rightarrow> action_mode option" where
  "action_mode_of m = (if m = ''forward_dynamics'' then Some FORWARD_DYNAMICS
     else if m = ''inverse_dynamics'' then Some INVERSE_DYNAMICS
     else if m = ''policy'' then Some POLICY else None)"

definition str_get :: "(pyval \<Rightarrow> string) \<Rightarrow> params \<Rightarrow> string \<Rightarrow> string" where
  "str_get str ps key = (case dict_get ps key of None \<Rightarrow> [] | Some (PStr s) \<Rightarrow> s | Some v \<Rightarrow> str v)"

definition action_spec_of ::
  "(pyval \<Rightarrow> string) \<Rightarrow> string \<Rightarrow> params \<Rightarrow> bool \<Rightarrow> bool \<Rightarrow> edge_exc + action_spec" where
  "action_spec_of str mode ps inline_image inline_video =
     (case action_mode_of mode of
        None \<Rightarrow> Inl (PyRaise ValueError)
      | Some m \<Rightarrow>
          bindE (int_or ps ''chunk_size'' 0) (\<lambda>chunk.
          bindE (opt_int ps ''raw_action_width'') (\<lambda>width.
          mapE (\<lambda>tier. \<lparr>as_mode = m, as_domain_name = str_get str ps ''domain_name'', as_chunk_size = chunk,
                         as_raw_action_width = width, as_resolution_tier = tier,
                         as_has_image = (get_truthy ps ''image_path'' \<or> inline_image),
                         as_has_video = (get_truthy ps ''video_path'' \<or> inline_video)\<rparr>)
            (int_or ps ''resolution_tier'' 480))))"

definition validate_action_params ::
  "(pyval \<Rightarrow> string) \<Rightarrow> string \<Rightarrow> params \<Rightarrow> bool \<Rightarrow> bool \<Rightarrow> edge_exc + unit" where
  "validate_action_params str mode ps inline_image inline_video =
     bindE (action_spec_of str mode ps inline_image inline_video) (\<lambda>spec.
     raise_if (map_option ActionValidationFailed (validate_action spec)))"

definition kind_cap :: "media_limits \<Rightarrow> string \<Rightarrow> int" where
  "kind_cap lims kind = (if kind = ''image'' then ml_max_image_bytes lims
     else if kind = ''video'' then ml_max_video_bytes lims else ml_max_audio_bytes lims)"

definition probe_validate :: "string \<Rightarrow> byte list \<Rightarrow> media_limits \<Rightarrow> py_exc + media_error option" where
  "probe_validate kind raw lims =
     (if kind = ''image'' then Inr (validate_image (probe_image raw) lims)
      else if kind = ''video'' then Inr (validate_video (probe_video raw) lims)
      else mapE (\<lambda>meta. validate_audio meta lims) (probe_audio raw))"

definition validate_inline_media :: "edge_libs \<Rightarrow> inline_media \<Rightarrow> media_limits \<Rightarrow> edge_exc + unit" where
  "validate_inline_media libs media lims =
     (if im_kind media \<notin> set [''image'', ''video'', ''audio''] then
        Inl (fail_media UNSUPPORTED_MEDIA_TYPE [MLit ''unknown media kind '', MRepr (im_kind media)])
      else if kind_cap lims (im_kind media) * 2 < int (length (im_data_base64 media)) then
        Inl (fail_media PAYLOAD_TOO_LARGE [MStr (im_kind media), MLit '' payload exceeds the byte cap''])
      else (case el_b64decode libs (im_data_base64 media) of
              None \<Rightarrow> Inl (fail_media INVALID_PARAM [MLit ''invalid base64 media''])
            | Some raw \<Rightarrow>
                bindE (map_errE PyRaise (probe_validate (im_kind media) raw lims))
                  (\<lambda>e. raise_if (map_option MediaValidationFailed e))))"

fun check_paths :: "edge_libs \<Rightarrow> string list \<Rightarrow> params \<Rightarrow> string list \<Rightarrow> edge_exc + unit" where
  "check_paths libs al ps [] = Inr ()"
| "check_paths libs al ps (key # keys) =
     (if get_truthy ps key
      then bindE (map_errE Untrusted (resolve_within (el_realpath libs) (str_get (el_str libs) ps key) al))
             (\<lambda>_. check_paths libs al ps keys)
      else check_paths libs al ps keys)"

definition validate_conditioning_paths :: "edge_libs \<Rightarrow> params \<Rightarrow> string list \<Rightarrow> edge_exc + unit" where
  "validate_conditioning_paths libs ps al =
     check_paths libs al ps [''image_path'', ''video_path'', ''audio_path'']"

definition validate_submission ::
  "edge_libs \<Rightarrow> job_submit \<Rightarrow> media_limits \<Rightarrow> string list \<Rightarrow> edge_exc + plane" where
  "validate_submission libs submit lims al =
     (let inline = (\<lambda>kind. case js_media submit of None \<Rightarrow> False | Some m \<Rightarrow> im_kind m = kind) in
      bindE (plane_for_mode (js_mode submit)) (\<lambda>plane.
      bindE (validate_conditioning_paths libs (js_params submit) al) (\<lambda>_.
      bindE (case js_media submit of None \<Rightarrow> Inr () | Some m \<Rightarrow> validate_inline_media libs m lims) (\<lambda>_.
      bindE (validate_output_params (js_params submit) lims) (\<lambda>_.
      mapE (\<lambda>_. plane)
        (if js_mode submit \<in> set ACTION_MODES
         then validate_action_params (el_str libs) (js_mode submit) (js_params submit)
                (inline ''image'') (inline ''video'')
         else Inr ()))))))"

section \<open>Submission\<close>

fun split_colon :: "string \<Rightarrow> string \<Rightarrow> string list" where
  "split_colon acc [] = [rev acc]"
| "split_colon acc (c # cs) = (if c = CHR '':'' then rev acc # split_colon [] cs else split_colon (c # acc) cs)"

definition input_allowlist :: "(string, string) dict \<Rightarrow> string list" where
  "input_allowlist environ = (case dict_get environ ''COSMOS3_INPUT_ALLOWLIST'' of
     Some raw \<Rightarrow> if raw \<noteq> [] then split_colon [] raw else [artifacts_dir environ]
   | None \<Rightarrow> [artifacts_dir environ])"

text \<open>The state a submission works on: the runner (with its store), the files, and the counters.\<close>

record edge_state =
  es_runner :: runner
  es_files :: files
  es_submitted :: "(string, nat) dict"

definition media_ext :: "string \<Rightarrow> string" where
  "media_ext kind = (if kind = ''image'' then ''png'' else if kind = ''video'' then ''mp4''
     else if kind = ''audio'' then ''wav'' else ''bin'')"

definition persist_inline_media ::
  "edge_libs \<Rightarrow> inline_media \<Rightarrow> params \<Rightarrow> edge_state \<Rightarrow> (edge_exc + params) \<times> edge_state" where
  "persist_inline_media libs media ps s =
     (case el_b64decode libs (im_data_base64 media) of
        None \<Rightarrow> (Inl (PyRaise ValueError), s)
      | Some raw \<Rightarrow>
          (case artifact_path_for (el_realpath libs) (el_environ libs)
                  (''cond_'' @ take 16 (el_sha256_hex libs raw)) (Some (artifacts_dir (el_environ libs)))
                  (media_ext (im_kind media)) of
             Inl e \<Rightarrow> (Inl (Untrusted e), s)
           | Inr path \<Rightarrow>
               (Inr (dict_set (im_kind media @ ''_path'') (PStr path) ps),
                s\<lparr>es_files := (es_files s)(path \<mapsto> raw)\<rparr>)))"

definition to_job :: "job_record \<Rightarrow> job_view" where
  "to_job r =
     (let meta = (case jr_result_meta r of None \<Rightarrow> [] | Some m \<Rightarrow> m) in
      \<lparr>jv_id = jr_id r, jv_status = jr_status r, jv_mode = jr_mode r, jv_created_at = jr_created_at r,
       jv_progress = jr_progress r,
       jv_artifact_url = (case jr_artifact_path r of
          Some p \<Rightarrow> if p \<noteq> [] then Some (''/v1/jobs/'' @ jr_id r @ ''/artifact'') else None | None \<Rightarrow> None),
       jv_error = jr_error r, jv_precision = dict_get meta ''precision'',
       jv_trajectory_url = (if get_truthy meta ''trajectory_path''
          then Some (''/v1/jobs/'' @ jr_id r @ ''/trajectory'') else None)\<rparr>)"

text \<open>
  The store creates the record and the runner queues its id with no suspension in between; a replay
  of an idempotency key creates, counts and queues nothing.
\<close>

definition store_and_enqueue ::
  "edge_libs \<Rightarrow> string \<Rightarrow> string \<Rightarrow> string \<Rightarrow> plane \<Rightarrow> params \<Rightarrow> string option \<Rightarrow> edge_state
     \<Rightarrow> (edge_exc + job_view) \<times> edge_state" where
  "store_and_enqueue libs new_id now mode plane ps key s =
     (case store_submit (el_fingerprint libs) new_id now mode plane ps key (rn_store (es_runner s)) of
        Inl e \<Rightarrow> (Inl (JobExc e), s)
      | Inr ((record, replayed), st) \<Rightarrow>
          (Inr (to_job record),
           if replayed then s\<lparr>es_runner := (es_runner s)\<lparr>rn_store := st\<rparr>\<rparr>
           else s\<lparr>es_runner := enqueue record st (es_runner s),
                  es_submitted := dict_set mode
                    (Suc (case dict_get (es_submitted s) mode of None \<Rightarrow> 0 | Some n \<Rightarrow> n)) (es_submitted s)\<rparr>))"

definition submit_and_enqueue ::
  "edge_libs \<Rightarrow> string \<Rightarrow> string \<Rightarrow> job_submit \<Rightarrow> string option \<Rightarrow> edge_state
     \<Rightarrow> (edge_exc + job_view) \<times> edge_state" where
  "submit_and_enqueue libs new_id now submit key s =
     (case bindE (map_errE PyRaise (limits_from_env (el_parse_float libs) (el_environ libs)))
             (\<lambda>lims. validate_submission libs submit lims (input_allowlist (el_environ libs))) of
        Inl e \<Rightarrow> (Inl e, s)
      | Inr plane \<Rightarrow>
          (case js_media submit of
             None \<Rightarrow> store_and_enqueue libs new_id now (js_mode submit) plane (js_params submit) key s
           | Some media \<Rightarrow>
               (case persist_inline_media libs media (js_params submit) s of
                  (Inl e, s1) \<Rightarrow> (Inl e, s1)
                | (Inr ps, s1) \<Rightarrow> store_and_enqueue libs new_id now (js_mode submit) plane ps key s1)))"

section \<open>The typed routes\<close>

definition negative_prompt_path :: "string \<Rightarrow> string" where
  "negative_prompt_path model_dir = path_join (path_join model_dir ''assets'') ''negative_prompt.json''"

definition read_default :: "edge_libs \<Rightarrow> string \<Rightarrow> string option" where
  "read_default libs path = (case el_read_text libs path of
     None \<Rightarrow> None | Some t \<Rightarrow> if el_json_ok libs t then Some t else None)"

definition load_default_negative_prompt :: "edge_libs \<Rightarrow> string option" where
  "load_default_negative_prompt libs = (case dict_get (el_environ libs) ''COSMOS3_MODEL_DIR'' of
     None \<Rightarrow> None | Some d \<Rightarrow> if d = [] then None else read_default libs (negative_prompt_path d))"

definition put_some :: "string \<Rightarrow> ('a \<Rightarrow> pyval) \<Rightarrow> 'a option \<Rightarrow> params \<Rightarrow> params" where
  "put_some key f v ps = (case v of None \<Rightarrow> ps | Some x \<Rightarrow> dict_set key (f x) ps)"

definition generation_params ::
  "edge_libs \<Rightarrow> generation_body \<Rightarrow> int option \<Rightarrow> bool \<Rightarrow> string option \<Rightarrow> edge_exc + params" where
  "generation_params libs body num_frames generate_sound negative_default =
     mapE (\<lambda>label.
        let base = [(''prompt'', PStr (gb_prompt body)), (''seed'', PInt (gb_seed body)), (''checkpoint'', PStr label)];
            given = put_some ''image_path'' PStr (gb_image_path body)
                   (put_some ''num_inference_steps'' PInt (gb_num_inference_steps body)
                   (put_some ''width'' PInt (gb_width body)
                   (put_some ''height'' PInt (gb_height body)
                   (put_some ''resolution'' PInt (gb_resolution body)
                   (put_some ''negative_prompt'' PStr (gb_negative_prompt body) base)))));
            with_default = (if absent_or_none given ''negative_prompt''
                            then put_some ''negative_prompt'' PStr negative_default given else given);
            framed = (case num_frames of Some n \<Rightarrow> dict_set ''num_frames'' (PInt n) with_default
                      | None \<Rightarrow> put_some ''num_frames'' PInt (gb_num_frames body) with_default)
        in if generate_sound then dict_set ''generate_sound'' (PBool True) framed else framed)
       (resolve_checkpoint (el_environ libs) (gb_checkpoint body))"

datatype generation_route = T2I | T2V | I2V | T2V_AUDIO

definition route_mode :: "generation_route \<Rightarrow> string" where
  "route_mode rt = (case rt of T2I \<Rightarrow> ''t2i'' | T2V \<Rightarrow> ''t2v'' | I2V \<Rightarrow> ''i2v'' | T2V_AUDIO \<Rightarrow> ''t2v_audio'')"

definition generation_route_submit :: "edge_libs \<Rightarrow> generation_route \<Rightarrow> generation_body \<Rightarrow> edge_exc + job_submit" where
  "generation_route_submit libs rt body =
     bindE (raise_if (if rt = I2V \<and> gb_image body = None \<and> (gb_image_path body = None \<or> gb_image_path body = Some [])
        then Some (fail_media INVALID_PARAM [MLit ''i2v requires a conditioning image ('image' or 'image_path')''])
        else None)) (\<lambda>_.
     mapE (\<lambda>ps. \<lparr>js_mode = route_mode rt, js_params = ps, js_media = gb_image body\<rparr>)
       (generation_params libs body (if rt = T2I then Some 1 else None) (rt = T2V_AUDIO)
          (load_default_negative_prompt libs)))"

definition action_params :: "edge_libs \<Rightarrow> action_body \<Rightarrow> edge_exc + params" where
  "action_params libs body =
     mapE (\<lambda>label.
        let base = [(''domain_name'', PStr (ab_domain_name body)), (''chunk_size'', PInt (ab_chunk_size body)),
                    (''resolution_tier'', PInt (ab_resolution_tier body)), (''view_point'', PStr (ab_view_point body)),
                    (''seed'', PInt (ab_seed body)), (''checkpoint'', PStr label)];
            given = put_some ''video_path'' PStr (ab_video_path body)
                   (put_some ''image_path'' PStr (ab_image_path body)
                   (put_some ''prompt'' PStr (ab_prompt body) base))
        in (case ab_raw_actions body of
              None \<Rightarrow> given
            | Some rows \<Rightarrow>
                dict_set ''raw_action_width''
                  (case rows of PList first # _ \<Rightarrow> PInt (int (length first)) | _ \<Rightarrow> PNone)
                  (dict_set ''raw_actions'' (PList rows) given)))
       (resolve_checkpoint (el_environ libs) (ab_checkpoint body))"

definition action_route_submit :: "edge_libs \<Rightarrow> action_mode \<Rightarrow> action_body \<Rightarrow> edge_exc + job_submit" where
  "action_route_submit libs mode body =
     mapE (\<lambda>ps. \<lparr>js_mode = action_mode_value mode, js_params = ps, js_media = ab_image body\<rparr>)
       (action_params libs body)"

section \<open>Properties\<close>

lemma check_paths_ok:
  "check_paths libs al ps keys = Inr u \<Longrightarrow> key \<in> set keys \<Longrightarrow> get_truthy ps key \<Longrightarrow>
   \<exists>r. resolve_within (el_realpath libs) (str_get (el_str libs) ps key) al = Inr r"
  by (induction libs al ps keys rule: check_paths.induct) (auto simp: result_simps split: if_splits)

lemma check_output_ok:
  assumes "check_output validate ps lims key = Inr u"
  shows "case dict_get ps key of None \<Rightarrow> True | Some v \<Rightarrow> (\<exists>n. py_int v = Inr n \<and> validate n lims = None)"
  using assms
  by (auto simp: check_output_def require_int_def result_simps split: option.splits if_splits sum.splits)

lemma validate_submission_Inr:
  assumes "validate_submission libs sub lims al = Inr plane"
  shows "plane = GENERATION" "js_mode sub \<in> set (GENERATION_MODES @ ACTION_MODES)"
    "check_paths libs al (js_params sub) [''image_path'', ''video_path'', ''audio_path''] = Inr ()"
    "check_output validate_resolution (js_params sub) lims ''resolution'' = Inr ()"
    "check_output validate_dimension (js_params sub) lims ''height'' = Inr ()"
    "check_output validate_dimension (js_params sub) lims ''width'' = Inr ()"
    "check_output validate_num_frames (js_params sub) lims ''num_frames'' = Inr ()"
  using assms
  by (auto simp: validate_submission_def result_simps Let_def plane_for_mode_def
      validate_conditioning_paths_def validate_output_params_def split: if_splits)

text \<open>What acceptance says of one integer parameter.\<close>

definition int_param_in :: "params \<Rightarrow> string \<Rightarrow> int set \<Rightarrow> bool" where
  "int_param_in ps key S \<longleftrightarrow>
     (case dict_get ps key of None \<Rightarrow> True | Some v \<Rightarrow> (case py_int v of Inl e \<Rightarrow> False | Inr n \<Rightarrow> n \<in> S))"

lemma check_output_in:
  assumes "check_output validate ps lims key = Inr u" "\<And>n. validate n lims = None \<Longrightarrow> n \<in> S"
  shows "int_param_in ps key S"
  using check_output_ok [OF assms(1)] assms(2) by (auto simp: int_param_in_def split: option.splits)

text \<open>
  C9: The edge enforces the public caps: a submission that is accepted under the default limits has a
  known mode, every output dimension and frame count it names is an integer of the allowed set, and
  every conditioning path it names resolves inside the allowlist.
\<close>

theorem accepted_submission_within_caps:
  assumes "validate_submission libs sub default_limits al = Inr plane"
  shows "js_mode sub \<in> set (GENERATION_MODES @ ACTION_MODES)
    \<and> int_param_in (js_params sub) ''resolution'' {256, 480, 720}
    \<and> int_param_in (js_params sub) ''height'' {256, 480, 640, 720, 960, 1280}
    \<and> int_param_in (js_params sub) ''width'' {256, 480, 640, 720, 960, 1280}
    \<and> int_param_in (js_params sub) ''num_frames'' {1..720}
    \<and> list_all (\<lambda>key. get_truthy (js_params sub) key =
          (get_truthy (js_params sub) key \<and>
           (\<exists>r. resolve_within (el_realpath libs) (str_get (el_str libs) (js_params sub) key) al = Inr r)))
        [''image_path'', ''video_path'', ''audio_path'']"
proof -
  note v = validate_submission_Inr [OF assms]
  have "int_param_in (js_params sub) ''resolution'' {256, 480, 720}"
    by (rule check_output_in [OF v(4)]) (simp add: validate_resolution_def default_limits_def split: if_splits)
  moreover have "int_param_in (js_params sub) ''height'' {256, 480, 640, 720, 960, 1280}"
    by (rule check_output_in [OF v(5)]) (simp add: validate_dimension_def default_limits_def split: if_splits)
  moreover have "int_param_in (js_params sub) ''width'' {256, 480, 640, 720, 960, 1280}"
    by (rule check_output_in [OF v(6)]) (simp add: validate_dimension_def default_limits_def split: if_splits)
  moreover have "int_param_in (js_params sub) ''num_frames'' {1..720}"
    by (rule check_output_in [OF v(7)]) (simp add: validate_num_frames_def default_limits_def split: if_splits)
  moreover have "get_truthy (js_params sub) key \<Longrightarrow> key \<in> set [''image_path'', ''video_path'', ''audio_path''] \<Longrightarrow>
      \<exists>r. resolve_within (el_realpath libs) (str_get (el_str libs) (js_params sub) key) al = Inr r" for key
    using check_paths_ok [OF v(3)] by blast
  ultimately show ?thesis using v(2) by auto
qed

definition demo_libs :: edge_libs where
  "demo_libs = \<lparr>el_environ = [], el_realpath = lexical_realpath, el_b64decode = (\<lambda>s. Some []),
     el_sha256_hex = (\<lambda>b. ''0''), el_str = (\<lambda>v. []), el_parse_float = (\<lambda>s. Inl ValueError),
     el_fingerprint = (\<lambda>m ps. m), el_read_text = (\<lambda>p. None),
     el_json_ok = (\<lambda>t. False)\<rparr>"

theorem accepted_submission_within_caps_witness:
  "int_param_in [(''num_frames'', PStr '' 24 ''), (''height'', PInt 480)] ''num_frames'' {1..720}"
proof -
  let ?sub = "\<lparr>js_mode = ''t2v'', js_params = [(''num_frames'', PStr '' 24 ''), (''height'', PInt 480)], js_media = None\<rparr>"
  have "py_int (PStr '' 24 '') = Inr 24"
    by (simp add: py_int_def parse_int_def strip_def is_space_def parse_unsigned_def digit_val_def)
  then have "validate_submission demo_libs ?sub default_limits [] = Inr GENERATION"
    by (simp add: validate_submission_def plane_for_mode_def GENERATION_MODES_def ACTION_MODES_def
        validate_conditioning_paths_def get_truthy_def validate_output_params_def check_output_def
        require_int_def validate_resolution_def validate_dimension_def validate_num_frames_def
        default_limits_def Let_def)
  from accepted_submission_within_caps [OF this] show ?thesis by simp
qed

lemma persist_runner:
  "persist_inline_media libs media ps s = (res, s1) \<Longrightarrow> es_runner s1 = es_runner s \<and> es_submitted s1 = es_submitted s"
  by (auto simp: persist_inline_media_def split: option.splits sum.splits)

text \<open>What storing and queueing answers, on its three branches.\<close>

definition outcome_ok :: "string \<Rightarrow> string option \<Rightarrow> edge_state \<Rightarrow> edge_exc + job_view \<Rightarrow> edge_state \<Rightarrow> bool" where
  "outcome_ok new_id key s res s' \<longleftrightarrow> (case res of
      Inl e \<Rightarrow> es_runner s' = es_runner s \<and> es_submitted s' = es_submitted s
    | Inr job \<Rightarrow>
        (\<exists>r jid. job = to_job r \<and> es_runner s' = es_runner s \<and> es_submitted s' = es_submitted s \<and>
           Option.bind key (dict_get (st_idem (rn_store (es_runner s)))) = Some jid \<and>
           job_of (es_runner s) jid = Some r) \<or>
        (\<exists>r. job = to_job r \<and> jr_id r = new_id \<and> jr_status r = Queued \<and>
           rn_queue (es_runner s') = rn_queue (es_runner s) @ [new_id] \<and>
           job_of (es_runner s') = (job_of (es_runner s))(new_id \<mapsto> r)))"

lemma fresh_submit:
  assumes "store_submit fpr new_id now mode plane ps key st = Inr ((r, False), st')"
  shows "jr_id r = new_id \<and> jr_status r = Queued \<and> dict_get (st_jobs st') = (dict_get (st_jobs st))(new_id \<mapsto> r)"
  using assms
  by (auto simp: store_submit_def Let_def new_job_def fun_eq_iff append_event_locked_def
      split: option.splits if_splits)

lemma replayed_submit:
  assumes "store_submit fpr new_id now mode plane ps key st = Inr ((r, True), st')"
  shows "st' = st \<and> (\<exists>jid. Option.bind key (dict_get (st_idem st)) = Some jid \<and> dict_get (st_jobs st) jid = Some r)"
  using assms by (auto simp: store_submit_def Let_def split: option.splits if_splits)

lemma store_and_enqueue_outcome:
  assumes "store_and_enqueue libs new_id now mode plane ps key s = (res, s')"
  shows "outcome_ok new_id key s res s'"
proof (cases "store_submit (el_fingerprint libs) new_id now mode plane ps key (rn_store (es_runner s))")
  case (Inl e)
  with assms show ?thesis by (auto simp: store_and_enqueue_def outcome_ok_def)
next
  case (Inr x)
  then obtain r b st where x: "store_submit (el_fingerprint libs) new_id now mode plane ps key (rn_store (es_runner s))
      = Inr ((r, b), st)" by (metis prod.exhaust)
  show ?thesis
  proof (cases b)
    case True
    with x have x': "store_submit (el_fingerprint libs) new_id now mode plane ps key (rn_store (es_runner s))
      = Inr ((r, True), st)" by simp
    from replayed_submit [OF x'] have "st = rn_store (es_runner s)"
      "\<exists>jid. Option.bind key (dict_get (st_idem (rn_store (es_runner s)))) = Some jid \<and> job_of (es_runner s) jid = Some r"
      unfolding job_of_def by blast+
    with assms x True show ?thesis by (auto simp: store_and_enqueue_def outcome_ok_def)
  next
    case False
    with x have x': "store_submit (el_fingerprint libs) new_id now mode plane ps key (rn_store (es_runner s))
      = Inr ((r, False), st)" by simp
    from fresh_submit [OF x'] have f: "jr_id r = new_id" "jr_status r = Queued"
      "dict_get (st_jobs st) = (dict_get (st_jobs (rn_store (es_runner s))))(new_id \<mapsto> r)" by blast+
    with assms x False show ?thesis
      by (auto simp: store_and_enqueue_def outcome_ok_def enqueue_def job_of_def fun_eq_iff)
  qed
qed

text \<open>
  C18: A rejected request leaves no job behind, and an accepted one leaves exactly one: on any error
  the runner, its store, its queue and the counters are as before; otherwise either the answer is
  the view of the record the idempotency key already had, and nothing changed, or exactly one new
  queued record was stored under the fresh id and queued once, at the end.
\<close>

theorem submission_outcome:
  "outcome_ok new_id key s (fst (submit_and_enqueue libs new_id now sub key s)) (snd (submit_and_enqueue libs new_id now sub key s))"
proof -
  have e: "outcome_ok new_id key s (Inl x) s1" if "es_runner s1 = es_runner s" "es_submitted s1 = es_submitted s" for x s1
    using that by (simp add: outcome_ok_def)
  have store: "outcome_ok new_id key s (fst (store_and_enqueue libs new_id now m pl ps key s1))
      (snd (store_and_enqueue libs new_id now m pl ps key s1))"
    if "es_runner s1 = es_runner s" "es_submitted s1 = es_submitted s" for m pl ps s1
  proof (cases "store_and_enqueue libs new_id now m pl ps key s1")
    case (Pair r2 s2)
    have "outcome_ok new_id key s r2 s2"
      using store_and_enqueue_outcome [OF Pair] unfolding outcome_ok_def that .
    with Pair show ?thesis by simp
  qed
  show ?thesis
    unfolding submit_and_enqueue_def
    by (auto split: sum.splits option.splits prod.splits intro: e dest!: persist_runner simp: store)
qed

text \<open>
  A non-finite JSON number escapes the parameter check: \<open>int\<close> of an infinite float raises
  \<open>OverflowError\<close>, which \<open>_require_int\<close> does not catch, so a request with \<open>num_frames\<close> 1e999 is
  answered 500 where every other non-integer is a typed 422.
\<close>

theorem infinite_param_is_500:
  "validate_submission libs \<lparr>js_mode = ''t2v'', js_params = [(''num_frames'', PFloat PosInf)], js_media = None\<rparr> lims al
     = Inl (PyRaise OverflowError)
   \<and> fst (to_error_response (PyRaise OverflowError)) = 500
   \<and> validate_submission libs \<lparr>js_mode = ''t2v'', js_params = [(''num_frames'', PFloat NotANumber)], js_media = None\<rparr> lims al
     = Inl (fail_media INVALID_PARAM [MRepr ''num_frames'', MLit '' must be an integer''])"
  by (simp add: validate_submission_def plane_for_mode_def GENERATION_MODES_def validate_conditioning_paths_def
      get_truthy_def validate_output_params_def check_output_def require_int_def py_int_def
      to_error_response_def error_body_def fail_media_def)

text \<open>An audio clip whose chunk overruns its file is answered with an internal error, not with a typed one.\<close>

theorem overrun_audio_is_500:
  assumes "el_b64decode libs (im_data_base64 media) = Some overrun_wave" "im_kind media = ''audio''"
    "int (length (im_data_base64 media)) \<le> ml_max_audio_bytes lims * 2"
  shows "validate_inline_media libs media lims = Inl (PyRaise RuntimeError) \<and> fst (to_error_response (PyRaise RuntimeError)) = 500"
  using assms by (simp add: validate_inline_media_def kind_cap_def probe_validate_def probe_lets_overrun_escape to_error_response_def)

lemma dict_get_put_some [simp]:
  "dict_get (put_some key f v ps) k =
     (if k = key then (case v of None \<Rightarrow> dict_get ps k | Some x \<Rightarrow> Some (f x)) else dict_get ps k)"
  by (simp add: put_some_def split: option.splits)

lemma generation_params_lookup:
  assumes "generation_params libs body nf sound nd = Inr ps"
  shows "dict_get ps ''checkpoint'' = Some (PStr (deployed_checkpoint (el_environ libs)))"
    "nf = Some n \<Longrightarrow> dict_get ps ''num_frames'' = Some (PInt n)"
    "dict_get ps ''negative_prompt'' =
        (case gb_negative_prompt body of Some n \<Rightarrow> Some (PStr n) | None \<Rightarrow> map_option PStr nd)"
proof -
  from assms obtain label where l: "resolve_checkpoint (el_environ libs) (gb_checkpoint body) = Inr label"
    by (auto simp: generation_params_def result_simps)
  then have label: "label = deployed_checkpoint (el_environ libs)"
    by (auto simp: resolve_checkpoint_def Let_def split: option.splits if_splits)
  note ps = assms [unfolded generation_params_def l mapE.simps Let_def, THEN sum.inject(2) [THEN iffD1], symmetric]
  show "dict_get ps ''checkpoint'' = Some (PStr (deployed_checkpoint (el_environ libs)))"
    unfolding ps by (simp add: label split: option.split)
  show "nf = Some n \<Longrightarrow> dict_get ps ''num_frames'' = Some (PInt n)"
    unfolding ps by simp
  show "dict_get ps ''negative_prompt'' =
        (case gb_negative_prompt body of Some n \<Rightarrow> Some (PStr n) | None \<Rightarrow> map_option PStr nd)"
    unfolding ps by (simp add: absent_or_none_def split: option.split)
qed

lemma resolve_checkpoint_Inr:
  "resolve_checkpoint environ c = Inr l \<Longrightarrow>
     l = deployed_checkpoint environ \<and> (case c of None \<Rightarrow> True | Some x \<Rightarrow> x = [] \<or> x = deployed_checkpoint environ)"
  by (auto simp: resolve_checkpoint_def Let_def split: option.splits if_splits)

text \<open>
  A typed route never names a checkpoint other than the deployed one, and always names that one:
  the request's label is only compared with it. A t2i job always asks for one frame, and the user's
  negative prompt wins over the curated default.
\<close>

theorem typed_generation_params:
  assumes "generation_route_submit libs rt body = Inr sub"
  shows "dict_get (js_params sub) ''checkpoint'' = Some (PStr (deployed_checkpoint (el_environ libs)))
    \<and> js_mode sub = route_mode rt \<and> js_media sub = gb_image body
    \<and> (rt = T2I \<longrightarrow> dict_get (js_params sub) ''num_frames'' = Some (PInt 1))
    \<and> (case gb_checkpoint body of None \<Rightarrow> True | Some c \<Rightarrow> c = [] \<or> c = deployed_checkpoint (el_environ libs))
    \<and> dict_get (js_params sub) ''negative_prompt'' =
        (case gb_negative_prompt body of Some n \<Rightarrow> Some (PStr n)
         | None \<Rightarrow> map_option PStr (load_default_negative_prompt libs))"
proof -
  let ?nf = "if rt = T2I then Some 1 else None"
  from assms obtain ps where g: "generation_params libs body ?nf (rt = T2V_AUDIO) (load_default_negative_prompt libs) = Inr ps"
    and sub: "sub = \<lparr>js_mode = route_mode rt, js_params = ps, js_media = gb_image body\<rparr>"
    by (auto simp: generation_route_submit_def result_simps)
  from g obtain label where "resolve_checkpoint (el_environ libs) (gb_checkpoint body) = Inr label"
    by (auto simp: generation_params_def result_simps)
  from resolve_checkpoint_Inr [OF this] generation_params_lookup [OF g] sub
  show ?thesis by simp
qed

theorem typed_generation_params_witness:
  "dict_get [(''prompt'', PStr ''p''), (''seed'', PInt 1), (''checkpoint'', PStr ''fp8''), (''num_frames'', PInt 1)]
     ''checkpoint'' = Some (PStr (deployed_checkpoint (el_environ demo_libs)))"
proof -
  let ?body = "\<lparr>gb_prompt = ''p'', gb_negative_prompt = None, gb_resolution = None, gb_height = None,
    gb_width = None, gb_num_frames = Some 9, gb_num_inference_steps = None, gb_seed = 1,
    gb_checkpoint = Some ''fp8'', gb_image_path = None, gb_image = None\<rparr>"
  have "generation_route_submit demo_libs T2I ?body =
    Inr \<lparr>js_mode = ''t2i'', js_params = [(''prompt'', PStr ''p''), (''seed'', PInt 1), (''checkpoint'', PStr ''fp8''),
      (''num_frames'', PInt 1)], js_media = None\<rparr>"
    by (simp add: generation_route_submit_def generation_params_def resolve_checkpoint_def deployed_checkpoint_def
        environ_get_def DEFAULT_CHECKPOINT_def KNOWN_CHECKPOINTS_def load_default_negative_prompt_def
        demo_libs_def put_some_def absent_or_none_def route_mode_def Let_def)
  from typed_generation_params [OF this] show ?thesis by simp
qed

text \<open>
  The generic jobs route does not compare the checkpoint label: any string is accepted there and
  reaches the stored parameters, from which the runner takes the residency label to acquire.
\<close>

theorem jobs_route_keeps_any_checkpoint:
  "validate_submission libs \<lparr>js_mode = ''t2i'', js_params = [(''checkpoint'', PStr label)], js_media = None\<rparr> lims al
     = Inr GENERATION"
  by (simp add: validate_submission_def plane_for_mode_def GENERATION_MODES_def ACTION_MODES_def
      validate_conditioning_paths_def get_truthy_def validate_output_params_def check_output_def)

end
