(* ===== verification/Job_Stream.thy ===== *)
theory Job_Stream
  imports Submission
begin

text \<open>
  Reading jobs over HTTP (\<open>build_jobs_router\<close> in \<open>api/app/jobs_router.py\<close>): the job view, the
  server-sent event stream with its replay and heartbeats, the artifact and trajectory files, and
  the cancel route. A stream suspends at every event it yields, so each of its looks at the store
  sees a state of its own: a round is the log it lists and the record it reads after sending.
\<close>

section \<open>The event stream\<close>

datatype stream_event = Sent job_event | Heartbeat nat

definition TERMINAL_EVENT_TYPES :: "string list" where
  "TERMINAL_EVENT_TYPES = [''succeeded'', ''failed'', ''cancelled'']"

definition terminal_event :: "job_event \<Rightarrow> bool" where
  "terminal_event e \<longleftrightarrow> jev_type e \<in> set TERMINAL_EVENT_TYPES"

definition last_id :: "nat \<Rightarrow> job_event list \<Rightarrow> nat" where
  "last_id sent evs = (if evs = [] then sent else jev_id (last evs))"

text \<open>\<open>rounds\<close> is what each turn of the loop reads; the result says whether the loop ended.\<close>

fun event_stream :: "nat \<Rightarrow> (job_event list \<times> job_record option) list \<Rightarrow> stream_event list \<times> bool" where
  "event_stream sent [] = ([], False)"
| "event_stream sent ((evlog, record) # rounds) =
     (let evs = events_since evlog (Some sent);
          sent' = last_id sent evs;
          fin = list_ex terminal_event evs
      in if fin \<or> (case record of None \<Rightarrow> True | Some r \<Rightarrow> status_value (jr_status r) \<in> set TERMINAL_EVENT_TYPES)
         then (map Sent evs, True)
         else (let (rest, b) = event_stream sent' rounds
               in (map Sent evs @ [Heartbeat sent'] @ rest, b)))"

text \<open>
  \<open>str.isdigit\<close> also holds of the superscripts one, two and three, which \<open>int\<close> rejects.
\<close>

definition py_isdigit :: "string \<Rightarrow> bool" where
  "py_isdigit s \<longleftrightarrow> s \<noteq> [] \<and>
     list_all (\<lambda>c. is_digit c \<or> (of_char c :: nat) = 178 \<or> (of_char c :: nat) = 179 \<or> (of_char c :: nat) = 185) s"

definition last_event_id :: "string option \<Rightarrow> py_exc + int option" where
  "last_event_id raw = (case raw of
     None \<Rightarrow> Inr None
   | Some s \<Rightarrow> if s \<noteq> [] \<and> py_isdigit s then mapE Some (py_int (PStr s)) else Inr None)"

definition open_stream :: "store \<Rightarrow> string \<Rightarrow> string option \<Rightarrow> edge_exc + nat" where
  "open_stream st job_id header =
     bindE (map_errE JobExc (store_get st job_id)) (\<lambda>_.
     mapE (\<lambda>k. case k of None \<Rightarrow> 0 | Some n \<Rightarrow> nat n) (map_errE PyRaise (last_event_id header)))"

definition sse_frame :: "(params \<Rightarrow> string) \<Rightarrow> job_event \<Rightarrow> string" where
  "sse_frame dumps e = ''id: '' @ show_nat (jev_id e) @ [CHR 0x0A] @ ''event: '' @ jev_type e @ [CHR 0x0A]
     @ ''data: '' @ dumps (jev_data e) @ [CHR 0x0A, CHR 0x0A]"

section \<open>The other reads\<close>

datatype file_answer = FileAnswer string string | NotAvailable string

definition get_job :: "store \<Rightarrow> string \<Rightarrow> edge_exc + job_view" where
  "get_job st job_id = mapE to_job (map_errE JobExc (store_get st job_id))"

definition get_artifact ::
  "(string \<Rightarrow> string option) \<Rightarrow> files \<Rightarrow> store \<Rightarrow> string \<Rightarrow> edge_exc + file_answer" where
  "get_artifact guess_type fs st job_id =
     mapE (\<lambda>r. case jr_artifact_path r of
        Some p \<Rightarrow>
          if p \<noteq> [] \<and> fs p \<noteq> None
          then FileAnswer p (case guess_type p of None \<Rightarrow> ''application/octet-stream''
                             | Some m \<Rightarrow> if m = [] then ''application/octet-stream'' else m)
          else NotAvailable ''artifact not available''
      | None \<Rightarrow> NotAvailable ''artifact not available'')
       (map_errE JobExc (store_get st job_id))"

definition get_trajectory :: "files \<Rightarrow> store \<Rightarrow> string \<Rightarrow> edge_exc + file_answer" where
  "get_trajectory fs st job_id =
     mapE (\<lambda>r. case dict_get (case jr_result_meta r of None \<Rightarrow> [] | Some m \<Rightarrow> m) ''trajectory_path'' of
        Some (PStr p) \<Rightarrow>
          if p \<noteq> [] \<and> fs p \<noteq> None then FileAnswer p ''application/json''
          else NotAvailable ''trajectory not available''
      | _ \<Rightarrow> NotAvailable ''trajectory not available'')
       (map_errE JobExc (store_get st job_id))"

text \<open>The cancel route up to the runner's \<open>await\<close>, and its answer when there is none.\<close>

definition cancel_route :: "string \<Rightarrow> runner \<Rightarrow> (edge_exc + job_view) option \<times> runner" where
  "cancel_route job_id s =
     (let (answer, s') = cancel_call job_id s
      in (map_option (\<lambda>a. mapE to_job (map_errE JobExc a)) answer, s'))"

section \<open>What a client of the stream receives\<close>

fun sent_events :: "stream_event list \<Rightarrow> job_event list" where
  "sent_events [] = []"
| "sent_events (Sent e # evs) = e # sent_events evs"
| "sent_events (Heartbeat n # evs) = sent_events evs"

lemma sent_events_append [simp]: "sent_events (xs @ ys) = sent_events xs @ sent_events ys"
  by (induction xs rule: sent_events.induct) auto

lemma sent_events_map [simp]: "sent_events (map Sent evs) = evs"
  by (induction evs) auto

text \<open>
  The logs a stream sees are windows of one growing history \<open>H\<close>. \<open>followed\<close> says that round by round
  the history had the given lengths, and that no event left the bounded window before it was listed.
\<close>

fun followed :: "nat \<Rightarrow> job_event list \<Rightarrow> (job_event list \<times> job_record option) list \<Rightarrow> nat list \<Rightarrow> bool" where
  "followed sent H [] ns = (ns = [])"
| "followed sent H (lr # rounds) [] = False"
| "followed sent H (lr # rounds) (n # ns) =
     (fst lr = last_n EVENT_LOG_BOUND (take n H) \<and> sent \<le> n \<and> n \<le> length H \<and>
      n \<le> sent + EVENT_LOG_BOUND \<and> followed n H rounds ns)"

lemma numbered_take: "numbered h \<Longrightarrow> n \<le> length h \<Longrightarrow> numbered (take n h)"
proof -
  assume "numbered h" "n \<le> length h"
  then have "map jev_id (take n h) = take n [1..<Suc (length h)]"
    by (simp add: numbered_def take_map [symmetric] del: upt_Suc)
  also have "\<dots> = [1..<Suc n]" using \<open>n \<le> length h\<close> by (simp add: take_upt del: upt_Suc)
  finally show ?thesis using \<open>n \<le> length h\<close> by (simp add: numbered_def min_def del: upt_Suc)
qed

lemma round_lists:
  assumes "numbered H" "sent \<le> n" "n \<le> length H" "n \<le> sent + EVENT_LOG_BOUND"
  shows "events_since (last_n EVENT_LOG_BOUND (take n H)) (Some sent) = drop sent (take n H)"
    "last_id sent (drop sent (take n H)) = n"
proof -
  have t: "numbered (take n H)" using numbered_take assms by blast
  show "events_since (last_n EVENT_LOG_BOUND (take n H)) (Some sent) = drop sent (take n H)"
  proof -
    have "length (take n H) = n" using assms(3) by simp
    moreover have "max sent (n - EVENT_LOG_BOUND) = sent" using assms(4) by simp
    ultimately show ?thesis using events_since_window [OF t, of EVENT_LOG_BOUND sent] by simp
  qed
  show "last_id sent (drop sent (take n H)) = n"
    using numbered_ids [OF t, of "n - 1"] assms(2,3) by (auto simp: last_id_def last_drop last_conv_nth min_def)
qed

lemma take_join: "a \<le> b \<Longrightarrow> b \<le> c \<Longrightarrow> drop a (take b H) @ drop b (take c H) = drop a (take c H)"
proof -
  assume "a \<le> b" and "b \<le> c"
  have "take (b - a) (drop a (take c H)) = drop a (take b H)"
    using \<open>b \<le> c\<close> by (simp add: drop_take min_def)
  moreover have "drop (b - a) (drop a (take c H)) = drop b (take c H)" using \<open>a \<le> b\<close> by simp
  ultimately show ?thesis using append_take_drop_id [of "b - a" "drop a (take c H)"] by simp
qed

text \<open>
  How far the stream gets, told from the history alone: the length of the history at its last look at
  the log, which is the first after whose events it stops, for one of them is terminal or the record
  read then is terminal or gone.
\<close>

fun last_look :: "nat \<Rightarrow> job_event list \<Rightarrow> (job_event list \<times> job_record option) list \<Rightarrow> nat list \<Rightarrow> nat \<times> bool" where
  "last_look sent H ((evlog, record) # rounds) (n # ns) =
     (if list_ex terminal_event (drop sent (take n H)) \<or> (\<forall>r. record = Some r \<longrightarrow> terminal (jr_status r))
      then (n, True) else last_look n H rounds ns)"
| "last_look sent H _ _ = (sent, False)"

lemma terminal_type: "status_value s \<in> set TERMINAL_EVENT_TYPES \<longleftrightarrow> terminal s"
  by (cases s) (simp_all add: status_value_def TERMINAL_EVENT_TYPES_def)

lemma stream_delivers:
  "followed sent H rounds ns \<Longrightarrow> numbered H \<Longrightarrow> sent \<le> length H \<Longrightarrow>
   (case last_look sent H rounds ns of (n, over) \<Rightarrow>
      sent \<le> n \<and> n \<le> length H \<and> snd (event_stream sent rounds) = over \<and>
      sent_events (fst (event_stream sent rounds)) = drop sent (take n H))"
proof (induction sent H rounds ns rule: followed.induct)
  case (3 sent H lr rounds n ns)
  obtain evlog rec where lr: "lr = (evlog, rec)" by (cases lr)
  have n: "sent \<le> n" "n \<le> length H" "n \<le> sent + EVENT_LOG_BOUND" "evlog = last_n EVENT_LOG_BOUND (take n H)"
    using "3.prems"(1) lr by simp_all
  note e = round_lists [OF "3.prems"(2) n(1-3)]
  obtain m over where m: "last_look n H rounds ns = (m, over)" by (cases "last_look n H rounds ns")
  with "3.IH" "3.prems" n have r: "n \<le> m" "m \<le> length H" "snd (event_stream n rounds) = over"
    "sent_events (fst (event_stream n rounds)) = drop n (take m H)" by auto
  have over: "(case rec of None \<Rightarrow> True | Some r \<Rightarrow> status_value (jr_status r) \<in> set TERMINAL_EVENT_TYPES) \<longleftrightarrow>
      (\<forall>r. rec = Some r \<longrightarrow> terminal (jr_status r))"
    by (simp add: terminal_type split: option.split)
  let ?stops = "list_ex terminal_event (drop sent (take n H)) \<or> (\<forall>r. rec = Some r \<longrightarrow> terminal (jr_status r))"
  have es: "event_stream sent ((evlog, rec) # rounds) =
      (if ?stops then (map Sent (drop sent (take n H)), True)
       else (let (rest, b) = event_stream n rounds in (map Sent (drop sent (take n H)) @ [Heartbeat n] @ rest, b)))"
    by (auto simp: e over n(4) Let_def)
  show ?case
    using n(1,2) r m take_join [OF n(1) r(1), of H]
    by (cases ?stops) (auto simp: lr es case_prod_beta simp del: event_stream.simps)
qed auto

section \<open>Properties\<close>

text \<open>
  C19: A stream delivers, in order and without a gap or a repetition, every event logged between the id
  the client last saw and the stream's last look at the log, as long as the client follows within the
  log's bound of 1024 events; and it ends exactly when a look brings a terminal event, or the record
  read after one is terminal or gone. Events logged after that last look are not delivered.
\<close>

theorem event_stream_exactly_once:
  assumes "numbered H" "sent \<le> length H" "followed sent H rounds ns"
  shows "case last_look sent H rounds ns of (n, over) \<Rightarrow>
    sent \<le> n \<and> n \<le> length H \<and> snd (event_stream sent rounds) = over \<and>
    sent_events (fst (event_stream sent rounds)) = drop sent (take n H)"
  using stream_delivers [OF assms(3,1,2)] .

theorem event_stream_exactly_once_witness:
  "sent_events (fst (event_stream 1 [([ev1, ev2], Some demo_run_job), ([ev1, ev2, ev3], Some demo_end_job)]))
     = [ev2, ev3]"
proof -
  have n: "numbered [ev1, ev2, ev3]"
    by (simp add: numbered_def ev1_def ev2_def ev3_def demo_event_def eval_nat_numeral)
  have f: "followed 1 [ev1, ev2, ev3] [([ev1, ev2], Some demo_run_job), ([ev1, ev2, ev3], Some demo_end_job)] [2, 3]"
    by (simp add: EVENT_LOG_BOUND_def)
  have "last_look 1 [ev1, ev2, ev3] [([ev1, ev2], Some demo_run_job), ([ev1, ev2, ev3], Some demo_end_job)] [2, 3] = (3, True)"
    by (simp add: terminal_event_def TERMINAL_EVENT_TYPES_def ev2_def ev3_def demo_event_def demo_run_job_def)
  then show ?thesis using event_stream_exactly_once [OF n _ f] by (simp del: event_stream.simps)
qed

text \<open>
  The stream may close without the terminal event: between listing the log and reading the record
  the job can become terminal, and the loop then stops with the terminal event unsent. Here the job
  is cancelled while the stream is sending its \<open>running\<close> event.
\<close>

theorem stream_drops_terminal_event:
  "\<exists>s1 s2 l1 r2. (runner_step demo_fpr)\<^sup>*\<^sup>* new_runner s1 \<and> (runner_step demo_fpr)\<^sup>*\<^sup>* s1 s2 \<and>
     store_log (rn_store s1) ''j'' = Inr l1 \<and> store_get (rn_store s2) ''j'' = Inr r2 \<and>
     jr_status r2 = Cancelled \<and>
     event_stream 0 [(l1, Some r2)] = (map Sent [ev1, ev2], True) \<and> \<not> list_ex terminal_event [ev1, ev2]"
proof -
  let ?s1 = "demo demo_half_job [ev1, ev2] [] (Working ''j'') {} (Some (''j'', Finite (1 / 2))) (\<lambda>c. None)"
  let ?s2 = "demo demo_end_job [ev1, ev2, ev3] [] (Working ''j'') {''j''} (Some (''j'', Finite (1 / 2))) (\<lambda>c. None)"
  have "(runner_step demo_fpr)\<^sup>*\<^sup>* ?s1 ?s2"
    by (rule run_step [OF one_step [OF demo_cancel] demo_resume])
  moreover have "store_log (rn_store ?s1) ''j'' = Inr [ev1, ev2]" "store_get (rn_store ?s2) ''j'' = Inr demo_end_job"
    "jr_status demo_end_job = Cancelled"
    by (simp_all add: store_log_def store_get_def demo_def demo_store_def demo_end_job_def)
  moreover have "\<not> list_ex terminal_event [ev1, ev2]"
    by (simp add: terminal_event_def TERMINAL_EVENT_TYPES_def ev1_def ev2_def demo_event_def)
  moreover have "event_stream 0 [([ev1, ev2], Some demo_end_job)] = (map Sent [ev1, ev2], True)"
    by (simp add: events_since_def last_id_def terminal_event_def TERMINAL_EVENT_TYPES_def demo_end_job_def
        status_value_def ev1_def ev2_def demo_event_def)
  ultimately show ?thesis using demo_run by blast
qed

text \<open>
  A \<open>Last-Event-ID\<close> header consisting of a superscript digit passes \<open>isdigit\<close> and then makes
  \<open>int\<close> raise, so the events of an existing job are answered with an unhandled error instead of
  the stream every other malformed header gets.
\<close>

theorem superscript_event_id_raises:
  "last_event_id (Some [CHR 0xB2]) = Inl ValueError \<and> last_event_id (Some ''x'') = Inr None
   \<and> last_event_id (Some ''42'') = Inr (Some 42)"
  by (simp add: last_event_id_def py_isdigit_def is_digit_def py_int_def parse_int_def strip_def is_space_def
      parse_unsigned_def digit_val_def)

end
