(* ===== verification/Omni_Form.thy ===== *)
theory Omni_Form
  imports Job_Model Action_Schema Trust_Paths
begin

text \<open>
  What the generation client sends (\<open>api/engines/vllm_omni/client.py\<close> 44-256, \<open>api/engines/base.py\<close>
  18-31): the parameters resolved from a job with the pinned defaults, the multipart forms and JSON
  bodies built from them, and the multipart encoder. The record \<open>omni_libs\<close> holds the text
  renderings of the standard library: \<open>str\<close> of a value, the float parser, \<open>json.dumps\<close>, base64
  and UTF-8.
\<close>

record omni_libs =
  ol_str :: "pyval \<Rightarrow> string"
  ol_parse_float :: "string \<Rightarrow> py_exc + pyfloat"
  ol_dumps :: "pyval \<Rightarrow> string"
  ol_b64decode :: "string \<Rightarrow> byte list option"
  ol_encode :: "string \<Rightarrow> byte list"

definition VIDEO_MODES :: "string list" where "VIDEO_MODES = [''t2v'', ''i2v'', ''t2v_audio'']"

definition default_dimensions :: "string \<Rightarrow> int option \<Rightarrow> int \<times> int" where
  "default_dimensions mode resolution =
     (case resolution of
        Some r \<Rightarrow> (r, r)
      | None \<Rightarrow> if mode \<in> set VIDEO_MODES then (1280, 720) else (480, 480))"

record file_part =
  fp_filename :: string
  fp_content_type :: string
  fp_data :: "byte list"

section \<open>Resolved parameters\<close>

record video_params =
  vp_prompt :: string
  vp_negative_prompt :: "string option"
  vp_width :: int
  vp_height :: int
  vp_num_frames :: int
  vp_num_inference_steps :: int
  vp_guidance_scale :: pyfloat
  vp_flow_shift :: pyfloat
  vp_seed :: int
  vp_fps :: int
  vp_max_sequence_length :: int
  vp_generate_sound :: bool

text \<open>\<open>str(p.get(k, "") or "")\<close>.\<close>

definition text_of :: "omni_libs \<Rightarrow> params \<Rightarrow> string \<Rightarrow> string" where
  "text_of libs p k = (if get_truthy p k then py_str (ol_str libs) (val_get p k) else [])"

definition resolved_params :: "omni_libs \<Rightarrow> job_record \<Rightarrow> py_exc + video_params" where
  "resolved_params libs job =
     (let p = jr_params job in
      bindE (if val_get p ''resolution'' = PNone then Inr None else mapE Some (py_int (val_get p ''resolution'')))
        (\<lambda>res. let (dw, dh) = default_dimensions (jr_mode job) res in
      bindE (int_get p ''width'' dw) (\<lambda>width.
      bindE (int_get p ''height'' dh) (\<lambda>height.
      bindE (int_get p ''num_frames'' 1) (\<lambda>num_frames.
      bindE (int_get p ''num_inference_steps'' 35) (\<lambda>steps.
      bindE (float_get (ol_parse_float libs) p ''guidance_scale'' 6) (\<lambda>guidance.
      bindE (float_get (ol_parse_float libs) p ''flow_shift'' 10) (\<lambda>flow.
      bindE (int_get p ''seed'' 123) (\<lambda>seed.
      bindE (int_get p ''fps'' 24) (\<lambda>fps.
      mapE (\<lambda>msl.
        \<lparr>vp_prompt = text_of libs p ''prompt'',
         vp_negative_prompt = (if get_truthy p ''negative_prompt'' then Some (text_of libs p ''negative_prompt'') else None),
         vp_width = width, vp_height = height, vp_num_frames = num_frames, vp_num_inference_steps = steps,
         vp_guidance_scale = guidance, vp_flow_shift = flow, vp_seed = seed, vp_fps = fps,
         vp_max_sequence_length = msl, vp_generate_sound = get_truthy p ''generate_sound''\<rparr>)
       (int_get p ''max_sequence_length'' 4096)))))))))))"

record action_recipe =
  ar_prompt :: string
  ar_width :: int
  ar_height :: int
  ar_num_frames :: int
  ar_fps :: int
  ar_num_inference_steps :: int
  ar_guidance_scale :: pyfloat
  ar_flow_shift :: pyfloat
  ar_seed :: int
  ar_extra_params :: params

definition action_extra_params :: "params \<Rightarrow> string \<Rightarrow> params" where
  "action_extra_params p mode =
     [(''action_mode'', PStr mode),
      (''domain_name'', val_get p ''domain_name''),
      (''raw_action_dim'', val_get p ''raw_action_width''),
      (''action_chunk_size'', val_get p ''chunk_size''),
      (''action'', val_get p ''raw_actions'')]"

text \<open>A list or a dict is no dictionary key: looking the embodiment up raises.\<close>

definition embodiment_dim :: "pyval \<Rightarrow> py_exc + pyval" where
  "embodiment_dim d =
     (if \<not> py_truthy d then Inr PNone
      else case d of
          PStr s \<Rightarrow> Inr (case raw_action_dim_of s of None \<Rightarrow> PNone | Some n \<Rightarrow> PInt n)
        | PList _ \<Rightarrow> Inl TypeError
        | PDict _ \<Rightarrow> Inl TypeError
        | _ \<Rightarrow> Inr PNone)"

definition action_extra_params_predict :: "params \<Rightarrow> string \<Rightarrow> py_exc + params" where
  "action_extra_params_predict p mode =
     mapE (\<lambda>dim.
       [(''action_mode'', PStr mode),
        (''domain_name'', val_get p ''domain_name''),
        (''raw_action_dim'', dim),
        (''action_chunk_size'', val_get p ''chunk_size''),
        (''view_point'', case dict_get p ''view_point'' of None \<Rightarrow> PStr ''ego_view'' | Some v \<Rightarrow> v)])
     (embodiment_dim (val_get p ''domain_name''))"

text \<open>A 4:3 landscape of the tier, its width made even.\<close>

definition even_width :: "int \<Rightarrow> py_exc + int" where
  "even_width tier =
     mapE (\<lambda>_. let w = py_round (of_int (tier * 4) / 3) in w - w mod 2)
       (float_of_rat (of_int (tier * 4) / 3))"

text \<open>The recipe that forward dynamics and the predicting modes share; they differ in the extras.\<close>

definition recipe :: "omni_libs \<Rightarrow> params \<Rightarrow> (py_exc + params) \<Rightarrow> py_exc + action_recipe" where
  "recipe libs p extra =
     bindE (int_get p ''resolution_tier'' 480) (\<lambda>tier.
     bindE (even_width tier) (\<lambda>width.
     bindE (int_get p ''chunk_size'' 0) (\<lambda>chunk.
     bindE (int_get p ''num_frames'' (chunk + 1)) (\<lambda>num_frames.
     bindE (int_get p ''fps'' 10) (\<lambda>fps.
     bindE (int_get p ''num_inference_steps'' 30) (\<lambda>steps.
     bindE (float_get (ol_parse_float libs) p ''guidance_scale'' 1) (\<lambda>guidance.
     bindE (float_get (ol_parse_float libs) p ''flow_shift'' 5) (\<lambda>flow.
     bindE (int_get p ''seed'' 123) (\<lambda>seed.
     mapE (\<lambda>ex.
       \<lparr>ar_prompt = text_of libs p ''prompt'', ar_width = width, ar_height = tier,
        ar_num_frames = num_frames, ar_fps = fps, ar_num_inference_steps = steps,
        ar_guidance_scale = guidance, ar_flow_shift = flow, ar_seed = seed, ar_extra_params = ex\<rparr>)
      extra)))))))))"

definition fd_resolved_params :: "omni_libs \<Rightarrow> job_record \<Rightarrow> py_exc + action_recipe" where
  "fd_resolved_params libs job =
     recipe libs (jr_params job) (Inr (action_extra_params (jr_params job) (jr_mode job)))"

definition action_resolved_params :: "omni_libs \<Rightarrow> job_record \<Rightarrow> py_exc + action_recipe" where
  "action_resolved_params libs job =
     recipe libs (jr_params job) (action_extra_params_predict (jr_params job) (jr_mode job))"

section \<open>Forms and bodies\<close>

datatype form_value = FText string | FFile file_part

type_synonym form = "(string, form_value) dict"

definition size_text :: "int \<Rightarrow> int \<Rightarrow> string" where
  "size_text w h = show_int w @ ''x'' @ show_int h"

definition build_video_form :: "omni_libs \<Rightarrow> job_record \<Rightarrow> file_part option \<Rightarrow> py_exc + form" where
  "build_video_form libs job input_reference =
     mapE (\<lambda>rp.
       [(''prompt'', FText (vp_prompt rp)),
        (''size'', FText (size_text (vp_width rp) (vp_height rp))),
        (''num_frames'', FText (show_int (vp_num_frames rp))),
        (''fps'', FText (show_int (vp_fps rp))),
        (''num_inference_steps'', FText (show_int (vp_num_inference_steps rp))),
        (''guidance_scale'', FText (ol_str libs (PFloat (vp_guidance_scale rp)))),
        (''flow_shift'', FText (ol_str libs (PFloat (vp_flow_shift rp)))),
        (''seed'', FText (show_int (vp_seed rp))),
        (''max_sequence_length'', FText (show_int (vp_max_sequence_length rp))),
        (''extra_params'', FText (ol_dumps libs (PDict
           [(''use_resolution_template'', PBool False), (''use_duration_template'', PBool False),
            (''guardrails'', PBool False)])))]
       @ (case vp_negative_prompt rp of None \<Rightarrow> [] | Some n \<Rightarrow> if n \<noteq> [] then [(''negative_prompt'', FText n)] else [])
       @ (if vp_generate_sound rp then [(''generate_sound'', FText ''true'')] else [])
       @ (case input_reference of None \<Rightarrow> [] | Some f \<Rightarrow> [(''input_reference'', FFile f)]))
     (resolved_params libs job)"

definition build_image_body :: "omni_libs \<Rightarrow> job_record \<Rightarrow> py_exc + params" where
  "build_image_body libs job =
     mapE (\<lambda>rp.
       [(''prompt'', PStr (vp_prompt rp)),
        (''size'', PStr (size_text (vp_width rp) (vp_height rp))),
        (''n'', PInt 1),
        (''response_format'', PStr ''b64_json''),
        (''num_inference_steps'', PInt (vp_num_inference_steps rp)),
        (''guidance_scale'', PFloat (vp_guidance_scale rp)),
        (''seed'', PInt (vp_seed rp))]
       @ (case vp_negative_prompt rp of None \<Rightarrow> [] | Some n \<Rightarrow> if n \<noteq> [] then [(''negative_prompt'', PStr n)] else []))
     (resolved_params libs job)"

definition recipe_form :: "omni_libs \<Rightarrow> file_part \<Rightarrow> action_recipe \<Rightarrow> form" where
  "recipe_form libs input_reference r =
     [(''prompt'', FText (ar_prompt r)),
      (''size'', FText (size_text (ar_width r) (ar_height r))),
      (''num_frames'', FText (show_int (ar_num_frames r))),
      (''fps'', FText (show_int (ar_fps r))),
      (''num_inference_steps'', FText (show_int (ar_num_inference_steps r))),
      (''guidance_scale'', FText (ol_str libs (PFloat (ar_guidance_scale r)))),
      (''flow_shift'', FText (ol_str libs (PFloat (ar_flow_shift r)))),
      (''seed'', FText (show_int (ar_seed r))),
      (''extra_params'', FText (ol_dumps libs (PDict (ar_extra_params r)))),
      (''input_reference'', FFile input_reference)]"

definition build_fd_form :: "omni_libs \<Rightarrow> job_record \<Rightarrow> file_part \<Rightarrow> py_exc + form" where
  "build_fd_form libs job input_reference =
     mapE (recipe_form libs input_reference) (fd_resolved_params libs job)"

definition build_action_form :: "omni_libs \<Rightarrow> job_record \<Rightarrow> file_part \<Rightarrow> py_exc + form" where
  "build_action_form libs job input_reference =
     mapE (recipe_form libs input_reference) (action_resolved_params libs job)"

section \<open>Multipart encoding\<close>

definition CRLF :: "byte list" where "CRLF = [0x0D, 0x0A]"

text \<open>
  \<open>utf8\<close> is \<open>str.encode\<close>. A field is the delimiter line, its header lines, an empty line and the
  data, each followed by CRLF; the closing delimiter ends the body.
\<close>

definition field_headers :: "(string \<Rightarrow> byte list) \<Rightarrow> string \<times> form_value \<Rightarrow> byte list list" where
  "field_headers utf8 f = (case f of
     (key, FFile p) \<Rightarrow>
       [utf8 (''Content-Disposition: form-data; name=\"'' @ key @ ''\"; filename=\"'' @ fp_filename p @ ''\"''),
        utf8 (''Content-Type: '' @ fp_content_type p)]
   | (key, FText t) \<Rightarrow> [utf8 (''Content-Disposition: form-data; name=\"'' @ key @ ''\"'')])"

definition field_data :: "(string \<Rightarrow> byte list) \<Rightarrow> string \<times> form_value \<Rightarrow> byte list" where
  "field_data utf8 f = (case snd f of FFile p \<Rightarrow> fp_data p | FText t \<Rightarrow> utf8 t)"

definition field_parts :: "(string \<Rightarrow> byte list) \<Rightarrow> string \<Rightarrow> string \<times> form_value \<Rightarrow> byte list list" where
  "field_parts utf8 boundary f =
     [utf8 (''--'' @ boundary)] @ field_headers utf8 f @ [[], field_data utf8 f]"

fun join_bytes :: "byte list \<Rightarrow> byte list list \<Rightarrow> byte list" where
  "join_bytes sep [] = []"
| "join_bytes sep [x] = x"
| "join_bytes sep (x # y # xs) = x @ sep @ join_bytes sep (y # xs)"

text \<open>A boundary that is absent or empty is drawn from \<open>uuid4\<close>, here the argument \<open>fresh\<close>.\<close>

definition encode_multipart :: "(string \<Rightarrow> byte list) \<Rightarrow> string \<Rightarrow> string option \<Rightarrow> form \<Rightarrow> string \<times> byte list" where
  "encode_multipart utf8 fresh boundary form =
     (let b = (case boundary of Some b \<Rightarrow> if b \<noteq> [] then b else ''----cosmos3omni'' @ fresh
               | None \<Rightarrow> ''----cosmos3omni'' @ fresh);
          parts = concat (map (field_parts utf8 b) form) @ [utf8 (''--'' @ b @ ''--''), []]
      in (''multipart/form-data; boundary='' @ b, join_bytes CRLF parts))"

end
