(* ===== verification/Multipart.thy ===== *)
theory Multipart
  imports Omni_Form
begin

text \<open>
  The multipart bodies of \<open>encode_multipart\<close> read back by an independent reader of the
  \<open>multipart/form-data\<close> format: it looks for the delimiter only, so what it finds is what a server
  finds. The round trip shows that no prompt, parameter or file content can add, split or hide a
  field unless it contains the delimiter itself.
\<close>

section \<open>A reader of the format\<close>

fun break_at :: "byte list \<Rightarrow> byte list \<Rightarrow> (byte list \<times> byte list) option" where
  "break_at d [] = None"
| "break_at d (x # xs) =
     (if prefix d (x # xs) then Some ([], drop (length d) (x # xs))
      else map_option (\<lambda>(a, b). (x # a, b)) (break_at d xs))"

text \<open>
  The input stands right after a delimiter \<open>D\<close>. Two dashes close the body; CRLF opens a part, its
  headers end at the empty line and its data at the next CRLF and delimiter.
\<close>

fun read_parts :: "nat \<Rightarrow> byte list \<Rightarrow> byte list \<Rightarrow> (byte list \<times> byte list) list option" where
  "read_parts 0 D bs = None"
| "read_parts (Suc n) D bs =
     (if prefix [0x2D, 0x2D] bs then Some []
      else if \<not> prefix CRLF bs then None
      else case break_at (CRLF @ CRLF) (drop 2 bs) of
             None \<Rightarrow> None
           | Some (hdr, rest) \<Rightarrow>
               (case break_at (CRLF @ D) rest of
                  None \<Rightarrow> None
                | Some (data, rest2) \<Rightarrow> map_option ((#) (hdr, data)) (read_parts n D rest2)))"

definition read_multipart :: "byte list \<Rightarrow> byte list \<Rightarrow> (byte list \<times> byte list) list option" where
  "read_multipart D body = (if prefix D body then read_parts (length body) D (drop (length D) body) else None)"

section \<open>Finding the first delimiter\<close>

lemma break_at_skip:
  assumes "c \<notin> set h"
  shows "break_at (c # d) (h @ ys) = map_option (\<lambda>(a, b). (h @ a, b)) (break_at (c # d) ys)"
proof -
  have "break_at (c # d) (h @ ys) = map_option (\<lambda>p. (h @ fst p, snd p)) (break_at (c # d) ys)"
    using assms
    by (induction h) (auto simp: option.map_comp case_prod_beta comp_def option.map_ident)
  then show ?thesis by (simp add: case_prod_beta')
qed

lemma break_at_here: "d \<noteq> [] \<Longrightarrow> break_at d (d @ ys) = Some ([], ys)"
  by (cases d) auto

lemma no_early_delimiter:
  assumes "c \<notin> set d" "\<not> sublist (c # d) (x # xs)"
  shows "\<not> prefix (c # d) (x # xs @ (c # d) @ ys)"
proof
  assume p: "prefix (c # d) (x # xs @ (c # d) @ ys)"
  then have d: "prefix d (xs @ (c # d) @ ys)" by auto
  show False
  proof (cases "length d \<le> length xs")
    case True
    with d have "prefix d xs" by (auto simp: prefix_def append_eq_append_conv2)
    then have "prefix (c # d) (x # xs)" using p by simp
    then show False using assms(2) prefix_imp_sublist by blast
  next
    case False
    from d have "take (length d) (xs @ c # d @ ys) = d"
      by (auto simp: prefix_def simp del: take_append) (simp add: take_append)
    then have "d ! length xs = (xs @ c # d @ ys) ! length xs"
      using False by (metis leI nth_take)
    then have "d ! length xs = c" by simp
    with False assms(1) show False by (metis not_le nth_mem)
  qed
qed

lemma break_at_first:
  assumes "c \<notin> set d" "\<not> sublist (c # d) xs"
  shows "break_at (c # d) (xs @ (c # d) @ ys) = Some (xs, ys)"
  using assms(2)
proof (induction xs)
  case Nil
  then show ?case using break_at_here [of "c # d" ys] by simp
next
  case (Cons x xs)
  have "\<not> sublist (c # d) xs"
    using Cons.prems by (meson sublist_Cons_right)
  then show ?case
    using Cons.IH no_early_delimiter [OF assms(1) Cons.prems, of ys] by simp
qed

lemma break_headers:
  assumes "0x0D \<notin> set h"
  shows "break_at (CRLF @ CRLF) (h @ CRLF @ CRLF @ ys) = Some (h, ys)"
  using break_at_skip [OF assms, of "[0x0A, 0x0D, 0x0A]" "CRLF @ CRLF @ ys"]
    break_at_here [of "CRLF @ CRLF" ys]
  by (simp add: CRLF_def)

lemma break_two_headers:
  assumes "0x0D \<notin> set h" "0x0D \<notin> set k" "k \<noteq> []"
  shows "break_at (CRLF @ CRLF) (h @ CRLF @ k @ CRLF @ CRLF @ ys) = Some (h @ CRLF @ k, ys)"
proof -
  obtain x xs where k: "k = x # xs" using assms(3) by (cases k) auto
  have "x \<noteq> 0x0D" using assms(2) k by auto
  then have "break_at (CRLF @ CRLF) (CRLF @ k @ CRLF @ CRLF @ ys) =
      map_option (\<lambda>(a, b). (CRLF @ a, b)) (break_at (CRLF @ CRLF) (k @ CRLF @ CRLF @ ys))"
    by (simp add: CRLF_def k option.map_comp case_prod_beta comp_def)
  also have "\<dots> = Some (CRLF @ k, ys)" by (simp add: break_headers [OF assms(2)])
  finally show ?thesis
    using break_at_skip [OF assms(1), of "[0x0A, 0x0D, 0x0A]" "CRLF @ k @ CRLF @ CRLF @ ys"]
    by (simp add: CRLF_def)
qed

section \<open>The body of a form\<close>

lemma join_bytes_append:
  "xs \<noteq> [] \<Longrightarrow> ys \<noteq> [] \<Longrightarrow> join_bytes sep (xs @ ys) = join_bytes sep xs @ sep @ join_bytes sep ys"
  by (induction sep xs rule: join_bytes.induct) (auto simp: neq_Nil_conv)

definition part_of :: "(string \<Rightarrow> byte list) \<Rightarrow> string \<times> form_value \<Rightarrow> byte list \<times> byte list" where
  "part_of utf8 f = (join_bytes CRLF (field_headers utf8 f), field_data utf8 f)"

text \<open>What follows the first delimiter \<open>D\<close> of a body.\<close>

fun form_tail :: "(string \<Rightarrow> byte list) \<Rightarrow> byte list \<Rightarrow> form \<Rightarrow> byte list" where
  "form_tail utf8 D [] = [0x2D, 0x2D] @ CRLF"
| "form_tail utf8 D (f # fs) =
     CRLF @ fst (part_of utf8 f) @ CRLF @ CRLF @ snd (part_of utf8 f) @ CRLF @ D @ form_tail utf8 D fs"

text \<open>\<open>str.encode\<close>: piecewise, and ASCII characters are single bytes.\<close>

definition utf8_lawful :: "(string \<Rightarrow> byte list) \<Rightarrow> bool" where
  "utf8_lawful utf8 \<longleftrightarrow>
     (\<forall>s t. utf8 (s @ t) = utf8 s @ utf8 t) \<and> (\<forall>c. of_char c < (128 :: nat) \<longrightarrow> utf8 [c] = [of_char c])"

lemma utf8_dashes:
  assumes "utf8_lawful utf8"
  shows "utf8 ''--'' = [0x2D, 0x2D]"
proof -
  have "utf8 [CHR ''-''] = [0x2D]" using assms by (simp add: utf8_lawful_def)
  then show ?thesis using assms unfolding utf8_lawful_def by (metis append_Cons append_Nil)
qed

lemma field_headers_nonempty: "field_headers utf8 f \<noteq> []"
  by (simp add: field_headers_def split: prod.splits form_value.splits)

lemma body_tail:
  assumes "utf8_lawful utf8"
  shows "join_bytes CRLF (concat (map (field_parts utf8 b) form) @ [utf8 (''--'' @ b @ ''--''), []]) =
    utf8 (''--'' @ b) @ form_tail utf8 (utf8 (''--'' @ b)) form"
proof (induction form)
  case Nil
  have "utf8 (''--'' @ b @ ''--'') = utf8 (''--'' @ b) @ [0x2D, 0x2D]"
    using assms utf8_dashes [OF assms] unfolding utf8_lawful_def by (metis append_assoc)
  then show ?case by simp
next
  case (Cons f fs)
  let ?D = "utf8 (''--'' @ b)" and ?rest = "concat (map (field_parts utf8 b) fs) @ [utf8 (''--'' @ b @ ''--''), []]"
  have "join_bytes CRLF (field_parts utf8 b f @ ?rest) =
      join_bytes CRLF (field_parts utf8 b f) @ CRLF @ join_bytes CRLF ?rest"
    by (rule join_bytes_append) (simp_all add: field_parts_def)
  moreover have "join_bytes CRLF (field_parts utf8 b f) =
      ?D @ CRLF @ join_bytes CRLF (field_headers utf8 f) @ CRLF @ CRLF @ field_data utf8 f"
    using join_bytes_append [of "[?D]" "field_headers utf8 f @ [[], field_data utf8 f]" CRLF]
      join_bytes_append [OF field_headers_nonempty [of utf8 f], of "[[], field_data utf8 f]" CRLF]
    by (simp add: field_parts_def)
  ultimately show ?case using Cons by (simp add: part_of_def)
qed

text \<open>A form is safe for a boundary when no header has a CR and no content has the delimiter.\<close>

definition form_safe :: "(string \<Rightarrow> byte list) \<Rightarrow> byte list \<Rightarrow> form \<Rightarrow> bool" where
  "form_safe utf8 D form \<longleftrightarrow>
     (\<forall>f \<in> set form. (\<forall>h \<in> set (field_headers utf8 f). h \<noteq> [] \<and> 0x0D \<notin> set h) \<and>
        \<not> sublist (CRLF @ D) (field_data utf8 f))"

lemma break_field_headers:
  assumes "\<forall>h \<in> set (field_headers utf8 f). h \<noteq> [] \<and> 0x0D \<notin> set h"
  shows "break_at (CRLF @ CRLF) (fst (part_of utf8 f) @ CRLF @ CRLF @ ys) = Some (fst (part_of utf8 f), ys)"
  using assms
  by (auto simp: part_of_def field_headers_def break_headers break_two_headers
        split: prod.splits form_value.splits)

lemma read_parts_tail:
  assumes "0x0D \<notin> set D" "form_safe utf8 D form" "length form < n"
  shows "read_parts n D (form_tail utf8 D form) = Some (map (part_of utf8) form)"
  using assms(2,3)
proof (induction form arbitrary: n)
  case Nil
  then show ?case by (cases n) (simp_all add: CRLF_def)
next
  case (Cons f fs)
  obtain m where n: "n = Suc m" using Cons.prems(2) by (cases n) auto
  have hs: "\<forall>h \<in> set (field_headers utf8 f). h \<noteq> [] \<and> 0x0D \<notin> set h"
    and nd: "\<not> sublist (CRLF @ D) (snd (part_of utf8 f))" and fs: "form_safe utf8 D fs"
    using Cons.prems(1) by (auto simp: form_safe_def part_of_def)
  have "break_at (0x0D # 0x0A # D) (snd (part_of utf8 f) @ (0x0D # 0x0A # D) @ form_tail utf8 D fs) =
      Some (snd (part_of utf8 f), form_tail utf8 D fs)"
    by (rule break_at_first) (use assms(1) nd in \<open>simp_all add: CRLF_def\<close>)
  then have data: "break_at (CRLF @ D) (snd (part_of utf8 f) @ CRLF @ D @ form_tail utf8 D fs) =
      Some (snd (part_of utf8 f), form_tail utf8 D fs)"
    by (simp add: CRLF_def)
  have "prefix CRLF (form_tail utf8 D (f # fs))" "\<not> prefix [0x2D, 0x2D] (form_tail utf8 D (f # fs))"
    by (simp_all add: CRLF_def)
  moreover have "drop 2 (form_tail utf8 D (f # fs)) =
      fst (part_of utf8 f) @ CRLF @ CRLF @ snd (part_of utf8 f) @ CRLF @ D @ form_tail utf8 D fs"
    by (simp add: CRLF_def)
  ultimately show ?case
    using Cons.IH [OF fs, of m] Cons.prems(2)
    by (simp only: n read_parts.simps break_field_headers [OF hs] data option.case prod.case
        list.map option.map if_True if_False not_True_eq_False length_Cons Suc_less_eq prod.collapse)
qed

lemma length_form_tail: "length form \<le> length (form_tail utf8 D form)"
  by (induction form) (simp_all add: CRLF_def)

section \<open>Properties\<close>

text \<open>
  C20: A multipart body carries exactly its form: read back by the format's own rules it has one part
  per field, in order, with the field's headers and its data unchanged, whatever the data are, as
  long as no header holds a carriage return and no content holds the delimiter line.
\<close>

theorem multipart_roundtrip:
  assumes "utf8_lawful utf8" "b \<noteq> []"
    and "0x0D \<notin> set (utf8 (''--'' @ b))" "form_safe utf8 (utf8 (''--'' @ b)) form"
  shows "read_multipart (utf8 (''--'' @ b)) (snd (encode_multipart utf8 fresh (Some b) form)) =
    Some (map (part_of utf8) form)"
proof -
  let ?D = "utf8 (''--'' @ b)"
  have "utf8 (''--'' @ b) = utf8 ''--'' @ utf8 b" using assms(1) unfolding utf8_lawful_def by blast
  then have D: "?D \<noteq> []" using utf8_dashes [OF assms(1)] by simp
  have body: "snd (encode_multipart utf8 fresh (Some b) form) = ?D @ form_tail utf8 ?D form"
    using assms(2) by (simp add: encode_multipart_def Let_def body_tail [OF assms(1), simplified])
  have "length form < length (?D @ form_tail utf8 ?D form)"
    using D length_form_tail [of form utf8 ?D] by (cases ?D) simp_all
  then show ?thesis
    using read_parts_tail [OF assms(3,4)] by (simp add: read_multipart_def body)
qed

definition demo_utf8 :: "string \<Rightarrow> byte list" where "demo_utf8 = map of_char"

lemma multipart_roundtrip_witness:
  "read_multipart (demo_utf8 ''--B'')
     (snd (encode_multipart demo_utf8 [] (Some ''B'')
        [(''prompt'', FText ''a--B''), (''input_reference'', FFile \<lparr>fp_filename = ''f'', fp_content_type = ''c'', fp_data = [0x0D, 0x0A]\<rparr>)])) =
   Some [part_of demo_utf8 (''prompt'', FText ''a--B''),
     part_of demo_utf8 (''input_reference'', FFile \<lparr>fp_filename = ''f'', fp_content_type = ''c'', fp_data = [0x0D, 0x0A]\<rparr>)]"
proof -
  have l: "utf8_lawful demo_utf8" by (simp add: utf8_lawful_def demo_utf8_def)
  show ?thesis
    using multipart_roundtrip [OF l, of "''B''"
        "[(''prompt'', FText ''a--B''), (''input_reference'', FFile \<lparr>fp_filename = ''f'', fp_content_type = ''c'', fp_data = [0x0D, 0x0A]\<rparr>)]" "[]"]
    by (simp add: form_safe_def field_headers_def field_data_def demo_utf8_def CRLF_def sublist_code)
qed

end
