(* ===== verification/Omni_Client.thy ===== *)
theory Omni_Client
  imports Multipart
begin

text \<open>
  The generation client (\<open>api/engines/vllm_omni/client.py\<close>): the flows of submission, polling and
  download over a transport, and the production transport over \<open>urllib\<close>. The server, the clock and
  the progress sink act on a world \<open>'w\<close>; a \<open>client\<close> is that world with the calls made so far, in
  order. Times and fractions are exact rationals.
\<close>

section \<open>Errors, calls and the host\<close>

text \<open>
  \<open>TransportFailed\<close> is a failure of the connection, with its reason; the last two come from the
  paths and files the work touches. A poll is recorded with its answer.
\<close>

datatype omni_exc =
  VideoJobError string message
| TransportFailed string
| OmniRaise py_exc
| OmniUntrusted path_exc
| FileMissing string

datatype call =
  CPostForm string form
| CPostFormBytes string form pyfloat
| CPostJson string params pyfloat
| CGetJson string "omni_exc + (int \<times> pyval)"
| CGetBytes string
| CDelete string
| CReport pyfloat
| CSleep rat

record 'w omni_host =
  oh_post_form :: "string \<Rightarrow> form \<Rightarrow> 'w \<Rightarrow> (omni_exc + pyval) \<times> 'w"
  oh_get_json :: "string \<Rightarrow> 'w \<Rightarrow> (omni_exc + (int \<times> pyval)) \<times> 'w"
  oh_get_bytes :: "string \<Rightarrow> 'w \<Rightarrow> (omni_exc + byte list) \<times> 'w"
  oh_delete :: "string \<Rightarrow> 'w \<Rightarrow> (omni_exc + unit) \<times> 'w"
  oh_post_form_bytes :: "string \<Rightarrow> form \<Rightarrow> pyfloat \<Rightarrow> 'w \<Rightarrow> (omni_exc + byte list) \<times> 'w"
  oh_post_json :: "string \<Rightarrow> params \<Rightarrow> pyfloat \<Rightarrow> 'w \<Rightarrow> (omni_exc + pyval) \<times> 'w"
  oh_report :: "pyfloat \<Rightarrow> 'w \<Rightarrow> (omni_exc + unit) \<times> 'w"
  oh_sleep :: "rat \<Rightarrow> 'w \<Rightarrow> 'w"
  oh_now :: "'w \<Rightarrow> rat"

record 'w client =
  cl_calls :: "call list"
  cl_world :: 'w

definition perform :: "call \<Rightarrow> ('w \<Rightarrow> 'r \<times> 'w) \<Rightarrow> 'w client \<Rightarrow> 'r \<times> 'w client" where
  "perform c op s =
     (let (r, w) = op (cl_world s) in (r, \<lparr>cl_calls = cl_calls s @ [c], cl_world = w\<rparr>))"

definition post_form :: "'w omni_host \<Rightarrow> string \<Rightarrow> form \<Rightarrow> 'w client \<Rightarrow> (omni_exc + pyval) \<times> 'w client" where
  "post_form h path form = perform (CPostForm path form) (oh_post_form h path form)"

definition get_json :: "'w omni_host \<Rightarrow> string \<Rightarrow> 'w client \<Rightarrow> (omni_exc + (int \<times> pyval)) \<times> 'w client" where
  "get_json h path s =
     (let (r, w) = oh_get_json h path (cl_world s)
      in (r, \<lparr>cl_calls = cl_calls s @ [CGetJson path r], cl_world = w\<rparr>))"

definition get_bytes :: "'w omni_host \<Rightarrow> string \<Rightarrow> 'w client \<Rightarrow> (omni_exc + byte list) \<times> 'w client" where
  "get_bytes h path = perform (CGetBytes path) (oh_get_bytes h path)"

text \<open>The deletion of an orphan: whatever it raises is suppressed.\<close>

definition suppress_delete :: "'w omni_host \<Rightarrow> string \<Rightarrow> 'w client \<Rightarrow> 'w client" where
  "suppress_delete h path s = snd (perform (CDelete path) (oh_delete h path) s)"

definition safe_report :: "'w omni_host \<Rightarrow> pyfloat \<Rightarrow> 'w client \<Rightarrow> 'w client" where
  "safe_report h fraction s = snd (perform (CReport fraction) (oh_report h fraction) s)"

definition sleep_for :: "'w omni_host \<Rightarrow> rat \<Rightarrow> 'w client \<Rightarrow> 'w client" where
  "sleep_for h d s = snd (perform (CSleep d) (\<lambda>w. ((), oh_sleep h d w)) s)"

section \<open>Reading a status\<close>

datatype video_state = Completed | FailedState | Pending

text \<open>\<open>isinstance(v, (int, float))\<close>; a bool is an int.\<close>

definition is_number :: "pyval \<Rightarrow> bool" where
  "is_number v = (case v of PBool _ \<Rightarrow> True | PInt _ \<Rightarrow> True | PFloat _ \<Rightarrow> True | _ \<Rightarrow> False)"

definition percent :: "pyfloat \<Rightarrow> pyfloat" where
  "percent f = (case f of Finite r \<Rightarrow> Finite (r / 100) | _ \<Rightarrow> f)"

definition parse_status :: "(pyval \<Rightarrow> string) \<Rightarrow> pyval \<Rightarrow> py_exc + (video_state \<times> pyfloat option)" where
  "parse_status strf js =
     bindE (py_get js ''status'' (PStr [])) (\<lambda>st.
     bindE (py_get js ''progress'' PNone) (\<lambda>prog.
     bindE (if is_number prog
            then mapE (\<lambda>x. Some (py_max (Finite 0) (py_min (Finite 1) (percent x)))) (py_float (\<lambda>_. Inl ValueError) prog)
            else Inr None) (\<lambda>fraction.
     let status = str_lower (py_str strf st) in
     Inr (if status = ''completed'' then Completed else if status = ''failed'' then FailedState else Pending,
          fraction))))"

definition POLL_PROGRESS_CAP :: rat where "POLL_PROGRESS_CAP = 95 / 100"

definition DEFAULT_EXPECTED_SECONDS :: rat where "DEFAULT_EXPECTED_SECONDS = 650"

definition progress_fraction :: "pyfloat option \<Rightarrow> rat \<Rightarrow> rat \<Rightarrow> pyfloat" where
  "progress_fraction server_fraction elapsed expected =
     (case server_fraction of
        Some f \<Rightarrow> py_min (Finite POLL_PROGRESS_CAP) (py_max (Finite 0) f)
      | None \<Rightarrow>
          if expected \<le> 0 then Finite 0
          else py_min (Finite POLL_PROGRESS_CAP) (py_max (Finite 0) (Finite (elapsed / expected))))"

section \<open>Polling\<close>

text \<open>
  What stays the same over the rounds: the noun of the messages, the job's path, the poll interval,
  the deadline, the ramp's denominator and the start time.
\<close>

record poll_job =
  pj_noun :: string
  pj_id :: string
  pj_path :: string
  pj_interval :: rat
  pj_timeout :: pyfloat
  pj_expected :: rat
  pj_start :: rat

text \<open>One round of \<open>while True\<close>: the loop ends with a result, or goes on with the new floor.\<close>

definition poll_round ::
  "(pyval \<Rightarrow> string) \<Rightarrow> 'w omni_host \<Rightarrow> poll_job \<Rightarrow> pyfloat \<Rightarrow> 'w client
     \<Rightarrow> ((omni_exc + pyval) + pyfloat) \<times> 'w client" where
  "poll_round strf h pj reported s =
     (if flt_lt (pj_timeout pj) (Finite (oh_now h (cl_world s) - pj_start pj)) then
        (Inl (Inl (VideoJobError ''timeout''
           [MStr (pj_noun pj), MLit '' job '', MStr (pj_id pj), MLit '' exceeded '', MVal (PFloat (pj_timeout pj)), MLit ''s''])),
         suppress_delete h (pj_path pj) s)
      else (case get_json h (pj_path pj) s of
        (Inl e, s1) \<Rightarrow> (Inl (Inl e), s1)
      | (Inr (code, body), s1) \<Rightarrow>
          if code \<noteq> 200 then
            (Inl (Inl (VideoJobError ''generation_failed''
               [MLit ''job '', MStr (pj_id pj), MLit '' poll returned HTTP '', MInt code, MLit '': '', MVal body])), s1)
          else (case parse_status strf body of
            Inl e \<Rightarrow> (Inl (Inl (OmniRaise e)), s1)
          | Inr (FailedState, _) \<Rightarrow>
              (Inl (case py_get body ''error'' PNone of
                 Inl e \<Rightarrow> Inl (OmniRaise e)
               | Inr err \<Rightarrow> Inl (VideoJobError ''generation_failed''
                   (if py_truthy err then [MStr (py_str strf err)]
                    else [MLit ''job '', MStr (pj_id pj), MLit '' failed'']))), s1)
          | Inr (Completed, _) \<Rightarrow> (Inl (Inr body), s1)
          | Inr (Pending, server_fraction) \<Rightarrow>
              (let reported' = py_max reported
                     (progress_fraction server_fraction (oh_now h (cl_world s1) - pj_start pj) (pj_expected pj))
               in (Inr reported', sleep_for h (pj_interval pj) (safe_report h reported' s1))))))"

partial_function (option) poll_loop_job ::
  "(pyval \<Rightarrow> string) \<Rightarrow> 'w omni_host \<Rightarrow> poll_job \<Rightarrow> pyfloat \<Rightarrow> 'w client
     \<Rightarrow> ((omni_exc + pyval) \<times> 'w client) option" where
  "poll_loop_job strf h pj reported s =
     (case poll_round strf h pj reported s of
        (Inl r, s1) \<Rightarrow> Some (r, s1)
      | (Inr reported', s1) \<Rightarrow> poll_loop_job strf h pj reported' s1)"

text \<open>Submission of the form, the first report and the loop; both asynchronous flows begin so.\<close>

definition submit_and_poll ::
  "(pyval \<Rightarrow> string) \<Rightarrow> 'w omni_host \<Rightarrow> string \<Rightarrow> (py_exc + form) \<Rightarrow> string \<Rightarrow> rat \<Rightarrow> pyfloat \<Rightarrow> rat option \<Rightarrow> 'w client
     \<Rightarrow> ((omni_exc + (string \<times> pyval)) \<times> 'w client) option" where
  "submit_and_poll strf h noun form base_path interval timeout expected s =
     (case form of
        Inl e \<Rightarrow> Some (Inl (OmniRaise e), s)
      | Inr f \<Rightarrow>
          (case post_form h base_path f s of
             (Inl e, s1) \<Rightarrow> Some (Inl e, s1)
           | (Inr submitted, s1) \<Rightarrow>
               (case py_get submitted ''id'' PNone of
                  Inl e \<Rightarrow> Some (Inl (OmniRaise e), s1)
                | Inr vid \<Rightarrow>
                    if \<not> py_truthy vid then
                      Some (Inl (VideoJobError ''internal_error''
                        [MLit ''submit response carried no job id: '', MVal submitted]), s1)
                    else
                      (let s2 = safe_report h (Finite 0) s1;
                           video_id = py_str strf vid
                       in map_option (\<lambda>(r, s3). (mapE (\<lambda>body. (video_id, body)) r, s3))
                            (poll_loop_job strf h
                               \<lparr>pj_noun = noun, pj_id = video_id, pj_path = base_path @ ''/'' @ video_id, pj_interval = interval,
                                pj_timeout = timeout,
                                pj_expected = (case expected of None \<Rightarrow> DEFAULT_EXPECTED_SECONDS | Some e \<Rightarrow> e),
                                pj_start = oh_now h (cl_world s2)\<rparr>
                               (Finite 0) s2)))))"

definition run_video_job ::
  "omni_libs \<Rightarrow> 'w omni_host \<Rightarrow> job_record \<Rightarrow> file_part option \<Rightarrow> string \<Rightarrow> rat \<Rightarrow> pyfloat \<Rightarrow> rat option \<Rightarrow> 'w client
     \<Rightarrow> ((omni_exc + byte list) \<times> 'w client) option" where
  "run_video_job libs h job input_reference base_path interval timeout expected s =
     (case submit_and_poll (ol_str libs) h ''video'' (build_video_form libs job input_reference)
             base_path interval timeout expected s of
        None \<Rightarrow> None
      | Some (Inl e, s1) \<Rightarrow> Some (Inl e, s1)
      | Some (Inr (video_id, body), s1) \<Rightarrow> Some (get_bytes h (base_path @ ''/'' @ video_id @ ''/content'') s1))"

definition run_forward_dynamics_job ::
  "omni_libs \<Rightarrow> 'w omni_host \<Rightarrow> job_record \<Rightarrow> file_part \<Rightarrow> pyfloat \<Rightarrow> 'w client
     \<Rightarrow> (omni_exc + byte list) \<times> 'w client" where
  "run_forward_dynamics_job libs h job input_reference timeout s =
     (let s1 = safe_report h (Finite 0) s
      in case build_fd_form libs job input_reference of
           Inl e \<Rightarrow> (Inl (OmniRaise e), s1)
         | Inr form \<Rightarrow>
             perform (CPostFormBytes ''/v1/videos/sync'' form timeout)
               (oh_post_form_bytes h ''/v1/videos/sync'' form timeout) s1)"

text \<open>\<open>doc["data"][0]["b64_json"]\<close>, then \<open>b64decode\<close>, which takes no other value than text.\<close>

definition image_bytes :: "omni_libs \<Rightarrow> pyval \<Rightarrow> omni_exc + byte list" where
  "image_bytes libs doc =
     (case bindE (py_item doc ''data'') (\<lambda>d. bindE (py_first d) (\<lambda>x. py_item x ''b64_json'')) of
        Inl e \<Rightarrow>
          if e \<in> {KeyError, IndexError, TypeError}
          then Inl (VideoJobError ''generation_failed'' [MLit ''images response missing b64_json: '', MVal doc])
          else Inl (OmniRaise e)
      | Inr (PStr b64) \<Rightarrow>
          (case ol_b64decode libs b64 of
             None \<Rightarrow> Inl (VideoJobError ''generation_failed'' [MLit ''images response b64 undecodable''])
           | Some raw \<Rightarrow> Inr raw)
      | Inr v \<Rightarrow> Inl (OmniRaise TypeError))"

definition run_image_job ::
  "omni_libs \<Rightarrow> 'w omni_host \<Rightarrow> job_record \<Rightarrow> pyfloat \<Rightarrow> 'w client \<Rightarrow> (omni_exc + byte list) \<times> 'w client" where
  "run_image_job libs h job timeout s =
     (case build_image_body libs job of
        Inl e \<Rightarrow> (Inl (OmniRaise e), s)
      | Inr body \<Rightarrow>
          (case perform (CPostJson ''/v1/images/generations'' body timeout)
                  (oh_post_json h ''/v1/images/generations'' body timeout) s of
             (Inl e, s1) \<Rightarrow> (Inl e, s1)
           | (Inr doc, s1) \<Rightarrow> (image_bytes libs doc, s1)))"

text \<open>A usable action payload is a dict whose \<open>data\<close> is a non-empty list; its value is that list.\<close>

definition usable_action :: "pyval \<Rightarrow> pyval list option" where
  "usable_action action = (case action of
     PDict kvs \<Rightarrow> (case dict_get kvs ''data'' of Some (PList xs) \<Rightarrow> if xs \<noteq> [] then Some xs else None | _ \<Rightarrow> None)
   | _ \<Rightarrow> None)"

definition run_action_job ::
  "omni_libs \<Rightarrow> 'w omni_host \<Rightarrow> job_record \<Rightarrow> file_part \<Rightarrow> bool \<Rightarrow> string \<Rightarrow> rat \<Rightarrow> pyfloat \<Rightarrow> rat option \<Rightarrow> 'w client
     \<Rightarrow> ((omni_exc + (pyval list \<times> byte list option)) \<times> 'w client) option" where
  "run_action_job libs h job input_reference want_video base_path interval timeout expected s =
     (case submit_and_poll (ol_str libs) h ''action'' (build_action_form libs job input_reference)
             base_path interval timeout expected s of
        None \<Rightarrow> None
      | Some (Inl e, s1) \<Rightarrow> Some (Inl e, s1)
      | Some (Inr (video_id, body), s1) \<Rightarrow>
          (case py_get body ''action'' PNone of
             Inl e \<Rightarrow> Some (Inl (OmniRaise e), s1)
           | Inr action \<Rightarrow>
               (case usable_action action of
                  None \<Rightarrow> Some (Inl (VideoJobError ''generation_failed''
                    [MLit ''action job '', MStr video_id, MLit '' returned no usable action payload: '', MVal action]), s1)
                | Some xs \<Rightarrow>
                    if \<not> want_video then Some (Inr (xs, None), s1)
                    else (case get_bytes h (base_path @ ''/'' @ video_id @ ''/content'') s1 of
                        (Inl e, s2) \<Rightarrow> Some (Inl e, s2)
                      | (Inr video, s2) \<Rightarrow> Some (Inr (xs, Some video), s2)))))"

section \<open>The loop\<close>

text \<open>
  The status a poll's answer states: the lowered \<open>status\<close> of a 200 answer that can be read.
\<close>

definition poll_word :: "(pyval \<Rightarrow> string) \<Rightarrow> omni_exc + (int \<times> pyval) \<Rightarrow> string option" where
  "poll_word strf a = (case a of
     Inr (code, body) \<Rightarrow>
       if code = 200 \<and> (\<exists>p. parse_status strf body = Inr p)
       then (case py_get body ''status'' (PStr []) of Inr st \<Rightarrow> Some (str_lower (py_str strf st)) | Inl e \<Rightarrow> None)
       else None
   | Inl e \<Rightarrow> None)"

lemma parse_status_word:
  "parse_status strf body = Inr (st, fr) \<Longrightarrow> \<exists>w. poll_word strf (Inr (200, body)) = Some w \<and>
     st = (if w = ''completed'' then Completed else if w = ''failed'' then FailedState else Pending)"
proof -
  assume p: "parse_status strf body = Inr (st, fr)"
  then obtain st0 where st0: "py_get body ''status'' (PStr []) = Inr st0"
    by (auto simp: parse_status_def bindE_Inr_iff)
  with p have "st = (if str_lower (py_str strf st0) = ''completed'' then Completed
      else if str_lower (py_str strf st0) = ''failed'' then FailedState else Pending)"
    unfolding parse_status_def bindE_Inr_iff Let_def by auto
  then show ?thesis using p st0 by (simp add: poll_word_def)
qed

lemma poll_word_raise: "parse_status strf body = Inl e \<Longrightarrow> poll_word strf (Inr (code, body)) = None"
  by (simp add: poll_word_def)

lemma poll_word_other [simp]: "poll_word strf (Inl e) = None" "code \<noteq> 200 \<Longrightarrow> poll_word strf (Inr (code, body)) = None"
  by (simp_all add: poll_word_def)

definition says_pending :: "(pyval \<Rightarrow> string) \<Rightarrow> omni_exc + (int \<times> pyval) \<Rightarrow> bool" where
  "says_pending strf a \<longleftrightarrow> poll_word strf a \<notin> {None, Some ''completed'', Some ''failed''}"

text \<open>The rounds that go on: a poll with its answer, the fraction reported, the sleep.\<close>

definition polls :: "string \<Rightarrow> rat \<Rightarrow> ((omni_exc + (int \<times> pyval)) \<times> rat) list \<Rightarrow> call list" where
  "polls path interval rs =
     concat (map (\<lambda>(a, f). [CGetJson path a, CReport (Finite f), CSleep interval]) rs)"

lemma polls_simps [simp]:
  "polls path i [] = []"
  "polls path i ((a, f) # rs) = CGetJson path a # CReport (Finite f) # CSleep i # polls path i rs"
  by (simp_all add: polls_def)

lemma clamp_range: "0 \<le> c \<Longrightarrow> \<exists>q. py_min (Finite c) (py_max (Finite 0) f) = Finite q \<and> 0 \<le> q \<and> q \<le> c"
  by (cases f) (auto simp: py_min_def py_max_def flt_lt_def)

lemma progress_fraction_range: "\<exists>q. progress_fraction sf el ex = Finite q \<and> 0 \<le> q \<and> q \<le> POLL_PROGRESS_CAP"
proof -
  have c: "0 \<le> POLL_PROGRESS_CAP" by (simp add: POLL_PROGRESS_CAP_def)
  show ?thesis
    using c clamp_range [OF c, of "the sf"] clamp_range [OF c, of "Finite (el / ex)"]
    by (cases sf) (auto simp: progress_fraction_def)
qed

lemma poll_round_continues:
  assumes "poll_round strf h pj (Finite q) s = (Inr x, s1)" "q \<le> POLL_PROGRESS_CAP"
  shows "\<exists>q' a. x = Finite q' \<and> q \<le> q' \<and> q' \<le> POLL_PROGRESS_CAP \<and> says_pending strf a \<and>
    cl_calls s1 = cl_calls s @ polls (pj_path pj) (pj_interval pj) [(a, q')]"
proof -
  obtain sf el body where x: "x = py_max (Finite q) (progress_fraction sf el (pj_expected pj))"
    and st: "parse_status strf body = Inr (Pending, sf)"
    and calls: "cl_calls s1 = cl_calls s @ [CGetJson (pj_path pj) (Inr (200, body)), CReport x, CSleep (pj_interval pj)]"
    using assms(1)
    by (auto simp: poll_round_def get_json_def perform_def sleep_for_def safe_report_def Let_def
        split: if_splits prod.splits sum.splits video_state.splits)
  obtain q' where "progress_fraction sf el (pj_expected pj) = Finite q'" "q' \<le> POLL_PROGRESS_CAP"
    using progress_fraction_range by blast
  moreover have "says_pending strf (Inr (200, body))"
    using parse_status_word [OF st] by (auto simp: says_pending_def split: if_splits)
  ultimately show ?thesis using x calls assms(2) by (auto simp: py_max_def)
qed

text \<open>The calls of the round that ends the loop, with its result.\<close>

definition final_round :: "(pyval \<Rightarrow> string) \<Rightarrow> string \<Rightarrow> (omni_exc + pyval) \<Rightarrow> call list \<Rightarrow> bool" where
  "final_round strf path r calls \<longleftrightarrow>
     calls = [CDelete path] \<and> (\<exists>m. r = Inl (VideoJobError ''timeout'' m)) \<or>
     (\<exists>a. calls = [CGetJson path a] \<and>
        (case r of
           Inr body \<Rightarrow> a = Inr (200, body) \<and> poll_word strf a = Some ''completed''
         | Inl e \<Rightarrow> poll_word strf a \<in> {None, Some ''failed''} \<and>
             (a = Inl e \<or> (\<exists>m. e = VideoJobError ''generation_failed'' m) \<or> (\<exists>x. e = OmniRaise x))))"

lemma poll_round_ends:
  assumes "poll_round strf h pj reported s = (Inl r, s1)"
  shows "\<exists>tl. cl_calls s1 = cl_calls s @ tl \<and> final_round strf (pj_path pj) r tl"
  using assms
  by (auto simp: poll_round_def final_round_def get_json_def perform_def suppress_delete_def Let_def poll_word_raise
      split: if_splits prod.splits sum.splits video_state.splits dest: parse_status_word)

definition loop_trace ::
  "(pyval \<Rightarrow> string) \<Rightarrow> poll_job \<Rightarrow> pyfloat \<Rightarrow> call list \<Rightarrow> (omni_exc + pyval) \<Rightarrow> call list \<Rightarrow> bool" where
  "loop_trace strf pj reported before r after \<longleftrightarrow>
     (\<forall>q. reported = Finite q \<and> q \<le> POLL_PROGRESS_CAP \<longrightarrow>
        (\<exists>rs tl. after = before @ polls (pj_path pj) (pj_interval pj) rs @ tl \<and>
           sorted (q # map snd rs) \<and> (\<forall>(a, f) \<in> set rs. f \<le> POLL_PROGRESS_CAP \<and> says_pending strf a) \<and>
           final_round strf (pj_path pj) r tl))"

lemma loop_trace_ends:
  assumes "poll_round strf h pj reported s = (Inl r, s1)"
  shows "loop_trace strf pj reported (cl_calls s) r (cl_calls s1)"
proof -
  obtain tl where "cl_calls s1 = cl_calls s @ tl" "final_round strf (pj_path pj) r tl"
    using poll_round_ends [OF assms] by blast
  then show ?thesis unfolding loop_trace_def by (intro allI impI exI [of _ "[]"] exI [of _ tl]) simp
qed

lemma loop_trace_continues:
  assumes "poll_round strf h pj reported s = (Inr x, s1)" "loop_trace strf pj x (cl_calls s1) r calls"
  shows "loop_trace strf pj reported (cl_calls s) r calls"
  unfolding loop_trace_def
proof (intro allI impI)
  fix q assume q: "reported = Finite q \<and> q \<le> POLL_PROGRESS_CAP"
  then obtain q' a where q': "x = Finite q'" "q \<le> q'" "q' \<le> POLL_PROGRESS_CAP" "says_pending strf a"
    "cl_calls s1 = cl_calls s @ polls (pj_path pj) (pj_interval pj) [(a, q')]"
    using poll_round_continues [of strf h pj q s x s1] assms(1) by auto
  then obtain rs tl where "calls = cl_calls s1 @ polls (pj_path pj) (pj_interval pj) rs @ tl"
    "sorted (q' # map snd rs)" "\<forall>(a, f) \<in> set rs. f \<le> POLL_PROGRESS_CAP \<and> says_pending strf a"
    "final_round strf (pj_path pj) r tl"
    using assms(2) unfolding loop_trace_def by blast
  with q' show "\<exists>rs tl. calls = cl_calls s @ polls (pj_path pj) (pj_interval pj) rs @ tl \<and>
      sorted (q # map snd rs) \<and> (\<forall>(a, f) \<in> set rs. f \<le> POLL_PROGRESS_CAP \<and> says_pending strf a) \<and>
      final_round strf (pj_path pj) r tl"
    by (intro exI [of _ "(a, q') # rs"] exI [of _ tl]) auto
qed

lemma poll_loop_trace:
  assumes "poll_loop_job strf h pj reported s = Some y"
  shows "loop_trace strf pj reported (cl_calls s) (fst y) (cl_calls (snd y))"
  using assms
proof (rule poll_loop_job.raw_induct [rotated])
  fix loop :: "(pyval \<Rightarrow> string) \<Rightarrow> 'a omni_host \<Rightarrow> poll_job \<Rightarrow> pyfloat \<Rightarrow> 'a client
      \<Rightarrow> ((omni_exc + pyval) \<times> 'a client) option"
    and strf h pj reported and s :: "'a client" and y
  assume IH: "\<And>strf h pj reported s y. loop strf h pj reported s = Some y \<Longrightarrow>
      loop_trace strf pj reported (cl_calls s) (fst y) (cl_calls (snd y))"
    and step: "(case poll_round strf h pj reported s of (Inl r, s1) \<Rightarrow> Some (r, s1)
      | (Inr reported', s1) \<Rightarrow> loop strf h pj reported' s1) = Some y"
  then show "loop_trace strf pj reported (cl_calls s) (fst y) (cl_calls (snd y))"
    by (auto split: prod.splits sum.splits intro: loop_trace_ends loop_trace_continues)
qed

text \<open>Time does not go back over a call, and a sleep takes at least its duration.\<close>

definition host_lawful :: "'w omni_host \<Rightarrow> bool" where
  "host_lawful h \<longleftrightarrow>
     (\<forall>p w. oh_now h w \<le> oh_now h (snd (oh_get_json h p w))) \<and>
     (\<forall>f w. oh_now h w \<le> oh_now h (snd (oh_report h f w))) \<and>
     (\<forall>d w. 0 \<le> d \<longrightarrow> oh_now h w + d \<le> oh_now h (oh_sleep h d w))"

lemma poll_round_time:
  assumes "host_lawful h" "0 \<le> pj_interval pj" "poll_round strf h pj reported s = (Inr x, s1)"
  shows "oh_now h (cl_world s) + pj_interval pj \<le> oh_now h (cl_world s1)"
proof -
  obtain w1 w2 p f where w: "w1 = snd (oh_get_json h p (cl_world s))" "w2 = snd (oh_report h f w1)"
    "cl_world s1 = oh_sleep h (pj_interval pj) w2"
    using assms(3)
    by (auto simp: poll_round_def get_json_def perform_def sleep_for_def safe_report_def Let_def
        split: if_splits prod.splits sum.splits video_state.splits) (metis snd_conv)+
  have "oh_now h (cl_world s) \<le> oh_now h w1" "oh_now h w1 \<le> oh_now h w2"
    "oh_now h w2 + pj_interval pj \<le> oh_now h (cl_world s1)"
    using assms(1,2) w by (simp_all add: host_lawful_def)
  then show ?thesis by linarith
qed

lemma poll_round_timeout:
  "pj_timeout pj = Finite t \<Longrightarrow> t < oh_now h (cl_world s) - pj_start pj \<Longrightarrow>
     \<exists>r s1. poll_round strf h pj reported s = (Inl r, s1)"
  by (simp add: poll_round_def)

lemma job_loop_returns:
  assumes "host_lawful h" "0 < pj_interval pj" "pj_timeout pj = Finite t"
  shows "\<exists>y. poll_loop_job strf h pj reported s = Some y"
proof -
  have "\<exists>y. poll_loop_job strf h pj reported s = Some y"
    if "t - (oh_now h (cl_world s) - pj_start pj) < of_nat n * pj_interval pj" for n
    using that
  proof (induction n arbitrary: reported s)
    case 0
    then obtain r s1 where "poll_round strf h pj reported s = (Inl r, s1)"
      using poll_round_timeout [OF assms(3), of h s strf reported] by auto
    then show ?case by (subst poll_loop_job.simps) simp
  next
    case (Suc n)
    obtain o1 s1 where round: "poll_round strf h pj reported s = (o1, s1)" by (cases "poll_round strf h pj reported s")
    show ?case
    proof (cases o1)
      case (Inl r)
      then show ?thesis using round by (subst poll_loop_job.simps) simp
    next
      case (Inr x)
      then have "oh_now h (cl_world s) + pj_interval pj \<le> oh_now h (cl_world s1)"
        using poll_round_time [OF assms(1) less_imp_le [OF assms(2)]] round by blast
      with Suc.prems have "t - (oh_now h (cl_world s1) - pj_start pj) < of_nat n * pj_interval pj"
        by (simp add: algebra_simps)
      from Suc.IH [OF this, of x] show ?thesis
        using round Inr by (subst poll_loop_job.simps) simp
    qed
  qed
  then show ?thesis using ex_less_of_nat_mult [OF assms(2)] by blast
qed

section \<open>The flows\<close>

definition rising_below_cap :: "rat list \<Rightarrow> bool" where
  "rising_below_cap fs \<longleftrightarrow> sorted (0 # fs) \<and> (\<forall>f \<in> set fs. f \<le> POLL_PROGRESS_CAP)"

text \<open>The calls of a submission that was accepted under an id, up to and with its last round.\<close>

definition polled ::
  "(pyval \<Rightarrow> string) \<Rightarrow> string \<Rightarrow> rat \<Rightarrow> form \<Rightarrow> string \<Rightarrow> call list \<Rightarrow> call list \<Rightarrow> bool" where
  "polled strf base_path interval f video_id tail calls \<longleftrightarrow>
     (\<exists>rs. rising_below_cap (map snd rs) \<and> (\<forall>(a, f) \<in> set rs. says_pending strf a) \<and>
        calls = [CPostForm base_path f, CReport (Finite 0)] @ polls (base_path @ ''/'' @ video_id) interval rs @ tail)"

lemma submit_and_poll_trace:
  assumes "submit_and_poll strf h noun form base_path interval timeout expected s = Some (r, s')"
    and "cl_calls s = []"
  obtains (rejected) e where "r = Inl e" "length (cl_calls s') \<le> 1"
  | (accepted) f video_id tail where "form = Inr f" "polled strf base_path interval f video_id tail (cl_calls s')"
      "\<exists>r'. r = mapE (\<lambda>body. (video_id, body)) r' \<and> final_round strf (base_path @ ''/'' @ video_id) r' tail"
proof (cases form)
  case (Inl e)
  then show ?thesis using assms rejected by (auto simp: submit_and_poll_def)
next
  case (Inr f)
  obtain o1 s1 where post: "post_form h base_path f s = (o1, s1)" by (cases "post_form h base_path f s")
  then have calls1: "cl_calls s1 = [CPostForm base_path f]"
    using assms(2) by (auto simp: post_form_def perform_def split: prod.splits)
  show ?thesis
  proof (cases "\<exists>submitted vid. o1 = Inr submitted \<and> py_get submitted ''id'' PNone = Inr vid \<and> py_truthy vid")
    case False
    then show ?thesis
      using assms(1) calls1 rejected
      by (auto simp: submit_and_poll_def Inr post split: sum.splits if_splits)
  next
    case True
    then obtain submitted vid where vid: "o1 = Inr submitted" "py_get submitted ''id'' PNone = Inr vid" "py_truthy vid"
      by blast
    define s2 where "s2 = safe_report h (Finite 0) s1"
    define pj where "pj = \<lparr>pj_noun = noun, pj_id = py_str strf vid, pj_path = base_path @ ''/'' @ py_str strf vid,
        pj_interval = interval, pj_timeout = timeout,
        pj_expected = (case expected of None \<Rightarrow> DEFAULT_EXPECTED_SECONDS | Some e \<Rightarrow> e), pj_start = oh_now h (cl_world s2)\<rparr>"
    obtain r2 where loop: "poll_loop_job strf h pj (Finite 0) s2 = Some (r2, s')"
      and r: "r = mapE (\<lambda>body. (py_str strf vid, body)) r2"
      using assms(1) vid by (auto simp: submit_and_poll_def Inr post Let_def s2_def pj_def)
    have calls2: "cl_calls s2 = [CPostForm base_path f, CReport (Finite 0)]"
      using calls1 by (auto simp: s2_def safe_report_def perform_def split: prod.splits)
    have "0 \<le> POLL_PROGRESS_CAP" by (simp add: POLL_PROGRESS_CAP_def)
    then obtain rs tail where tail: "cl_calls s' = cl_calls s2 @ polls (pj_path pj) (pj_interval pj) rs @ tail"
      "sorted (0 # map snd rs)" "\<forall>(a, f) \<in> set rs. f \<le> POLL_PROGRESS_CAP \<and> says_pending strf a"
      "final_round strf (pj_path pj) r2 tail"
      using poll_loop_trace [OF loop] unfolding loop_trace_def by auto
    then have "polled strf base_path interval f (py_str strf vid) tail (cl_calls s')"
      using calls2 unfolding polled_def rising_below_cap_def by (intro exI [of _ rs]) (auto simp: pj_def)
    moreover have "\<exists>r'. r = mapE (\<lambda>body. (py_str strf vid, body)) r' \<and>
        final_round strf (base_path @ ''/'' @ py_str strf vid) r' tail"
      using tail(4) r by (auto simp: pj_def)
    ultimately show ?thesis using accepted Inr by blast
  qed
qed

lemma submit_and_poll_returns:
  assumes "host_lawful h" "0 < interval"
  shows "\<exists>y. submit_and_poll strf h noun form base_path interval (Finite t) expected s = Some y"
proof -
  have loop: "\<exists>b a. poll_loop_job strf h pj (Finite 0) s2 = Some (a, b)"
    if "pj_interval pj = interval" "pj_timeout pj = Finite t" for pj s2
    using job_loop_returns [of h pj t strf "Finite 0" s2] assms that by auto
  show ?thesis
    by (auto simp: submit_and_poll_def Let_def split: sum.splits prod.splits intro!: loop)
qed

section \<open>Properties\<close>


text \<open>A server that is ready at the third poll; time passes only while the client sleeps.\<close>

definition demo_host :: "nat omni_host" where
  "demo_host =
     \<lparr>oh_post_form = (\<lambda>p f w. (Inr (PDict [(''id'', PStr ''v1'')]), w)),
      oh_get_json = (\<lambda>p w. (Inr (200, PDict [(''status'', PStr (if 10 \<le> w then ''completed'' else ''queued''))]), w)),
      oh_get_bytes = (\<lambda>p w. (Inr [1, 2, 3], w)),
      oh_delete = (\<lambda>p w. (Inr (), w)),
      oh_post_form_bytes = (\<lambda>p f t w. (Inr [], w)),
      oh_post_json = (\<lambda>p b t w. (Inr PNone, w)),
      oh_report = (\<lambda>f w. (Inr (), w)),
      oh_sleep = (\<lambda>d w. w + nat \<lceil>d\<rceil>),
      oh_now = of_nat\<rparr>"

definition demo_omni_libs :: omni_libs where
  "demo_omni_libs = \<lparr>ol_str = (\<lambda>v. ''?''), ol_parse_float = (\<lambda>s. Inl ValueError), ol_dumps = (\<lambda>v. ''{}''),
     ol_b64decode = (\<lambda>s. None), ol_encode = map of_char\<rparr>"

definition demo_gen_job :: job_record where
  "demo_gen_job = new_job ''j1'' ''t2v'' GENERATION ''now'' [(''prompt'', PStr ''a cat'')] None"

lemma demo_host_lawful: "host_lawful demo_host"
proof -
  have "(of_nat w :: rat) + d \<le> of_nat (w + nat \<lceil>d\<rceil>)" if "0 \<le> d" for w d
    using that of_nat_ceiling [of d] by simp
  then show ?thesis by (simp add: host_lawful_def demo_host_def)
qed

lemmas demo_simps = poll_round_def demo_host_def get_json_def perform_def parse_status_def py_get_def
  safe_report_def sleep_for_def is_number_def str_lower_def lower_char_def py_str_def
  progress_fraction_def POLL_PROGRESS_CAP_def py_max_def py_min_def

definition demo_queued :: "omni_exc + (int \<times> pyval)" where
  "demo_queued = Inr (200, PDict [(''status'', PStr ''queued'')])"

lemma demo_poll:
  "poll_loop_job (\<lambda>v. ''?'') demo_host
     \<lparr>pj_noun = ''video'', pj_id = ''v1'', pj_path = ''/v1/videos/v1'', pj_interval = 5, pj_timeout = Finite 7200,
      pj_expected = 650, pj_start = 0\<rparr> (Finite 0) \<lparr>cl_calls = cs, cl_world = 0\<rparr> =
   Some (Inr (PDict [(''status'', PStr ''completed'')]),
     \<lparr>cl_calls = cs @ polls ''/v1/videos/v1'' 5 [(demo_queued, 0), (demo_queued, 1 / 130)] @
        [CGetJson ''/v1/videos/v1'' (Inr (200, PDict [(''status'', PStr ''completed'')]))], cl_world = 10\<rparr>)"
  apply (subst poll_loop_job.simps, simp add: demo_simps demo_queued_def Let_def)
  apply (subst poll_loop_job.simps, simp add: demo_simps demo_queued_def Let_def)
  apply (subst poll_loop_job.simps, simp add: demo_simps demo_queued_def Let_def)
  done

lemma demo_form: "\<exists>f. build_video_form demo_omni_libs demo_gen_job None = Inr f"
  by (simp add: build_video_form_def resolved_params_def demo_gen_job_def new_job_def val_get_def int_get_def
      float_get_def default_dimensions_def VIDEO_MODES_def Let_def)

lemma demo_video_run:
  "\<exists>s'. run_video_job demo_omni_libs demo_host demo_gen_job None ''/v1/videos'' 5 (Finite 7200) None
     \<lparr>cl_calls = [], cl_world = 0\<rparr> = Some (Inr [1, 2, 3], s')"
proof -
  obtain f where f: "build_video_form demo_omni_libs demo_gen_job None = Inr f" using demo_form by blast
  have host: "oh_post_form demo_host p f w = (Inr (PDict [(''id'', PStr ''v1'')]), w)"
    "oh_report demo_host x w = (Inr (), w)" "oh_now demo_host w = of_nat w" "oh_get_bytes demo_host p w = (Inr [1, 2, 3], w)"
    for p f w x by (simp_all add: demo_host_def)
  have str: "ol_str demo_omni_libs = (\<lambda>v. ''?'')" by (simp add: demo_omni_libs_def)
  show ?thesis
    using demo_poll
    by (simp add: run_video_job_def submit_and_poll_def f post_form_def get_bytes_def safe_report_def perform_def
        host str py_get_def py_str_def DEFAULT_EXPECTED_SECONDS_def Let_def)
qed


text \<open>
  Every asynchronous generation job returns: with a clock that does not go back, sleeps that
  take their time, a positive poll interval and a finite deadline, the video and the action flow
  produce a result, however the server answers.
\<close>

theorem omni_jobs_return:
  assumes "host_lawful h" "0 < interval"
  shows "(\<exists>y. run_video_job libs h job ref base_path interval (Finite t) expected s = Some y) \<and>
    (\<exists>y. run_action_job libs h job part want_video base_path interval (Finite t) expected s = Some y)"
proof -
  obtain y where "submit_and_poll (ol_str libs) h ''video'' (build_video_form libs job ref)
      base_path interval (Finite t) expected s = Some y"
    using submit_and_poll_returns [OF assms] by blast
  moreover obtain z where "submit_and_poll (ol_str libs) h ''action'' (build_action_form libs job part)
      base_path interval (Finite t) expected s = Some z"
    using submit_and_poll_returns [OF assms] by blast
  ultimately show ?thesis
    by (auto simp: run_video_job_def run_action_job_def split: sum.splits prod.splits option.splits)
qed

lemma omni_jobs_return_witness:
  "\<exists>y. run_video_job demo_omni_libs demo_host demo_gen_job None ''/v1/videos'' 5 (Finite 7200) None
     \<lparr>cl_calls = [], cl_world = 0\<rparr> = Some y"
  using omni_jobs_return [OF demo_host_lawful, where interval = 5 and libs = demo_omni_libs and job = demo_gen_job
      and ref = None and base_path = "''/v1/videos''" and t = 7200 and expected = None
      and s = "\<lparr>cl_calls = [], cl_world = 0\<rparr>"]
  by simp

end
