(* ===== verification/Omni_Transport.thy ===== *)
theory Omni_Transport
  imports Omni_Client
begin

text \<open>
  The production transport (\<open>UrllibVideoTransport\<close> in \<open>api/engines/vllm_omni/client.py\<close> 460-548) over
  \<open>urlopen\<close>, which is an argument: it answers a request with a response, an \<open>HTTPError\<close> (its body, if
  it can be read) or a failure to connect. \<open>loads\<close> is \<open>json.loads\<close> of UTF-8 bytes.
\<close>

record http_request =
  hr_method :: string
  hr_url :: string
  hr_content_type :: "string option"
  hr_body :: "byte list option"
  hr_timeout :: pyfloat

datatype http_answer = HttpOk int "byte list" | HttpError int "byte list option" | HttpFailed string

record 'w urllib =
  ul_urlopen :: "http_request \<Rightarrow> 'w \<Rightarrow> http_answer \<times> 'w"
  ul_loads :: "byte list \<Rightarrow> py_exc + pyval"
  ul_decode :: "byte list \<Rightarrow> string option"
  ul_uuid :: "'w \<Rightarrow> string"

record transport =
  tp_base :: string
  tp_request_timeout :: pyfloat
  tp_content_timeout :: pyfloat

definition new_transport :: "string \<Rightarrow> transport" where
  "new_transport base_url =
     \<lparr>tp_base = rstrip_slash base_url, tp_request_timeout = Finite 30, tp_content_timeout = Finite 120\<rparr>"

definition json_answer :: "'w urllib \<Rightarrow> byte list \<Rightarrow> omni_exc + pyval" where
  "json_answer u body = map_errE OmniRaise (ul_loads u body)"

definition http_raised :: "int \<Rightarrow> omni_exc" where
  "http_raised code = TransportFailed (''HTTP Error '' @ show_int code)"

definition form_request :: "omni_libs \<Rightarrow> 'w urllib \<Rightarrow> transport \<Rightarrow> string \<Rightarrow> form \<Rightarrow> pyfloat \<Rightarrow> 'w \<Rightarrow> http_request" where
  "form_request libs u t path form timeout w =
     (let (ctype, body) = encode_multipart (ol_encode libs) (ul_uuid u w) None form
      in \<lparr>hr_method = ''POST'', hr_url = tp_base t @ path, hr_content_type = Some ctype,
          hr_body = Some body, hr_timeout = timeout\<rparr>)"

definition get_request :: "transport \<Rightarrow> string \<Rightarrow> string \<Rightarrow> pyfloat \<Rightarrow> http_request" where
  "get_request t verb path timeout =
     \<lparr>hr_method = verb, hr_url = tp_base t @ path, hr_content_type = None, hr_body = None, hr_timeout = timeout\<rparr>"

definition transport_post_form ::
  "omni_libs \<Rightarrow> 'w urllib \<Rightarrow> transport \<Rightarrow> string \<Rightarrow> form \<Rightarrow> 'w \<Rightarrow> (omni_exc + pyval) \<times> 'w" where
  "transport_post_form libs u t path form w =
     (case ul_urlopen u (form_request libs u t path form (tp_request_timeout t) w) w of
        (HttpOk code body, w1) \<Rightarrow> (json_answer u body, w1)
      | (HttpError code body, w1) \<Rightarrow> (Inl (http_raised code), w1)
      | (HttpFailed e, w1) \<Rightarrow> (Inl (TransportFailed e), w1))"

text \<open>A poll surfaces an HTTP error as its code and body; a body that does not parse is empty.\<close>

definition transport_get_json ::
  "'w urllib \<Rightarrow> transport \<Rightarrow> string \<Rightarrow> 'w \<Rightarrow> (omni_exc + (int \<times> pyval)) \<times> 'w" where
  "transport_get_json u t path w =
     (case ul_urlopen u (get_request t ''GET'' path (tp_request_timeout t)) w of
        (HttpOk code body, w1) \<Rightarrow> (mapE (Pair code) (json_answer u body), w1)
      | (HttpError code body, w1) \<Rightarrow>
          (Inr (code, case body of
             None \<Rightarrow> PDict []
           | Some b \<Rightarrow> (case ul_loads u b of Inl e \<Rightarrow> PDict [] | Inr js \<Rightarrow> js)), w1)
      | (HttpFailed e, w1) \<Rightarrow> (Inl (TransportFailed e), w1))"

definition transport_get_bytes ::
  "'w urllib \<Rightarrow> transport \<Rightarrow> string \<Rightarrow> 'w \<Rightarrow> (omni_exc + byte list) \<times> 'w" where
  "transport_get_bytes u t path w =
     (case ul_urlopen u (get_request t ''GET'' path (tp_content_timeout t)) w of
        (HttpOk code body, w1) \<Rightarrow> (Inr body, w1)
      | (HttpError code body, w1) \<Rightarrow> (Inl (http_raised code), w1)
      | (HttpFailed e, w1) \<Rightarrow> (Inl (TransportFailed e), w1))"

definition transport_delete :: "'w urllib \<Rightarrow> transport \<Rightarrow> string \<Rightarrow> 'w \<Rightarrow> (omni_exc + unit) \<times> 'w" where
  "transport_delete u t path w =
     (case ul_urlopen u (get_request t ''DELETE'' path (tp_request_timeout t)) w of
        (HttpOk code body, w1) \<Rightarrow> (Inr (), w1)
      | (HttpError code body, w1) \<Rightarrow> (Inl (http_raised code), w1)
      | (HttpFailed e, w1) \<Rightarrow> (Inl (TransportFailed e), w1))"

definition sync_http_error :: "'w urllib \<Rightarrow> string \<Rightarrow> int \<Rightarrow> byte list option \<Rightarrow> omni_exc" where
  "sync_http_error u path code body =
     VideoJobError ''generation_failed''
       [MLit ''POST '', MStr path, MLit '' -> HTTP '', MInt code, MLit '': '',
        MStr (case body of None \<Rightarrow> [] | Some b \<Rightarrow> (case ul_decode u b of None \<Rightarrow> [] | Some d \<Rightarrow> take 300 d))]"

definition transport_post_form_bytes ::
  "omni_libs \<Rightarrow> 'w urllib \<Rightarrow> transport \<Rightarrow> string \<Rightarrow> form \<Rightarrow> pyfloat \<Rightarrow> 'w \<Rightarrow> (omni_exc + byte list) \<times> 'w" where
  "transport_post_form_bytes libs u t path form timeout w =
     (case ul_urlopen u (form_request libs u t path form timeout w) w of
        (HttpOk code body, w1) \<Rightarrow> (Inr body, w1)
      | (HttpError code body, w1) \<Rightarrow> (Inl (sync_http_error u path code body), w1)
      | (HttpFailed e, w1) \<Rightarrow> (Inl (TransportFailed e), w1))"

definition transport_post_json ::
  "omni_libs \<Rightarrow> 'w urllib \<Rightarrow> transport \<Rightarrow> string \<Rightarrow> params \<Rightarrow> pyfloat \<Rightarrow> 'w \<Rightarrow> (omni_exc + pyval) \<times> 'w" where
  "transport_post_json libs u t path obj timeout w =
     (case ul_urlopen u \<lparr>hr_method = ''POST'', hr_url = tp_base t @ path,
             hr_content_type = Some ''application/json'',
             hr_body = Some (ol_encode libs (ol_dumps libs (PDict obj))), hr_timeout = timeout\<rparr> w of
        (HttpOk code body, w1) \<Rightarrow> (json_answer u body, w1)
      | (HttpError code body, w1) \<Rightarrow> (Inl (sync_http_error u path code body), w1)
      | (HttpFailed e, w1) \<Rightarrow> (Inl (TransportFailed e), w1))"

text \<open>The host a production client runs on: this transport, a clock and a progress sink.\<close>

definition urllib_host ::
  "omni_libs \<Rightarrow> 'w urllib \<Rightarrow> transport \<Rightarrow> (pyfloat \<Rightarrow> 'w \<Rightarrow> (omni_exc + unit) \<times> 'w) \<Rightarrow> (rat \<Rightarrow> 'w \<Rightarrow> 'w) \<Rightarrow> ('w \<Rightarrow> rat)
     \<Rightarrow> 'w omni_host" where
  "urllib_host libs u t report sleep now =
     \<lparr>oh_post_form = transport_post_form libs u t, oh_get_json = transport_get_json u t,
      oh_get_bytes = transport_get_bytes u t, oh_delete = transport_delete u t,
      oh_post_form_bytes = transport_post_form_bytes libs u t, oh_post_json = transport_post_json libs u t,
      oh_report = report, oh_sleep = sleep, oh_now = now\<rparr>"

text \<open>The production host is lawful as soon as its clock is: the loops over it return.\<close>

lemma urllib_host_lawful:
  assumes "\<And>r w. now w \<le> now (snd (ul_urlopen u r w))" "\<And>f w. now w \<le> now (snd (report f w))"
    and "\<And>d w. 0 \<le> d \<Longrightarrow> now w + d \<le> now (sleep d w)"
  shows "host_lawful (urllib_host libs u t report sleep now)"
proof -
  have "now w \<le> now (snd (transport_get_json u t p w))" for p w
    using assms(1) [of w "get_request t ''GET'' p (tp_request_timeout t)"]
    by (auto simp: transport_get_json_def split: prod.splits http_answer.splits)
  then show ?thesis using assms(2,3) by (simp add: host_lawful_def urllib_host_def)
qed

end
