(* ===== verification/Omni_Work.thy ===== *)
theory Omni_Work
  imports Omni_Transport Submission
begin

text \<open>
  The runner's work for the generation plane (\<open>api/engines/vllm_omni/work.py\<close>): conditioning paths are
  resolved again, the mode selects the flow, the returned bytes become the artifact, and the metadata
  record what was sent. The work returns no value (\<open>None\<close>) when its poll loop never ends.
\<close>

section \<open>Conditioning\<close>

definition CONDITIONING_KEYS :: "string list" where
  "CONDITIONING_KEYS = [''image_path'', ''video_path'', ''audio_path'']"

fun resolve_keys :: "edge_libs \<Rightarrow> string list \<Rightarrow> params \<Rightarrow> string list \<Rightarrow> path_exc + (string, string) dict" where
  "resolve_keys libs al ps [] = Inr []"
| "resolve_keys libs al ps (key # keys) =
     (if get_truthy ps key
      then bindE (resolve_within (el_realpath libs) (str_get (el_str libs) ps key) al)
             (\<lambda>path. mapE (\<lambda>rest. (key, path) # rest) (resolve_keys libs al ps keys))
      else resolve_keys libs al ps keys)"

definition resolve_conditioning :: "edge_libs \<Rightarrow> job_record \<Rightarrow> path_exc + (string, string) dict" where
  "resolve_conditioning libs job =
     resolve_keys libs (input_allowlist (el_environ libs)) (jr_params job) CONDITIONING_KEYS"

section \<open>Metadata\<close>

definition ACTION_PREDICT_MODES :: "string list" where
  "ACTION_PREDICT_MODES = [''policy'', ''inverse_dynamics'']"

definition ASYNC_VIDEO_MODES :: "string list" where
  "ASYNC_VIDEO_MODES = [''t2v'', ''i2v'', ''t2v_audio'']"

definition SUPPORTED_MODES :: "string list" where
  "SUPPORTED_MODES = ASYNC_VIDEO_MODES @ ACTION_PREDICT_MODES @ [''t2i'', ''forward_dynamics'']"

definition video_meta :: "video_params \<Rightarrow> params" where
  "video_meta rp =
     [(''seed'', PInt (vp_seed rp)), (''num_inference_steps'', PInt (vp_num_inference_steps rp)),
      (''guidance_scale'', PFloat (vp_guidance_scale rp)), (''flow_shift'', PFloat (vp_flow_shift rp)),
      (''width'', PInt (vp_width rp)), (''height'', PInt (vp_height rp)), (''num_frames'', PInt (vp_num_frames rp))]"

definition recipe_meta :: "action_recipe \<Rightarrow> params" where
  "recipe_meta r =
     [(''seed'', PInt (ar_seed r)), (''num_inference_steps'', PInt (ar_num_inference_steps r)),
      (''guidance_scale'', PFloat (ar_guidance_scale r)), (''flow_shift'', PFloat (ar_flow_shift r)),
      (''width'', PInt (ar_width r)), (''height'', PInt (ar_height r)), (''num_frames'', PInt (ar_num_frames r))]"

definition param_record :: "omni_libs \<Rightarrow> job_record \<Rightarrow> py_exc + params" where
  "param_record libs job =
     (if jr_mode job = ''forward_dynamics'' then mapE recipe_meta (fd_resolved_params libs job)
      else if jr_mode job \<in> set ACTION_PREDICT_MODES then mapE recipe_meta (action_resolved_params libs job)
      else mapE video_meta (resolved_params libs job))"

section \<open>Files\<close>

text \<open>The outside of the work: the transport's host, and \<open>mimetypes.guess_type\<close>.\<close>

record 'w work_env =
  we_libs :: edge_libs
  we_omni :: omni_libs
  we_host :: "'w omni_host"
  we_guess :: "string \<Rightarrow> string option"

record 'w work_state =
  ws_client :: "'w client"
  ws_files :: files

definition basename :: "string \<Rightarrow> string" where
  "basename p = rev (takeWhile (\<lambda>c. c \<noteq> CHR ''/'') (rev p))"

definition header_safe :: "char \<Rightarrow> bool" where
  "header_safe c \<longleftrightarrow> c \<noteq> CHR 0x0D \<and> c \<noteq> CHR 0x0A \<and> c \<noteq> CHR 0x22 \<and> c \<noteq> CHR 0x5C"

definition read_filepart :: "'w work_env \<Rightarrow> string \<Rightarrow> string \<Rightarrow> files \<Rightarrow> omni_exc + file_part" where
  "read_filepart e path kind fs =
     bindE (map_errE OmniRaise (limits_from_env (el_parse_float (we_libs e)) (el_environ (we_libs e)))) (\<lambda>lims.
     let cap = (if kind = ''video'' then ml_max_video_bytes lims else ml_max_image_bytes lims) in
     case fs path of
       None \<Rightarrow> Inl (FileMissing path)
     | Some data \<Rightarrow>
         if cap < int (length data) then
           Inl (VideoJobError ''payload_too_large''
             [MLit ''conditioning '', MStr kind, MLit '' is '', MInt (int (length data)), MLit '' bytes, exceeds the '',
              MInt cap, MLit ''-byte cap''])
         else Inr \<lparr>fp_filename = map (\<lambda>c. if header_safe c then c else CHR ''_'') (basename path),
                   fp_content_type = (case we_guess e path of
                     Some t \<Rightarrow> if t \<noteq> [] then t else ''application/octet-stream'' | None \<Rightarrow> ''application/octet-stream''),
                   fp_data = data\<rparr>)"

text \<open>
  \<open>_write_png\<close>, \<open>write_video_bytes\<close> and \<open>write_trajectory_json\<close>: bytes to a contained path of the
  job's name, by extension.
\<close>

definition persist :: "'w work_env \<Rightarrow> string \<Rightarrow> string \<Rightarrow> byte list \<Rightarrow> 'w work_state \<Rightarrow> omni_exc + (string \<times> 'w work_state)" where
  "persist e job_id ext data s =
     mapE (\<lambda>path. (path, s\<lparr>ws_files := (ws_files s)(path \<mapsto> data)\<rparr>))
       (map_errE OmniUntrusted
          (artifact_path_for (el_realpath (we_libs e)) (el_environ (we_libs e)) job_id
             (Some (artifacts_dir (el_environ (we_libs e)))) ext))"

definition write_png :: "'w work_env \<Rightarrow> string \<Rightarrow> byte list \<Rightarrow> 'w work_state \<Rightarrow> omni_exc + (string \<times> 'w work_state)" where
  "write_png e job_id = persist e job_id ''png''"

definition write_mp4 :: "'w work_env \<Rightarrow> string \<Rightarrow> byte list \<Rightarrow> 'w work_state \<Rightarrow> omni_exc + (string \<times> 'w work_state)" where
  "write_mp4 e job_id = persist e job_id ''mp4''"

definition write_trajectory_json ::
  "'w work_env \<Rightarrow> pyval list \<Rightarrow> string \<Rightarrow> 'w work_state \<Rightarrow> omni_exc + (string \<times> 'w work_state)" where
  "write_trajectory_json e trajectory job_id =
     persist e job_id ''json'' (ol_encode (we_omni e) (ol_dumps (we_omni e) (PList trajectory)))"

section \<open>The flows\<close>

text \<open>
  A flow ends with the artifact's path and, for a policy, its trajectory's; \<open>stored\<close> is a write
  that follows a download, \<open>with_part\<close> reads the conditioning file before anything is sent.
\<close>

type_synonym 'w flow = "((omni_exc + (string \<times> string option)) \<times> 'w work_state) option"

definition stored :: "(omni_exc + (string \<times> 'w work_state)) \<Rightarrow> 'w work_state \<Rightarrow> 'w flow" where
  "stored r s = Some (case r of Inl x \<Rightarrow> (Inl x, s) | Inr (path, s') \<Rightarrow> (Inr (path, None), s'))"

definition with_part ::
  "'w work_env \<Rightarrow> (string, string) dict \<Rightarrow> string \<Rightarrow> message \<Rightarrow> 'w work_state \<Rightarrow> (file_part \<Rightarrow> 'w flow) \<Rightarrow> 'w flow" where
  "with_part e conditioning kind missing s k =
     (case dict_get conditioning (kind @ ''_path'') of
        None \<Rightarrow> Some (Inl (VideoJobError ''invalid_input'' missing), s)
      | Some path \<Rightarrow>
          if path = [] then Some (Inl (VideoJobError ''invalid_input'' missing), s)
          else (case read_filepart e path kind (ws_files s) of
                  Inl x \<Rightarrow> Some (Inl x, s) | Inr part \<Rightarrow> k part))"

definition image_flow :: "'w work_env \<Rightarrow> job_record \<Rightarrow> pyfloat \<Rightarrow> 'w work_state \<Rightarrow> 'w flow" where
  "image_flow e job timeout s =
     (case run_image_job (we_omni e) (we_host e) job timeout (ws_client s) of
        (Inl x, c) \<Rightarrow> Some (Inl x, s\<lparr>ws_client := c\<rparr>)
      | (Inr data, c) \<Rightarrow> stored (write_png e (jr_id job) data (s\<lparr>ws_client := c\<rparr>)) (s\<lparr>ws_client := c\<rparr>))"

definition fd_flow ::
  "'w work_env \<Rightarrow> job_record \<Rightarrow> pyfloat \<Rightarrow> (string, string) dict \<Rightarrow> 'w work_state \<Rightarrow> 'w flow" where
  "fd_flow e job timeout conditioning s =
     with_part e conditioning ''image'' [MLit ''forward_dynamics requires a conditioning first-frame image''] s (\<lambda>part.
       case run_forward_dynamics_job (we_omni e) (we_host e) job part timeout (ws_client s) of
         (Inl x, c) \<Rightarrow> Some (Inl x, s\<lparr>ws_client := c\<rparr>)
       | (Inr data, c) \<Rightarrow> stored (write_mp4 e (jr_id job) data (s\<lparr>ws_client := c\<rparr>)) (s\<lparr>ws_client := c\<rparr>))"

text \<open>A policy stores its rollout and, beside it, its trajectory; the other mode the trajectory alone.\<close>

definition predict_store ::
  "'w work_env \<Rightarrow> job_record \<Rightarrow> pyval list \<Rightarrow> byte list option \<Rightarrow> 'w work_state \<Rightarrow> 'w flow" where
  "predict_store e job trajectory video s =
     (if jr_mode job = ''policy'' then
        (case video of
           None \<Rightarrow> Some (Inl (VideoJobError ''generation_failed'' [MStr (jr_mode job), MLit '': server returned no rollout video'']), s)
         | Some data \<Rightarrow>
             if data = [] then
               Some (Inl (VideoJobError ''generation_failed'' [MStr (jr_mode job), MLit '': server returned no rollout video'']), s)
             else (case write_mp4 e (jr_id job) data s of
               Inl x \<Rightarrow> Some (Inl x, s)
             | Inr (path, s1) \<Rightarrow>
                 (case write_trajectory_json e trajectory (jr_id job) s1 of
                    Inl x \<Rightarrow> Some (Inl x, s1)
                  | Inr (tpath, s2) \<Rightarrow> Some (Inr (path, Some tpath), s2))))
      else stored (write_trajectory_json e trajectory (jr_id job) s) s)"

definition predict_flow ::
  "'w work_env \<Rightarrow> job_record \<Rightarrow> pyfloat \<Rightarrow> (string, string) dict \<Rightarrow> 'w work_state \<Rightarrow> 'w flow" where
  "predict_flow e job timeout conditioning s =
     (let kind = (if jr_mode job = ''inverse_dynamics'' then ''video'' else ''image'') in
      with_part e conditioning kind [MStr (jr_mode job), MLit '' requires a conditioning '', MStr kind] s (\<lambda>part.
        case run_action_job (we_omni e) (we_host e) job part (jr_mode job = ''policy'') ''/v1/videos'' 5 timeout None (ws_client s) of
          None \<Rightarrow> None
        | Some (Inl x, c) \<Rightarrow> Some (Inl x, s\<lparr>ws_client := c\<rparr>)
        | Some (Inr (trajectory, video), c) \<Rightarrow> predict_store e job trajectory video (s\<lparr>ws_client := c\<rparr>)))"

definition video_flow :: "'w work_env \<Rightarrow> job_record \<Rightarrow> pyfloat \<Rightarrow> file_part option \<Rightarrow> 'w work_state \<Rightarrow> 'w flow" where
  "video_flow e job timeout input_reference s =
     (case run_video_job (we_omni e) (we_host e) job input_reference ''/v1/videos'' 5 timeout None (ws_client s) of
        None \<Rightarrow> None
      | Some (Inl x, c) \<Rightarrow> Some (Inl x, s\<lparr>ws_client := c\<rparr>)
      | Some (Inr data, c) \<Rightarrow> stored (write_mp4 e (jr_id job) data (s\<lparr>ws_client := c\<rparr>)) (s\<lparr>ws_client := c\<rparr>))"

definition dispatch ::
  "'w work_env \<Rightarrow> job_record \<Rightarrow> pyfloat \<Rightarrow> (string, string) dict \<Rightarrow> 'w work_state \<Rightarrow> 'w flow" where
  "dispatch e job timeout conditioning s =
     (if jr_mode job \<notin> set SUPPORTED_MODES then
        Some (Inl (VideoJobError ''unsupported_mode''
          [MLit ''mode '', MRepr (jr_mode job), MLit '' is not served by the vllm-omni adapter'']), s)
      else if jr_mode job = ''t2i'' then image_flow e job timeout s
      else if jr_mode job = ''forward_dynamics'' then fd_flow e job timeout conditioning s
      else if jr_mode job \<in> set ACTION_PREDICT_MODES then predict_flow e job timeout conditioning s
      else if jr_mode job = ''i2v'' then
        with_part e conditioning ''image'' [MLit ''i2v requires a conditioning image''] s
          (\<lambda>part. video_flow e job timeout (Some part) s)
      else video_flow e job timeout None s)"

definition gen_timeout :: "'w work_env \<Rightarrow> pyfloat option \<Rightarrow> py_exc + pyfloat" where
  "gen_timeout e timeout =
     (case timeout of
        Some t \<Rightarrow> Inr t
      | None \<Rightarrow> (case dict_get (el_environ (we_libs e)) ''COSMOS3_GEN_TIMEOUT'' of
          None \<Rightarrow> Inr (Finite 7200) | Some raw \<Rightarrow> el_parse_float (we_libs e) raw))"

definition work_meta ::
  "'w work_env \<Rightarrow> job_record \<Rightarrow> (string, string) dict \<Rightarrow> string option \<Rightarrow> params \<Rightarrow> params" where
  "work_meta e job conditioning trajectory_path rp =
     [(''engine'', PStr ''vllm_omni''), (''precision'', PStr (deployed_checkpoint (el_environ (we_libs e))))] @ rp
     @ (if jr_mode job \<in> set ACTION_PREDICT_MODES
        then (''action_mode'', PStr (jr_mode job)) #
          (case trajectory_path of None \<Rightarrow> [] | Some t \<Rightarrow> [(''trajectory_path'', PStr t)])
        else [])
     @ (if conditioning \<noteq> [] then [(''conditioning'', PList (map PStr (sort (dict_keys conditioning))))] else [])"

text \<open>The terminal report is not shielded: what it raises fails the job after the artifact is written.\<close>

definition finish_work ::
  "'w work_env \<Rightarrow> job_record \<Rightarrow> (string, string) dict \<Rightarrow> string \<Rightarrow> string option \<Rightarrow> 'w work_state
     \<Rightarrow> (omni_exc + work_result) \<times> 'w work_state" where
  "finish_work e job conditioning path trajectory_path s =
     (let (rep, c) = perform (CReport (Finite 1)) (oh_report (we_host e) (Finite 1)) (ws_client s);
          s1 = s\<lparr>ws_client := c\<rparr>
      in (bindE rep (\<lambda>_. map_errE OmniRaise
            (mapE (\<lambda>rp. \<lparr>wr_artifact_path = path, wr_meta = work_meta e job conditioning trajectory_path rp\<rparr>)
               (param_record (we_omni e) job))), s1))"

definition vllm_omni_work ::
  "'w work_env \<Rightarrow> job_record \<Rightarrow> pyfloat option \<Rightarrow> 'w work_state
     \<Rightarrow> ((omni_exc + work_result) \<times> 'w work_state) option" where
  "vllm_omni_work e job timeout s =
     (case gen_timeout e timeout of
        Inl x \<Rightarrow> Some (Inl (OmniRaise x), s)
      | Inr t \<Rightarrow>
          (case resolve_conditioning (we_libs e) job of
             Inl (UntrustedPathError p al) \<Rightarrow>
               Some (Inl (VideoJobError ''untrusted_path''
                 [MLit ''path '', MRepr p, MLit '' is outside the trusted allowlist '', MStrs al]), s)
           | Inr conditioning \<Rightarrow>
               (case dispatch e job t conditioning s of
                  None \<Rightarrow> None
                | Some (Inl x, s1) \<Rightarrow> Some (Inl x, s1)
                | Some (Inr (path, trajectory_path), s1) \<Rightarrow>
                    Some (finish_work e job conditioning path trajectory_path s1))))"

end
