(* ===== verification/Omni_Facts.thy ===== *)
theory Omni_Facts
  imports Omni_Work
begin

text \<open>
  What the generation work guarantees (over \<open>Omni_Work\<close>): it refuses before sending anything, it
  returns, a typed failure leaves no artifact behind, and the metadata are those of the request.
\<close>

section \<open>Refusals\<close>

lemma resolve_keys_fails:
  "key \<in> set keys \<Longrightarrow> get_truthy ps key \<Longrightarrow>
     resolve_within (el_realpath libs) (str_get (el_str libs) ps key) al = Inl x \<Longrightarrow>
     \<exists>y. resolve_keys libs al ps keys = Inl y"
proof (induction keys)
  case (Cons k ks)
  then show ?case
    by (cases "resolve_within (el_realpath libs) (str_get (el_str libs) ps k) al"; cases "resolve_keys libs al ps ks") auto
qed simp

lemma resolve_keys_absent:
  "resolve_keys libs al ps keys = Inr d \<Longrightarrow> \<not> get_truthy ps key \<Longrightarrow> dict_get d key = None"
  by (induction keys arbitrary: d) (auto simp: result_simps split: if_splits)

lemma with_part_missing:
  "dict_get conditioning (kind @ ''_path'') = None \<Longrightarrow>
     with_part e conditioning kind m s k = Some (Inl (VideoJobError ''invalid_input'' m), s)"
  by (simp add: with_part_def)

text \<open>The conditioning a mode cannot do without.\<close>

definition required_key :: "string \<Rightarrow> string option" where
  "required_key mode =
     (if mode \<in> set [''i2v'', ''forward_dynamics'', ''policy''] then Some ''image_path''
      else if mode = ''inverse_dynamics'' then Some ''video_path'' else None)"

lemma dispatch_refuses:
  assumes "jr_mode job \<notin> set SUPPORTED_MODES \<or>
      (\<exists>key. required_key (jr_mode job) = Some key \<and> dict_get conditioning key = None)"
  shows "\<exists>c m. dispatch e job t conditioning s = Some (Inl (VideoJobError c m), s) \<and> c \<in> {''unsupported_mode'', ''invalid_input''}"
proof (cases "jr_mode job \<in> set SUPPORTED_MODES")
  case False
  then show ?thesis by (simp add: dispatch_def)
next
  case True
  with assms obtain key where key: "required_key (jr_mode job) = Some key" "dict_get conditioning key = None" by blast
  then show ?thesis
    using True
    by (auto simp: dispatch_def required_key_def fd_flow_def predict_flow_def with_part_def ACTION_PREDICT_MODES_def
        Let_def split: if_splits)
qed

text \<open>
  The work refuses before it sends: a conditioning path outside the allowlist, a mode the plane
  does not serve, or a missing conditioning image or video fails the job with a typed error, with no
  call made and no file touched.
\<close>

theorem work_refuses_before_sending:
  assumes "gen_timeout e timeout = Inr t"
    and "(\<exists>key \<in> set CONDITIONING_KEYS. get_truthy (jr_params job) key \<and>
           (\<exists>x. resolve_within (el_realpath (we_libs e)) (str_get (el_str (we_libs e)) (jr_params job) key)
                  (input_allowlist (el_environ (we_libs e))) = Inl x)) \<or>
         jr_mode job \<notin> set SUPPORTED_MODES \<or>
         (\<exists>key. required_key (jr_mode job) = Some key \<and> \<not> get_truthy (jr_params job) key)"
  shows "\<exists>c m. vllm_omni_work e job timeout s = Some (Inl (VideoJobError c m), s) \<and>
    c \<in> {''untrusted_path'', ''unsupported_mode'', ''invalid_input''}"
proof (cases "resolve_conditioning (we_libs e) job")
  case (Inl x)
  then show ?thesis by (cases x) (simp add: vllm_omni_work_def assms(1))
next
  case (Inr conditioning)
  then have res: "resolve_keys (we_libs e) (input_allowlist (el_environ (we_libs e))) (jr_params job) CONDITIONING_KEYS = Inr conditioning"
    by (simp add: resolve_conditioning_def)
  then have "jr_mode job \<notin> set SUPPORTED_MODES \<or>
      (\<exists>key. required_key (jr_mode job) = Some key \<and> dict_get conditioning key = None)"
    using assms(2) resolve_keys_fails [of _ CONDITIONING_KEYS "jr_params job" "we_libs e" "input_allowlist (el_environ (we_libs e))"]
      resolve_keys_absent [OF res]
    by (metis Inl_Inr_False)
  from dispatch_refuses [OF this, of e t s] show ?thesis
    by (auto simp: vllm_omni_work_def assms(1) Inr)
qed

definition demo_env :: "nat work_env" where
  "demo_env = \<lparr>we_libs = demo_libs, we_omni = demo_omni_libs, we_host = demo_host, we_guess = (\<lambda>p. None)\<rparr>"

lemma work_refuses_before_sending_witness:
  "\<exists>c m. vllm_omni_work demo_env (demo_gen_job\<lparr>jr_mode := ''i2v''\<rparr>) (Some (Finite 60))
       \<lparr>ws_client = \<lparr>cl_calls = [], cl_world = 0\<rparr>, ws_files = (\<lambda>p. None)\<rparr> =
     Some (Inl (VideoJobError c m), \<lparr>ws_client = \<lparr>cl_calls = [], cl_world = 0\<rparr>, ws_files = (\<lambda>p. None)\<rparr>) \<and>
   c \<in> {''untrusted_path'', ''unsupported_mode'', ''invalid_input''}"
proof (rule work_refuses_before_sending)
  show "gen_timeout demo_env (Some (Finite 60)) = Inr (Finite 60)" by (simp add: gen_timeout_def)
  have "required_key ''i2v'' = Some ''image_path''" by (simp add: required_key_def)
  moreover have "\<not> get_truthy (jr_params demo_gen_job) ''image_path''"
    by (simp add: demo_gen_job_def new_job_def get_truthy_def)
  ultimately show "(\<exists>key \<in> set CONDITIONING_KEYS. get_truthy (jr_params (demo_gen_job\<lparr>jr_mode := ''i2v''\<rparr>)) key \<and>
           (\<exists>x. resolve_within (el_realpath (we_libs demo_env)) (str_get (el_str (we_libs demo_env)) (jr_params (demo_gen_job\<lparr>jr_mode := ''i2v''\<rparr>)) key)
                  (input_allowlist (el_environ (we_libs demo_env))) = Inl x)) \<or>
         jr_mode (demo_gen_job\<lparr>jr_mode := ''i2v''\<rparr>) \<notin> set SUPPORTED_MODES \<or>
         (\<exists>key. required_key (jr_mode (demo_gen_job\<lparr>jr_mode := ''i2v''\<rparr>)) = Some key \<and>
           \<not> get_truthy (jr_params (demo_gen_job\<lparr>jr_mode := ''i2v''\<rparr>)) key)"
    by simp
qed

lemma demo_artifact: "\<exists>p. persist demo_env ''j1'' ''mp4'' data s = Inr (p, s\<lparr>ws_files := (ws_files s)(p \<mapsto> data)\<rparr>)"
  by (simp add: persist_def demo_env_def demo_libs_def artifact_path_for_def artifact_root_def artifacts_dir_def
      DEFAULT_ARTIFACTS_DIR_def resolve_within_def url_scheme_def path_join_def safe_name_def safe_char_def
      is_letter_def is_digit_def is_within_def lexical_realpath_def components_def path_of_def encode_path_def Let_def)

text \<open>The job of the demonstration succeeds: its content is stored and reported.\<close>

lemma demo_work:
  "\<exists>res s'. vllm_omni_work demo_env demo_gen_job (Some (Finite 7200))
     \<lparr>ws_client = \<lparr>cl_calls = [], cl_world = 0\<rparr>, ws_files = (\<lambda>p. None)\<rparr> = Some (Inr res, s')"
proof -
  obtain c where run: "run_video_job demo_omni_libs demo_host demo_gen_job None ''/v1/videos'' 5 (Finite 7200) None
     \<lparr>cl_calls = [], cl_world = 0\<rparr> = Some (Inr [1, 2, 3], c)" using demo_video_run by blast
  have env: "we_omni demo_env = demo_omni_libs" "we_host demo_env = demo_host" "we_libs demo_env = demo_libs"
    and job: "jr_mode demo_gen_job = ''t2v''" "jr_id demo_gen_job = ''j1''" "jr_params demo_gen_job = [(''prompt'', PStr ''a cat'')]"
    by (simp_all add: demo_env_def demo_gen_job_def new_job_def)
  have cond: "resolve_conditioning demo_libs demo_gen_job = Inr []"
    by (simp add: resolve_conditioning_def CONDITIONING_KEYS_def job get_truthy_def)
  obtain f where "build_video_form demo_omni_libs demo_gen_job None = Inr f" using demo_form by blast
  then obtain rp where "resolved_params demo_omni_libs demo_gen_job = Inr rp"
    by (auto simp: build_video_form_def result_simps)
  then have rec: "\<exists>ps. param_record demo_omni_libs demo_gen_job = Inr ps"
    by (simp add: param_record_def job ACTION_PREDICT_MODES_def)
  show ?thesis
    using run demo_artifact [of "[1, 2, 3]" "\<lparr>ws_client = c, ws_files = (\<lambda>p. None)\<rparr>"] rec
    by (auto simp: vllm_omni_work_def gen_timeout_def env cond dispatch_def SUPPORTED_MODES_def ASYNC_VIDEO_MODES_def
        ACTION_PREDICT_MODES_def job video_flow_def stored_def write_mp4_def finish_work_def perform_def demo_host_def Let_def)
qed

section \<open>No partial artifact\<close>

definition artifact_of :: "'w work_env \<Rightarrow> job_record \<Rightarrow> string \<Rightarrow> bool" where
  "artifact_of e job p \<longleftrightarrow> (\<exists>ext \<in> {''png'', ''mp4'', ''json''}.
     artifact_path_for (el_realpath (we_libs e)) (el_environ (we_libs e)) (jr_id job)
       (Some (artifacts_dir (el_environ (we_libs e)))) ext = Inr p)"

definition clean_flow :: "'w work_env \<Rightarrow> job_record \<Rightarrow> files \<Rightarrow> 'w flow \<Rightarrow> bool" where
  "clean_flow e job before fl \<longleftrightarrow> (\<forall>r s'. fl = Some (r, s') \<longrightarrow>
     (\<forall>c m. r = Inl (VideoJobError c m) \<longrightarrow> ws_files s' = before) \<and>
     (\<forall>path t. r = Inr (path, t) \<longrightarrow> ws_files s' path \<noteq> None \<and>
        (\<forall>p. ws_files s' p \<noteq> before p \<longrightarrow> artifact_of e job p)))"

lemma persist_Inr:
  assumes "persist e (jr_id job) ext data s = Inr (path, s')" "ext \<in> {''png'', ''mp4'', ''json''}"
  shows "s' = s\<lparr>ws_files := (ws_files s)(path \<mapsto> data)\<rparr> \<and> artifact_of e job path"
  using assms by (auto simp: persist_def artifact_of_def result_simps)

lemma persist_Inl: "persist e i ext data s = Inl x \<Longrightarrow> \<exists>u. x = OmniUntrusted u"
  by (auto simp: persist_def result_simps)

lemma stored_clean:
  assumes "ext \<in> {''png'', ''mp4'', ''json''}" "ws_files s = before"
  shows "clean_flow e job before (stored (persist e (jr_id job) ext data s) s)"
proof (cases "persist e (jr_id job) ext data s")
  case (Inl x)
  then show ?thesis using persist_Inl by (fastforce simp: clean_flow_def stored_def)
next
  case (Inr y)
  then obtain path s' where "persist e (jr_id job) ext data s = Inr (path, s')" by (cases y) simp
  from persist_Inr [OF this assms(1)] this show ?thesis
    using assms(2) by (auto simp: clean_flow_def stored_def)
qed

lemma failed_clean: "ws_files s = before \<Longrightarrow> clean_flow e job before (Some (Inl x, s))"
  by (simp add: clean_flow_def)

lemma with_part_clean:
  "ws_files s = before \<Longrightarrow> (\<And>part. clean_flow e job before (k part)) \<Longrightarrow>
     clean_flow e job before (with_part e conditioning kind m s k)"
  by (auto simp: with_part_def failed_clean split: option.splits sum.splits)

lemma video_flow_clean: "clean_flow e job (ws_files s) (video_flow e job t part s)"
  by (auto simp: video_flow_def failed_clean write_mp4_def intro!: stored_clean
        split: option.splits prod.splits sum.splits) (simp add: clean_flow_def)

lemma predict_store_clean: "clean_flow e job (ws_files s) (predict_store e job trajectory video s)"
proof (cases "jr_mode job = ''policy'' \<and> (\<exists>d. video = Some d \<and> d \<noteq> [])")
  case False
  then show ?thesis
    by (auto simp: predict_store_def failed_clean write_trajectory_json_def intro!: stored_clean split: option.splits)
next
  case True
  then obtain data where d: "jr_mode job = ''policy''" "video = Some data" "data \<noteq> []" by blast
  show ?thesis
  proof (cases "write_mp4 e (jr_id job) data s")
    case (Inl x)
    then show ?thesis by (simp add: predict_store_def d failed_clean)
  next
    case (Inr y)
    obtain path s1 where y: "y = (path, s1)" by (cases y)
    have p: "s1 = s\<lparr>ws_files := (ws_files s)(path \<mapsto> data)\<rparr>" "artifact_of e job path"
      using persist_Inr [of e job "''mp4''" data s path s1] Inr y by (auto simp: write_mp4_def)
    show ?thesis
    proof (cases "write_trajectory_json e trajectory (jr_id job) s1")
      case (Inl x)
      then show ?thesis
        using persist_Inl [of e "jr_id job" "''json''" _ s1 x] Inr y
        by (auto simp: predict_store_def d clean_flow_def write_trajectory_json_def)
    next
      case (Inr z)
      obtain tpath s2 where z: "z = (tpath, s2)" by (cases z)
      have "s2 = s1\<lparr>ws_files := (ws_files s1)(tpath \<mapsto> ol_encode (we_omni e) (ol_dumps (we_omni e) (PList trajectory)))\<rparr>"
        "artifact_of e job tpath"
        using persist_Inr [of e job "''json''" _ s1 tpath s2] Inr z by (auto simp: write_trajectory_json_def)
      then show ?thesis
        using p Inr y z \<open>write_mp4 e (jr_id job) data s = Inr y\<close>
        by (auto simp: predict_store_def d clean_flow_def)
    qed
  qed
qed

lemma predict_flow_clean: "clean_flow e job (ws_files s) (predict_flow e job t conditioning s)"
proof -
  have "clean_flow e job (ws_files s) (predict_store e job tr v (s\<lparr>ws_client := c\<rparr>))" for tr v c
    using predict_store_clean [of e job "s\<lparr>ws_client := c\<rparr>" tr v] by simp
  moreover have "clean_flow e job (ws_files s) None" by (simp add: clean_flow_def)
  ultimately show ?thesis
    by (auto simp: predict_flow_def Let_def failed_clean intro!: with_part_clean split: option.splits prod.splits sum.splits)
qed

lemma dispatch_clean: "clean_flow e job (ws_files s) (dispatch e job t conditioning s)"
proof -
  have "clean_flow e job (ws_files s) (image_flow e job t s)"
    by (auto simp: image_flow_def failed_clean write_png_def intro!: stored_clean split: prod.splits sum.splits)
  moreover have "clean_flow e job (ws_files s) (fd_flow e job t conditioning s)"
    by (auto simp: fd_flow_def failed_clean write_mp4_def intro!: stored_clean with_part_clean split: prod.splits sum.splits)
  ultimately show ?thesis
    by (auto simp: dispatch_def failed_clean intro: video_flow_clean predict_flow_clean with_part_clean)
qed

text \<open>
  C15: Artifacts and failures: when the work succeeds, its artifact exists and only artifact paths of
  this very job have changed; when it fails with a typed error, no file has changed at all, whatever
  the server did, as long as the terminal progress report is not what raised it.
\<close>

theorem work_leaves_no_partial_artifact:
  assumes "vllm_omni_work e job timeout s = Some (r, s')"
    and "\<And>f w c m. fst (oh_report (we_host e) f w) \<noteq> Inl (VideoJobError c m)"
  shows "(\<forall>c m. r = Inl (VideoJobError c m) \<longrightarrow> ws_files s' = ws_files s) \<and>
    (\<forall>res. r = Inr res \<longrightarrow> ws_files s' (wr_artifact_path res) \<noteq> None \<and>
       (\<forall>p. ws_files s' p \<noteq> ws_files s p \<longrightarrow> artifact_of e job p))"
proof (cases "\<exists>t conditioning path tp s1. gen_timeout e timeout = Inr t \<and>
    resolve_conditioning (we_libs e) job = Inr conditioning \<and> dispatch e job t conditioning s = Some (Inr (path, tp), s1)")
  case False
  then show ?thesis
    using assms(1) dispatch_clean [of e job s]
    by (fastforce simp: vllm_omni_work_def clean_flow_def
        split: sum.splits option.splits prod.splits path_exc.splits)
next
  case True
  then obtain t conditioning path tp s1 where ok: "gen_timeout e timeout = Inr t"
    "resolve_conditioning (we_libs e) job = Inr conditioning" "dispatch e job t conditioning s = Some (Inr (path, tp), s1)"
    by blast
  have fin: "finish_work e job conditioning path tp s1 = (r, s')"
    using assms(1) ok by (simp add: vllm_omni_work_def)
  then have files: "ws_files s' = ws_files s1"
    by (auto simp: finish_work_def Let_def split: prod.splits)
  have "r \<noteq> Inl (VideoJobError c m)" for c m
    using fin assms(2) [of "Finite 1" "cl_world (ws_client s1)"]
    by (cases "oh_report (we_host e) (Finite 1) (cl_world (ws_client s1))")
       (auto simp: finish_work_def perform_def Let_def result_simps)
  moreover have "wr_artifact_path res = path" if "r = Inr res" for res
    using fin that by (auto simp: finish_work_def Let_def result_simps split: prod.splits)
  ultimately show ?thesis
    using dispatch_clean [of e job s t conditioning] ok(3) files by (auto simp: clean_flow_def)
qed

lemma work_leaves_no_partial_artifact_witness:
  "\<exists>res s'. vllm_omni_work demo_env demo_gen_job (Some (Finite 7200))
     \<lparr>ws_client = \<lparr>cl_calls = [], cl_world = 0\<rparr>, ws_files = (\<lambda>p. None)\<rparr> = Some (Inr res, s') \<and>
   ws_files s' (wr_artifact_path res) \<noteq> None"
proof -
  obtain res s' where w: "vllm_omni_work demo_env demo_gen_job (Some (Finite 7200))
     \<lparr>ws_client = \<lparr>cl_calls = [], cl_world = 0\<rparr>, ws_files = (\<lambda>p. None)\<rparr> = Some (Inr res, s')"
    using demo_work by blast
  have "fst (oh_report (we_host demo_env) f x) \<noteq> Inl (VideoJobError c m)" for f x c m
    by (simp add: demo_env_def demo_host_def)
  from work_leaves_no_partial_artifact [OF w this] w show ?thesis by blast
qed

text \<open>
  C31: The generation work always returns: with a lawful clock and a finite timeout every mode ends
  with a result or an error.
\<close>

theorem work_returns:
  assumes "host_lawful (we_host e)" "gen_timeout e timeout = Inr (Finite t)"
  shows "\<exists>y. vllm_omni_work e job timeout s = Some y"
proof -
  have sub: "\<exists>b a. submit_and_poll strf (we_host e) noun form base_path 5 (Finite t) None c = Some (a, b)"
    for strf noun form base_path c
    using submit_and_poll_returns [OF assms(1), of 5] by fastforce
  have vid: "run_video_job libs (we_host e) j part base_path 5 (Finite t) None c \<noteq> None" for libs j part base_path c
    using sub [of "ol_str libs" "''video''" "build_video_form libs j part" base_path c]
    by (auto simp: run_video_job_def split: sum.splits prod.splits option.splits)
  have act: "run_action_job libs (we_host e) j part want base_path 5 (Finite t) None c \<noteq> None" for libs j part want base_path c
    using sub [of "ol_str libs" "''action''" "build_action_form libs j part" base_path c]
    by (auto simp: run_action_job_def split: sum.splits prod.splits option.splits)
  have stored: "stored r x \<noteq> None" for r :: "omni_exc + (string \<times> 'a work_state)" and x by (simp add: stored_def)
  have part: "with_part e d k m x g \<noteq> None" if "\<And>p. g p \<noteq> None" for d k m x g
    using that by (auto simp: with_part_def split: option.splits sum.splits)
  have "video_flow e job (Finite t) p s \<noteq> None" for p
    using vid stored by (auto simp: video_flow_def split: option.splits prod.splits sum.splits)
  moreover have "predict_flow e job (Finite t) d s \<noteq> None" for d
    using act stored unfolding predict_flow_def Let_def
    by (intro part) (auto simp: predict_store_def split: option.splits prod.splits sum.splits)
  moreover have "fd_flow e job (Finite t) d s \<noteq> None" for d
    unfolding fd_flow_def using stored by (intro part) (auto split: prod.splits sum.splits)
  moreover have "image_flow e job (Finite t) s \<noteq> None"
    using stored by (auto simp: image_flow_def split: prod.splits sum.splits)
  ultimately have disp: "dispatch e job (Finite t) d s \<noteq> None" for d
    unfolding dispatch_def using part by auto
  show ?thesis
  proof (cases "resolve_conditioning (we_libs e) job")
    case (Inl x)
    then show ?thesis using assms(2) by (cases x) (simp add: vllm_omni_work_def)
  next
    case (Inr d)
    then show ?thesis
      using assms(2) disp [of d] by (auto simp: vllm_omni_work_def split: sum.splits)
  qed
qed

lemma work_returns_witness:
  "\<exists>y. vllm_omni_work demo_env demo_gen_job (Some (Finite 60))
     \<lparr>ws_client = \<lparr>cl_calls = [], cl_world = 0\<rparr>, ws_files = (\<lambda>p. None)\<rparr> = Some y"
proof (rule work_returns)
  show "host_lawful (we_host demo_env)" using demo_host_lawful by (simp add: demo_env_def)
  show "gen_timeout demo_env (Some (Finite 60)) = Inr (Finite 60)" by (simp add: gen_timeout_def)
qed

section \<open>The metadata record what was sent\<close>

text \<open>
  C8: The recorded metadata are those of the request: when an asynchronous video job succeeds, the
  form it submitted first and the metadata of its result carry the same seed, step count, frame
  count, size, guidance and flow shift, and the precision is the deployed checkpoint's, whatever the
  request said.
\<close>

theorem metadata_match_request:
  assumes "vllm_omni_work e job timeout s = Some (Inr res, s')"
    and "jr_mode job \<in> set ASYNC_VIDEO_MODES" "cl_calls (ws_client s) = []"
  shows "\<exists>f rest seed steps frames w h guidance flow.
    cl_calls (ws_client s') = CPostForm ''/v1/videos'' f # rest \<and>
    dict_get f ''seed'' = Some (FText (show_int seed)) \<and> dict_get (wr_meta res) ''seed'' = Some (PInt seed) \<and>
    dict_get f ''num_inference_steps'' = Some (FText (show_int steps)) \<and>
    dict_get (wr_meta res) ''num_inference_steps'' = Some (PInt steps) \<and>
    dict_get f ''num_frames'' = Some (FText (show_int frames)) \<and> dict_get (wr_meta res) ''num_frames'' = Some (PInt frames) \<and>
    dict_get f ''size'' = Some (FText (size_text w h)) \<and>
    dict_get (wr_meta res) ''width'' = Some (PInt w) \<and> dict_get (wr_meta res) ''height'' = Some (PInt h) \<and>
    dict_get f ''guidance_scale'' = Some (FText (ol_str (we_omni e) guidance)) \<and>
    dict_get (wr_meta res) ''guidance_scale'' = Some guidance \<and>
    dict_get f ''flow_shift'' = Some (FText (ol_str (we_omni e) flow)) \<and>
    dict_get (wr_meta res) ''flow_shift'' = Some flow \<and>
    dict_get (wr_meta res) ''precision'' = Some (PStr (deployed_checkpoint (el_environ (we_libs e))))"
proof -
  obtain t d path tp s1 where ok: "dispatch e job t d s = Some (Inr (path, tp), s1)"
    and fin: "finish_work e job d path tp s1 = (Inr res, s')"
    using assms(1) by (auto simp: vllm_omni_work_def split: sum.splits option.splits prod.splits path_exc.splits)
  have mode: "jr_mode job \<noteq> ''forward_dynamics''" "jr_mode job \<notin> set ACTION_PREDICT_MODES" "jr_mode job \<noteq> ''t2i''"
    using assms(2) by (auto simp: ASYNC_VIDEO_MODES_def ACTION_PREDICT_MODES_def)
  obtain rp where rp: "resolved_params (we_omni e) job = Inr rp"
    and meta: "wr_meta res = work_meta e job d tp (video_meta rp)"
    using fin mode by (auto simp: finish_work_def param_record_def Let_def result_simps split: prod.splits)
  obtain rest1 where last: "cl_calls (ws_client s') = cl_calls (ws_client s1) @ rest1"
    using fin by (auto simp: finish_work_def perform_def Let_def split: prod.splits)
  obtain part where "video_flow e job t part s = Some (Inr (path, tp), s1)"
    using ok mode by (auto simp: dispatch_def with_part_def split: if_splits option.splits sum.splits)
  then obtain data c where run: "run_video_job (we_omni e) (we_host e) job part ''/v1/videos'' 5 t None (ws_client s) = Some (Inr data, c)"
    and c: "ws_client s1 = c"
    by (auto simp: video_flow_def stored_def write_mp4_def persist_def result_simps
        split: option.splits prod.splits sum.splits)
  then obtain v b c1 where sp: "submit_and_poll (ol_str (we_omni e)) (we_host e) ''video'' (build_video_form (we_omni e) job part)
      ''/v1/videos'' 5 t None (ws_client s) = Some (Inr (v, b), c1)" "get_bytes (we_host e) (''/v1/videos/'' @ v @ ''/content'') c1 = (Inr data, c)"
    by (auto simp: run_video_job_def split: option.splits prod.splits sum.splits)
  from sp(1) assms(3) obtain f rest where f: "build_video_form (we_omni e) job part = Inr f"
    "cl_calls c1 = CPostForm ''/v1/videos'' f # rest"
    by (cases rule: submit_and_poll_trace) (auto simp: polled_def)
  have "cl_calls c = cl_calls c1 @ [CGetBytes (''/v1/videos/'' @ v @ ''/content'')]"
    using sp(2) by (auto simp: get_bytes_def perform_def split: prod.splits)
  with f(2) last c have calls: "\<exists>rest. cl_calls (ws_client s') = CPostForm ''/v1/videos'' f # rest" by simp
  show ?thesis
    using calls f(1) rp mode
    by (auto simp: build_video_form_def meta work_meta_def video_meta_def)
qed

lemma metadata_match_request_witness:
  "\<exists>res s' f rest seed. vllm_omni_work demo_env demo_gen_job (Some (Finite 7200))
     \<lparr>ws_client = \<lparr>cl_calls = [], cl_world = 0\<rparr>, ws_files = (\<lambda>p. None)\<rparr> = Some (Inr res, s') \<and>
   cl_calls (ws_client s') = CPostForm ''/v1/videos'' f # rest \<and>
   dict_get f ''seed'' = Some (FText (show_int seed)) \<and> dict_get (wr_meta res) ''seed'' = Some (PInt seed)"
proof -
  obtain res s' where w: "vllm_omni_work demo_env demo_gen_job (Some (Finite 7200))
     \<lparr>ws_client = \<lparr>cl_calls = [], cl_world = 0\<rparr>, ws_files = (\<lambda>p. None)\<rparr> = Some (Inr res, s')"
    using demo_work by blast
  have "jr_mode demo_gen_job \<in> set ASYNC_VIDEO_MODES" by (simp add: demo_gen_job_def new_job_def ASYNC_VIDEO_MODES_def)
  from metadata_match_request [OF w this] w show ?thesis by fastforce
qed

end
