(* ===== verification/Safetensors.thy ===== *)
theory Safetensors
  imports Byte_Layout
begin

text \<open>
  The safetensors container (\<open>tools/checkpoint_prep/safetensors_io.py\<close> and the reading half of
  \<open>tools/checkpoint_prep/rewrite.py\<close>): eight little-endian bytes of header length, a JSON header,
  and the data block that the offsets of the header's entries index. A file is its bytes; the JSON
  library and SHA-256 are arguments, chunked reading is written out.
\<close>

section \<open>Headers\<close>

record tensor_meta =
  tm_dtype :: string
  tm_shape :: "int list"
  tm_offsets :: "int \<times> int"

text \<open>The entries without \<open>__metadata__\<close>, which is kept apart.\<close>

record header =
  hd_tensors :: "(string, tensor_meta) dict"
  hd_metadata :: "pyval option"

text \<open>\<open>StructError\<close> is \<open>struct.error\<close>; \<open>NoSuchFile\<close> a \<open>FileNotFoundError\<close>.\<close>

datatype ck_exc =
  MutationError message
| StructError
| NoSuchFile string
| CkRaise py_exc

definition HEADER_ALIGN :: nat where "HEADER_ALIGN = 8"

definition header_pad :: "nat \<Rightarrow> nat" where
  "header_pad n = nat ((- int n) mod int HEADER_ALIGN)"

definition build_header_bytes :: "(header \<Rightarrow> byte list) \<Rightarrow> (string, tensor_meta) dict \<Rightarrow> pyval option \<Rightarrow> ck_exc + byte list" where
  "build_header_bytes dumps entries metadata =
     (let blob = dumps \<lparr>hd_tensors = entries, hd_metadata = metadata\<rparr>;
          padded = blob @ replicate (header_pad (length blob)) 0x20
      in if 2 ^ 64 \<le> length padded then Inl StructError
         else Inr (le_bytes 8 (length padded) @ padded))"

definition parse_header :: "(byte list \<Rightarrow> py_exc + header) \<Rightarrow> byte list \<Rightarrow> ck_exc + (header \<times> nat)" where
  "parse_header loads raw =
     (if length raw < 8 then Inl (CkRaise ValueError)
      else (let n = from_le (take 8 raw) in
        if length raw < 8 + n then Inl (CkRaise ValueError)
        else map_errE CkRaise (mapE (\<lambda>h. (h, n)) (loads (take n (drop 8 raw))))))"

text \<open>The file reader: a short read of the length is a \<open>struct.error\<close>, of the header bad JSON.\<close>

definition read_header :: "(byte list \<Rightarrow> py_exc + header) \<Rightarrow> byte list \<Rightarrow> ck_exc + (header \<times> nat)" where
  "read_header loads raw =
     (if length raw < 8 then Inl StructError
      else (let n = from_le (take 8 raw)
            in map_errE CkRaise (mapE (\<lambda>h. (h, n)) (loads (take n (drop 8 raw))))))"

definition data_start :: "nat \<Rightarrow> nat" where "data_start n = 8 + n"

section \<open>Reading a tensor\<close>

definition CHUNK :: nat where "CHUNK = 2 ^ 26"

text \<open>
  The streaming loop (its end-of-file message without the path, which the model of a file has not):
  \<open>pos\<close> is the position in the file, \<open>remaining\<close> the bytes still wanted; reading
  past the end is an error. The value is everything read.
\<close>

function read_range :: "nat \<Rightarrow> ck_exc \<Rightarrow> byte list \<Rightarrow> nat \<Rightarrow> nat \<Rightarrow> byte list \<Rightarrow> ck_exc + byte list" where
  "read_range chunk eof raw pos remaining acc =
     (if remaining = 0 then Inr acc
      else (let piece = take (min chunk remaining) (drop pos raw)
            in if piece = [] then Inl eof
               else read_range chunk eof raw (pos + length piece) (remaining - length piece) (acc @ piece)))"
  by pat_completeness auto
termination
  by (relation "measure (\<lambda>(chunk, eof, raw, pos, remaining, acc). remaining)") (auto simp: Let_def)

declare read_range.simps [simp del]

text \<open>A negative position cannot be sought; an empty or inverted range reads nothing.\<close>

definition tensor_range :: "string \<Rightarrow> byte list \<Rightarrow> nat \<Rightarrow> tensor_meta \<Rightarrow> ck_exc + byte list" where
  "tensor_range doing raw ds m =
     (let (s, e) = tm_offsets m in
      if int ds + s < 0 then Inl (CkRaise ValueError)
      else read_range CHUNK (MutationError [MLit ''unexpected EOF '', MStr doing, MLit '' range '', MInt s, MLit '':'', MInt e])
             raw (nat (int ds + s)) (nat (e - s)) [])"

definition copy_range :: "byte list \<Rightarrow> nat \<Rightarrow> tensor_meta \<Rightarrow> ck_exc + byte list" where
  "copy_range = tensor_range ''copying''"

definition hash_tensor :: "(byte list \<Rightarrow> string) \<Rightarrow> byte list \<Rightarrow> nat \<Rightarrow> tensor_meta \<Rightarrow> ck_exc + string" where
  "hash_tensor sha raw ds m = mapE sha (tensor_range ''hashing'' raw ds m)"

fun hash_entries :: "(byte list \<Rightarrow> string) \<Rightarrow> byte list \<Rightarrow> nat \<Rightarrow> (string, tensor_meta) dict \<Rightarrow> ck_exc + (string, string) dict" where
  "hash_entries sha raw ds [] = Inr []"
| "hash_entries sha raw ds ((name, m) # es) =
     bindE (hash_tensor sha raw ds m) (\<lambda>h. mapE (\<lambda>rest. (name, h) # rest) (hash_entries sha raw ds es))"

definition hash_all_tensors ::
  "(byte list \<Rightarrow> py_exc + header) \<Rightarrow> (byte list \<Rightarrow> string) \<Rightarrow> byte list \<Rightarrow> ck_exc + (string, string) dict" where
  "hash_all_tensors loads sha raw =
     bindE (read_header loads raw) (\<lambda>(h, n). hash_entries sha raw (data_start n) (hd_tensors h))"

section \<open>Lemmas\<close>

lemma header_pad_aligned: "(n + header_pad n) mod 8 = 0"
proof -
  have "int (n + header_pad n) mod 8 = 0"
    by (simp add: header_pad_def HEADER_ALIGN_def mod_add_right_eq)
  then show ?thesis by (metis int_ops(1) int_ops(3) of_nat_eq_iff of_nat_mod of_nat_numeral)
qed

text \<open>
  What the JSON library promises of a header: what it writes it reads back, with or without trailing
  spaces.
\<close>

definition json_lawful :: "(header \<Rightarrow> byte list) \<Rightarrow> (byte list \<Rightarrow> py_exc + header) \<Rightarrow> header \<Rightarrow> bool" where
  "json_lawful dumps loads h \<longleftrightarrow> (\<forall>k. loads (dumps h @ replicate k 0x20) = Inr h)"

lemma read_built_header:
  assumes "json_lawful dumps loads \<lparr>hd_tensors = entries, hd_metadata = metadata\<rparr>" "build_header_bytes dumps entries metadata = Inr hb"
  shows "\<exists>n. length hb = 8 + n \<and> n mod 8 = 0 \<and>
    read_header loads (hb @ data) = Inr (\<lparr>hd_tensors = entries, hd_metadata = metadata\<rparr>, n) \<and>
    parse_header loads (hb @ data) = Inr (\<lparr>hd_tensors = entries, hd_metadata = metadata\<rparr>, n)"
proof -
  define padded where "padded = dumps \<lparr>hd_tensors = entries, hd_metadata = metadata\<rparr> @
    replicate (header_pad (length (dumps \<lparr>hd_tensors = entries, hd_metadata = metadata\<rparr>))) 0x20"
  have hb: "hb = le_bytes 8 (length padded) @ padded" and len: "length padded < 2 ^ 64"
    using assms(2) by (auto simp: build_header_bytes_def padded_def Let_def split: if_splits)
  have "from_le (take 8 (hb @ data)) = length padded"
    using len by (simp add: hb from_le_bytes)
  moreover have "loads padded = Inr \<lparr>hd_tensors = entries, hd_metadata = metadata\<rparr>"
    using assms(1) by (simp add: padded_def json_lawful_def)
  moreover have "length padded mod 8 = 0" by (simp add: padded_def header_pad_aligned)
  ultimately show ?thesis
    by (intro exI [of _ "length padded"]) (simp add: hb read_header_def parse_header_def)
qed

lemma read_range_slice:
  assumes "0 < chunk" "pos + remaining \<le> length raw"
  shows "read_range chunk eof raw pos remaining acc = Inr (acc @ take remaining (drop pos raw))"
  using assms(2)
proof (induction remaining arbitrary: pos acc rule: less_induct)
  case (less remaining)
  show ?case
  proof (cases "remaining = 0")
    case True
    then show ?thesis by (simp add: read_range.simps)
  next
    case False
    define k where "k = min chunk remaining"
    have k: "0 < k" "k \<le> remaining" using False assms(1) by (simp_all add: k_def)
    then have len: "length (take k (drop pos raw)) = k" using less.prems by simp
    then have ne: "take k (drop pos raw) \<noteq> []" using k by (metis length_0_conv less_numeral_extra(3))
    have "read_range chunk eof raw pos remaining acc =
        read_range chunk eof raw (pos + k) (remaining - k) (acc @ take k (drop pos raw))"
      using False ne len by (subst read_range.simps) (simp add: Let_def k_def [symmetric])
    also have "\<dots> = Inr ((acc @ take k (drop pos raw)) @ take (remaining - k) (drop (pos + k) raw))"
      using less.IH [of "remaining - k" "pos + k"] k less.prems by simp
    also have "take k (drop pos raw) @ take (remaining - k) (drop (pos + k) raw) = take remaining (drop pos raw)"
      using k(2) by (metis add.commute drop_drop le_add_diff_inverse take_add)
    then have "(acc @ take k (drop pos raw)) @ take (remaining - k) (drop (pos + k) raw) = acc @ take remaining (drop pos raw)"
      by simp
    finally show ?thesis .
  qed
qed

lemma read_range_length:
  "read_range chunk eof raw pos remaining acc = Inr out \<Longrightarrow> length out = length acc + remaining"
proof (induction chunk eof raw pos remaining acc rule: read_range.induct)
  case (1 chunk eof raw pos remaining acc)
  then show ?case
    by (subst (asm) (2) read_range.simps) (auto simp: Let_def split: if_splits)
qed

lemma CHUNK_pos [simp]: "0 < CHUNK"
  by (simp add: CHUNK_def)

lemma tensor_range_slice:
  assumes "tm_offsets m = (int a, int (a + len))" "ds + a + len \<le> length raw"
  shows "tensor_range doing raw ds m = Inr (take len (drop (ds + a) raw))"
  using assms by (simp add: tensor_range_def read_range_slice nat_add_distrib)

lemma tensor_range_length:
  "tensor_range doing raw ds m = Inr out \<Longrightarrow> int (length out) = max 0 (snd (tm_offsets m) - fst (tm_offsets m))"
  by (auto simp: tensor_range_def split: prod.splits if_splits dest!: read_range_length)

section \<open>Properties\<close>

text \<open>
  Safetensors headers round-trip and align: what \<open>build_header_bytes\<close> writes, followed by any data
  block, \<open>parse_header\<close> reads back entry for entry, and the data block begins at a multiple of eight.
\<close>

theorem safetensors_header_roundtrip:
  assumes "json_lawful dumps loads \<lparr>hd_tensors = entries, hd_metadata = metadata\<rparr>" "build_header_bytes dumps entries metadata = Inr hb"
  shows "\<exists>n. parse_header loads (hb @ data) = Inr (\<lparr>hd_tensors = entries, hd_metadata = metadata\<rparr>, n) \<and>
    length hb = data_start n \<and> data_start n mod 8 = 0"
  using read_built_header [OF assms, of data] by (auto simp: data_start_def)

definition demo_header :: header where
  "demo_header = \<lparr>hd_tensors = [(''a'', \<lparr>tm_dtype = ''BF16'', tm_shape = [1], tm_offsets = (0, 2)\<rparr>)], hd_metadata = None\<rparr>"

lemma safetensors_header_roundtrip_witness:
  "\<exists>hb n. build_header_bytes (\<lambda>h. [0x7B, 0x7D]) (hd_tensors demo_header) None = Inr hb \<and>
     parse_header (\<lambda>bs. Inr demo_header) (hb @ [1, 2]) = Inr (demo_header, n) \<and> length hb = data_start n"
proof -
  obtain hb where hb: "build_header_bytes (\<lambda>h. [0x7B, 0x7D]) (hd_tensors demo_header) None = Inr hb"
    by (simp add: build_header_bytes_def header_pad_def HEADER_ALIGN_def Let_def)
  have "json_lawful (\<lambda>h. [0x7B, 0x7D]) (\<lambda>bs. Inr demo_header) \<lparr>hd_tensors = hd_tensors demo_header, hd_metadata = None\<rparr>"
    by (simp add: json_lawful_def demo_header_def)
  from safetensors_header_roundtrip [OF this hb, of "[1, 2]"] hb show ?thesis
    by (auto simp: demo_header_def)
qed

end
