(* ===== verification/Gen_Channel.thy ===== *)
theory Gen_Channel
  imports Submission Safetensors
begin

text \<open>
  The client side of the generation plane's socket (\<open>api/jobs/gen_client.py\<close>): the length-prefixed
  frames, reading a reply with its progress messages, the request built from a job, and the runner's
  work over the channel. JSON, the connection and the progress callback are arguments; a socket is the
  bytes its peer will send, the sizes \<open>recv\<close> happens to return, and how it ends.
\<close>

section \<open>Frames\<close>

definition MAX_FRAME :: nat where "MAX_FRAME = 64 * 1024 * 1024"
definition DEFAULT_GEN_SOCK :: string where "DEFAULT_GEN_SOCK = ''/tmp/cosmos3_gen.sock''"

text \<open>\<open>GenIO\<close> is an \<open>OSError\<close> of the socket, a timeout included.\<close>

datatype gen_exc =
  FramingError message
| GenWorkerError pyval pyval
| GenUntrusted path_exc
| GenStructError
| GenIO string
| GenRaise py_exc

record json_codec =
  jc_dumps :: "pyval \<Rightarrow> byte list"
  jc_loads :: "byte list \<Rightarrow> py_exc + pyval"

definition be_bytes :: "nat \<Rightarrow> nat \<Rightarrow> byte list" where "be_bytes k n = rev (le_bytes k n)"
definition frame_length :: "byte list \<Rightarrow> nat" where "frame_length bs = from_le (rev bs)"

definition frame :: "json_codec \<Rightarrow> params \<Rightarrow> gen_exc + byte list" where
  "frame c obj = (let body = jc_dumps c (PDict obj) in
     if 2 ^ 32 \<le> length body then Inl GenStructError else Inr (be_bytes 4 (length body) @ body))"

record sock =
  sk_data :: "byte list"
  sk_sizes :: "nat list"
  sk_failure :: "string option"

text \<open>\<open>recv\<close> returns at least one byte while there is one, and at most what it was asked for.\<close>

definition recv :: "nat \<Rightarrow> sock \<Rightarrow> gen_exc + (byte list \<times> sock)" where
  "recv n s =
     (if sk_data s = [] then (case sk_failure s of None \<Rightarrow> Inr ([], s) | Some e \<Rightarrow> Inl (GenIO e))
      else (let k = (case sk_sizes s of [] \<Rightarrow> n | m # ms \<Rightarrow> min n (Suc m))
            in Inr (take k (sk_data s), s\<lparr>sk_data := drop k (sk_data s), sk_sizes := drop 1 (sk_sizes s)\<rparr>)))"

function read_exact :: "nat \<Rightarrow> nat \<Rightarrow> byte list \<Rightarrow> sock \<Rightarrow> gen_exc + (byte list \<times> sock)" where
  "read_exact n remaining acc s =
     (if remaining = 0 then Inr (acc, s)
      else (case recv remaining s of
          Inl e \<Rightarrow> Inl e
        | Inr (chunk, s1) \<Rightarrow>
            if chunk = [] then
              Inl (FramingError [MLit ''stream closed with '', MInt (int remaining), MLit '' of '', MInt (int n), MLit '' bytes unread''])
            else read_exact n (remaining - length chunk) (acc @ chunk) s1))"
  by pat_completeness auto
termination by (relation "measure (\<lambda>(n, remaining, acc, s). remaining)") auto

declare read_exact.simps [simp del]

definition unframe :: "json_codec \<Rightarrow> sock \<Rightarrow> gen_exc + (pyval \<times> sock)" where
  "unframe c s =
     bindE (read_exact 4 4 [] s) (\<lambda>(prefix4, s1).
       let len = frame_length prefix4 in
       if MAX_FRAME < len then
         Inl (FramingError [MLit ''frame too large: '', MInt (int len), MLit '' > '', MInt (int MAX_FRAME)])
       else bindE (read_exact len len [] s1) (\<lambda>(body, s2). mapE (\<lambda>v. (v, s2)) (map_errE GenRaise (jc_loads c body))))"

section \<open>Reading a frame back\<close>

lemma length_be_bytes [simp]: "length (be_bytes k n) = k"
  by (simp add: be_bytes_def)

lemma frame_length_bytes: "n < 256 ^ k \<Longrightarrow> frame_length (be_bytes k n) = n"
  by (simp add: frame_length_def be_bytes_def from_le_bytes)

lemma recv_chunk:
  assumes "recv n s = Inr (chunk, s1)" "0 < n" "sk_data s \<noteq> []"
  shows "chunk \<noteq> []" "length chunk \<le> n" "sk_data s = chunk @ sk_data s1" "sk_failure s1 = sk_failure s"
  using assms by (auto simp: recv_def Let_def split: list.splits)

text \<open>However the stream is cut, reading takes exactly what was asked for.\<close>

lemma read_exact_spec:
  assumes "remaining \<le> length (sk_data s)"
  shows "\<exists>s1. read_exact n remaining acc s = Inr (acc @ take remaining (sk_data s), s1) \<and>
    sk_data s1 = drop remaining (sk_data s) \<and> sk_failure s1 = sk_failure s"
  using assms
proof (induction n remaining acc s rule: read_exact.induct)
  case (1 n remaining acc s)
  show ?case
  proof (cases "remaining = 0")
    case True
    then show ?thesis by (simp add: read_exact.simps)
  next
    case False
    then have data: "sk_data s \<noteq> []" using "1.prems" by auto
    then obtain chunk s1 where r: "recv remaining s = Inr (chunk, s1)" by (auto simp: recv_def Let_def)
    have False': "0 < remaining" using False by simp
    note c = recv_chunk [OF r False' data]
    have "remaining - length chunk \<le> length (sk_data s1)" using "1.prems" c(3) by simp
    from "1.IH" [OF False r refl c(1) this] obtain s2 where
      s2: "read_exact n (remaining - length chunk) (acc @ chunk) s1 =
            Inr ((acc @ chunk) @ take (remaining - length chunk) (sk_data s1), s2)"
          "sk_data s2 = drop (remaining - length chunk) (sk_data s1)" "sk_failure s2 = sk_failure s1" by blast
    have "read_exact n remaining acc s = read_exact n (remaining - length chunk) (acc @ chunk) s1"
      using False r c(1) by (subst read_exact.simps) simp
    then show ?thesis using s2 c by simp
  qed
qed

lemma read_exact_shrinks:
  "read_exact n remaining acc s = Inr (out, s1) \<Longrightarrow> length (sk_data s) = length (sk_data s1) + remaining"
proof (induction n remaining acc s rule: read_exact.induct)
  case (1 n remaining acc s)
  show ?case
  proof (cases "remaining = 0")
    case True
    then show ?thesis using "1.prems" by (simp add: read_exact.simps)
  next
    case False
    then obtain chunk s2 where r: "recv remaining s = Inr (chunk, s2)" "chunk \<noteq> []"
      "read_exact n (remaining - length chunk) (acc @ chunk) s2 = Inr (out, s1)"
      using "1.prems" by (subst (asm) read_exact.simps) (auto split: sum.splits if_splits)
    have data: "sk_data s \<noteq> []" using r(1,2) by (auto simp: recv_def split: if_splits option.splits)
    have pos: "0 < remaining" using False by simp
    note c = recv_chunk [OF r(1) pos data]
    then show ?thesis using "1.IH" [OF False r(1) refl r(2,3)] c(2) by simp
  qed
qed

lemma unframe_shrinks: "unframe c s = Inr (v, s1) \<Longrightarrow> length (sk_data s1) < length (sk_data s)"
  by (auto simp: unframe_def result_simps Let_def split: if_splits dest!: read_exact_shrinks)

text \<open>A codec reads back an object it wrote.\<close>

definition codec_lawful :: "json_codec \<Rightarrow> params \<Rightarrow> bool" where
  "codec_lawful c obj \<longleftrightarrow> jc_loads c (jc_dumps c (PDict obj)) = Inr (PDict obj) \<and> length (jc_dumps c (PDict obj)) \<le> MAX_FRAME"

lemma unframe_frame:
  assumes "codec_lawful c obj" "frame c obj = Inr bs" "sk_data s = bs @ rest"
  shows "\<exists>s1. unframe c s = Inr (PDict obj, s1) \<and> sk_data s1 = rest \<and> sk_failure s1 = sk_failure s"
proof -
  define body where "body = jc_dumps c (PDict obj)"
  have len: "length body \<le> MAX_FRAME" and load: "jc_loads c body = Inr (PDict obj)"
    using assms(1) by (simp_all add: codec_lawful_def body_def)
  have data: "sk_data s = be_bytes 4 (length body) @ body @ rest"
    using assms(2,3) by (auto simp: frame_def body_def Let_def split: if_splits)
  obtain s1 where s1: "read_exact 4 4 [] s = Inr (be_bytes 4 (length body), s1)" "sk_data s1 = body @ rest"
    "sk_failure s1 = sk_failure s"
    using read_exact_spec [of 4 s 4 "[]"] data by auto
  obtain s2 where s2: "read_exact (length body) (length body) [] s1 = Inr (body, s2)" "sk_data s2 = rest"
    "sk_failure s2 = sk_failure s1"
    using read_exact_spec [of "length body" s1 "length body" "[]"] s1(2) by auto
  have "frame_length (be_bytes 4 (length body)) = length body"
    by (rule frame_length_bytes) (use len in \<open>simp add: MAX_FRAME_def\<close>)
  then show ?thesis using s1 s2 len load by (simp add: unframe_def)
qed

section \<open>Replies\<close>

text \<open>\<open>total > 0\<close> and \<open>step / total\<close> on parsed JSON, \<open>total\<close> being positive.\<close>

definition py_number :: "pyval \<Rightarrow> py_exc + pyfloat" where
  "py_number v = (case v of
     PInt i \<Rightarrow> Inr (Finite (of_int i)) | PBool b \<Rightarrow> Inr (Finite (if b then 1 else 0)) | PFloat f \<Rightarrow> Inr f
   | _ \<Rightarrow> Inl TypeError)"

definition over_positive :: "pyfloat \<Rightarrow> pyfloat \<Rightarrow> py_exc + pyfloat" where
  "over_positive a b = (case (a, b) of
     (NotANumber, _) \<Rightarrow> Inr NotANumber
   | (Finite x, Finite y) \<Rightarrow> float_of_rat (x / y)
   | (Finite x, _) \<Rightarrow> Inr (Finite 0)
   | (f, Finite y) \<Rightarrow> Inr f
   | _ \<Rightarrow> Inr NotANumber)"

text \<open>The fraction a progress message reports, if any.\<close>

definition progress_of :: "pyval \<Rightarrow> py_exc + pyfloat option" where
  "progress_of msg =
     bindE (py_item msg ''step'') (\<lambda>step. bindE (py_item msg ''total'') (\<lambda>whole.
     bindE (py_number whole) (\<lambda>t.
       if flt_lt (Finite 0) t then mapE Some (bindE (py_number step) (\<lambda>a. over_positive a t)) else Inr None)))"

type_synonym 'w reporter = "pyfloat \<Rightarrow> 'w \<Rightarrow> (gen_exc + unit) \<times> 'w"

function read_reply :: "json_codec \<Rightarrow> 'w reporter \<Rightarrow> sock \<Rightarrow> 'w \<Rightarrow> (gen_exc + pyval) \<times> 'w" where
  "read_reply c rep s w =
     (case unframe c s of
        Inl e \<Rightarrow> (Inl e, w)
      | Inr (msg, s1) \<Rightarrow>
          (case py_get msg ''type'' PNone of
             Inl e \<Rightarrow> (Inl (GenRaise e), w)
           | Inr t \<Rightarrow>
               if t \<noteq> PStr ''progress'' then (Inr msg, w)
               else (case progress_of msg of
                   Inl e \<Rightarrow> (Inl (GenRaise e), w)
                 | Inr None \<Rightarrow> read_reply c rep s1 w
                 | Inr (Some f) \<Rightarrow>
                     (case rep f w of (Inl e, w1) \<Rightarrow> (Inl e, w1) | (Inr _, w1) \<Rightarrow> read_reply c rep s1 w1))))"
  by pat_completeness auto
termination
  by (relation "measure (\<lambda>(c, rep, s, w). length (sk_data s))") (auto dest!: unframe_shrinks)

declare read_reply.simps [simp del]

section \<open>The request\<close>

text \<open>The conditioning keys in order, each resolved again; a falsy value is left out.\<close>

fun add_paths :: "edge_libs \<Rightarrow> string list \<Rightarrow> params \<Rightarrow> string list \<Rightarrow> params \<Rightarrow> path_exc + params" where
  "add_paths libs al ps [] request = Inr request"
| "add_paths libs al ps (key # keys) request =
     (if get_truthy ps key
      then bindE (resolve_within (el_realpath libs) (py_str (el_str libs) (val_get ps key)) al)
             (\<lambda>path. add_paths libs al ps keys (dict_set key (PStr path) request))
      else add_paths libs al ps keys request)"

definition build_request :: "edge_libs \<Rightarrow> job_record \<Rightarrow> string list \<Rightarrow> bool \<Rightarrow> path_exc + params" where
  "build_request libs job al want_latents =
     add_paths libs al (jr_params job) [''image_path'', ''video_path'', ''audio_path'']
       [(''job_id'', PStr (jr_id job)),
        (''kind'', PStr (if jr_mode job \<in> set ACTION_MODES then ''action'' else ''generation'')),
        (''mode'', PStr (jr_mode job)), (''params'', PDict (jr_params job)),
        (''checkpoint'', case dict_get (jr_params job) ''checkpoint'' of None \<Rightarrow> PStr ''nvfp4'' | Some v \<Rightarrow> v),
        (''want_latents'', PBool want_latents)]"

section \<open>The work\<close>

text \<open>
  \<open>gh_connect\<close> opens the socket of a path within a timeout, \<open>gh_send\<close> sends all of the request and
  gives the stream of the answer.
\<close>

record 'w gen_host =
  gh_connect :: "string \<Rightarrow> pyfloat \<Rightarrow> 'w \<Rightarrow> (gen_exc + unit) \<times> 'w"
  gh_send :: "byte list \<Rightarrow> 'w \<Rightarrow> (gen_exc + sock) \<times> 'w"
  gh_report :: "'w reporter"

record gen_result =
  gr_artifact_path :: pyval
  gr_meta :: pyval

definition env_get :: "(string, string) dict \<Rightarrow> string \<Rightarrow> string \<Rightarrow> string" where
  "env_get environ k d = (case dict_get environ k of None \<Rightarrow> d | Some v \<Rightarrow> v)"

definition then_gen :: "('w \<Rightarrow> (gen_exc + 'a) \<times> 'w) \<Rightarrow> ('a \<Rightarrow> 'w \<Rightarrow> (gen_exc + 'b) \<times> 'w) \<Rightarrow> 'w \<Rightarrow> (gen_exc + 'b) \<times> 'w" where
  "then_gen m k w = (case m w of (Inl e, w1) \<Rightarrow> (Inl e, w1) | (Inr x, w1) \<Rightarrow> k x w1)"

definition lift_gen :: "gen_exc + 'a \<Rightarrow> 'w \<Rightarrow> (gen_exc + 'a) \<times> 'w" where
  "lift_gen r w = (r, w)"

definition result_of :: "pyval \<Rightarrow> gen_exc + gen_result" where
  "result_of reply =
     bindE (map_errE GenRaise (py_get reply ''ok'' PNone)) (\<lambda>ok.
       if \<not> py_truthy ok then
         bindE (map_errE GenRaise (py_get reply ''code'' (PStr ''internal_error''))) (\<lambda>code.
         bindE (map_errE GenRaise (py_get reply ''message'' (PStr ''worker error''))) (\<lambda>m. Inl (GenWorkerError code m)))
       else bindE (map_errE GenRaise (py_item reply ''artifact_path'')) (\<lambda>path.
            mapE (\<lambda>meta. \<lparr>gr_artifact_path = path, gr_meta = meta\<rparr>) (map_errE GenRaise (py_get reply ''meta'' (PDict [])))))"

definition gen_work :: "edge_libs \<Rightarrow> json_codec \<Rightarrow> 'w gen_host \<Rightarrow> job_record \<Rightarrow> 'w \<Rightarrow> (gen_exc + gen_result) \<times> 'w" where
  "gen_work libs c host job =
     then_gen (lift_gen (map_errE GenRaise (py_float (el_parse_float libs) (PStr (env_get (el_environ libs) ''COSMOS3_GEN_TIMEOUT'' ''2400''))))) (\<lambda>timeout.
     then_gen (lift_gen (map_errE GenUntrusted (build_request libs job (input_allowlist (el_environ libs))
         (dict_get (el_environ libs) ''COSMOS3_WANT_LATENTS'' = Some ''1'')))) (\<lambda>request.
     then_gen (gh_connect host (env_get (el_environ libs) ''COSMOS3_GEN_SOCK'' DEFAULT_GEN_SOCK) timeout) (\<lambda>_.
     then_gen (lift_gen (frame c request)) (\<lambda>bs.
     then_gen (gh_send host bs) (\<lambda>s.
     then_gen (gh_report host (Finite 0)) (\<lambda>_.
     then_gen (read_reply c (gh_report host) s) (\<lambda>reply.
     then_gen (gh_report host (Finite 1)) (\<lambda>_. lift_gen (result_of reply)))))))))"

section \<open>What the client sees of the worker's frames\<close>

text \<open>A progress message, the fraction it stands for, and a run of them framed one after another.\<close>

definition progress_message :: "int \<times> int \<Rightarrow> params" where
  "progress_message p = [(''type'', PStr ''progress''), (''step'', PInt (fst p)), (''total'', PInt (snd p))]"

definition fraction_of :: "int \<times> int \<Rightarrow> pyfloat" where
  "fraction_of p = Finite (of_int (fst p) / of_int (snd p))"

fun framed :: "json_codec \<Rightarrow> params list \<Rightarrow> gen_exc + byte list" where
  "framed c [] = Inr []"
| "framed c (m # ms) = bindE (frame c m) (\<lambda>b. mapE ((@) b) (framed c ms))"

fun report_all :: "'w reporter \<Rightarrow> pyfloat list \<Rightarrow> 'w \<Rightarrow> (gen_exc + unit) \<times> 'w" where
  "report_all rep [] w = (Inr (), w)"
| "report_all rep (f # fs) w = (case rep f w of (Inl e, w1) \<Rightarrow> (Inl e, w1) | (Inr _, w1) \<Rightarrow> report_all rep fs w1)"

definition step_ok :: "int \<times> int \<Rightarrow> bool" where
  "step_ok p \<longleftrightarrow> 0 < snd p \<and> \<bar>fst p\<bar> \<le> snd p"

lemma progress_of_message:
  assumes "step_ok p"
  shows "progress_of (PDict (progress_message p)) = Inr (Some (fraction_of p))"
proof -
  have "\<bar>rat_of_int (fst p) / of_int (snd p)\<bar> \<le> 1"
    using assms by (simp add: step_ok_def abs_divide divide_le_eq_1 flip: of_int_abs)
  then have "\<not> FLOAT_BOUND \<le> \<bar>rat_of_int (fst p) / of_int (snd p)\<bar>"
    by (simp add: FLOAT_BOUND_def not_le)
  then show ?thesis using assms
    by (simp add: progress_of_def progress_message_def py_item_def py_number_def over_positive_def float_of_rat_def
        fraction_of_def flt_lt_def step_ok_def)
qed

lemma read_progress_stream:
  assumes "list_all step_ok ps" "\<forall>m \<in> set (map progress_message ps @ [reply]). codec_lawful c m"
    and "framed c (map progress_message ps @ [reply]) = Inr bs" "sk_data s = bs @ rest"
    and "dict_get reply ''type'' \<noteq> Some (PStr ''progress'')"
  shows "read_reply c rep s w =
    (case report_all rep (map fraction_of ps) w of (Inl e, w1) \<Rightarrow> (Inl e, w1) | (Inr _, w1) \<Rightarrow> (Inr (PDict reply), w1))"
  using assms(1-4)
proof (induction ps arbitrary: s w bs)
  case Nil
  then obtain s1 where "unframe c s = Inr (PDict reply, s1)"
    using unframe_frame [of c reply bs s rest] by (auto simp: result_simps)
  then show ?case using assms(5)
    by (subst read_reply.simps) (auto simp: py_get_def split: option.splits)
next
  case (Cons p ps)
  obtain b bs' where b: "frame c (progress_message p) = Inr b" "framed c (map progress_message ps @ [reply]) = Inr bs'" "bs = b @ bs'"
    using Cons.prems(3) by (auto simp: result_simps)
  obtain s1 where s1: "unframe c s = Inr (PDict (progress_message p), s1)" "sk_data s1 = bs' @ rest"
    using unframe_frame [of c "progress_message p" b s "bs' @ rest"] Cons.prems(2,4) b by auto
  have kind_ok: "py_get (PDict (progress_message p)) ''type'' PNone = Inr (PStr ''progress'')"
    by (simp add: py_get_def progress_message_def)
  have step: "read_reply c rep s w = (case rep (fraction_of p) w of (Inl e, w1) \<Rightarrow> (Inl e, w1) | (Inr _, w1) \<Rightarrow> read_reply c rep s1 w1)"
    using s1(1) kind_ok progress_of_message [of p] Cons.prems(1) by (subst read_reply.simps) simp
  have rest: "read_reply c rep s1 w1 =
      (case report_all rep (map fraction_of ps) w1 of (Inl e, w2) \<Rightarrow> (Inl e, w2) | (Inr _, w2) \<Rightarrow> (Inr (PDict reply), w2))" for w1
    by (rule Cons.IH [OF _ _ b(2) s1(2)]) (use Cons.prems(1,2) in auto)
  show ?case by (cases "rep (fraction_of p) w") (auto simp: step rest split: sum.split prod.split)
qed

text \<open>
  The channel delivers what the worker sent: for any number of progress frames with steps within
  their totals followed by one result frame, and however the socket cuts the stream into pieces, the
  client reports exactly their fractions, in order, and returns the result; only a raising report stops
  it earlier.
\<close>

theorem channel_delivers:
  assumes "list_all step_ok ps" "\<forall>m \<in> set (map progress_message ps @ [reply]). codec_lawful c m"
    and "framed c (map progress_message ps @ [reply]) = Inr bs" "dict_get reply ''type'' = Some (PStr ''result'')"
  shows "read_reply c rep \<lparr>sk_data = bs, sk_sizes = sizes, sk_failure = failure\<rparr> w =
    (case report_all rep (map fraction_of ps) w of (Inl e, w1) \<Rightarrow> (Inl e, w1) | (Inr _, w1) \<Rightarrow> (Inr (PDict reply), w1))"
  by (rule read_progress_stream [OF assms(1,2,3), where rest = "[]"]) (use assms(4) in simp_all)

text \<open>A codec that knows two messages, and a stream cut into single bytes.\<close>

definition demo_result :: params where
  "demo_result = [(''type'', PStr ''result''), (''ok'', PBool True), (''artifact_path'', PStr ''/a/j.png'')]"

definition demo_codec :: json_codec where
  "demo_codec = \<lparr>jc_dumps = (\<lambda>v. if v = PDict demo_result then [1] else if v = PDict (progress_message (1, 2)) then [2] else [3]),
     jc_loads = (\<lambda>bs. if bs = [1] then Inr (PDict demo_result) else if bs = [2] then Inr (PDict (progress_message (1, 2)))
                      else Inr (PDict (progress_message (2, 2))))\<rparr>"

lemma channel_delivers_witness:
  "\<exists>bs. framed demo_codec [progress_message (1, 2), progress_message (2, 2), demo_result] = Inr bs \<and>
     read_reply demo_codec (\<lambda>f w. (Inr (), w @ [f])) \<lparr>sk_data = bs, sk_sizes = replicate 20 0, sk_failure = None\<rparr> [] =
       (Inr (PDict demo_result), [Finite (1 / 2), Finite 1])"
proof -
  have lawful: "\<forall>m \<in> set (map progress_message [(1, 2), (2, 2)] @ [demo_result]). codec_lawful demo_codec m"
    by (simp add: codec_lawful_def demo_codec_def MAX_FRAME_def progress_message_def demo_result_def)
  obtain bs where bs: "framed demo_codec (map progress_message [(1, 2), (2, 2)] @ [demo_result]) = Inr bs"
    by (simp add: frame_def Let_def demo_codec_def progress_message_def demo_result_def)
  have steps: "list_all step_ok [(1, 2), (2, 2)]" by (simp add: step_ok_def)
  have kind_ok: "dict_get demo_result ''type'' = Some (PStr ''result'')" by (simp add: demo_result_def)
  show ?thesis
    using channel_delivers [OF steps lawful bs kind_ok, of "\<lambda>f w. (Inr (), w @ [f])" "replicate 20 0" None "[]"] bs
    by (simp add: fraction_of_def)
qed

end
