(* ===== verification/Gen_Worker.thy ===== *)
theory Gen_Worker
  imports Gen_Channel Omni_Form Reasoner
begin

text \<open>
  The server side of the generation socket (\<open>api/orchestrator/gen_worker.py\<close>) with the encoders it calls
  (\<open>api/jobs/artifacts.py\<close>): a request becomes an engine request, the engine's tensors become an
  artifact, and every failure becomes a typed reply. The engines, the tensor library and the media
  encoders are arguments; tensors are of the type variable. The state of a connection is what was sent
  on it and the files.
\<close>

section \<open>Requests\<close>

record generation_request =
  gq_mode :: string
  gq_case_id :: pyval
  gq_prompt :: pyval
  gq_negative_prompt :: pyval
  gq_image_path :: pyval
  gq_generate_sound :: bool
  gq_seed :: int
  gq_flow_shift :: rat
  gq_guidance_scale :: rat
  gq_num_frames :: int
  gq_height :: int
  gq_width :: int
  gq_num_inference_steps :: int

record 'x action_request =
  aq_mode :: action_mode
  aq_domain_name :: string
  aq_chunk_size :: int
  aq_raw_actions :: "'x option"
  aq_image_path :: pyval
  aq_video_path :: pyval
  aq_resolution_tier :: int
  aq_num_inference_steps :: int
  aq_seed :: int
  aq_view_point :: string
  aq_prompt :: pyval
  aq_case_id :: pyval

text \<open>\<open>WorkerError\<close> is an exception of an argument, with its text.\<close>

datatype gen_worker_exc =
  WorkerRaise py_exc
| WorkerPath path_exc
| WorkerGen gen_exc
| ActionValidationFailed action_error
| WorkerError string

record 'x generation_out =
  go_case_id :: pyval
  go_frames :: "'x list"
  go_audio :: "'x option"
  go_latents :: "'x option"
  go_vram_peak_bytes :: int
  go_info :: "engine_info option"

record 'x action_out =
  ao_case_id :: pyval
  ao_frames :: "'x list"
  ao_trajectory :: "'x option"
  ao_vram_peak_bytes :: int
  ao_info :: "engine_info option"

text \<open>
  What a library call that writes a file does: the bytes it leaves there, if any, and its exception.
  \<open>wk_generate\<close> answers with the progress it makes and its outcome; \<open>wk_mux\<close> with the muxed file it
  leaves and whether it succeeded.
\<close>

type_synonym writing = "byte list option \<times> string option"

record 'x worker =
  wk_generate :: "generation_request \<Rightarrow> (int \<times> int) list \<times> (string + 'x generation_out)"
  wk_act :: "'x action_request \<Rightarrow> string + 'x action_out"
  wk_tensor :: "pyval \<Rightarrow> string + 'x"
  wk_shape :: "'x \<Rightarrow> int list option"
  wk_png :: "'x \<Rightarrow> writing"
  wk_mp4 :: "'x list \<Rightarrow> writing"
  wk_wav :: "'x \<Rightarrow> writing"
  wk_npy :: "'x \<Rightarrow> writing"
  wk_json :: "'x \<Rightarrow> writing"
  wk_mux :: "byte list option \<Rightarrow> byte list option \<Rightarrow> byte list option \<times> bool"
  wk_str_exc :: "gen_worker_exc \<Rightarrow> string"

definition params_of :: "pyval \<Rightarrow> py_exc + params" where
  "params_of request = bindE (py_get request ''params'' (PDict [])) (\<lambda>p. case p of PDict d \<Rightarrow> Inr d | _ \<Rightarrow> Inl AttributeError)"

definition to_generation_request :: "string \<Rightarrow> pyval \<Rightarrow> py_exc + generation_request" where
  "to_generation_request mode request =
     bindE (params_of request) (\<lambda>p.
     bindE (if val_get p ''resolution'' = PNone then Inr None else mapE Some (py_int (val_get p ''resolution''))) (\<lambda>res.
     let (dw, dh) = default_dimensions mode res in
     bindE (py_get request ''job_id'' (PStr '''')) (\<lambda>case_id.
     bindE (py_get request ''image_path'' PNone) (\<lambda>image.
     bindE (int_get p ''seed'' 123) (\<lambda>seed.
     bindE (int_get p ''num_frames'' 1) (\<lambda>frames.
     bindE (int_get p ''height'' dh) (\<lambda>h.
     bindE (int_get p ''width'' dw) (\<lambda>w.
     mapE (\<lambda>steps.
       \<lparr>gq_mode = mode, gq_case_id = case_id, gq_prompt = val_get p ''prompt'', gq_negative_prompt = val_get p ''negative_prompt'',
        gq_image_path = image, gq_generate_sound = get_truthy p ''generate_sound'', gq_seed = seed, gq_flow_shift = 10, gq_guidance_scale = 6, gq_num_frames = frames,
        gq_height = h, gq_width = w, gq_num_inference_steps = steps\<rparr>)
      (int_get p ''num_inference_steps'' 8)))))))))"

definition pipeline_action_mode :: "pyval \<Rightarrow> py_exc + action_mode" where
  "pipeline_action_mode v =
     (if v = PStr ''forward_dynamics'' then Inr FORWARD_DYNAMICS
      else if v = PStr ''inverse_dynamics'' then Inr INVERSE_DYNAMICS
      else if v = PStr ''policy'' then Inr POLICY else Inl ValueError)"

definition text_get :: "(pyval \<Rightarrow> string) \<Rightarrow> params \<Rightarrow> string \<Rightarrow> string \<Rightarrow> string" where
  "text_get strf p k d = (case dict_get p k of None \<Rightarrow> d | Some v \<Rightarrow> py_str strf v)"

definition to_action_request :: "(pyval \<Rightarrow> string) \<Rightarrow> 'x worker \<Rightarrow> pyval \<Rightarrow> gen_worker_exc + 'x action_request" where
  "to_action_request strf wk request =
     bindE (map_errE WorkerRaise (params_of request)) (\<lambda>p.
     bindE (if val_get p ''raw_actions'' = PNone then Inr None
            else map_errE WorkerError (mapE Some (wk_tensor wk (val_get p ''raw_actions'')))) (\<lambda>raw.
     map_errE WorkerRaise (
     bindE (bindE (py_item request ''mode'') pipeline_action_mode) (\<lambda>mode.
     bindE (int_get p ''chunk_size'' 0) (\<lambda>chunk.
     bindE (py_get request ''image_path'' PNone) (\<lambda>image.
     bindE (py_get request ''video_path'' PNone) (\<lambda>video.
     bindE (int_get p ''resolution_tier'' 480) (\<lambda>tier.
     bindE (int_get p ''seed'' 123) (\<lambda>seed.
     mapE (\<lambda>case_id.
       \<lparr>aq_mode = mode, aq_domain_name = text_get strf p ''domain_name'' '''', aq_chunk_size = chunk, aq_raw_actions = raw,
        aq_image_path = image, aq_video_path = video, aq_resolution_tier = tier, aq_num_inference_steps = 8, aq_seed = seed,
        aq_view_point = text_get strf p ''view_point'' ''ego_view'', aq_prompt = val_get p ''prompt'', aq_case_id = case_id\<rparr>)
      (py_get request ''job_id'' (PStr '''')))))))))))"

text \<open>The action adapter validates before it touches the pipeline.\<close>

definition spec_of :: "'x worker \<Rightarrow> 'x action_request \<Rightarrow> action_spec" where
  "spec_of wk rq =
     \<lparr>as_mode = aq_mode rq, as_domain_name = aq_domain_name rq, as_chunk_size = aq_chunk_size rq,
      as_raw_action_width = (case aq_raw_actions rq of
         None \<Rightarrow> None
       | Some x \<Rightarrow> (case wk_shape wk x of Some [t, n] \<Rightarrow> if 1 \<le> t then Some n else None | _ \<Rightarrow> None)),
      as_resolution_tier = aq_resolution_tier rq, as_has_image = aq_image_path rq \<noteq> PNone,
      as_has_video = aq_video_path rq \<noteq> PNone\<rparr>"

definition generate_action :: "'x worker \<Rightarrow> 'x action_request \<Rightarrow> gen_worker_exc + 'x action_out" where
  "generate_action wk rq = (case validate_action (spec_of wk rq) of
     Some e \<Rightarrow> Inl (ActionValidationFailed e) | None \<Rightarrow> map_errE WorkerError (wk_act wk rq))"

section \<open>The connection and its files\<close>

text \<open>\<open>cn_budget\<close> bounds the sends that succeed before the peer is gone.\<close>

record conn =
  cn_out :: "byte list list"
  cn_budget :: "nat option"
  cn_files :: files

type_synonym 'a on_conn = "conn \<Rightarrow> (gen_worker_exc + 'a) \<times> conn"

definition then_conn :: "'a on_conn \<Rightarrow> ('a \<Rightarrow> 'b on_conn) \<Rightarrow> 'b on_conn" where
  "then_conn m k st = (case m st of (Inl e, st1) \<Rightarrow> (Inl e, st1) | (Inr x, st1) \<Rightarrow> k x st1)"

definition lift_conn :: "gen_worker_exc + 'a \<Rightarrow> 'a on_conn" where "lift_conn r st = (r, st)"

definition send :: "byte list \<Rightarrow> unit on_conn" where
  "send bs st = (case cn_budget st of
     Some 0 \<Rightarrow> (Inl (WorkerError ''Broken pipe''), st)
   | Some (Suc n) \<Rightarrow> (Inr (), st\<lparr>cn_out := cn_out st @ [bs], cn_budget := Some n\<rparr>)
   | None \<Rightarrow> (Inr (), st\<lparr>cn_out := cn_out st @ [bs]\<rparr>))"

definition send_frame :: "json_codec \<Rightarrow> params \<Rightarrow> unit on_conn" where
  "send_frame c obj = then_conn (lift_conn (map_errE WorkerGen (frame c obj))) send"

fun send_progress :: "json_codec \<Rightarrow> (int \<times> int) list \<Rightarrow> unit on_conn" where
  "send_progress c [] = lift_conn (Inr ())"
| "send_progress c (p # ps) = then_conn (send_frame c (progress_message p)) (\<lambda>_. send_progress c ps)"

section \<open>The artifacts\<close>

text \<open>The path of a job's artifact: a job id that is no string fails in the regular expression.\<close>

definition path_for :: "edge_libs \<Rightarrow> pyval \<Rightarrow> string \<Rightarrow> gen_worker_exc + string" where
  "path_for libs job_id ext = (case job_id of
     PStr i \<Rightarrow> map_errE WorkerPath (artifact_path_for (el_realpath libs) (el_environ libs) i None ext)
   | _ \<Rightarrow> Inl (WorkerRaise TypeError))"

definition write_to :: "string \<Rightarrow> writing \<Rightarrow> unit on_conn" where
  "write_to path wr st =
     (case snd wr of None \<Rightarrow> Inr () | Some e \<Rightarrow> Inl (WorkerError e),
      case fst wr of None \<Rightarrow> st | Some bs \<Rightarrow> st\<lparr>cn_files := (cn_files st)(path \<mapsto> bs)\<rparr>)"

definition write_artifact :: "edge_libs \<Rightarrow> pyval \<Rightarrow> string \<Rightarrow> writing \<Rightarrow> string on_conn" where
  "write_artifact libs job_id ext wr =
     then_conn (lift_conn (path_for libs job_id ext)) (\<lambda>path.
     then_conn (write_to path wr) (\<lambda>_. lift_conn (Inr path)))"

definition write_image_png :: "edge_libs \<Rightarrow> 'x worker \<Rightarrow> 'x list \<Rightarrow> pyval \<Rightarrow> string on_conn" where
  "write_image_png libs wk frames job_id =
     then_conn (lift_conn (path_for libs job_id ''png'')) (\<lambda>path.
     then_conn (case frames of [] \<Rightarrow> lift_conn (Inl (WorkerRaise IndexError)) | f # fs \<Rightarrow> write_to path (wk_png wk f)) (\<lambda>_.
     lift_conn (Inr path)))"

text \<open>\<open>os.path.splitext(p)[0]\<close>: the extension is cut unless only dots precede it in its component.\<close>

definition splitext_root :: "string \<Rightarrow> string" where
  "splitext_root p =
     (let r = rev p;
          ext = takeWhile (\<lambda>c. c \<noteq> CHR ''.'' \<and> c \<noteq> CHR ''/'') r;
          rest = drop (length ext) r
      in case rest of
           c # stem \<Rightarrow> if c = CHR ''.'' \<and> list_ex (\<lambda>d. d \<noteq> CHR ''.'') (takeWhile (\<lambda>d. d \<noteq> CHR ''/'') stem)
                       then rev stem else p
         | [] \<Rightarrow> p)"

text \<open>Muxing replaces the video; a failed run leaves it, and a run that left no file raises.\<close>

definition try_mux :: "'x worker \<Rightarrow> string \<Rightarrow> string \<Rightarrow> bool on_conn" where
  "try_mux wk video_path wav_path st =
     (let out_path = splitext_root video_path @ ''.muxed.mp4'';
          (left, ok) = wk_mux wk (cn_files st video_path) (cn_files st wav_path);
          fs = (case left of None \<Rightarrow> cn_files st | Some bs \<Rightarrow> (cn_files st)(out_path \<mapsto> bs))
      in if \<not> ok then (Inr False, st\<lparr>cn_files := fs\<rparr>)
         else (case fs out_path of
             None \<Rightarrow> (Inl (WorkerError ''No such file or directory''), st\<lparr>cn_files := fs\<rparr>)
           | Some bs \<Rightarrow> (Inr True, st\<lparr>cn_files := (fs(out_path := None))(video_path \<mapsto> bs)\<rparr>)))"

definition write_video_with_audio ::
  "edge_libs \<Rightarrow> 'x worker \<Rightarrow> 'x list \<Rightarrow> 'x option \<Rightarrow> pyval \<Rightarrow> (string \<times> params) on_conn" where
  "write_video_with_audio libs wk frames audio job_id =
     then_conn (write_artifact libs job_id ''mp4'' (wk_mp4 wk frames)) (\<lambda>video_path.
       case audio of
         None \<Rightarrow> lift_conn (Inr (video_path, [(''audio'', PStr ''none'')]))
       | Some a \<Rightarrow> (\<lambda>st.
           let wav_path = splitext_root video_path @ ''.wav'' in
           case write_to wav_path (wk_wav wk a) st of
             (Inl e, st1) \<Rightarrow> (Inr (video_path, [(''audio'', PStr ''none'')]), st1)
           | (Inr _, st1) \<Rightarrow>
               then_conn (try_mux wk video_path wav_path) (\<lambda>muxed st2.
                 if muxed then
                   (Inr (video_path, [(''audio'', PStr ''muxed'')]), st2\<lparr>cn_files := (cn_files st2)(wav_path := None)\<rparr>)
                 else (Inr (video_path, [(''audio'', PStr ''sidecar''), (''audio_path'', PStr wav_path)]), st2)) st1))"

section \<open>Replies\<close>

definition precision_of :: "engine_info option \<Rightarrow> string" where
  "precision_of info = (case info of
     Some i \<Rightarrow> precision_value (ei_precision i) | None \<Rightarrow> ''unknown'')"

definition engine_of :: "engine_info option \<Rightarrow> string \<Rightarrow> string" where
  "engine_of info dflt = (case info of Some i \<Rightarrow> if ei_engine i \<noteq> [] then ei_engine i else dflt | None \<Rightarrow> dflt)"

definition reply_meta :: "engine_info option \<Rightarrow> string \<Rightarrow> int \<Rightarrow> params" where
  "reply_meta info dflt vram =
     [(''engine'', PStr (engine_of info dflt)), (''precision'', PStr (precision_of info)), (''vram_peak_bytes'', PInt vram)]"

definition ok_reply :: "string \<Rightarrow> params \<Rightarrow> params" where
  "ok_reply path meta = [(''ok'', PBool True), (''artifact_path'', PStr path), (''meta'', PDict meta)]"

definition encode_generation_reply ::
  "edge_libs \<Rightarrow> 'x worker \<Rightarrow> pyval \<Rightarrow> string \<Rightarrow> 'x generation_out \<Rightarrow> bool \<Rightarrow> params on_conn" where
  "encode_generation_reply libs wk job_id mode res want_latents =
     (let meta = reply_meta (go_info res) ''diffusers_oracle'' (go_vram_peak_bytes res) in
      then_conn
       (if mode = ''t2i'' then then_conn (write_image_png libs wk (go_frames res) job_id) (\<lambda>p. lift_conn (Inr (p, meta)))
        else if mode = ''t2v_audio'' then
          then_conn (write_video_with_audio libs wk (go_frames res) (go_audio res) job_id)
            (\<lambda>(p, am). lift_conn (Inr (p, dict_merge meta am)))
        else then_conn (write_artifact libs job_id ''mp4'' (wk_mp4 wk (go_frames res))) (\<lambda>p. lift_conn (Inr (p, meta))))
       (\<lambda>(path, meta1).
         case (if want_latents then go_latents res else None) of
           None \<Rightarrow> lift_conn (Inr (ok_reply path meta1))
         | Some l \<Rightarrow> then_conn (write_artifact libs job_id ''npy'' (wk_npy wk l))
                      (\<lambda>lp. lift_conn (Inr (ok_reply path (dict_set ''latents_path'' (PStr lp) meta1))))))"

text \<open>Inverse dynamics without a trajectory has nothing to write: iterating \<open>None\<close> raises.\<close>

definition encode_action_reply :: "edge_libs \<Rightarrow> 'x worker \<Rightarrow> pyval \<Rightarrow> string \<Rightarrow> 'x action_out \<Rightarrow> params on_conn" where
  "encode_action_reply libs wk job_id mode res =
     (let meta = reply_meta (ao_info res) ''diffusers_action'' (ao_vram_peak_bytes res) in
      if mode = ''inverse_dynamics'' then
        then_conn (lift_conn (path_for libs job_id ''json'')) (\<lambda>path.
        then_conn (case ao_trajectory res of None \<Rightarrow> lift_conn (Inl (WorkerRaise TypeError)) | Some t \<Rightarrow> write_to path (wk_json wk t)) (\<lambda>_.
        lift_conn (Inr (ok_reply path meta))))
      else
        then_conn (write_artifact libs job_id ''mp4'' (wk_mp4 wk (ao_frames res))) (\<lambda>path.
          case ao_trajectory res of
            None \<Rightarrow> lift_conn (Inr (ok_reply path meta))
          | Some t \<Rightarrow> then_conn (write_artifact libs job_id ''json'' (wk_json wk t))
                       (\<lambda>tp. lift_conn (Inr (ok_reply path (dict_set ''trajectory_path'' (PStr tp) meta))))))"

section \<open>Dispatching and serving\<close>

definition PIPELINE_MODES :: "string list" where "PIPELINE_MODES = [''t2i'', ''t2v'', ''i2v'', ''t2v_audio'']"

definition run_generation :: "json_codec \<Rightarrow> 'x worker \<Rightarrow> generation_request \<Rightarrow> 'x generation_out on_conn" where
  "run_generation c wk rq =
     (let (ps, outcome) = wk_generate wk rq
      in then_conn (send_progress c ps) (\<lambda>_. lift_conn (map_errE WorkerError outcome)))"

text \<open>The guarded part; only a string can be one of the generation modes.\<close>

definition attempt :: "edge_libs \<Rightarrow> json_codec \<Rightarrow> 'x worker \<Rightarrow> pyval \<Rightarrow> pyval \<Rightarrow> pyval \<Rightarrow> params on_conn" where
  "attempt libs c wk request job_id mode =
     then_conn (lift_conn (map_errE WorkerRaise (py_get request ''kind'' PNone))) (\<lambda>kind.
       case (if kind \<noteq> PStr ''action'' then (case mode of PStr m \<Rightarrow> if m \<in> set PIPELINE_MODES then Some m else None | _ \<Rightarrow> None) else None) of
         Some m \<Rightarrow>
           then_conn (lift_conn (map_errE WorkerRaise (to_generation_request m request))) (\<lambda>rq.
           then_conn (run_generation c wk rq) (\<lambda>res.
           then_conn (lift_conn (map_errE WorkerRaise (py_get request ''want_latents'' PNone))) (\<lambda>wl.
           encode_generation_reply libs wk job_id m res (py_truthy wl))))
       | None \<Rightarrow>
           then_conn (lift_conn (bindE (to_action_request (el_str libs) wk request) (generate_action wk))) (\<lambda>res.
           encode_action_reply libs wk job_id (case mode of PStr m \<Rightarrow> m | _ \<Rightarrow> []) res))"

definition failure_reply :: "'x worker \<Rightarrow> gen_worker_exc \<Rightarrow> params" where
  "failure_reply wk e = [(''ok'', PBool False), (''code'', PStr ''internal_error''), (''message'', PStr (wk_str_exc wk e))]"

definition dispatch_request :: "edge_libs \<Rightarrow> json_codec \<Rightarrow> 'x worker \<Rightarrow> pyval \<Rightarrow> params on_conn" where
  "dispatch_request libs c wk request =
     then_conn (lift_conn (map_errE WorkerRaise (py_item request ''job_id''))) (\<lambda>job_id.
     then_conn (lift_conn (map_errE WorkerRaise (py_item request ''mode''))) (\<lambda>mode st.
       case attempt libs c wk request job_id mode st of
         (Inl e, st1) \<Rightarrow> (Inr (failure_reply wk e), st1)
       | (Inr reply, st1) \<Rightarrow> (Inr reply, st1)))"

definition result_message :: "params \<Rightarrow> params" where
  "result_message reply = dict_merge [(''type'', PStr ''result'')] reply"

text \<open>One accepted connection: whatever fails, the loop goes on.\<close>

definition serve_one :: "edge_libs \<Rightarrow> json_codec \<Rightarrow> 'x worker \<Rightarrow> sock \<Rightarrow> conn \<Rightarrow> conn" where
  "serve_one libs c wk s st =
     (case then_conn (lift_conn (map_errE WorkerGen (unframe c s))) (\<lambda>(request, s1).
           then_conn (dispatch_request libs c wk request) (\<lambda>reply. send_frame c (result_message reply))) st of
        (Inr _, st1) \<Rightarrow> st1
      | (Inl e, st1) \<Rightarrow> snd (send_frame c (result_message (failure_reply wk e)) st1))"

end
