(* ===== verification/Gen_Facts.thy ===== *)
theory Gen_Facts
  imports Gen_Worker "HOL-Library.Code_Target_Nat"
begin

text \<open>
  The two ends of the generation socket together (\<open>Gen_Channel\<close> and \<open>Gen_Worker\<close>): what a connection
  sends, and that the client's work over it gives the worker's answer.
\<close>

section \<open>Sending\<close>

definition frame_of :: "json_codec \<Rightarrow> params \<Rightarrow> byte list" where
  "frame_of c obj = be_bytes 4 (length (jc_dumps c (PDict obj))) @ jc_dumps c (PDict obj)"

lemma frame_lawful: "codec_lawful c obj \<Longrightarrow> frame c obj = Inr (frame_of c obj)"
  by (simp add: codec_lawful_def frame_def frame_of_def Let_def MAX_FRAME_def)

lemma framed_lawful: "\<forall>m \<in> set ms. codec_lawful c m \<Longrightarrow> framed c ms = Inr (concat (map (frame_of c) ms))"
  by (induction ms) (auto simp: frame_lawful)

lemma send_frame_lawful:
  "codec_lawful c obj \<Longrightarrow> cn_budget st = None \<Longrightarrow> send_frame c obj st = (Inr (), st\<lparr>cn_out := cn_out st @ [frame_of c obj]\<rparr>)"
  by (simp add: send_frame_def then_conn_def lift_conn_def send_def frame_lawful)

lemma send_progress_lawful:
  "\<forall>p \<in> set ps. codec_lawful c (progress_message p) \<Longrightarrow> cn_budget st = None \<Longrightarrow>
   send_progress c ps st = (Inr (), st\<lparr>cn_out := cn_out st @ map (\<lambda>p. frame_of c (progress_message p)) ps\<rparr>)"
  by (induction ps arbitrary: st) (simp_all add: lift_conn_def then_conn_def send_frame_lawful)

text \<open>The operations that send nothing.\<close>

named_theorems quiet_intros \<open>operations of a connection that send nothing\<close>

definition quiet :: "'a on_conn \<Rightarrow> bool" where
  "quiet m \<longleftrightarrow> (\<forall>st. cn_out (snd (m st)) = cn_out st \<and> cn_budget (snd (m st)) = cn_budget st)"

lemma quiet_lift [quiet_intros]: "quiet (lift_conn r)"
  by (simp add: quiet_def lift_conn_def)

lemma quiet_then [quiet_intros]: "quiet m \<Longrightarrow> (\<And>x. quiet (k x)) \<Longrightarrow> quiet (then_conn m k)"
  by (auto simp: quiet_def then_conn_def split: prod.splits sum.splits) (metis snd_conv)+

lemma quiet_write [quiet_intros]: "quiet (write_to path wr)"
  by (auto simp: quiet_def write_to_def split: option.splits)

lemma quiet_option [quiet_intros]: "quiet a \<Longrightarrow> (\<And>x. quiet (b x)) \<Longrightarrow> quiet (case v of None \<Rightarrow> a | Some x \<Rightarrow> b x)"
  by (cases v) auto

lemma quiet_prod [quiet_intros]: "(\<And>x y. quiet (b x y)) \<Longrightarrow> quiet (case v of (x, y) \<Rightarrow> b x y)"
  by (cases v) auto

lemma quiet_artifact [quiet_intros]: "quiet (write_artifact libs job_id ext wr)"
  unfolding write_artifact_def by (intro quiet_intros)

lemma quiet_png [quiet_intros]: "quiet (write_image_png libs wk frames job_id)"
  unfolding write_image_png_def by (cases frames) (auto intro!: quiet_intros)

lemma quiet_mux [quiet_intros]: "quiet (try_mux wk v w)"
  by (auto simp: quiet_def try_mux_def Let_def split: prod.splits option.splits)

lemma quiet_catch: "quiet m \<Longrightarrow> quiet k \<Longrightarrow> quiet (\<lambda>st. case m st of (Inl e, st1) \<Rightarrow> (r, st1) | (Inr x, st1) \<Rightarrow> k st1)"
  unfolding quiet_def by (simp split: prod.split sum.split) (metis snd_conv)

lemma quiet_audio [quiet_intros]: "quiet (write_video_with_audio libs wk frames audio job_id)"
proof -
  have muxed: "quiet (then_conn (try_mux wk v w) (\<lambda>muxed st2. if muxed
      then (Inr (v, x), st2\<lparr>cn_files := (cn_files st2)(w := None)\<rparr>) else (Inr (v, y), st2)))" for v w :: string and x y :: params
    by (rule quiet_then [OF quiet_mux]) (auto simp: quiet_def)
  have "quiet (\<lambda>st. let wav_path = splitext_root v @ ''.wav'' in
           case write_to wav_path (wk_wav wk a) st of
             (Inl e, st1) \<Rightarrow> (Inr (v, [(''audio'', PStr ''none'')]), st1)
           | (Inr _, st1) \<Rightarrow>
               then_conn (try_mux wk v wav_path) (\<lambda>muxed st2.
                 if muxed then
                   (Inr (v, [(''audio'', PStr ''muxed'')]), st2\<lparr>cn_files := (cn_files st2)(wav_path := None)\<rparr>)
                 else (Inr (v, [(''audio'', PStr ''sidecar''), (''audio_path'', PStr wav_path)]), st2)) st1)" for a v
    unfolding Let_def by (intro quiet_catch quiet_write muxed)
  then show ?thesis
    unfolding write_video_with_audio_def by (intro quiet_then quiet_artifact quiet_option quiet_lift)
qed

lemma quiet_generation_reply [quiet_intros]: "quiet (encode_generation_reply libs wk job_id mode res wl)"
proof -
  have "quiet (if a then x else if b then y else z)" if "quiet x" "quiet y" "quiet z" for a b and x y z :: "(string \<times> params) on_conn"
    using that by simp
  then show ?thesis
    unfolding encode_generation_reply_def Let_def by (intro quiet_intros) (auto intro!: quiet_intros)
qed

lemma quiet_action_reply [quiet_intros]: "quiet (encode_action_reply libs wk job_id mode res)"
  unfolding encode_action_reply_def Let_def
  by (cases "mode = ''inverse_dynamics''") (auto intro!: quiet_intros)

section \<open>What a request sends and answers\<close>

text \<open>
  The progress of a request: what the engine reports while it runs the generation that was asked for,
  and nothing for an action, or for a request that never reaches the engine.
\<close>

definition engine_progress :: "'x worker \<Rightarrow> pyval \<Rightarrow> pyval \<Rightarrow> (int \<times> int) list" where
  "engine_progress wk request mode = (case (py_get request ''kind'' PNone, mode) of
     (Inr kind, PStr m) \<Rightarrow>
       if kind \<noteq> PStr ''action'' \<and> m \<in> set PIPELINE_MODES
       then (case to_generation_request m request of Inl e \<Rightarrow> [] | Inr rq \<Rightarrow> fst (wk_generate wk rq)) else []
   | _ \<Rightarrow> [])"

definition sends :: "json_codec \<Rightarrow> (int \<times> int) list \<Rightarrow> 'a on_conn \<Rightarrow> bool" where
  "sends c ps m \<longleftrightarrow> (\<forall>st. cn_budget st = None \<longrightarrow>
     cn_out (snd (m st)) = cn_out st @ map (\<lambda>p. frame_of c (progress_message p)) ps \<and> cn_budget (snd (m st)) = None)"

lemma sends_quiet: "quiet m \<Longrightarrow> sends c [] m"
  by (simp add: quiet_def sends_def)

lemma sends_raise: "sends c [] (then_conn (lift_conn (Inl e)) k)"
  by (simp add: then_conn_def lift_conn_def sends_def)

lemma sends_return: "sends c ps (then_conn (lift_conn (Inr x)) k) = sends c ps (k x)"
  by (simp add: then_conn_def lift_conn_def sends_def)

lemma sends_then_quiet:
  assumes "sends c ps m" "\<And>x. quiet (k x)"
  shows "sends c ps (then_conn m k)"
proof -
  have "cn_out (snd (then_conn m k st)) = cn_out (snd (m st)) \<and> cn_budget (snd (then_conn m k st)) = cn_budget (snd (m st))" for st
    using assms(2) by (cases "m st") (auto simp: then_conn_def quiet_def split: sum.split)
  then show ?thesis using assms(1) unfolding sends_def by metis
qed

lemma sends_run:
  assumes "\<forall>rq. \<forall>p \<in> set (fst (wk_generate wk rq)). codec_lawful c (progress_message p)"
  shows "sends c (fst (wk_generate wk rq)) (run_generation c wk rq)"
proof -
  obtain ps outcome where run: "wk_generate wk rq = (ps, outcome)" by force
  then have lawful: "\<forall>p \<in> set ps. codec_lawful c (progress_message p)" using assms by (metis fst_conv)
  show ?thesis
    unfolding sends_def run_generation_def run Let_def
    by (auto simp: then_conn_def lift_conn_def send_progress_lawful [OF lawful])
qed

lemma sends_attempt:
  assumes "\<forall>rq. \<forall>p \<in> set (fst (wk_generate wk rq)). codec_lawful c (progress_message p)"
  shows "sends c (engine_progress wk request mode) (attempt libs c wk request job_id mode)"
proof (cases "py_get request ''kind'' PNone")
  case (Inl e)
  then show ?thesis by (simp add: attempt_def engine_progress_def sends_raise)
next
  case (Inr kind)
  define pick where "pick = (if kind \<noteq> PStr ''action'' then (case mode of PStr m \<Rightarrow> if m \<in> set PIPELINE_MODES then Some m else None | _ \<Rightarrow> None) else None)"
  show ?thesis
  proof (cases pick)
    case None
    have "engine_progress wk request mode = []"
      using None Inr by (auto simp: pick_def engine_progress_def split: if_splits pyval.splits)
    moreover have "sends c [] (then_conn (lift_conn a) (\<lambda>res. encode_action_reply libs wk job_id m res))" for a m
      by (intro sends_quiet quiet_intros)
    ultimately show ?thesis using None Inr by (simp add: attempt_def sends_return pick_def)
  next
    case (Some m)
    then have m: "mode = PStr m" "kind \<noteq> PStr ''action''" "m \<in> set PIPELINE_MODES"
      by (auto simp: pick_def split: if_splits pyval.splits)
    have "sends c (case to_generation_request m request of Inl e \<Rightarrow> [] | Inr rq \<Rightarrow> fst (wk_generate wk rq))
        (then_conn (lift_conn (map_errE WorkerRaise (to_generation_request m request))) (\<lambda>rq. then_conn (run_generation c wk rq) (\<lambda>res.
          then_conn (lift_conn w) (\<lambda>wl. encode_generation_reply libs wk job_id m res (py_truthy wl)))))" for w
      by (cases "to_generation_request m request")
         (auto simp: sends_raise sends_return intro!: sends_then_quiet sends_run [OF assms] quiet_intros)
    then show ?thesis using Inr m by (simp add: attempt_def sends_return engine_progress_def)
  qed
qed

lemma engine_progress_cases: "engine_progress wk request mode = [] \<or> (\<exists>rq. engine_progress wk request mode = fst (wk_generate wk rq))"
proof (cases "\<exists>kind m rq. py_get request ''kind'' PNone = Inr kind \<and> mode = PStr m \<and> to_generation_request m request = Inr rq")
  case True
  then obtain kind m rq where "py_get request ''kind'' PNone = Inr kind" "mode = PStr m" "to_generation_request m request = Inr rq" by blast
  then have "engine_progress wk request mode \<in> {[], fst (wk_generate wk rq)}" by (simp add: engine_progress_def)
  then show ?thesis by blast
next
  case False
  then show ?thesis
    by (cases "py_get request ''kind'' PNone"; cases mode) (auto simp: engine_progress_def split: sum.split)
qed

lemma engine_progress_ok:
  assumes "\<forall>rq. \<forall>p \<in> set (fst (wk_generate wk rq)). P p"
  shows "\<forall>p \<in> set (engine_progress wk request mode). P p"
  using engine_progress_cases [of wk request mode] assms by auto

text \<open>Every success of a request is a reply with a path and metadata.\<close>

definition replies :: "params on_conn \<Rightarrow> bool" where
  "replies m \<longleftrightarrow> (\<forall>st r st1. m st = (Inr r, st1) \<longrightarrow> (\<exists>path meta. r = ok_reply path meta))"

lemma replies_then: "(\<And>x. replies (k x)) \<Longrightarrow> replies (then_conn m k)"
  by (auto simp: replies_def then_conn_def split: prod.splits sum.splits)

lemma replies_lift: "replies (lift_conn (Inr (ok_reply path meta)))"
  by (auto simp: replies_def lift_conn_def)

lemma replies_option: "replies x \<Longrightarrow> (\<And>a. replies (y a)) \<Longrightarrow> replies (case v of None \<Rightarrow> x | Some a \<Rightarrow> y a)"
  by (cases v) auto

lemma replies_prod: "(\<And>x y. replies (b x y)) \<Longrightarrow> replies (case v of (x, y) \<Rightarrow> b x y)"
  by (cases v) auto

lemmas replies_intros = replies_then replies_lift replies_option replies_prod

lemma replies_generation: "replies (encode_generation_reply libs wk job_id mode res wl)"
  unfolding encode_generation_reply_def Let_def by (intro replies_intros)

lemma replies_action: "replies (encode_action_reply libs wk job_id mode res)"
  unfolding encode_action_reply_def Let_def
  by (cases "mode = ''inverse_dynamics''") (auto intro!: replies_intros)

lemma replies_attempt: "replies (attempt libs c wk request job_id mode)"
  unfolding attempt_def by (intro replies_intros replies_generation replies_action)

section \<open>From the client's call to the worker's answer\<close>

text \<open>What the client's job becomes when the guarded part of the worker ended with \<open>r\<close>.\<close>

definition answer_of :: "'x worker \<Rightarrow> gen_worker_exc + params \<Rightarrow> params" where
  "answer_of wk r = (case r of Inl e \<Rightarrow> failure_reply wk e | Inr reply \<Rightarrow> reply)"

lemma attempt_answer:
  obtains (failed) e where "fst (attempt libs c wk request j m st) = Inl e"
      "answer_of wk (fst (attempt libs c wk request j m st)) = failure_reply wk e"
  | (answered) path meta where "fst (attempt libs c wk request j m st) = Inr (ok_reply path meta)"
      "answer_of wk (fst (attempt libs c wk request j m st)) = ok_reply path meta"
proof (cases "fst (attempt libs c wk request j m st)")
  case (Inl e)
  with failed show thesis by (simp add: answer_of_def)
next
  case (Inr reply)
  then have "attempt libs c wk request j m st = (Inr reply, snd (attempt libs c wk request j m st))"
    by (metis prod.collapse)
  then obtain path meta where "reply = ok_reply path meta"
    using replies_attempt [of libs c wk request j m] unfolding replies_def by blast
  with Inr answered show thesis by (simp add: answer_of_def)
qed

text \<open>The outcome of the job for the client.\<close>

definition job_outcome :: "'x worker \<Rightarrow> gen_worker_exc + params \<Rightarrow> gen_exc + gen_result" where
  "job_outcome wk r = (case r of
     Inl e \<Rightarrow> Inl (GenWorkerError (PStr ''internal_error'') (PStr (wk_str_exc wk e))) | Inr reply \<Rightarrow> result_of (PDict reply))"

lemma result_message_outcome:
  assumes "r = fst (attempt libs c wk request j m st)"
  shows "dict_get (result_message (answer_of wk r)) ''type'' = Some (PStr ''result'')"
    and "result_of (PDict (result_message (answer_of wk r))) = job_outcome wk r"
  unfolding assms
  by (cases rule: attempt_answer [of libs c wk request j m st],
      simp_all add: result_message_def dict_merge_def failure_reply_def ok_reply_def result_of_def py_get_def py_item_def job_outcome_def)+

lemma serve_one_out:
  assumes "unframe c s = Inr (PDict request, s1)" "dict_get request ''job_id'' = Some j" "dict_get request ''mode'' = Some m"
    and "\<forall>rq. \<forall>p \<in> set (fst (wk_generate wk rq)). codec_lawful c (progress_message p)" "cn_budget st = None"
    and "codec_lawful c (result_message (answer_of wk (fst (attempt libs c wk (PDict request) j m st))))"
  shows "cn_out (serve_one libs c wk s st) = cn_out st @
    map (\<lambda>p. frame_of c (progress_message p)) (engine_progress wk (PDict request) m) @
    [frame_of c (result_message (answer_of wk (fst (attempt libs c wk (PDict request) j m st))))]"
proof -
  obtain r st1 where r: "attempt libs c wk (PDict request) j m st = (r, st1)" by force
  have ps: "cn_out st1 = cn_out st @ map (\<lambda>p. frame_of c (progress_message p)) (engine_progress wk (PDict request) m)" "cn_budget st1 = None"
    using sends_attempt [OF assms(4), of "PDict request" m libs j] assms(5) unfolding sends_def by (metis r snd_conv)+
  have "dispatch_request libs c wk (PDict request) st = (Inr (answer_of wk r), st1)"
    using r assms(2,3) by (simp add: dispatch_request_def then_conn_def lift_conn_def py_item_def answer_of_def split: sum.split)
  then have "serve_one libs c wk s st = st1\<lparr>cn_out := cn_out st1 @ [frame_of c (result_message (answer_of wk r))]\<rparr>"
    using assms(1,6) ps(2) r by (simp add: serve_one_def then_conn_def lift_conn_def send_frame_lawful)
  then show ?thesis using ps r by auto
qed

lemma add_paths_keeps:
  "add_paths libs al ps keys request = Inr out \<Longrightarrow> k \<notin> set keys \<Longrightarrow> dict_get out k = dict_get request k"
  by (induction keys arbitrary: request) (auto simp: result_simps split: if_splits)

lemma build_request_fields:
  assumes "build_request libs job al wl = Inr request"
  shows "dict_get request ''job_id'' = Some (PStr (jr_id job))" "dict_get request ''mode'' = Some (PStr (jr_mode job))"
  using add_paths_keeps [OF assms [unfolded build_request_def], of "''job_id''"]
    add_paths_keeps [OF assms [unfolded build_request_def], of "''mode''"] by simp_all

text \<open>
  C6: The socket is transparent: when the request is built and the connection is open, the runner's
  work over the channel ends exactly as the worker's guarded run of that request did (its artifact and
  metadata, or a typed \<open>internal_error\<close> with the text of whatever it raised), reporting 0, then exactly
  the progress the engine made on that request, every step of it in order, then 1, however the two
  streams are cut into pieces.
\<close>

theorem generation_end_to_end:
  fixes st :: conn and job :: job_record
  assumes "py_float (el_parse_float libs) (PStr (env_get (el_environ libs) ''COSMOS3_GEN_TIMEOUT'' ''2400'')) = Inr timeout"
    and "build_request libs job (input_allowlist (el_environ libs)) (dict_get (el_environ libs) ''COSMOS3_WANT_LATENTS'' = Some ''1'') = Inr request"
    and "cn_out st = []" "cn_budget st = None"
    and "\<And>p t w. gh_connect host p t w = (Inr (), w)" "\<And>f w. gh_report host f w = (Inr (), w @ [f])"
    and "\<And>bs w. gh_send host bs w = (Inr \<lparr>sk_data = concat (cn_out (serve_one wlibs c wk \<lparr>sk_data = bs, sk_sizes = cuts, sk_failure = None\<rparr> st)),
           sk_sizes = cuts', sk_failure = None\<rparr>, w)"
    and "codec_lawful c request" "\<forall>rq. \<forall>p \<in> set (fst (wk_generate wk rq)). step_ok p \<and> codec_lawful c (progress_message p)"
    and "codec_lawful c (result_message (answer_of wk (fst (attempt wlibs c wk (PDict request) (PStr (jr_id job)) (PStr (jr_mode job)) st))))"
  shows "gen_work libs c host job w =
    (job_outcome wk (fst (attempt wlibs c wk (PDict request) (PStr (jr_id job)) (PStr (jr_mode job)) st)),
     w @ [Finite 0] @ map fraction_of (engine_progress wk (PDict request) (PStr (jr_mode job))) @ [Finite 1])"
proof -
  define r where "r = fst (attempt wlibs c wk (PDict request) (PStr (jr_id job)) (PStr (jr_mode job)) st)"
  define ps where "ps = engine_progress wk (PDict request) (PStr (jr_mode job))"
  let ?msg = "result_message (answer_of wk r)"
  note msg = result_message_outcome [OF r_def]
  have lawful: "codec_lawful c ?msg" using assms(10) by (simp add: r_def)
  obtain s1 where s1: "unframe c \<lparr>sk_data = frame_of c request, sk_sizes = cuts, sk_failure = None\<rparr> = Inr (PDict request, s1)"
    using unframe_frame [OF assms(8) frame_lawful [OF assms(8)], of "\<lparr>sk_data = frame_of c request, sk_sizes = cuts, sk_failure = None\<rparr>" "[]"] by auto
  have progress: "\<forall>rq. \<forall>p \<in> set (fst (wk_generate wk rq)). codec_lawful c (progress_message p)" using assms(9) by blast
  have out: "cn_out (serve_one wlibs c wk \<lparr>sk_data = frame_of c request, sk_sizes = cuts, sk_failure = None\<rparr> st) =
      map (\<lambda>p. frame_of c (progress_message p)) ps @ [frame_of c ?msg]"
    using serve_one_out [OF s1 build_request_fields [OF assms(2)] progress assms(4) assms(10)] assms(3) by (simp add: r_def ps_def)
  have ok: "list_all step_ok ps" "\<forall>m \<in> set (map progress_message ps @ [?msg]). codec_lawful c m"
    using engine_progress_ok [of wk "\<lambda>p. step_ok p \<and> codec_lawful c (progress_message p)" "PDict request" "PStr (jr_mode job)"]
      assms(9) lawful by (auto simp: ps_def list_all_iff)
  have framed: "framed c (map progress_message ps @ [?msg]) = Inr (concat (map (\<lambda>p. frame_of c (progress_message p)) ps @ [frame_of c ?msg]))"
    using framed_lawful [OF ok(2)] by (simp add: comp_def)
  have reports: "report_all (gh_report host) fs v = (Inr (), v @ fs)" for fs v
    using assms(6) by (induction fs arbitrary: v) simp_all
  have "read_reply c (gh_report host) \<lparr>sk_data = concat (map (\<lambda>p. frame_of c (progress_message p)) ps @ [frame_of c ?msg]), sk_sizes = cuts', sk_failure = None\<rparr> v =
      (Inr (PDict ?msg), v @ map fraction_of ps)" for v
    by (subst read_progress_stream [OF ok framed, where rest = "[]"]) (simp_all add: reports msg(1))
  then show ?thesis
    using assms(1,2,5-8) out msg(2) by (simp add: gen_work_def then_gen_def lift_gen_def frame_lawful r_def ps_def)
qed

section \<open>An image over the channel\<close>

definition demo_channel_libs :: edge_libs where
  "demo_channel_libs = demo_libs\<lparr>el_parse_float := (\<lambda>s. Inr (Finite 2400))\<rparr>"

definition demo_image_job :: job_record where
  "demo_image_job = new_job ''j1'' ''t2i'' GENERATION ''now'' [(''prompt'', PStr ''a cat'')] None"

definition demo_request :: params where
  "demo_request = [(''job_id'', PStr ''j1''), (''kind'', PStr ''generation''), (''mode'', PStr ''t2i''),
     (''params'', PDict [(''prompt'', PStr ''a cat'')]), (''checkpoint'', PStr ''nvfp4''), (''want_latents'', PBool False)]"

definition demo_worker :: "nat worker" where
  "demo_worker = \<lparr>wk_generate = (\<lambda>rq. ([(1, 2)], Inr \<lparr>go_case_id = PStr ''j1'', go_frames = [7], go_audio = None, go_latents = None, go_vram_peak_bytes = 0, go_info = None\<rparr>)),
     wk_act = (\<lambda>rq. Inl ''no action head''), wk_tensor = (\<lambda>v. Inl ''no tensors''), wk_shape = (\<lambda>x. None),
     wk_png = (\<lambda>x. (Some [1], None)), wk_mp4 = (\<lambda>xs. (None, Some ''no codec'')), wk_wav = (\<lambda>x. (None, None)),
     wk_npy = (\<lambda>x. (None, None)), wk_json = (\<lambda>x. (None, None)), wk_mux = (\<lambda>v w. (None, False)), wk_str_exc = (\<lambda>e. ''failed'')\<rparr>"

definition demo_reply :: params where
  "demo_reply = ok_reply ''/srv/artifacts/j1.png'' (reply_meta None ''diffusers_oracle'' 0)"

definition demo_wire :: json_codec where
  "demo_wire = \<lparr>jc_dumps = (\<lambda>v. if v = PDict demo_request then [1] else if v = PDict (progress_message (1, 2)) then [2] else [3]),
     jc_loads = (\<lambda>bs. Inr (PDict (if bs = [1] then demo_request else if bs = [2] then progress_message (1, 2) else result_message demo_reply)))\<rparr>"

definition demo_conn :: conn where
  "demo_conn = \<lparr>cn_out = [], cn_budget = None, cn_files = (\<lambda>p. None)\<rparr>"

definition demo_channel :: "pyfloat list gen_host" where
  "demo_channel = \<lparr>gh_connect = (\<lambda>p t w. (Inr (), w)),
     gh_send = (\<lambda>bs w. (Inr \<lparr>sk_data = concat (cn_out (serve_one demo_channel_libs demo_wire demo_worker \<lparr>sk_data = bs, sk_sizes = [0, 0], sk_failure = None\<rparr> demo_conn)),
        sk_sizes = [2], sk_failure = None\<rparr>, w)),
     gh_report = (\<lambda>f w. (Inr (), w @ [f]))\<rparr>"

lemma demo_attempt:
  "fst (attempt demo_channel_libs demo_wire demo_worker (PDict demo_request) (PStr ''j1'') (PStr ''t2i'') demo_conn) = Inr demo_reply"
  by code_simp

lemma generation_end_to_end_witness:
  "gen_work demo_channel_libs demo_wire demo_channel demo_image_job [] =
     (Inr \<lparr>gr_artifact_path = PStr ''/srv/artifacts/j1.png'', gr_meta = PDict (reply_meta None ''diffusers_oracle'' 0)\<rparr>,
      [Finite 0, Finite (1 / 2), Finite 1])"
proof -
  have timeout: "py_float (el_parse_float demo_channel_libs) (PStr (env_get (el_environ demo_channel_libs) ''COSMOS3_GEN_TIMEOUT'' ''2400'')) = Inr (Finite 2400)"
    by (simp add: py_float_def demo_channel_libs_def)
  have request: "build_request demo_channel_libs demo_image_job (input_allowlist (el_environ demo_channel_libs))
      (dict_get (el_environ demo_channel_libs) ''COSMOS3_WANT_LATENTS'' = Some ''1'') = Inr demo_request"
    by (simp add: build_request_def demo_image_job_def new_job_def demo_request_def demo_channel_libs_def demo_libs_def get_truthy_def ACTION_MODES_def)
  have wire: "codec_lawful demo_wire demo_request" "codec_lawful demo_wire (progress_message (1, 2))" "codec_lawful demo_wire (result_message demo_reply)"
    by (simp_all add: codec_lawful_def demo_wire_def MAX_FRAME_def demo_request_def progress_message_def result_message_def demo_reply_def ok_reply_def dict_merge_def)
  have job: "jr_id demo_image_job = ''j1''" "jr_mode demo_image_job = ''t2i''" by (simp_all add: demo_image_job_def new_job_def)
  have steps: "\<forall>rq. \<forall>p \<in> set (fst (wk_generate demo_worker rq)). step_ok p \<and> codec_lawful demo_wire (progress_message p)"
    using wire(2) by (simp add: demo_worker_def step_ok_def)
  have out: "job_outcome demo_worker (Inr demo_reply) =
      Inr \<lparr>gr_artifact_path = PStr ''/srv/artifacts/j1.png'', gr_meta = PDict (reply_meta None ''diffusers_oracle'' 0)\<rparr>"
    by (simp add: job_outcome_def result_of_def demo_reply_def ok_reply_def py_get_def py_item_def)
  have answer: "codec_lawful demo_wire (result_message (answer_of demo_worker (fst (attempt demo_channel_libs demo_wire demo_worker
      (PDict demo_request) (PStr (jr_id demo_image_job)) (PStr (jr_mode demo_image_job)) demo_conn))))"
    using wire(3) by (simp add: job demo_attempt answer_of_def)
  have "gen_work demo_channel_libs demo_wire demo_channel demo_image_job [] =
      (job_outcome demo_worker (fst (attempt demo_channel_libs demo_wire demo_worker (PDict demo_request) (PStr (jr_id demo_image_job))
        (PStr (jr_mode demo_image_job)) demo_conn)),
       [] @ [Finite 0] @ map fraction_of (engine_progress demo_worker (PDict demo_request) (PStr (jr_mode demo_image_job))) @ [Finite 1])"
    by (rule generation_end_to_end [where cuts = "[0, 0]" and cuts' = "[2]", OF timeout request _ _ _ _ _ wire(1) steps answer])
      (simp_all add: demo_conn_def demo_channel_def)
  moreover have "map fraction_of (engine_progress demo_worker (PDict demo_request) (PStr ''t2i'')) = [Finite (1 / 2)]" by code_simp
  ultimately show ?thesis by (simp add: job demo_attempt out)
qed

end
