(* ===== verification/Checkpoint_Mutation.thy ===== *)
theory Checkpoint_Mutation
  imports Safetensors
begin

text \<open>
  The pure core of the FP8 checkpoint mutation (\<open>tools/checkpoint_prep/mutation.py\<close>): which tensors are
  kept, dropped and added, the contiguous layout of the new file, and the updated sidecars. Python
  keeps the tensor names in a set, which has no order; the model lists them in the header's order.
\<close>

section \<open>Names\<close>

definition ACTION_TENSORS :: "string list" where
  "ACTION_TENSORS = [''action_modality_embed'', ''action_proj_in.bias.weight'', ''action_proj_in.fc.weight'',
     ''action_proj_out.bias.weight'', ''action_proj_out.fc.weight'']"

definition DROPPED_LMHEAD :: "string list" where
  "DROPPED_LMHEAD = [''lm_head.weight'', ''lm_head.weight_quantizer._amax'', ''lm_head.weight_quantizer._scale'']"

definition ADDED_TENSORS :: "string list" where
  "ADDED_TENSORS = ACTION_TENSORS @ [''lm_head.weight'']"

type_synonym tensors = "(string, tensor_meta) dict"

record mutation_plan =
  mp_keep :: "string list"
  mp_drop :: "string list"
  mp_add :: "string list"

record layout =
  ly_order :: "string list"
  ly_entries :: tensors
  ly_header_len :: nat
  ly_data_len :: int

section \<open>Expected shapes\<close>

definition cfg_int :: "params \<Rightarrow> string \<Rightarrow> ck_exc + int" where
  "cfg_int cfg k = (case dict_get cfg k of
     None \<Rightarrow> Inl (CkRaise KeyError) | Some (PInt i) \<Rightarrow> Inr i | Some v \<Rightarrow> Inl (CkRaise TypeError))"

definition expected_shapes :: "params \<Rightarrow> ck_exc + (string, int list) dict" where
  "expected_shapes cfg =
     bindE (cfg_int cfg ''hidden_size'') (\<lambda>h.
     bindE (cfg_int cfg ''action_dim'') (\<lambda>d.
     bindE (cfg_int cfg ''num_embodiment_domains'') (\<lambda>n.
     mapE (\<lambda>v.
       [(''action_modality_embed'', [h]),
        (''action_proj_in.bias.weight'', [n, h]),
        (''action_proj_in.fc.weight'', [n, d * h]),
        (''action_proj_out.bias.weight'', [n, d]),
        (''action_proj_out.fc.weight'', [n, d * h]),
        (''lm_head.weight'', [v, h])])
      (cfg_int cfg ''vocab_size''))))"

section \<open>The plan\<close>

definition already_mutated :: "tensors \<Rightarrow> bool" where
  "already_mutated fp8 \<longleftrightarrow>
     set ACTION_TENSORS \<subseteq> set (dict_keys fp8) \<and>
     (case dict_get fp8 ''lm_head.weight'' of None \<Rightarrow> False | Some m \<Rightarrow> tm_dtype m = ''BF16'')"

definition check_added :: "tensors \<Rightarrow> (string, int list) dict \<Rightarrow> string \<Rightarrow> ck_exc option" where
  "check_added src shapes name =
     (case dict_get src name of
        None \<Rightarrow> Some (MutationError [MLit ''missing BF16 source tensor: '', MStr name])
      | Some m \<Rightarrow>
          if tm_dtype m \<noteq> ''BF16'' then
            Some (MutationError [MLit ''source tensor '', MStr name, MLit '' dtype '', MRepr (tm_dtype m), MLit '' != BF16 (R-11)''])
          else (case dict_get shapes name of
            None \<Rightarrow> None
          | Some sh \<Rightarrow>
              if tm_shape m \<noteq> sh then
                Some (MutationError [MLit ''source tensor '', MStr name, MLit '' shape '', MInts (tm_shape m),
                  MLit '' != config-expected '', MInts sh, MLit '' (R-11)''])
              else None))"

fun first_error :: "('a \<Rightarrow> 'e option) \<Rightarrow> 'a list \<Rightarrow> 'e option" where
  "first_error f [] = None"
| "first_error f (x # xs) = (case f x of Some e \<Rightarrow> Some e | None \<Rightarrow> first_error f xs)"

definition plan_mutation :: "tensors \<Rightarrow> tensors \<Rightarrow> params \<Rightarrow> ck_exc + mutation_plan" where
  "plan_mutation fp8 src cfg =
     (if already_mutated fp8 then
        Inl (MutationError [MLit ''checkpoint already mutated: action tensors present and lm_head is BF16 (refusing to double-apply)''])
      else bindE (expected_shapes cfg) (\<lambda>shapes.
        case first_error (check_added src shapes) ADDED_TENSORS of
          Some e \<Rightarrow> Inl e
        | None \<Rightarrow> Inr
            \<lparr>mp_keep = filter (\<lambda>n. n \<notin> set DROPPED_LMHEAD) (dict_keys fp8),
             mp_drop = filter (\<lambda>n. n \<in> set (dict_keys fp8)) DROPPED_LMHEAD,
             mp_add = ADDED_TENSORS\<rparr>))"

section \<open>The layout\<close>

definition tensor_size :: "tensor_meta \<Rightarrow> int" where
  "tensor_size m = snd (tm_offsets m) - fst (tm_offsets m)"

definition layout_source :: "mutation_plan \<Rightarrow> tensors \<Rightarrow> tensors \<Rightarrow> string \<Rightarrow> ck_exc + tensor_meta" where
  "layout_source plan fp8 src name =
     (case (if name \<in> set (mp_keep plan) then dict_get fp8 name else None) of
        Some m \<Rightarrow> Inr m
      | None \<Rightarrow> (case dict_get src name of None \<Rightarrow> Inl (CkRaise KeyError) | Some m \<Rightarrow> Inr m))"

fun lay_out :: "(string \<Rightarrow> ck_exc + tensor_meta) \<Rightarrow> string list \<Rightarrow> int \<Rightarrow> tensors \<Rightarrow> ck_exc + (tensors \<times> int)" where
  "lay_out source [] cursor entries = Inr (entries, cursor)"
| "lay_out source (name # names) cursor entries =
     bindE (source name) (\<lambda>m.
       lay_out source names (cursor + tensor_size m)
         (dict_set name \<lparr>tm_dtype = tm_dtype m, tm_shape = tm_shape m,
                         tm_offsets = (cursor, cursor + tensor_size m)\<rparr> entries))"

definition start_of :: "tensors \<Rightarrow> string \<Rightarrow> int" where
  "start_of fp8 name = (case dict_get fp8 name of None \<Rightarrow> 0 | Some m \<Rightarrow> fst (tm_offsets m))"

definition emission_order :: "mutation_plan \<Rightarrow> tensors \<Rightarrow> string list" where
  "emission_order plan fp8 = sort_key (start_of fp8) (mp_keep plan) @ mp_add plan"

definition build_layout :: "(header \<Rightarrow> byte list) \<Rightarrow> mutation_plan \<Rightarrow> tensors \<Rightarrow> tensors \<Rightarrow> ck_exc + layout" where
  "build_layout dumps plan fp8 src =
     bindE (lay_out (layout_source plan fp8 src) (emission_order plan fp8) 0 []) (\<lambda>(entries, total).
     mapE (\<lambda>hb. \<lparr>ly_order = emission_order plan fp8, ly_entries = entries,
                  ly_header_len = length hb - 8, ly_data_len = total\<rparr>)
       (build_header_bytes dumps entries None))"

section \<open>Sidecars\<close>

text \<open>Iteration, subtraction and item assignment of parsed JSON, with the errors they raise.\<close>

definition py_iter :: "pyval \<Rightarrow> py_exc + pyval list" where
  "py_iter v = (case v of
     PList xs \<Rightarrow> Inr xs | PStr s \<Rightarrow> Inr (map (\<lambda>c. PStr [c]) s) | PDict d \<Rightarrow> Inr (map (PStr \<circ> fst) d)
   | _ \<Rightarrow> Inl TypeError)"

definition py_minus :: "pyval \<Rightarrow> int \<Rightarrow> py_exc + pyval" where
  "py_minus v k = (case v of
     PInt i \<Rightarrow> Inr (PInt (i - k)) | PBool b \<Rightarrow> Inr (PInt ((if b then 1 else 0) - k))
   | PFloat (Finite r) \<Rightarrow> Inr (PFloat (Finite (r - of_int k))) | PFloat f \<Rightarrow> Inr (PFloat f)
   | _ \<Rightarrow> Inl TypeError)"

definition py_twice :: "pyval \<Rightarrow> pyval" where
  "py_twice v = (case v of
     PInt i \<Rightarrow> PInt (2 * i) | PFloat (Finite r) \<Rightarrow> PFloat (Finite (2 * r)) | _ \<Rightarrow> v)"

definition as_dict :: "pyval \<Rightarrow> py_exc + params" where
  "as_dict v = (case v of PDict d \<Rightarrow> Inr d | _ \<Rightarrow> Inl AttributeError)"

text \<open>\<open>if k in d: d[k] = d[k] - n\<close>.\<close>

definition lower_if_present :: "string \<Rightarrow> int \<Rightarrow> params \<Rightarrow> py_exc + params" where
  "lower_if_present k n d = (case dict_get d k of
     None \<Rightarrow> Inr d | Some v \<Rightarrow> mapE (\<lambda>x. dict_set k x d) (py_minus v n))"

definition update_mixed :: "params \<Rightarrow> py_exc + params" where
  "update_mixed mp =
     bindE (py_iter (case dict_get mp ''quantized'' of None \<Rightarrow> PList [] | Some v \<Rightarrow> v)) (\<lambda>xs.
     lower_if_present ''n_quantized'' 1
       (dict_set ''quantized'' (PList (filter (\<lambda>p. p \<noteq> PStr ''lm_head'') xs)) mp))"

definition example_kept :: "string \<times> pyval \<Rightarrow> bool" where
  "example_kept kv = (case snd kv of
     PDict d \<Rightarrow> dict_get d ''module_example'' \<noteq> Some (PStr ''lm_head'') | _ \<Rightarrow> True)"

definition update_scale_layout :: "int \<Rightarrow> params \<Rightarrow> py_exc + params" where
  "update_scale_layout dropped sl =
     bindE (lower_if_present ''n_quantized_weight'' 1 sl) (\<lambda>sl1.
     bindE (lower_if_present ''total_scale_elements'' dropped
        (case dict_get sl1 ''n_quantized_weight'' of
           None \<Rightarrow> sl1 | Some v \<Rightarrow> dict_set ''n_scale'' (py_twice v) sl1)) (\<lambda>sl2.
     Inr (case dict_get sl2 ''example_shapes'' of
        Some (PDict ex) \<Rightarrow> dict_set ''example_shapes'' (PDict (filter example_kept ex)) sl2 | _ \<Rightarrow> sl2)))"

definition updated_config :: "params \<Rightarrow> int \<Rightarrow> py_exc + params" where
  "updated_config quantization_config dropped =
     (let qc = dict_set ''quant_lmhead'' (PBool False) quantization_config in
      bindE (as_dict (case dict_get qc ''mixed_precision'' of None \<Rightarrow> PDict [] | Some v \<Rightarrow> v)) (\<lambda>mp0.
      bindE (update_mixed mp0) (\<lambda>mp.
      let qc1 = dict_set ''mixed_precision'' (PDict mp) qc in
      (case val_get qc1 ''scale_layout'' of
         PNone \<Rightarrow> Inr qc1
       | v \<Rightarrow> bindE (as_dict v) (\<lambda>sl. mapE (\<lambda>sl1. dict_set ''scale_layout'' (PDict sl1) qc1) (update_scale_layout dropped sl))))))"

definition SIDECAR_NOTE :: string where
  "SIDECAR_NOTE = ''P6-S5: appended 5 BF16 action tensors + restored BF16 lm_head from the BF16 source; quantized set is now mlp.*/mlp_moe_gen.* only (INV-7 restored).''"

definition updated_map_diff :: "params \<Rightarrow> py_exc + params" where
  "updated_map_diff quantizer_map_diff =
     bindE (lower_if_present ''n_weight_quantized'' 1 quantizer_map_diff) (\<lambda>q1.
     mapE (\<lambda>q2.
       dict_set ''note'' (PStr SIDECAR_NOTE)
        (dict_set ''lm_head_restored_bf16'' (PBool True)
        (dict_set ''appended_action_keys'' (PList (map PStr ACTION_TENSORS))
        (dict_set ''dropped_action_keys'' (PList []) q2))))
      (lower_if_present ''expected_quantized_count'' 1 q1))"

definition updated_sidecars :: "params \<Rightarrow> params \<Rightarrow> int \<Rightarrow> py_exc + (params \<times> params)" where
  "updated_sidecars quantization_config quantizer_map_diff dropped_scale_elements =
     bindE (updated_config quantization_config dropped_scale_elements) (\<lambda>qc.
     mapE (Pair qc) (updated_map_diff quantizer_map_diff))"

section \<open>The layout is contiguous\<close>

text \<open>The source entries in emission order, and the bytes before the \<open>k\<close>-th of them.\<close>

fun sources :: "(string \<Rightarrow> ck_exc + tensor_meta) \<Rightarrow> string list \<Rightarrow> ck_exc + tensor_meta list" where
  "sources source [] = Inr []"
| "sources source (n # ns) = bindE (source n) (\<lambda>m. mapE ((#) m) (sources source ns))"

definition total_size :: "tensor_meta list \<Rightarrow> int" where "total_size ms = (\<Sum>m\<leftarrow>ms. tensor_size m)"

definition placed :: "tensor_meta \<Rightarrow> int \<Rightarrow> tensor_meta" where
  "placed m pos = \<lparr>tm_dtype = tm_dtype m, tm_shape = tm_shape m, tm_offsets = (pos, pos + tensor_size m)\<rparr>"

lemma sources_length: "sources source ns = Inr ms \<Longrightarrow> length ms = length ns"
  by (induction ns arbitrary: ms) (auto simp: result_simps)

lemma sources_nth: "sources source ns = Inr ms \<Longrightarrow> k < length ns \<Longrightarrow> source (ns ! k) = Inr (ms ! k)"
  by (induction ns arbitrary: ms k) (auto simp: result_simps nth_Cons split: nat.splits)

lemma lay_out_spec:
  assumes "lay_out source ns pos entries = Inr (out, fin)" "distinct ns"
  shows "\<exists>ms. sources source ns = Inr ms \<and> fin = pos + total_size ms \<and>
    (\<forall>n. n \<notin> set ns \<longrightarrow> dict_get out n = dict_get entries n) \<and>
    (\<forall>k < length ns. dict_get out (ns ! k) = Some (placed (ms ! k) (pos + total_size (take k ms))))"
  using assms
proof (induction ns arbitrary: pos entries)
  case Nil
  then show ?case by (simp add: total_size_def)
next
  case (Cons n ns)
  obtain m where m: "source n = Inr m" using Cons.prems(1) by (auto simp: result_simps)
  let ?e = "dict_set n (placed m pos) entries"
  have "lay_out source ns (pos + tensor_size m) ?e = Inr (out, fin)"
    using Cons.prems(1) m by (simp add: placed_def)
  from Cons.IH [OF this] Cons.prems(2) obtain ms where ms: "sources source ns = Inr ms"
    "fin = pos + tensor_size m + total_size ms"
    "\<forall>x. x \<notin> set ns \<longrightarrow> dict_get out x = dict_get ?e x"
    "\<forall>k < length ns. dict_get out (ns ! k) = Some (placed (ms ! k) (pos + tensor_size m + total_size (take k ms)))"
    by auto
  have "dict_get out ((n # ns) ! k) = Some (placed ((m # ms) ! k) (pos + total_size (take k (m # ms))))"
    if "k < length (n # ns)" for k
    using that ms(3,4) Cons.prems(2) by (cases k) (auto simp: total_size_def add.assoc)
  then show ?case using m ms by (intro exI [of _ "m # ms"]) (auto simp: total_size_def)
qed

lemma first_error_None: "first_error f xs = None \<longleftrightarrow> (\<forall>x \<in> set xs. f x = None)"
  by (induction xs) (auto split: option.splits)

lemma check_added_None:
  "check_added src shapes n = None \<longleftrightarrow> (\<exists>m. dict_get src n = Some m \<and> tm_dtype m = ''BF16'' \<and>
     (\<forall>sh. dict_get shapes n = Some sh \<longrightarrow> tm_shape m = sh))"
  by (simp add: check_added_def split: option.split)

lemma plan_mutation_Inr:
  assumes "plan_mutation fp8 src cfg = Inr plan"
  obtains shapes where "\<not> already_mutated fp8" "expected_shapes cfg = Inr shapes"
    "\<And>n. n \<in> set ADDED_TENSORS \<Longrightarrow> check_added src shapes n = None"
    "mp_keep plan = filter (\<lambda>n. n \<notin> set DROPPED_LMHEAD) (dict_keys fp8)"
    "mp_drop plan = filter (\<lambda>n. n \<in> set (dict_keys fp8)) DROPPED_LMHEAD"
    "mp_add plan = ADDED_TENSORS"
proof -
  have fresh: "\<not> already_mutated fp8" using assms by (simp add: plan_mutation_def split: if_splits)
  obtain shapes where sh: "expected_shapes cfg = Inr shapes"
    using assms fresh by (auto simp: plan_mutation_def bindE_Inr_iff)
  have none: "first_error (check_added src shapes) ADDED_TENSORS = None"
    using assms fresh sh by (simp add: plan_mutation_def split: option.splits)
  have "plan = \<lparr>mp_keep = filter (\<lambda>n. n \<notin> set DROPPED_LMHEAD) (dict_keys fp8),
      mp_drop = filter (\<lambda>n. n \<in> set (dict_keys fp8)) DROPPED_LMHEAD, mp_add = ADDED_TENSORS\<rparr>"
    using assms fresh sh none by (simp add: plan_mutation_def)
  then show thesis using that [OF fresh sh] none by (simp add: first_error_None)
qed

end
