(* ===== verification/Checkpoint_Rewrite.thy ===== *)
theory Checkpoint_Rewrite
  imports Checkpoint_Mutation
begin

text \<open>
  The effectful shell of the checkpoint mutation (\<open>tools/checkpoint_prep/rewrite.py\<close>): locating the
  source tensors, writing and verifying the new file, and the commit that moves the originals aside.
  A disk is a dict from paths to bytes; an operation returns its result or error with the disk it
  leaves. Text files are parsed and printed by the JSON library, an argument like the header's.
\<close>

section \<open>The disk\<close>

type_synonym disk = "(string, byte list) dict"

type_synonym 'a disk_op = "(disk, ck_exc, 'a) op"

definition read_file :: "string \<Rightarrow> disk \<Rightarrow> ck_exc + byte list" where
  "read_file p d = (case dict_get d p of None \<Rightarrow> Inl (NoSuchFile p) | Some b \<Rightarrow> Inr b)"

definition write_file :: "string \<Rightarrow> byte list \<Rightarrow> unit disk_op" where
  "write_file p b d = (Inr (), dict_set p b d)"

definition os_replace :: "string \<Rightarrow> string \<Rightarrow> unit disk_op" where
  "os_replace src dst d = (case dict_get d src of
     None \<Rightarrow> (Inl (NoSuchFile src), d) | Some b \<Rightarrow> (Inr (), dict_set dst b (AList.delete src d)))"

definition BACKUP_SUFFIX :: string where "BACKUP_SUFFIX = ''.s5-orig.bak''"
definition TMP_SUFFIX :: string where "TMP_SUFFIX = ''.s5-tmp''"
definition TRANSFORMER_ST :: string where "TRANSFORMER_ST = ''diffusion_pytorch_model.safetensors''"

record ck_libs =
  ck_dumps :: "header \<Rightarrow> byte list"
  ck_loads :: "byte list \<Rightarrow> py_exc + header"
  ck_sha :: "byte list \<Rightarrow> string"
  ck_json_loads :: "byte list \<Rightarrow> py_exc + params"
  ck_json_text :: "params \<Rightarrow> byte list"

definition read_header_file :: "ck_libs \<Rightarrow> string \<Rightarrow> disk \<Rightarrow> ck_exc + (header \<times> nat)" where
  "read_header_file libs p d = bindE (read_file p d) (read_header (ck_loads libs))"

definition read_json :: "ck_libs \<Rightarrow> string \<Rightarrow> disk \<Rightarrow> ck_exc + params" where
  "read_json libs p d = bindE (read_file p d) (\<lambda>b. map_errE CkRaise (ck_json_loads libs b))"

definition elem_count :: "tensor_meta option \<Rightarrow> int" where
  "elem_count m = (case m of None \<Rightarrow> 0 | Some t \<Rightarrow> prod_list (tm_shape t))"

section \<open>Source tensors\<close>

definition in_directory :: "string \<Rightarrow> string \<Rightarrow> bool" where
  "in_directory dir p \<longleftrightarrow> prefix (dir @ ''/'') p \<and> CHR ''/'' \<notin> set (drop (length dir + 1) p)"

definition glob_safetensors :: "string \<Rightarrow> disk \<Rightarrow> string list" where
  "glob_safetensors dir d = sort (filter (\<lambda>p. in_directory dir p \<and> suffix ''.safetensors'' p) (dict_keys d))"

type_synonym source_map = "(string, string \<times> nat \<times> tensor_meta) dict"

definition found_in :: "string \<Rightarrow> nat \<Rightarrow> tensors \<Rightarrow> string list \<Rightarrow> source_map \<Rightarrow> source_map" where
  "found_in shard ds ts names found =
     fold (\<lambda>name f. case dict_get ts name of
        Some m \<Rightarrow> if dict_get f name = None then dict_set name (shard, ds, m) f else f
      | None \<Rightarrow> f) names found"

fun scan_shards :: "ck_libs \<Rightarrow> string list \<Rightarrow> disk \<Rightarrow> string list \<Rightarrow> source_map \<Rightarrow> ck_exc + source_map" where
  "scan_shards libs names d [] found = Inr found"
| "scan_shards libs names d (shard # shards) found =
     bindE (read_header_file libs shard d) (\<lambda>(h, n).
       scan_shards libs names d shards (found_in shard (data_start n) (hd_tensors h) names found))"

definition resolve_source_tensors :: "ck_libs \<Rightarrow> string \<Rightarrow> string list \<Rightarrow> disk \<Rightarrow> ck_exc + source_map" where
  "resolve_source_tensors libs dir names d =
     bindE (scan_shards libs names d (glob_safetensors dir d) []) (\<lambda>found.
       let missing = filter (\<lambda>n. dict_get found n = None) names in
       if missing \<noteq> [] then
         Inl (MutationError [MLit ''source tensors not found under '', MStr dir, MLit '': '', MStrs missing])
       else Inr found)"

section \<open>Writing and verifying the new file\<close>

text \<open>The bytes of one tensor: a kept one from the FP8 file, an added one from its shard.\<close>

definition tensor_piece ::
  "byte list \<Rightarrow> nat \<Rightarrow> tensors \<Rightarrow> mutation_plan \<Rightarrow> source_map \<Rightarrow> disk \<Rightarrow> string \<Rightarrow> ck_exc + byte list" where
  "tensor_piece fp8 ds ts plan srcmap d name =
     (if name \<in> set (mp_keep plan) then
        (case dict_get ts name of None \<Rightarrow> Inl (CkRaise KeyError) | Some m \<Rightarrow> copy_range fp8 ds m)
      else (case dict_get srcmap name of
              None \<Rightarrow> Inl (CkRaise KeyError)
            | Some (shard, sds, m) \<Rightarrow> bindE (read_file shard d) (\<lambda>raw. copy_range raw sds m)))"

fun pieces :: "(string \<Rightarrow> ck_exc + byte list) \<Rightarrow> string list \<Rightarrow> ck_exc + byte list list" where
  "pieces piece [] = Inr []"
| "pieces piece (n # ns) = bindE (piece n) (\<lambda>b. mapE ((#) b) (pieces piece ns))"

definition rewrite_bytes ::
  "ck_libs \<Rightarrow> byte list \<Rightarrow> nat \<Rightarrow> tensors \<Rightarrow> mutation_plan \<Rightarrow> layout \<Rightarrow> source_map \<Rightarrow> disk \<Rightarrow> ck_exc + byte list" where
  "rewrite_bytes libs fp8 ds ts plan ly srcmap d =
     bindE (build_header_bytes (ck_dumps libs) (ly_entries ly) None) (\<lambda>hb.
     mapE (\<lambda>bs. hb @ concat bs) (pieces (tensor_piece fp8 ds ts plan srcmap d) (ly_order ly)))"

definition verify_kept ::
  "ck_libs \<Rightarrow> byte list \<Rightarrow> nat \<Rightarrow> tensors \<Rightarrow> (string \<Rightarrow> message) \<Rightarrow> (string \<Rightarrow> message) \<Rightarrow> (string, string) dict \<Rightarrow> string \<Rightarrow> ck_exc option" where
  "verify_kept libs out ds ts missing differs hashes name =
     (case dict_get ts name of
        None \<Rightarrow> Some (MutationError (missing name))
      | Some m \<Rightarrow> (case hash_tensor (ck_sha libs) out ds m of
          Inl e \<Rightarrow> Some e
        | Inr h \<Rightarrow> (case dict_get hashes name of
            None \<Rightarrow> Some (CkRaise KeyError)
          | Some h' \<Rightarrow> if h \<noteq> h' then Some (MutationError (differs name)) else None)))"

definition verify_dropped :: "tensors \<Rightarrow> string \<Rightarrow> ck_exc option" where
  "verify_dropped ts name =
     (if name \<in> set ADDED_TENSORS then None
      else if name \<in> set (dict_keys ts)
        then Some (MutationError [MLit ''verify: dropped FP8 lm_head sidecar still present: '', MStr name])
      else None)"

definition verify_output ::
  "ck_libs \<Rightarrow> byte list \<Rightarrow> mutation_plan \<Rightarrow> (string, string) dict \<Rightarrow> (string, string) dict \<Rightarrow> ck_exc + unit" where
  "verify_output libs out plan pre_hashes src_hashes =
     bindE (read_header (ck_loads libs) out) (\<lambda>(h, n).
       let ts = hd_tensors h; ds = data_start n in
       bindE (raise_if (first_error (verify_kept libs out ds ts
           (\<lambda>x. [MLit ''verify: kept tensor missing from output: '', MStr x])
           (\<lambda>x. [MLit ''verify: kept tensor not byte-identical: '', MStr x]) pre_hashes) (mp_keep plan))) (\<lambda>_.
       bindE (raise_if (first_error (verify_kept libs out ds ts
           (\<lambda>x. [MLit ''verify: added tensor missing from output: '', MStr x])
           (\<lambda>x. [MLit ''verify: added tensor does not match BF16 source: '', MStr x]) src_hashes) (mp_add plan))) (\<lambda>_.
       raise_if (first_error (verify_dropped ts) (mp_drop plan)))))"

section \<open>Backup and restore\<close>

definition backup_move :: "string \<Rightarrow> unit disk_op" where
  "backup_move p = os_replace p (p @ BACKUP_SUFFIX)"

definition rglob_backups :: "string \<Rightarrow> disk \<Rightarrow> string list" where
  "rglob_backups folder d =
     sort_key components (filter (\<lambda>p. prefix (folder @ ''/'') p \<and> suffix BACKUP_SUFFIX p) (dict_keys d))"

definition unbackup :: "string \<Rightarrow> string" where
  "unbackup p = take (length p - length BACKUP_SUFFIX) p"

fun restore_each :: "string list \<Rightarrow> disk \<Rightarrow> (ck_exc + string list) \<times> disk" where
  "restore_each [] d = (Inr [], d)"
| "restore_each (bak # baks) d =
     (case os_replace bak (unbackup bak) d of
        (Inl e, d1) \<Rightarrow> (Inl e, d1)
      | (Inr _, d1) \<Rightarrow>
          (case restore_each baks d1 of
             (Inl e, d2) \<Rightarrow> (Inl e, d2) | (Inr ps, d2) \<Rightarrow> (Inr (unbackup bak # ps), d2)))"

definition restore_backup :: "string \<Rightarrow> string list disk_op" where
  "restore_backup folder d =
     (case restore_each (rglob_backups folder d) d of
        (Inl e, d1) \<Rightarrow> (Inl e, d1)
      | (Inr ps, d1) \<Rightarrow>
          if ps = [] then (Inl (MutationError [MLit ''no '', MStr BACKUP_SUFFIX, MLit '' backups found under '', MStr folder]), d1)
          else (Inr ps, d1))"

section \<open>The mutation\<close>

record mutation_report =
  mr_action_count_before :: nat
  mr_action_count_after :: nat
  mr_lm_head_dtype_before :: string
  mr_lm_head_dtype_after :: string
  mr_kept_tensor_count :: nat
  mr_added_tensors :: "string list"
  mr_dropped_tensors :: "string list"
  mr_dropped_scale_elements :: int

definition st_path :: "string \<Rightarrow> string" where "st_path ck = ck @ ''/transformer/'' @ TRANSFORMER_ST"
definition cfg_path :: "string \<Rightarrow> string" where "cfg_path ck = ck @ ''/transformer/config.json''"
definition qc_path :: "string \<Rightarrow> string" where "qc_path ck = ck @ ''/quantization_config.json''"
definition qmd_path :: "string \<Rightarrow> string" where "qmd_path ck = ck @ ''/quantizer_map_diff.json''"
definition tmp_path :: "string \<Rightarrow> string" where "tmp_path ck = st_path ck @ TMP_SUFFIX"

text \<open>Everything computed before the first write.\<close>

record prepared =
  pr_cfg :: params
  pr_fp8 :: "byte list"
  pr_ds :: nat
  pr_tensors :: tensors
  pr_srcmap :: source_map
  pr_plan :: mutation_plan
  pr_layout :: layout
  pr_pre_hashes :: "(string, string) dict"
  pr_src_hashes :: "(string, string) dict"

fun hash_sources :: "ck_libs \<Rightarrow> disk \<Rightarrow> source_map \<Rightarrow> ck_exc + (string, string) dict" where
  "hash_sources libs d [] = Inr []"
| "hash_sources libs d ((name, shard, ds, m) # rest) =
     bindE (bindE (read_file shard d) (\<lambda>raw. hash_tensor (ck_sha libs) raw ds m)) (\<lambda>h.
     mapE (\<lambda>hs. (name, h) # hs) (hash_sources libs d rest))"

definition kept_entries :: "tensors \<Rightarrow> mutation_plan \<Rightarrow> tensors" where
  "kept_entries ts plan = filter (\<lambda>(n, m). n \<in> set (mp_keep plan)) ts"

definition prepare :: "ck_libs \<Rightarrow> string \<Rightarrow> string \<Rightarrow> disk \<Rightarrow> ck_exc + prepared" where
  "prepare libs ck src d =
     bindE (read_json libs (cfg_path ck) d) (\<lambda>cfg.
     bindE (read_file (st_path ck) d) (\<lambda>fp8.
     bindE (read_header (ck_loads libs) fp8) (\<lambda>(h, n).
     bindE (resolve_source_tensors libs (src @ ''/transformer'') ADDED_TENSORS d) (\<lambda>srcmap.
     let src_ts = map (\<lambda>(name, p, ds, m). (name, m)) srcmap in
     bindE (plan_mutation (hd_tensors h) src_ts cfg) (\<lambda>plan.
     bindE (build_layout (ck_dumps libs) plan (hd_tensors h) src_ts) (\<lambda>ly.
     bindE (hash_entries (ck_sha libs) fp8 (data_start n) (kept_entries (hd_tensors h) plan)) (\<lambda>pre.
     mapE (\<lambda>post. \<lparr>pr_cfg = cfg, pr_fp8 = fp8, pr_ds = data_start n, pr_tensors = hd_tensors h,
                    pr_srcmap = srcmap, pr_plan = plan, pr_layout = ly,
                    pr_pre_hashes = pre, pr_src_hashes = post\<rparr>)
       (hash_sources libs d srcmap))))))))"

text \<open>The temporary file is removed again when writing or verifying it fails.\<close>

definition stage :: "ck_libs \<Rightarrow> string \<Rightarrow> bool \<Rightarrow> prepared \<Rightarrow> unit disk_op" where
  "stage libs ck verify p d =
     (case bindE (rewrite_bytes libs (pr_fp8 p) (pr_ds p) (pr_tensors p) (pr_plan p) (pr_layout p) (pr_srcmap p) d)
             (\<lambda>out. mapE (\<lambda>_. out)
               (if verify then verify_output libs out (pr_plan p) (pr_pre_hashes p) (pr_src_hashes p) else Inr ())) of
        Inl e \<Rightarrow> (Inl e, AList.delete (tmp_path ck) d)
      | Inr out \<Rightarrow> (Inr (), dict_set (tmp_path ck) out d))"

definition sidecar_source :: "bool \<Rightarrow> string \<Rightarrow> string" where
  "sidecar_source backup p = (if backup then p @ BACKUP_SUFFIX else p)"

definition commit :: "ck_libs \<Rightarrow> string \<Rightarrow> bool \<Rightarrow> params \<Rightarrow> int \<Rightarrow> unit disk_op" where
  "commit libs ck backup cfg dropped =
     then_op (when_op backup (backup_move (st_path ck))) (\<lambda>_.
     then_op (os_replace (tmp_path ck) (st_path ck)) (\<lambda>_.
     then_op (when_op backup (backup_move (cfg_path ck))) (\<lambda>_.
     then_op (when_op backup (backup_move (qc_path ck))) (\<lambda>_.
     then_op (when_op backup (backup_move (qmd_path ck))) (\<lambda>_.
     then_op (write_file (cfg_path ck) (ck_json_text libs (dict_set ''action_gen'' (PBool True) cfg))) (\<lambda>_.
     then_op (pure_op (\<lambda>d. bindE (read_json libs (sidecar_source backup (qc_path ck)) d) (\<lambda>qc.
                           bindE (read_json libs (sidecar_source backup (qmd_path ck)) d) (\<lambda>qmd.
                           map_errE CkRaise (updated_sidecars qc qmd dropped))))) (\<lambda>(new_qc, new_qmd).
     then_op (write_file (qc_path ck) (ck_json_text libs new_qc)) (\<lambda>_.
     write_file (qmd_path ck) (ck_json_text libs new_qmd)))))))))"

definition lm_head_dtype :: "tensors \<Rightarrow> ck_exc + string" where
  "lm_head_dtype ts = (case dict_get ts ''lm_head.weight'' of
     None \<Rightarrow> Inl (CkRaise KeyError) | Some m \<Rightarrow> Inr (tm_dtype m))"

definition count_actions :: "tensors \<Rightarrow> nat" where
  "count_actions ts = length (filter (\<lambda>a. a \<in> set (dict_keys ts)) ACTION_TENSORS)"

definition make_report :: "ck_libs \<Rightarrow> string \<Rightarrow> prepared \<Rightarrow> int \<Rightarrow> disk \<Rightarrow> ck_exc + mutation_report" where
  "make_report libs ck p dropped d =
     bindE (read_header_file libs (st_path ck) d) (\<lambda>(h, n).
     bindE (lm_head_dtype (pr_tensors p)) (\<lambda>before.
     mapE (\<lambda>after.
       \<lparr>mr_action_count_before = count_actions (pr_tensors p), mr_action_count_after = count_actions (hd_tensors h),
        mr_lm_head_dtype_before = before, mr_lm_head_dtype_after = after,
        mr_kept_tensor_count = length (mp_keep (pr_plan p)), mr_added_tensors = mp_add (pr_plan p),
        mr_dropped_tensors = mp_drop (pr_plan p), mr_dropped_scale_elements = dropped\<rparr>)
      (lm_head_dtype (hd_tensors h))))"

definition dropped_scale_elements :: "prepared \<Rightarrow> int" where
  "dropped_scale_elements p =
     elem_count (dict_get (pr_tensors p) ''lm_head.weight_quantizer._amax'')
     + elem_count (dict_get (pr_tensors p) ''lm_head.weight_quantizer._scale'')"

definition apply_mutation :: "ck_libs \<Rightarrow> string \<Rightarrow> string \<Rightarrow> bool \<Rightarrow> bool \<Rightarrow> mutation_report disk_op" where
  "apply_mutation libs ck src backup verify =
     then_op (pure_op (prepare libs ck src)) (\<lambda>p.
     then_op (stage libs ck verify p) (\<lambda>_.
     then_op (commit libs ck backup (pr_cfg p) (dropped_scale_elements p)) (\<lambda>_.
     pure_op (make_report libs ck p (dropped_scale_elements p)))))"

end
