(* ===== verification/Checkpoint_Demo.thy ===== *)
theory Checkpoint_Demo
  imports Checkpoint_Rewrite "HOL-Library.Code_Target_Nat"
begin

text \<open>
  A small FP8 checkpoint with its BF16 source on one disk, and the mutation run on it: one kept tensor,
  an FP8 \<open>lm_head\<close> with its two sidecars, and the six source tensors of two bytes each. The JSON
  library of the run tags each document by its first byte.
\<close>

definition demo_entry :: "string \<Rightarrow> int list \<Rightarrow> int \<Rightarrow> int \<Rightarrow> tensor_meta" where
  "demo_entry t sh a b = \<lparr>tm_dtype = t, tm_shape = sh, tm_offsets = (a, b)\<rparr>"

definition demo_fp8 :: header where
  "demo_fp8 = \<lparr>hd_tensors =
     [(''mlp.w'', demo_entry ''F8'' [1] 0 1), (''lm_head.weight'', demo_entry ''F8'' [1, 1] 1 2),
      (''lm_head.weight_quantizer._amax'', demo_entry ''F8'' [1] 2 3),
      (''lm_head.weight_quantizer._scale'', demo_entry ''F8'' [1] 3 4)], hd_metadata = None\<rparr>"

definition demo_source :: header where
  "demo_source = \<lparr>hd_tensors =
     [(''action_modality_embed'', demo_entry ''BF16'' [1] 0 2), (''action_proj_in.bias.weight'', demo_entry ''BF16'' [1, 1] 2 4),
      (''action_proj_in.fc.weight'', demo_entry ''BF16'' [1, 1] 4 6), (''action_proj_out.bias.weight'', demo_entry ''BF16'' [1, 1] 6 8),
      (''action_proj_out.fc.weight'', demo_entry ''BF16'' [1, 1] 8 10), (''lm_head.weight'', demo_entry ''BF16'' [1, 1] 10 12)],
     hd_metadata = None\<rparr>"

definition demo_mutated :: header where
  "demo_mutated = \<lparr>hd_tensors =
     [(''mlp.w'', demo_entry ''F8'' [1] 0 1), (''action_modality_embed'', demo_entry ''BF16'' [1] 1 3),
      (''action_proj_in.bias.weight'', demo_entry ''BF16'' [1, 1] 3 5),
      (''action_proj_in.fc.weight'', demo_entry ''BF16'' [1, 1] 5 7), (''action_proj_out.bias.weight'', demo_entry ''BF16'' [1, 1] 7 9),
      (''action_proj_out.fc.weight'', demo_entry ''BF16'' [1, 1] 9 11), (''lm_head.weight'', demo_entry ''BF16'' [1, 1] 11 13)],
     hd_metadata = None\<rparr>"

definition demo_loads :: "byte list \<Rightarrow> py_exc + header" where
  "demo_loads bs = (if bs = [] then Inl ValueError else if hd bs = 1 then Inr demo_fp8
     else if hd bs = 2 then Inr demo_source else Inr demo_mutated)"

definition demo_json :: "byte list \<Rightarrow> py_exc + params" where
  "demo_json bs = (if bs = [] then Inl ValueError
     else if hd bs = 1 then Inr [(''hidden_size'', PInt 1), (''action_dim'', PInt 1), (''num_embodiment_domains'', PInt 1), (''vocab_size'', PInt 1)]
     else if hd bs = 2 then Inr [(''mixed_precision'', PDict [(''quantized'', PList [PStr ''lm_head'']), (''n_quantized'', PInt 1)])]
     else Inr [(''n_weight_quantized'', PInt 1)])"

definition demo_ck :: ck_libs where
  "demo_ck = \<lparr>ck_dumps = (\<lambda>h. [3]), ck_loads = demo_loads, ck_sha = map (\<lambda>b. char_of (unat b)),
     ck_json_loads = demo_json, ck_json_text = (\<lambda>p. [4])\<rparr>"

definition demo_disk :: disk where
  "demo_disk =
     [(st_path ''c'', le_bytes 8 1 @ [1, 10, 20, 30, 40]), (cfg_path ''c'', [1]), (qc_path ''c'', [2]), (qmd_path ''c'', [3]),
      (''s/transformer/m.safetensors'', le_bytes 8 1 @ [2, 1, 2, 3, 4, 5, 6, 7, 8, 9, 10, 11, 12])]"

definition demo_plan :: mutation_plan where
  "demo_plan = \<lparr>mp_keep = [''mlp.w''], mp_drop = DROPPED_LMHEAD, mp_add = ADDED_TENSORS\<rparr>"

definition demo_srcmap :: source_map where
  "demo_srcmap = map (\<lambda>(n, m). (n, ''s/transformer/m.safetensors'', 9, m)) (hd_tensors demo_source)"

definition is_ok :: "'e + 'a \<Rightarrow> bool" where
  "is_ok r = (case r of Inr _ \<Rightarrow> True | Inl _ \<Rightarrow> False)"

lemma is_ok_iff: "is_ok r \<longleftrightarrow> (\<exists>x. r = Inr x)"
  by (simp add: is_ok_def split: sum.split)

lemma demo_rewrite:
  "case build_layout (ck_dumps demo_ck) demo_plan (hd_tensors demo_fp8) (map (\<lambda>(name, p, ds, m). (name, m)) demo_srcmap) of
     Inr ly \<Rightarrow> distinct (ly_order ly) \<and> ly_entries ly = hd_tensors demo_mutated \<and> ''lm_head.weight'' \<in> set (ly_order ly) \<and>
       is_ok (rewrite_bytes demo_ck (the (dict_get demo_disk (st_path ''c''))) 9 (hd_tensors demo_fp8) demo_plan ly demo_srcmap demo_disk)
   | Inl _ \<Rightarrow> False"
  by code_simp

lemma demo_mutation: "is_ok (fst (apply_mutation demo_ck ''c'' ''s'' True True demo_disk))"
  by code_simp

lemma demo_refusal:
  "case fst (apply_mutation demo_ck ''c'' ''nowhere'' True True demo_disk) of Inl (MutationError _) \<Rightarrow> True | _ \<Rightarrow> False"
  by code_simp

lemma demo_lawful: "json_lawful (ck_dumps demo_ck) (ck_loads demo_ck) demo_mutated"
  by (simp add: json_lawful_def demo_ck_def demo_loads_def)

end
