(* ===== verification/Checkpoint_Facts.thy ===== *)
theory Checkpoint_Facts
  imports Checkpoint_Demo
begin

text \<open>
  What the checkpoint mutation guarantees (over \<open>Checkpoint_Rewrite\<close>): the new file holds every kept
  and every added tensor byte for byte, a refused mutation touches no file, and a mutation with
  backups is undone by \<open>restore_backup\<close>.
\<close>

section \<open>The rewritten file\<close>

lemma pieces_length: "pieces piece ns = Inr bs \<Longrightarrow> length bs = length ns"
  by (induction ns arbitrary: bs) (auto simp: result_simps)

lemma pieces_nth: "pieces piece ns = Inr bs \<Longrightarrow> k < length ns \<Longrightarrow> piece (ns ! k) = Inr (bs ! k)"
  by (induction ns arbitrary: bs k) (auto simp: result_simps nth_Cons split: nat.splits)

definition source_tensors :: "source_map \<Rightarrow> tensors" where
  "source_tensors srcmap = map (\<lambda>(name, p, ds, m). (name, m)) srcmap"

lemma dict_get_source: "dict_get (source_tensors srcmap) name = map_option (\<lambda>(p, ds, m). m) (dict_get srcmap name)"
  by (induction srcmap) (auto simp: source_tensors_def)

definition sizes_ok :: "tensors \<Rightarrow> bool" where
  "sizes_ok ts \<longleftrightarrow> (\<forall>(n, m) \<in> set ts. 0 \<le> tensor_size m)"

lemma sizes_okD: "sizes_ok ts \<Longrightarrow> dict_get ts n = Some m \<Longrightarrow> 0 \<le> tensor_size m"
  by (auto simp: sizes_ok_def dest!: map_of_SomeD)

lemma piece_size:
  assumes "tensor_piece fp8 ds ts plan srcmap d name = Inr b" "layout_source plan ts (source_tensors srcmap) name = Inr m"
    and "sizes_ok ts" "sizes_ok (source_tensors srcmap)"
  shows "int (length b) = tensor_size m"
proof -
  have m: "0 \<le> tensor_size m" using assms(2-4)
    by (auto simp: layout_source_def split: option.splits if_splits dest: sizes_okD)
  obtain raw ds' where "copy_range raw ds' m = Inr b"
    using assms(1,2)
    by (auto simp: tensor_piece_def layout_source_def dict_get_source result_simps split: option.splits if_splits prod.splits)
  then show ?thesis using m by (auto simp: copy_range_def tensor_size_def dest: tensor_range_length)
qed

lemma prefix_sums:
  assumes "length bs = length ms" "\<And>k. k < length ms \<Longrightarrow> int (length (bs ! k)) = tensor_size (ms ! k)" "j \<le> length ms"
  shows "total_size (take j ms) = int (length (concat (take j bs)))"
  using assms
proof (induction ms arbitrary: bs j)
  case Nil
  then show ?case by (simp add: total_size_def)
next
  case (Cons m ms)
  then obtain b bs' where bs: "bs = b # bs'" by (cases bs) auto
  have "int (length b) = tensor_size m" using Cons.prems(2) [of 0] bs by simp
  moreover have "int (length (bs' ! k)) = tensor_size (ms ! k)" if "k < length ms" for k
    using Cons.prems(2) [of "Suc k"] bs that by simp
  ultimately show ?case
    using Cons.IH [of bs' "j - 1"] Cons.prems(1,3) bs by (cases j) (auto simp: total_size_def)
qed

lemma concat_split: "k < length bs \<Longrightarrow> concat bs = concat (take k bs) @ bs ! k @ concat (drop (Suc k) bs)"
  by (metis concat.simps(2) concat_append id_take_nth_drop)

lemma build_layout_Inr:
  assumes "build_layout dumps plan ts src = Inr ly"
  shows "ly_order ly = emission_order plan ts"
    and "lay_out (layout_source plan ts src) (ly_order ly) 0 [] = Inr (ly_entries ly, ly_data_len ly)"
  using assms by (auto simp: build_layout_def result_simps)

text \<open>A piece is read back from the data block at the sum of the sizes before it.\<close>

lemma copied_piece:
  assumes "k < length bs" "length hb = 8 + n" "int (length (bs ! k)) = tensor_size m"
  shows "copy_range (hb @ concat bs) (data_start n) (placed m (int (length (concat (take k bs))))) = Inr (bs ! k)"
proof -
  define a where "a = length (concat (take k bs))"
  have off: "tm_offsets (placed m (int a)) = (int a, int (a + length (bs ! k)))"
    using assms(3) by (simp add: placed_def)
  have whole: "concat bs = concat (take k bs) @ bs ! k @ concat (drop (Suc k) bs)"
    by (rule concat_split [OF assms(1)])
  then have tail: "drop a (concat bs) = bs ! k @ concat (drop (Suc k) bs)"
    unfolding a_def by (metis append_eq_conv_conj)
  have "length (concat bs) = a + (length (bs ! k) + length (concat (drop (Suc k) bs)))"
    unfolding a_def by (rule trans [OF arg_cong [OF whole, of length]]) (simp only: length_append)
  then have "a + length (bs ! k) \<le> length (concat bs)" by linarith
  then have "tensor_range ''copying'' (hb @ concat bs) (data_start n) (placed m (int a)) =
      Inr (take (length (bs ! k)) (drop (data_start n + a) (hb @ concat bs)))"
    using off assms(2) by (intro tensor_range_slice) (simp_all add: data_start_def del: length_concat)
  then show ?thesis using assms(2) tail by (simp add: copy_range_def data_start_def flip: a_def del: length_concat)
qed

text \<open>
  C14: The rewrite keeps every byte: when the names to emit are distinct and no size in the headers is
  negative, the new file parses back to
  the planned entries, its data block is aligned and is exactly as long as the header says, and every
  tensor, kept or added, read at its new offsets is the byte sequence it had in the file it came from.
\<close>

theorem rewrite_preserves_tensors:
  assumes "build_layout (ck_dumps libs) plan ts (source_tensors srcmap) = Inr ly"
    and "rewrite_bytes libs fp8 ds ts plan ly srcmap d = Inr out"
    and "distinct (ly_order ly)" "sizes_ok ts" "sizes_ok (source_tensors srcmap)"
    and "json_lawful (ck_dumps libs) (ck_loads libs) \<lparr>hd_tensors = ly_entries ly, hd_metadata = None\<rparr>"
  shows "\<exists>n. read_header (ck_loads libs) out = Inr (\<lparr>hd_tensors = ly_entries ly, hd_metadata = None\<rparr>, n) \<and>
    data_start n mod 8 = 0 \<and> int (length out) = int (data_start n) + ly_data_len ly \<and>
    (\<forall>name \<in> set (ly_order ly). \<exists>m b. dict_get (ly_entries ly) name = Some m \<and>
       tensor_piece fp8 ds ts plan srcmap d name = Inr b \<and> copy_range out (data_start n) m = Inr b)"
proof -
  let ?src = "layout_source plan ts (source_tensors srcmap)"
  obtain hb bs where hb: "build_header_bytes (ck_dumps libs) (ly_entries ly) None = Inr hb"
    and bs: "pieces (tensor_piece fp8 ds ts plan srcmap d) (ly_order ly) = Inr bs" and out: "out = hb @ concat bs"
    using assms(2) by (auto simp: rewrite_bytes_def result_simps)
  obtain ms where ms: "sources ?src (ly_order ly) = Inr ms" and total: "ly_data_len ly = total_size ms"
    and entry: "\<And>k. k < length (ly_order ly) \<Longrightarrow>
      dict_get (ly_entries ly) (ly_order ly ! k) = Some (placed (ms ! k) (total_size (take k ms)))"
    using lay_out_spec [OF build_layout_Inr(2) [OF assms(1)] assms(3)] by auto
  have len: "length bs = length ms" "length ms = length (ly_order ly)"
    using pieces_length [OF bs] sources_length [OF ms] by simp_all
  have sz: "int (length (bs ! k)) = tensor_size (ms ! k)" if "k < length ms" for k
    using piece_size [OF pieces_nth [OF bs] sources_nth [OF ms] assms(4,5)] that len by simp
  note sums = prefix_sums [OF len(1) sz]
  obtain n where n: "length hb = 8 + n" "n mod 8 = 0"
    "read_header (ck_loads libs) out = Inr (\<lparr>hd_tensors = ly_entries ly, hd_metadata = None\<rparr>, n)"
    using read_built_header [OF assms(6) hb, of "concat bs"] out by auto
  have "\<exists>m b. dict_get (ly_entries ly) name = Some m \<and>
      tensor_piece fp8 ds ts plan srcmap d name = Inr b \<and> copy_range out (data_start n) m = Inr b"
    if mem: "name \<in> set (ly_order ly)" for name
  proof -
    obtain k where k: "k < length (ly_order ly)" "name = ly_order ly ! k" using mem by (auto simp: in_set_conv_nth)
    have k': "k < length ms" using k(1) len(2) by (simp only:)
    have "total_size (take k ms) = int (length (concat (take k bs)))" by (rule sums [OF _ less_imp_le [OF k']])
    then have "copy_range out (data_start n) (placed (ms ! k) (total_size (take k ms))) = Inr (bs ! k)"
      using copied_piece [OF _ n(1) sz [OF k']] k' len out by simp
    then show ?thesis using entry [OF k(1)] pieces_nth [OF bs k(1)] k(2) by auto
  qed
  moreover have "int (length out) = int (data_start n) + ly_data_len ly"
    using sums [of "length ms"] len(1) n(1) out total by (simp add: data_start_def del: length_concat)
  ultimately show ?thesis using n by (intro exI [of _ n]) (simp add: data_start_def)
qed

lemma rewrite_preserves_tensors_witness:
  "\<exists>ly out n m b. rewrite_bytes demo_ck (the (dict_get demo_disk (st_path ''c''))) 9 (hd_tensors demo_fp8) demo_plan ly demo_srcmap demo_disk = Inr out \<and>
     read_header (ck_loads demo_ck) out = Inr (demo_mutated, n) \<and>
     dict_get (ly_entries ly) ''lm_head.weight'' = Some m \<and> copy_range out (data_start n) m = Inr b"
proof -
  let ?fp8 = "the (dict_get demo_disk (st_path ''c''))"
  obtain ly out where ly: "build_layout (ck_dumps demo_ck) demo_plan (hd_tensors demo_fp8) (source_tensors demo_srcmap) = Inr ly"
      "distinct (ly_order ly)" "ly_entries ly = hd_tensors demo_mutated" "''lm_head.weight'' \<in> set (ly_order ly)"
    and out: "rewrite_bytes demo_ck ?fp8 9 (hd_tensors demo_fp8) demo_plan ly demo_srcmap demo_disk = Inr out"
    using demo_rewrite by (auto simp: source_tensors_def is_ok_iff split: sum.splits)
  have sz: "sizes_ok (hd_tensors demo_fp8)" "sizes_ok (source_tensors demo_srcmap)"
    by (simp_all add: sizes_ok_def demo_fp8_def demo_entry_def tensor_size_def source_tensors_def demo_srcmap_def demo_source_def)
  have "\<lparr>hd_tensors = ly_entries ly, hd_metadata = None\<rparr> = demo_mutated" by (simp add: ly(3) demo_mutated_def)
  with rewrite_preserves_tensors [OF ly(1) out ly(2) sz] demo_lawful ly(4) out show ?thesis by fastforce
qed

end
