(* ===== verification/Checkpoint_Undo.thy ===== *)
theory Checkpoint_Undo
  imports Checkpoint_Facts
begin

text \<open>
  The disk effects of the mutation (over \<open>Checkpoint_Rewrite\<close>): what a successful commit leaves, that
  a refused mutation leaves every file alone, and that restoring the backups undoes a commit.
\<close>

section \<open>Disk operations as updates of the map\<close>

lemma dict_get_delete: "dict_get (AList.delete k d) = (dict_get d)(k := None)"
  by (rule delete_conv')

lemma os_replace_Inr:
  assumes "os_replace a b d = (Inr u, d')"
  obtains x where "dict_get d a = Some x" "dict_get d' = (dict_get d)(a := None, b \<mapsto> x)"
  using assms by (auto simp: os_replace_def update_conv' dict_get_delete split: option.splits)

lemma os_replace_Inl: "os_replace a b d = (Inl e, d') \<Longrightarrow> d' = d \<and> e = NoSuchFile a"
  by (auto simp: os_replace_def split: option.splits)

lemma distinct_replace:
  "distinct (dict_keys d) \<Longrightarrow> distinct (dict_keys (snd (os_replace a b d)))"
  by (auto simp: os_replace_def dict_keys_def distinct_update distinct_delete split: option.splits)

lemma distinct_set: "distinct (dict_keys d) \<Longrightarrow> distinct (dict_keys (dict_set k v d))"
  by (simp add: dict_keys_def distinct_update)

lemma set_dict_keys: "set (dict_keys d) = dom (dict_get d)"
  by (simp add: dict_keys_def dom_map_of_conv_image_fst)

section \<open>The commit\<close>

lemmas path_defs = st_path_def cfg_path_def qc_path_def qmd_path_def tmp_path_def TRANSFORMER_ST_def
  TMP_SUFFIX_def BACKUP_SUFFIX_def

definition originals :: "string \<Rightarrow> string list" where
  "originals ck = [st_path ck, cfg_path ck, qc_path ck, qmd_path ck]"

lemma paths_distinct:
  "distinct [st_path ck, cfg_path ck, qc_path ck, qmd_path ck, tmp_path ck, st_path ck @ BACKUP_SUFFIX,
     cfg_path ck @ BACKUP_SUFFIX, qc_path ck @ BACKUP_SUFFIX, qmd_path ck @ BACKUP_SUFFIX]"
  by (simp add: path_defs)

text \<open>The nine updates of a commit, for any nine distinct paths.\<close>

lemma five_moves:
  assumes "distinct [st, cfg, qc, qmd, tmp, stb, cfgb, qcb, qmdb]"
    and "os_replace st stb d = (Inr (), d1)" "os_replace tmp st d1 = (Inr (), d2)"
    and "os_replace cfg cfgb d2 = (Inr (), d3)" "os_replace qc qcb d3 = (Inr (), d4)"
    and "os_replace qmd qmdb d4 = (Inr (), d5)"
  shows "\<exists>a b c e new. dict_get d st = Some a \<and> dict_get d cfg = Some b \<and> dict_get d qc = Some c \<and>
    dict_get d qmd = Some e \<and> dict_get d tmp = Some new \<and>
    dict_get (dict_set qmd z (dict_set qc y (dict_set cfg x d5))) =
      (dict_get d)(tmp := None, st \<mapsto> new, stb \<mapsto> a, cfg \<mapsto> x, cfgb \<mapsto> b, qc \<mapsto> y, qcb \<mapsto> c, qmd \<mapsto> z, qmdb \<mapsto> e)"
proof -
  obtain a where a: "dict_get d st = Some a" "dict_get d1 = (dict_get d)(st := None, stb \<mapsto> a)"
    by (rule os_replace_Inr [OF assms(2)])
  obtain new where new: "dict_get d1 tmp = Some new" "dict_get d2 = (dict_get d1)(tmp := None, st \<mapsto> new)"
    by (rule os_replace_Inr [OF assms(3)])
  obtain b where b: "dict_get d2 cfg = Some b" "dict_get d3 = (dict_get d2)(cfg := None, cfgb \<mapsto> b)"
    by (rule os_replace_Inr [OF assms(4)])
  obtain c where c: "dict_get d3 qc = Some c" "dict_get d4 = (dict_get d3)(qc := None, qcb \<mapsto> c)"
    by (rule os_replace_Inr [OF assms(5)])
  obtain e where e: "dict_get d4 qmd = Some e" "dict_get d5 = (dict_get d4)(qmd := None, qmdb \<mapsto> e)"
    by (rule os_replace_Inr [OF assms(6)])
  have "dict_get d cfg = Some b" "dict_get d qc = Some c" "dict_get d qmd = Some e" "dict_get d tmp = Some new"
    using assms(1) a new b c e by auto
  moreover have "dict_get (dict_set qmd z (dict_set qc y (dict_set cfg x d5))) =
      (dict_get d)(tmp := None, st \<mapsto> new, stb \<mapsto> a, cfg \<mapsto> x, cfgb \<mapsto> b, qc \<mapsto> y, qcb \<mapsto> c, qmd \<mapsto> z, qmdb \<mapsto> e)"
    using assms(1) a(2) new(2) b(2) c(2) e(2) by (auto simp: fun_eq_iff)
  ultimately show ?thesis using a(1) by blast
qed

lemma commit_with_backup:
  assumes "commit libs ck True cfg dropped d = (Inr u, d')"
  shows "\<exists>a b c e new x y z. dict_get d (st_path ck) = Some a \<and> dict_get d (cfg_path ck) = Some b \<and>
    dict_get d (qc_path ck) = Some c \<and> dict_get d (qmd_path ck) = Some e \<and> dict_get d (tmp_path ck) = Some new \<and>
    dict_get d' = (dict_get d)(tmp_path ck := None, st_path ck \<mapsto> new, st_path ck @ BACKUP_SUFFIX \<mapsto> a,
      cfg_path ck \<mapsto> x, cfg_path ck @ BACKUP_SUFFIX \<mapsto> b, qc_path ck \<mapsto> y, qc_path ck @ BACKUP_SUFFIX \<mapsto> c,
      qmd_path ck \<mapsto> z, qmd_path ck @ BACKUP_SUFFIX \<mapsto> e)"
    and "distinct (dict_keys d) \<Longrightarrow> distinct (dict_keys d')"
proof -
  obtain d1 d2 d3 d4 d5 qc qmd where
    1: "os_replace (st_path ck) (st_path ck @ BACKUP_SUFFIX) d = (Inr (), d1)" and
    2: "os_replace (tmp_path ck) (st_path ck) d1 = (Inr (), d2)" and
    3: "os_replace (cfg_path ck) (cfg_path ck @ BACKUP_SUFFIX) d2 = (Inr (), d3)" and
    4: "os_replace (qc_path ck) (qc_path ck @ BACKUP_SUFFIX) d3 = (Inr (), d4)" and
    5: "os_replace (qmd_path ck) (qmd_path ck @ BACKUP_SUFFIX) d4 = (Inr (), d5)" and
    6: "d' = dict_set (qmd_path ck) (ck_json_text libs qmd) (dict_set (qc_path ck) (ck_json_text libs qc)
         (dict_set (cfg_path ck) (ck_json_text libs (dict_set ''action_gen'' (PBool True) cfg)) d5))"
    using assms
    by (auto simp: commit_def when_op_def backup_move_def then_op_Inr write_file_def pure_op_def split: prod.splits)
  show "\<exists>a b c e new x y z. dict_get d (st_path ck) = Some a \<and> dict_get d (cfg_path ck) = Some b \<and>
    dict_get d (qc_path ck) = Some c \<and> dict_get d (qmd_path ck) = Some e \<and> dict_get d (tmp_path ck) = Some new \<and>
    dict_get d' = (dict_get d)(tmp_path ck := None, st_path ck \<mapsto> new, st_path ck @ BACKUP_SUFFIX \<mapsto> a,
      cfg_path ck \<mapsto> x, cfg_path ck @ BACKUP_SUFFIX \<mapsto> b, qc_path ck \<mapsto> y, qc_path ck @ BACKUP_SUFFIX \<mapsto> c,
      qmd_path ck \<mapsto> z, qmd_path ck @ BACKUP_SUFFIX \<mapsto> e)"
    unfolding 6 using five_moves [OF paths_distinct 1 2 3 4 5] by blast
  show "distinct (dict_keys d')" if "distinct (dict_keys d)"
    using that distinct_replace [of d "st_path ck" "st_path ck @ BACKUP_SUFFIX"]
      distinct_replace [of d1 "tmp_path ck" "st_path ck"] distinct_replace [of d2 "cfg_path ck" "cfg_path ck @ BACKUP_SUFFIX"]
      distinct_replace [of d3 "qc_path ck" "qc_path ck @ BACKUP_SUFFIX"] distinct_replace [of d4 "qmd_path ck" "qmd_path ck @ BACKUP_SUFFIX"]
    by (simp add: 1 2 3 4 5 6 distinct_set)
qed

lemma commit_Inl: "commit libs ck backup cfg dropped d = (Inl e, d') \<Longrightarrow> e \<noteq> MutationError m"
  by (auto simp: commit_def when_op_def backup_move_def then_op_Inl then_op_Inr write_file_def pure_op_def
      read_json_def read_file_def result_simps dest!: os_replace_Inl split: prod.splits if_splits option.splits)

section \<open>Restoring\<close>

lemma unbackup_suffix [simp]: "unbackup (p @ BACKUP_SUFFIX) = p"
  by (simp add: unbackup_def)

text \<open>Moving backups back, for distinct backups whose targets are no backups.\<close>

lemma restore_each_spec:
  assumes "distinct baks" "set baks \<subseteq> dom (dict_get d)" "inj_on unbackup (set baks)"
    and "unbackup ` set baks \<inter> set baks = {}"
  shows "\<exists>d'. restore_each baks d = (Inr (map unbackup baks), d') \<and>
    (\<forall>b \<in> set baks. dict_get d' (unbackup b) = dict_get d b \<and> dict_get d' b = None) \<and>
    (\<forall>p. p \<notin> set baks \<and> p \<notin> unbackup ` set baks \<longrightarrow> dict_get d' p = dict_get d p)"
  using assms
proof (induction baks arbitrary: d)
  case Nil
  then show ?case by simp
next
  case (Cons b bs)
  obtain x where x: "dict_get d b = Some x" using Cons.prems(2) by auto
  define d1 where "d1 = dict_set (unbackup b) x (AList.delete b d)"
  have step: "os_replace b (unbackup b) d = (Inr (), d1)" by (simp add: os_replace_def x d1_def)
  have m1: "dict_get d1 = (dict_get d)(b := None, unbackup b \<mapsto> x)"
    by (simp add: d1_def dict_get_delete fun_eq_iff)
  have sub: "set bs \<subseteq> dom (dict_get d1)" using Cons.prems m1 by auto
  obtain d' where d': "restore_each bs d1 = (Inr (map unbackup bs), d')"
    "\<forall>c \<in> set bs. dict_get d' (unbackup c) = dict_get d1 c \<and> dict_get d' c = None"
    "\<forall>p. p \<notin> set bs \<and> p \<notin> unbackup ` set bs \<longrightarrow> dict_get d' p = dict_get d1 p"
    using Cons.IH [OF _ sub] Cons.prems by (auto simp: inj_on_def)
  have fresh: "b \<notin> set bs" "b \<notin> unbackup ` set bs" "unbackup b \<notin> set bs" "unbackup b \<notin> unbackup ` set bs" "b \<noteq> unbackup b"
    using Cons.prems by (auto simp: inj_on_def)
  have "dict_get d' (unbackup b) = dict_get d b" "dict_get d' b = None"
    using d'(3) fresh m1 x by auto
  moreover have "dict_get d' (unbackup c) = dict_get d c \<and> dict_get d' c = None" if "c \<in> set bs" for c
    using d'(2) that m1 fresh by auto
  moreover have "dict_get d' p = dict_get d p" if "p \<notin> set (b # bs)" "p \<notin> unbackup ` set (b # bs)" for p
    using d'(3) that m1 by auto
  ultimately show ?case using step d'(1) by (intro exI [of _ d']) auto
qed

lemma stage_Inr: "stage libs ck verify p d = (Inr u, d1) \<Longrightarrow> \<exists>out. d1 = dict_set (tmp_path ck) out d"
  by (auto simp: stage_def split: sum.splits)

lemma stage_Inl: "stage libs ck verify p d = (Inl e, d1) \<Longrightarrow> d1 = AList.delete (tmp_path ck) d"
  by (simp add: stage_def split: sum.splits)

lemma apply_mutation_Inr:
  assumes "apply_mutation libs ck src backup verify d = (Inr rep, d')"
  obtains p :: prepared and dropped out d1 where "d1 = dict_set (tmp_path ck) out d"
    "commit libs ck backup (pr_cfg p) dropped d1 = (Inr (), d')"
proof -
  obtain p d1 where st: "stage libs ck verify p d = (Inr (), d1)"
    and com: "commit libs ck backup (pr_cfg p) (dropped_scale_elements p) d1 = (Inr (), d')"
    using assms by (auto simp: apply_mutation_def then_op_Inr pure_op_def)
  obtain out where "d1 = dict_set (tmp_path ck) out d" using stage_Inr [OF st] by blast
  from that [OF this com] show thesis .
qed

lemma apply_mutation_Inl:
  assumes "apply_mutation libs ck src backup verify d = (Inl e, d')"
  obtains (refused) "prepare libs ck src d = Inl e" "d' = d"
  | (unstaged) p where "stage libs ck verify p d = (Inl e, d')"
  | (uncommitted) p d1 where "commit libs ck backup (pr_cfg p) (dropped_scale_elements p) d1 = (Inl e, d')"
  | (unreported) p where "make_report libs ck p (dropped_scale_elements p) d' = Inl e"
  using assms by (auto simp: apply_mutation_def then_op_Inl then_op_Inr pure_op_def)

lemma backup_is_suffix [simp]: "suffix BACKUP_SUFFIX (p @ BACKUP_SUFFIX)"
  by (simp add: suffix_def)

lemma no_backup_suffix:
  assumes "p \<in> set (originals ck) \<union> {tmp_path ck}"
  shows "\<not> suffix BACKUP_SUFFIX p"
proof
  assume "suffix BACKUP_SUFFIX p"
  then have "last p = last BACKUP_SUFFIX" by (auto simp: suffix_def BACKUP_SUFFIX_def)
  with assms show False by (auto simp: originals_def path_defs)
qed

lemma originals_inside: "p \<in> set (originals ck) \<Longrightarrow> prefix (ck @ ''/'') (p @ BACKUP_SUFFIX)"
  by (auto simp: originals_def path_defs)

text \<open>Moving the four backups back over the disk a commit leaves gives the disk before the staging.\<close>

lemma restored_disk:
  assumes stage: "d1 = dict_set (tmp_path ck) out d"
    and orig: "dict_get d1 (st_path ck) = Some a" "dict_get d1 (cfg_path ck) = Some b"
      "dict_get d1 (qc_path ck) = Some c" "dict_get d1 (qmd_path ck) = Some e"
    and committed: "dict_get d' = (dict_get d1)(tmp_path ck := None, st_path ck \<mapsto> new, st_path ck @ BACKUP_SUFFIX \<mapsto> a,
      cfg_path ck \<mapsto> x, cfg_path ck @ BACKUP_SUFFIX \<mapsto> b, qc_path ck \<mapsto> y, qc_path ck @ BACKUP_SUFFIX \<mapsto> c,
      qmd_path ck \<mapsto> z, qmd_path ck @ BACKUP_SUFFIX \<mapsto> e)"
    and moved: "\<And>p. p \<in> set (originals ck) \<Longrightarrow>
      dict_get d'' p = dict_get d' (p @ BACKUP_SUFFIX) \<and> dict_get d'' (p @ BACKUP_SUFFIX) = None"
    and rest: "\<And>p. p \<notin> (\<lambda>p. p @ BACKUP_SUFFIX) ` set (originals ck) \<Longrightarrow> p \<notin> set (originals ck) \<Longrightarrow>
      dict_get d'' p = dict_get d' p"
    and fresh: "dict_get d (tmp_path ck) = None"
    and none: "\<And>p. prefix (ck @ ''/'') p \<Longrightarrow> suffix BACKUP_SUFFIX p \<Longrightarrow> dict_get d p = None"
  shows "dict_get d'' = dict_get d"
proof
  fix p
  let ?baks = "(\<lambda>p. p @ BACKUP_SUFFIX) ` set (originals ck)"
  consider "p \<in> set (originals ck)" | "p \<in> ?baks" | "p = tmp_path ck" "p \<notin> ?baks" "p \<notin> set (originals ck)"
    | "p \<noteq> tmp_path ck" "p \<notin> ?baks" "p \<notin> set (originals ck)" by blast
  then show "dict_get d'' p = dict_get d p"
  proof cases
    case 1
    then show ?thesis using moved [OF 1] committed orig paths_distinct [of ck] by (auto simp: originals_def stage)
  next
    case 2
    then show ?thesis using moved none originals_inside by auto
  next
    case 3
    then show ?thesis using rest [OF 3(2,3)] fresh committed paths_distinct [of ck] by auto
  next
    case 4
    then show ?thesis using rest [OF 4(2,3)] committed by (auto simp: originals_def stage)
  qed
qed

text \<open>
  C10: A mutation is reversible: when the mutation with backups succeeds on a checkpoint that held no
  backups and no temporary file, restoring the backups succeeds and leaves every file of the disk as
  it was before.
\<close>

theorem mutation_is_reversible:
  assumes "apply_mutation libs ck src True verify d = (Inr rep, d')"
    and "distinct (dict_keys d)" "rglob_backups ck d = []" "dict_get d (tmp_path ck) = None"
  shows "\<exists>ps d''. restore_backup ck d' = (Inr ps, d'') \<and> set ps = set (originals ck) \<and> dict_get d'' = dict_get d"
proof -
  obtain p :: prepared and dropped out d1 where stage: "d1 = dict_set (tmp_path ck) out d"
    and com: "commit libs ck True (pr_cfg p) dropped d1 = (Inr (), d')"
    by (rule apply_mutation_Inr [OF assms(1)])
  have "distinct (dict_keys d1)" using assms(2) by (simp add: stage distinct_set)
  note com_d = commit_with_backup(2) [OF com this]
  obtain a b c e new x y z where orig: "dict_get d1 (st_path ck) = Some a" "dict_get d1 (cfg_path ck) = Some b"
      "dict_get d1 (qc_path ck) = Some c" "dict_get d1 (qmd_path ck) = Some e"
    and m': "dict_get d' = (dict_get d1)(tmp_path ck := None, st_path ck \<mapsto> new, st_path ck @ BACKUP_SUFFIX \<mapsto> a,
      cfg_path ck \<mapsto> x, cfg_path ck @ BACKUP_SUFFIX \<mapsto> b, qc_path ck \<mapsto> y, qc_path ck @ BACKUP_SUFFIX \<mapsto> c,
      qmd_path ck \<mapsto> z, qmd_path ck @ BACKUP_SUFFIX \<mapsto> e)"
    using commit_with_backup(1) [OF com] by blast
  define baks where "baks = (\<lambda>p. p @ BACKUP_SUFFIX) ` set (originals ck)"
  have none: "dict_get d p = None" if "prefix (ck @ ''/'') p" "suffix BACKUP_SUFFIX p" for p
  proof -
    have "p \<notin> set (filter (\<lambda>p. prefix (ck @ ''/'') p \<and> suffix BACKUP_SUFFIX p) (dict_keys d))"
      using assms(3) unfolding rglob_backups_def by (metis empty_iff empty_set set_sort)
    then show ?thesis using that by (auto simp: set_dict_keys)
  qed
  have listed: "set (rglob_backups ck d') = baks"
    using none no_backup_suffix [of _ ck]
    by (auto simp: rglob_backups_def set_dict_keys m' stage update_conv' baks_def originals_def
        originals_inside [unfolded originals_def] split: if_splits)
  have dist: "distinct (rglob_backups ck d')"
    unfolding rglob_backups_def distinct_sort by (rule distinct_filter [OF com_d])
  have inj: "inj_on unbackup baks" by (auto simp: baks_def inj_on_def)
  have targets: "unbackup ` baks = set (originals ck)" by (force simp: baks_def image_iff)
  have "suffix BACKUP_SUFFIX p" if "p \<in> baks" for p using that by (auto simp: baks_def)
  then have apart: "set (originals ck) \<inter> baks = {}" using no_backup_suffix [of _ ck] by auto
  have "baks \<subseteq> dom (dict_get d')" using m' paths_distinct [of ck] by (auto simp: baks_def originals_def)
  then obtain d'' where d'': "restore_each (rglob_backups ck d') d' = (Inr (map unbackup (rglob_backups ck d')), d'')"
    "\<forall>b \<in> baks. dict_get d'' (unbackup b) = dict_get d' b \<and> dict_get d'' b = None"
    "\<forall>p. p \<notin> baks \<and> p \<notin> set (originals ck) \<longrightarrow> dict_get d'' p = dict_get d' p"
    using restore_each_spec [OF dist, of d'] inj targets apart by (auto simp: listed)
  have "dict_get d'' = dict_get d"
    by (rule restored_disk [OF stage orig m' _ _ assms(4) none]) (use d''(2,3) in \<open>auto simp: baks_def\<close>)
  moreover have "rglob_backups ck d' \<noteq> []" using listed by (auto simp: baks_def originals_def)
  ultimately show ?thesis
    using d''(1) targets listed by (intro exI) (auto simp: restore_backup_def)
qed

lemma mutation_is_reversible_witness:
  "\<exists>rep d' ps d''. apply_mutation demo_ck ''c'' ''s'' True True demo_disk = (Inr rep, d') \<and>
     restore_backup ''c'' d' = (Inr ps, d'') \<and> dict_get d'' = dict_get demo_disk"
proof -
  obtain rep d' where run: "apply_mutation demo_ck ''c'' ''s'' True True demo_disk = (Inr rep, d')"
    using demo_mutation by (auto simp: is_ok_iff prod_eq_iff)
  have clean: "distinct (dict_keys demo_disk)" "rglob_backups ''c'' demo_disk = []" "dict_get demo_disk (tmp_path ''c'') = None"
    by code_simp+
  from mutation_is_reversible [OF run clean] run show ?thesis by blast
qed

text \<open>
  C22: A refused mutation changes nothing: whenever the mutation stops with a \<open>MutationError\<close> (an unsafe
  source, an already mutated checkpoint, a failed verification), every file but the temporary one is
  untouched, and the temporary one is gone or as it was.
\<close>

theorem refused_mutation_changes_nothing:
  assumes "apply_mutation libs ck src backup verify d = (Inl (MutationError m), d')"
  shows "(\<forall>p. p \<noteq> tmp_path ck \<longrightarrow> dict_get d' p = dict_get d p) \<and>
    dict_get d' (tmp_path ck) \<in> {None, dict_get d (tmp_path ck)}"
proof -
  have rep: "make_report libs ck p dropped x \<noteq> Inl (MutationError m)" for p dropped x
    by (auto simp: make_report_def read_header_file_def read_file_def read_header_def lm_head_dtype_def result_simps Let_def
        split: option.splits if_splits prod.splits)
  from assms have "d' = d \<or> d' = AList.delete (tmp_path ck) d"
  proof (cases rule: apply_mutation_Inl)
    case refused
    then show ?thesis by simp
  next
    case unstaged
    then show ?thesis using stage_Inl by blast
  next
    case uncommitted
    then show ?thesis using commit_Inl by blast
  next
    case unreported
    then show ?thesis using rep by blast
  qed
  then show ?thesis by (auto simp: dict_get_delete)
qed

lemma refused_mutation_changes_nothing_witness:
  "\<exists>m d'. apply_mutation demo_ck ''c'' ''nowhere'' True True demo_disk = (Inl (MutationError m), d') \<and>
     dict_get d' (st_path ''c'') = dict_get demo_disk (st_path ''c'')"
proof -
  obtain m d' where run: "apply_mutation demo_ck ''c'' ''nowhere'' True True demo_disk = (Inl (MutationError m), d')"
    using demo_refusal by (cases "apply_mutation demo_ck ''c'' ''nowhere'' True True demo_disk") (auto split: sum.splits ck_exc.splits)
  have "st_path ''c'' \<noteq> tmp_path ''c''" by (simp add: path_defs)
  with refused_mutation_changes_nothing [OF run] run show ?thesis by blast
qed

end
