(* ===== verification/Integrity_Probe.thy ===== *)
theory Integrity_Probe
  imports Checkpoint_Rewrite
begin

text \<open>
  The integrity probe of a mutated checkpoint (\<open>tools/checkpoint_prep/integrity_probe.py\<close>): predicates
  that list problems over headers, hashes and sidecars, and the run over a checkpoint directory. The
  problems are messages in the order the code appends them.
\<close>

section \<open>Names\<close>

definition FP8_DTYPE :: string where "FP8_DTYPE = ''F8_E4M3''"

definition QUANT_SIDECAR :: "string list" where
  "QUANT_SIDECAR = [''weight_quantizer._amax'', ''weight_quantizer._scale'', ''weight_packed'',
     ''weight_block_scale'', ''weight_global_scale'']"

definition ALLOWED_PICKLES :: "string list" where "ALLOWED_PICKLES = [''modelopt_state.pt'']"

text \<open>The search \<open>(^|\.)layers\.\d+\.(mlp|mlp_moe_gen)\.\<close>: at the start, or right after a dot.\<close>

fun after_dots :: "string \<Rightarrow> string list" where
  "after_dots [] = []"
| "after_dots (c # cs) = (if c = CHR ''.'' then [cs] else []) @ after_dots cs"

definition target_here :: "string \<Rightarrow> bool" where
  "target_here s \<longleftrightarrow> prefix ''layers.'' s \<and>
     (let n = drop 7 s; rest = dropWhile is_digit n
      in n \<noteq> rest \<and> (prefix ''.mlp.'' rest \<or> prefix ''.mlp_moe_gen.'' rest))"

definition mlp_target :: "string \<Rightarrow> bool" where
  "mlp_target s \<longleftrightarrow> list_ex target_here (s # after_dots s)"

definition is_quant :: "string \<Rightarrow> tensor_meta \<Rightarrow> bool" where
  "is_quant name m \<longleftrightarrow> tm_dtype m = FP8_DTYPE \<or> list_ex (\<lambda>s. suffix s name) QUANT_SIDECAR"

section \<open>The predicates\<close>

definition action_problems :: "tensors \<Rightarrow> (string, int list) dict \<Rightarrow> string \<Rightarrow> message list" where
  "action_problems ts shapes a = (case dict_get ts a of
     None \<Rightarrow> [[MLit ''action tensor missing: '', MStr a]]
   | Some m \<Rightarrow>
       (if tm_dtype m \<noteq> ''BF16''
        then [[MLit ''action tensor '', MStr a, MLit '' dtype '', MStr (tm_dtype m), MLit '' != BF16'']] else []) @
       (case dict_get shapes a of None \<Rightarrow> [] | Some sh \<Rightarrow>
          if tm_shape m \<noteq> sh
          then [[MLit ''action tensor '', MStr a, MLit '' shape '', MInts (tm_shape m), MLit '' != '', MInts sh]] else []))"

definition check_action_set :: "tensors \<Rightarrow> params \<Rightarrow> ck_exc + message list" where
  "check_action_set ts cfg =
     mapE (\<lambda>shapes. concat (map (action_problems ts shapes) ACTION_TENSORS)) (expected_shapes cfg)"

definition dtype_of :: "tensors \<Rightarrow> string \<Rightarrow> pyval" where
  "dtype_of ts name = (case dict_get ts name of None \<Rightarrow> PNone | Some m \<Rightarrow> PStr (tm_dtype m))"

definition check_inv7_structure :: "tensors \<Rightarrow> message list" where
  "check_inv7_structure ts =
     (if dtype_of ts ''lm_head.weight'' \<noteq> PStr ''BF16''
      then [[MLit ''lm_head.weight dtype '', MVal (dtype_of ts ''lm_head.weight''), MLit '' != BF16 (INV-7)'']] else []) @
     (if dtype_of ts ''embed_tokens.weight'' \<noteq> PStr ''BF16''
      then [[MLit ''embed_tokens.weight not BF16 (INV-7)'']] else []) @
     concat (map (\<lambda>(name, m). if is_quant name m \<and> \<not> mlp_target name
       then [[MLit ''quantized tensor outside mlp/mlp_moe_gen (INV-7 violation): '', MStr name]] else []) ts)"

definition f8_weight_count :: "tensors \<Rightarrow> nat" where
  "f8_weight_count ts = length (filter (\<lambda>(name, m). suffix ''.weight'' name \<and> tm_dtype m = FP8_DTYPE) ts)"

text \<open>A number of JSON compared with an integer.\<close>

definition equals_int :: "pyval \<Rightarrow> int \<Rightarrow> bool" where
  "equals_int v n \<longleftrightarrow> (case v of
     PInt i \<Rightarrow> i = n | PBool b \<Rightarrow> (if b then 1 else 0) = n | PFloat (Finite r) \<Rightarrow> r = of_int n | _ \<Rightarrow> False)"

definition mixed_precision :: "params \<Rightarrow> pyval" where
  "mixed_precision qc = (case dict_get qc ''mixed_precision'' of None \<Rightarrow> PDict [] | Some v \<Rightarrow> v)"

definition declared_count :: "params \<Rightarrow> py_exc + pyval" where
  "declared_count qc = py_get (mixed_precision qc) ''n_quantized'' PNone"

definition check_quantized_count :: "tensors \<Rightarrow> params \<Rightarrow> py_exc + message list" where
  "check_quantized_count ts qc = mapE (\<lambda>declared.
     if declared \<noteq> PNone \<and> \<not> equals_int declared (int (f8_weight_count ts))
     then [[MLit ''F8 weight count '', MInt (int (f8_weight_count ts)), MLit '' != quantization_config n_quantized '', MVal declared]]
     else []) (declared_count qc)"

type_synonym hashes = "(string, string) dict"

definition check_scoped_byte_identity :: "hashes \<Rightarrow> hashes \<Rightarrow> message list" where
  "check_scoped_byte_identity pre post =
     concat (map (\<lambda>(name, h). if name \<in> set DROPPED_LMHEAD then [] else
        (case dict_get post name of
           None \<Rightarrow> [[MLit ''pre-existing tensor missing after mutation: '', MStr name]]
         | Some h' \<Rightarrow> if h' \<noteq> h then [[MLit ''pre-existing tensor changed (byte-identity broken): '', MStr name]] else [])) pre) @
     concat (map (\<lambda>name. if (suffix ''._amax'' name \<or> suffix ''._scale'' name) \<and> dict_get post name \<noteq> None
        then [[MLit ''FP8 lm_head quantizer sidecar still present: '', MStr name]] else []) DROPPED_LMHEAD) @
     concat (map (\<lambda>name. if dict_get post name = None
        then [[MLit ''expected added tensor missing: '', MStr name]] else []) ADDED_TENSORS)"

text \<open>\<open>x in v\<close> for a string \<open>x\<close>: an element, a substring or a key.\<close>

definition py_contains :: "string \<Rightarrow> pyval \<Rightarrow> py_exc + bool" where
  "py_contains x v = (case v of
     PList xs \<Rightarrow> Inr (PStr x \<in> set xs)
   | PStr s \<Rightarrow> Inr (list_ex (prefix x) (suffixes s))
   | PDict d \<Rightarrow> Inr (x \<in> set (dict_keys d))
   | _ \<Rightarrow> Inl TypeError)"

definition check_sidecars :: "params \<Rightarrow> params \<Rightarrow> params \<Rightarrow> py_exc + message list" where
  "check_sidecars cfg qc qmd =
     bindE (py_get (mixed_precision qc) ''quantized'' (PList [])) (\<lambda>quantized.
     mapE (\<lambda>listed.
       (if val_get cfg ''action_gen'' \<noteq> PBool True then [[MLit ''transformer config action_gen != true'']] else []) @
       (if val_get qc ''recipe'' \<noteq> PStr ''fp8_blockwise_mixed''
        then [[MLit ''quantization_config recipe changed: '', MVal (val_get qc ''recipe'')]] else []) @
       (if val_get qc ''quant_lmhead'' \<noteq> PBool False then [[MLit ''quant_lmhead != false'']] else []) @
       (if listed then [[MLit ''lm_head still listed in mixed_precision.quantized'']] else []) @
       (if get_truthy qmd ''dropped_action_keys''
        then [[MLit ''dropped_action_keys not resolved: '', MVal (val_get qmd ''dropped_action_keys'')]] else []))
     (py_contains ''lm_head'' quantized))"

definition check_source_identity :: "hashes \<Rightarrow> hashes \<Rightarrow> message list" where
  "check_source_identity post source =
     concat (map (\<lambda>name. (case dict_get source name of
        None \<Rightarrow> [[MLit ''added tensor '', MStr name, MLit '' not found in the BF16 source (wrong --source dir?)'']]
      | Some h \<Rightarrow> if dict_get post name \<noteq> Some h
                  then [[MLit ''added tensor '', MStr name, MLit '' does not match BF16 source bytes'']] else [])) ADDED_TENSORS)"

text \<open>\<open>Path.suffix\<close> of a file name: from the last dot, unless it starts or ends the name.\<close>

definition name_suffix :: "string \<Rightarrow> string" where
  "name_suffix n = (let ext = takeWhile (\<lambda>c. c \<noteq> CHR ''.'') (rev n)
     in if ext = [] \<or> drop (length ext + 1) (rev n) = [] then [] else CHR ''.'' # rev ext)"

definition check_pickle_free :: "string \<Rightarrow> disk \<Rightarrow> message list" where
  "check_pickle_free dir d =
     (let names = map (drop (length dir + 1)) (filter (in_directory dir) (dict_keys d));
          pickles = filter (\<lambda>n. name_suffix n \<in> {''.pt'', ''.pkl'', ''.bin''}) names;
          unexpected = sort (filter (\<lambda>n. n \<notin> set ALLOWED_PICKLES) pickles)
      in if unexpected \<noteq> [] then [[MLit ''unexpected serving pickle(s) present: '', MStrs unexpected]] else [])"

section \<open>The run\<close>

definition hash_file :: "ck_libs \<Rightarrow> string \<Rightarrow> disk \<Rightarrow> ck_exc + hashes" where
  "hash_file libs p d = bindE (read_file p d) (hash_all_tensors (ck_loads libs) (ck_sha libs))"

fun hash_named :: "ck_libs \<Rightarrow> byte list \<Rightarrow> nat \<Rightarrow> tensors \<Rightarrow> string list \<Rightarrow> hashes \<Rightarrow> ck_exc + hashes" where
  "hash_named libs raw ds ts [] out = Inr out"
| "hash_named libs raw ds ts (name # names) out = (case dict_get ts name of
     Some m \<Rightarrow> if dict_get out name = None
       then bindE (hash_tensor (ck_sha libs) raw ds m) (\<lambda>h. hash_named libs raw ds ts names (dict_set name h out))
       else hash_named libs raw ds ts names out
   | None \<Rightarrow> hash_named libs raw ds ts names out)"

fun hash_shards :: "ck_libs \<Rightarrow> string list \<Rightarrow> disk \<Rightarrow> string list \<Rightarrow> hashes \<Rightarrow> ck_exc + hashes" where
  "hash_shards libs names d [] out = Inr out"
| "hash_shards libs names d (shard # shards) out =
     bindE (read_file shard d) (\<lambda>raw. bindE (read_header (ck_loads libs) raw) (\<lambda>(h, n).
       bindE (hash_named libs raw (8 + n) (hd_tensors h) names out) (hash_shards libs names d shards)))"

definition source_hashes :: "ck_libs \<Rightarrow> string \<Rightarrow> string list \<Rightarrow> disk \<Rightarrow> ck_exc + hashes" where
  "source_hashes libs dir names d = hash_shards libs names d (glob_safetensors dir d) []"

record probe_facts =
  pf_action_count :: nat
  pf_lm_head_dtype :: pyval
  pf_f8_weight_count :: nat
  pf_n_quantized :: pyval
  pf_recipe :: pyval
  pf_action_gen :: pyval
  pf_byte_identity_checked :: bool
  pf_source_identity_checked :: bool

record probe_report =
  pp_ok :: bool
  pp_problems :: "message list"
  pp_facts :: probe_facts

definition given :: "string option \<Rightarrow> bool" where
  "given s \<longleftrightarrow> (case s of None \<Rightarrow> False | Some t \<Rightarrow> t \<noteq> [])"

text \<open>The hash comparisons, made when a backup or a source is given.\<close>

definition hash_problems :: "ck_libs \<Rightarrow> string \<Rightarrow> string option \<Rightarrow> string option \<Rightarrow> disk \<Rightarrow> ck_exc + message list" where
  "hash_problems libs st backup_st source_dir d =
     (if given backup_st \<or> given source_dir then
        bindE (hash_file libs st d) (\<lambda>post.
        bindE (if given backup_st
               then mapE (\<lambda>pre. check_scoped_byte_identity pre post) (hash_file libs (the backup_st) d) else Inr []) (\<lambda>ps1.
        mapE (\<lambda>ps2. ps1 @ ps2)
          (if given source_dir
           then mapE (check_source_identity post) (source_hashes libs (the source_dir @ ''/transformer'') ADDED_TENSORS d)
           else Inr [])))
      else Inr [])"

definition probe_checkpoint :: "ck_libs \<Rightarrow> string \<Rightarrow> string option \<Rightarrow> string option \<Rightarrow> disk \<Rightarrow> ck_exc + probe_report" where
  "probe_checkpoint libs ck backup_st source_dir d =
     bindE (read_header_file libs (st_path ck) d) (\<lambda>(h, n).
     bindE (read_json libs (cfg_path ck) d) (\<lambda>cfg.
     bindE (read_json libs (qc_path ck) d) (\<lambda>qc.
     bindE (read_json libs (qmd_path ck) d) (\<lambda>qmd.
     bindE (check_action_set (hd_tensors h) cfg) (\<lambda>ps1.
     bindE (map_errE CkRaise (check_quantized_count (hd_tensors h) qc)) (\<lambda>ps3.
     bindE (map_errE CkRaise (check_sidecars cfg qc qmd)) (\<lambda>ps4.
     bindE (hash_problems libs (st_path ck) backup_st source_dir d) (\<lambda>ps6.
     mapE (\<lambda>declared.
       let problems = ps1 @ check_inv7_structure (hd_tensors h) @ ps3 @ ps4 @ check_pickle_free (ck @ ''/transformer'') d @ ps6
       in \<lparr>pp_ok = problems = [], pp_problems = problems,
           pp_facts = \<lparr>pf_action_count = count_actions (hd_tensors h), pf_lm_head_dtype = dtype_of (hd_tensors h) ''lm_head.weight'',
             pf_f8_weight_count = f8_weight_count (hd_tensors h), pf_n_quantized = declared, pf_recipe = val_get qc ''recipe'',
             pf_action_gen = val_get cfg ''action_gen'', pf_byte_identity_checked = given backup_st,
             pf_source_identity_checked = given source_dir\<rparr>\<rparr>)
       (map_errE CkRaise (declared_count qc))))))))))"

record snapshot =
  sn_tensor_count :: nat
  sn_action_count :: nat
  sn_action_gen :: pyval
  sn_lm_head_dtype :: pyval
  sn_hashes :: hashes

definition snapshot_facts :: "ck_libs \<Rightarrow> string \<Rightarrow> disk \<Rightarrow> ck_exc + snapshot" where
  "snapshot_facts libs ck d =
     bindE (read_header_file libs (st_path ck) d) (\<lambda>(h, n).
     bindE (read_json libs (cfg_path ck) d) (\<lambda>cfg.
     mapE (\<lambda>hs. \<lparr>sn_tensor_count = length (hd_tensors h), sn_action_count = count_actions (hd_tensors h),
                  sn_action_gen = val_get cfg ''action_gen'', sn_lm_head_dtype = dtype_of (hd_tensors h) ''lm_head.weight'',
                  sn_hashes = hs\<rparr>)
       (hash_file libs (st_path ck) d)))"

text \<open>The exit status of the command: a snapshot succeeds, a probe fails on any problem.\<close>

definition probe_exit :: "ck_libs \<Rightarrow> bool \<Rightarrow> string \<Rightarrow> string option \<Rightarrow> string option \<Rightarrow> disk \<Rightarrow> ck_exc + nat" where
  "probe_exit libs snap ck backup_st source_dir d =
     (if snap then mapE (\<lambda>_. 0) (snapshot_facts libs ck d)
      else mapE (\<lambda>r. if pp_ok r then 0 else 1) (probe_checkpoint libs ck backup_st source_dir d))"

end
