(* ===== verification/Probe_Facts.thy ===== *)
theory Probe_Facts
  imports Integrity_Probe Checkpoint_Undo
begin

text \<open>
  The probe against the mutation (over \<open>Integrity_Probe\<close> and \<open>Checkpoint_Rewrite\<close>): a mutation that
  verified its output has no byte-identity or source-identity problem, and the sidecars it computes
  have none but a recipe that was already wrong.
\<close>

section \<open>Hashes by name\<close>

lemma hash_entries_get:
  "hash_entries sha raw ds es = Inr hs \<Longrightarrow>
   dict_get hs n = Some x \<longleftrightarrow> (\<exists>m. dict_get es n = Some m \<and> hash_tensor sha raw ds m = Inr x)"
  by (induction es arbitrary: hs) (auto simp: result_simps)

lemma hash_entries_none: "hash_entries sha raw ds es = Inr hs \<Longrightarrow> dict_get hs n = None \<longleftrightarrow> dict_get es n = None"
  by (induction es arbitrary: hs) (auto simp: result_simps)

lemma hash_sources_get:
  "hash_sources libs d es = Inr hs \<Longrightarrow> dict_get hs n = Some x \<longleftrightarrow>
   (\<exists>shard ds m raw. dict_get es n = Some (shard, ds, m) \<and> read_file shard d = Inr raw \<and> hash_tensor (ck_sha libs) raw ds m = Inr x)"
  by (induction es arbitrary: hs) (auto simp: result_simps)

lemma kept_entries_get: "dict_get (kept_entries ts plan) n = (if n \<in> set (mp_keep plan) then dict_get ts n else None)"
  by (induction ts) (auto simp: kept_entries_def)

text \<open>The probe's scan of the source shards finds the tensors that the mutation's scan found.\<close>

definition scans_agree :: "ck_libs \<Rightarrow> disk \<Rightarrow> source_map \<Rightarrow> hashes \<Rightarrow> bool" where
  "scans_agree libs d found out \<longleftrightarrow>
     (\<forall>n. dict_get out n = None \<longleftrightarrow> dict_get found n = None) \<and>
     (\<forall>n shard ds m. dict_get found n = Some (shard, ds, m) \<longrightarrow>
        (\<exists>raw x. read_file shard d = Inr raw \<and> hash_tensor (ck_sha libs) raw ds m = Inr x \<and> dict_get out n = Some x))"

lemma scans_agree_none: "scans_agree libs d found out \<Longrightarrow> dict_get out n = None \<longleftrightarrow> dict_get found n = None"
  by (simp add: scans_agree_def)

lemma scans_agree_step:
  assumes "hash_named libs raw ds ts names out = Inr out'" "scans_agree libs d found out" "read_file shard d = Inr raw"
  shows "scans_agree libs d (found_in shard ds ts names found) out'"
  using assms(1,2)
proof (induction names arbitrary: out found)
  case Nil
  then show ?case by (simp add: found_in_def)
next
  case (Cons n names)
  have unfold: "found_in shard ds ts (n # names) found = found_in shard ds ts names (case dict_get ts n of
      Some m \<Rightarrow> if dict_get found n = None then dict_set n (shard, ds, m) found else found | None \<Rightarrow> found)"
    by (simp add: found_in_def)
  show ?case
  proof (cases "\<exists>m. dict_get ts n = Some m \<and> dict_get out n = None")
    case True
    then obtain m where m: "dict_get ts n = Some m" "dict_get out n = None" by blast
    with Cons.prems obtain x where x: "hash_tensor (ck_sha libs) raw ds m = Inr x"
      "hash_named libs raw ds ts names (dict_set n x out) = Inr out'"
      by (auto simp: result_simps)
    have "scans_agree libs d (dict_set n (shard, ds, m) found) (dict_set n x out)"
      using Cons.prems(2) x(1) assms(3) by (auto simp: scans_agree_def update_conv')
    from Cons.IH [OF x(2) this] m scans_agree_none [OF Cons.prems(2)] show ?thesis
      by (simp add: unfold)
  next
    case False
    then have "hash_named libs raw ds ts names out = Inr out'"
      using Cons.prems(1) by (auto split: option.splits if_splits)
    with Cons.IH [OF this Cons.prems(2)] False scans_agree_none [OF Cons.prems(2), of n] show ?thesis
      by (auto simp: unfold split: option.split)
  qed
qed

lemma scans_agree_shards:
  assumes "hash_shards libs names d' shards out = Inr out'" "scan_shards libs names d shards found = Inr found'"
    and "scans_agree libs d found out" "\<And>s. s \<in> set shards \<Longrightarrow> read_file s d' = read_file s d"
  shows "scans_agree libs d found' out'"
  using assms
proof (induction shards arbitrary: out found)
  case (Cons s shards)
  obtain raw h n out1 where s: "read_file s d = Inr raw" "read_header (ck_loads libs) raw = Inr (h, n)"
    "hash_named libs raw (8 + n) (hd_tensors h) names out = Inr out1" "hash_shards libs names d' shards out1 = Inr out'"
    using Cons.prems(1) Cons.prems(4) [of s] by (auto simp: result_simps)
  have "scan_shards libs names d shards (found_in s (data_start n) (hd_tensors h) names found) = Inr found'"
    using Cons.prems(2) s by (simp add: read_header_file_def)
  from Cons.IH [OF s(4) this scans_agree_step [OF s(3) Cons.prems(3) s(1), folded data_start_def]] Cons.prems(4)
  show ?case by simp
qed simp

section \<open>A verified mutation\<close>

lemma stage_verified:
  assumes "stage libs ck True p d = (Inr u, d1)"
  obtains out where "d1 = dict_set (tmp_path ck) out d" "verify_output libs out (pr_plan p) (pr_pre_hashes p) (pr_src_hashes p) = Inr ()"
  using assms that by (auto simp: stage_def result_simps split: sum.splits)

lemma verify_kept_None:
  "verify_kept libs out ds ts f g hashes n = None \<longleftrightarrow>
   (\<exists>m h. dict_get ts n = Some m \<and> hash_tensor (ck_sha libs) out ds m = Inr h \<and> dict_get hashes n = Some h)"
  by (auto simp: verify_kept_def split: option.splits sum.splits)

lemma verify_output_post:
  assumes "verify_output libs out plan pre src = Inr ()" "hash_all_tensors (ck_loads libs) (ck_sha libs) out = Inr post"
  shows "n \<in> set (mp_keep plan) \<Longrightarrow> \<exists>h. dict_get post n = Some h \<and> dict_get pre n = Some h"
    and "n \<in> set (mp_add plan) \<Longrightarrow> \<exists>h. dict_get post n = Some h \<and> dict_get src n = Some h"
    and "n \<in> set (mp_drop plan) \<Longrightarrow> n \<notin> set ADDED_TENSORS \<Longrightarrow> dict_get post n = None"
proof -
  obtain h k where h: "read_header (ck_loads libs) out = Inr (h, k)"
      "hash_entries (ck_sha libs) out (data_start k) (hd_tensors h) = Inr post"
    using assms(2) by (auto simp: hash_all_tensors_def result_simps)
  note get = hash_entries_get [OF h(2)] and none = hash_entries_none [OF h(2)]
  have v: "\<forall>n \<in> set (mp_keep plan). \<exists>m x. dict_get (hd_tensors h) n = Some m \<and>
        hash_tensor (ck_sha libs) out (data_start k) m = Inr x \<and> dict_get pre n = Some x"
    "\<forall>n \<in> set (mp_add plan). \<exists>m x. dict_get (hd_tensors h) n = Some m \<and>
        hash_tensor (ck_sha libs) out (data_start k) m = Inr x \<and> dict_get src n = Some x"
    "\<forall>n \<in> set (mp_drop plan). verify_dropped (hd_tensors h) n = None"
    using assms(1) h(1) by (auto simp: verify_output_def Let_def raise_if_Inr_iff bindE_Inr_iff first_error_None verify_kept_None)
  show "n \<in> set (mp_keep plan) \<Longrightarrow> \<exists>h. dict_get post n = Some h \<and> dict_get pre n = Some h"
    using v(1) get by blast
  show "n \<in> set (mp_add plan) \<Longrightarrow> \<exists>h. dict_get post n = Some h \<and> dict_get src n = Some h"
    using v(2) get by blast
  show "dict_get post n = None" if "n \<in> set (mp_drop plan)" "n \<notin> set ADDED_TENSORS"
    using v(3) that none by (auto simp: verify_dropped_def set_dict_keys split: if_splits)
qed

lemma prepare_Inr:
  assumes "prepare libs ck src d = Inr p"
  obtains h n shapes where "read_file (st_path ck) d = Inr (pr_fp8 p)" "read_header (ck_loads libs) (pr_fp8 p) = Inr (h, n)"
    "scan_shards libs ADDED_TENSORS d (glob_safetensors (src @ ''/transformer'') d) [] = Inr (pr_srcmap p)"
    "mp_keep (pr_plan p) = filter (\<lambda>n. n \<notin> set DROPPED_LMHEAD) (dict_keys (hd_tensors h))"
    "mp_drop (pr_plan p) = filter (\<lambda>n. n \<in> set (dict_keys (hd_tensors h))) DROPPED_LMHEAD" "mp_add (pr_plan p) = ADDED_TENSORS"
    "hash_entries (ck_sha libs) (pr_fp8 p) (data_start n) (kept_entries (hd_tensors h) (pr_plan p)) = Inr (pr_pre_hashes p)"
    "hash_sources libs d (pr_srcmap p) = Inr (pr_src_hashes p)"
  using assms
  by (auto simp: prepare_def result_simps Let_def resolve_source_tensors_def split: if_splits elim!: plan_mutation_Inr)

lemma sidecar_names: "n \<in> set DROPPED_LMHEAD \<Longrightarrow> suffix ''._amax'' n \<or> suffix ''._scale'' n \<Longrightarrow> n \<notin> set ADDED_TENSORS"
  by (auto simp: DROPPED_LMHEAD_def ADDED_TENSORS_def ACTION_TENSORS_def suffix_def)

lemma glob_unchanged:
  assumes "dict_get d' = (\<lambda>p. if p \<in> X then f p else dict_get d p)" "distinct (dict_keys d)" "distinct (dict_keys d')"
    and "\<And>p. prefix (dir @ ''/'') p \<Longrightarrow> p \<notin> X"
  shows "glob_safetensors dir d' = glob_safetensors dir d"
proof -
  have "set (filter (\<lambda>p. in_directory dir p \<and> suffix ''.safetensors'' p) (dict_keys d')) =
      set (filter (\<lambda>p. in_directory dir p \<and> suffix ''.safetensors'' p) (dict_keys d))"
    using assms(4) by (auto simp: set_dict_keys in_directory_def assms(1) split: if_splits)
  then show ?thesis using assms(2,3) unfolding glob_safetensors_def
    by (intro sorted_distinct_set_unique) (simp_all add: distinct_filter)
qed

text \<open>What a verified mutation with backups leaves, as far as the probe reads it.\<close>

lemma verified_mutation:
  assumes "apply_mutation libs ck src True True d = (Inr rep, d')" "distinct (dict_keys d)"
    and apart: "\<And>p. prefix (src @ ''/transformer/'') p \<Longrightarrow> \<not> prefix (ck @ ''/'') p"
  obtains p :: prepared and out where "prepare libs ck src d = Inr p" "dict_get d' (st_path ck) = Some out"
    "dict_get d' (st_path ck @ BACKUP_SUFFIX) = Some (pr_fp8 p)"
    "verify_output libs out (pr_plan p) (pr_pre_hashes p) (pr_src_hashes p) = Inr ()"
    "glob_safetensors (src @ ''/transformer'') d' = glob_safetensors (src @ ''/transformer'') d"
    "\<forall>q. prefix (src @ ''/transformer/'') q \<longrightarrow> dict_get d' q = dict_get d q"
proof -
  obtain p :: prepared and d1 where pr: "prepare libs ck src d = Inr p" and st: "stage libs ck True p d = (Inr (), d1)"
    and com: "commit libs ck True (pr_cfg p) (dropped_scale_elements p) d1 = (Inr (), d')"
    using assms(1) by (auto simp: apply_mutation_def then_op_Inr pure_op_def)
  obtain out where out: "d1 = dict_set (tmp_path ck) out d" "verify_output libs out (pr_plan p) (pr_pre_hashes p) (pr_src_hashes p) = Inr ()"
    by (rule stage_verified [OF st])
  have dist: "distinct (dict_keys d1)" "distinct (dict_keys d')"
    using assms(2) commit_with_backup(2) [OF com] by (simp_all add: out(1) distinct_set)
  obtain a b c e new x y z where orig: "dict_get d1 (st_path ck) = Some a" "dict_get d1 (tmp_path ck) = Some new"
    and m': "dict_get d' = (dict_get d1)(tmp_path ck := None, st_path ck \<mapsto> new, st_path ck @ BACKUP_SUFFIX \<mapsto> a,
      cfg_path ck \<mapsto> x, cfg_path ck @ BACKUP_SUFFIX \<mapsto> b, qc_path ck \<mapsto> y, qc_path ck @ BACKUP_SUFFIX \<mapsto> c,
      qmd_path ck \<mapsto> z, qmd_path ck @ BACKUP_SUFFIX \<mapsto> e)"
    using commit_with_backup(1) [OF com] by blast
  have "read_file (st_path ck) d = Inr (pr_fp8 p)" by (rule prepare_Inr [OF pr])
  then have "dict_get d (st_path ck) = Some (pr_fp8 p)" by (simp add: read_file_def split: option.splits)
  then have a: "a = pr_fp8 p" "new = out" using orig paths_distinct [of ck] by (auto simp: out(1))
  have ours: "prefix (ck @ ''/'') (tmp_path ck)" "\<And>p. p \<in> set (originals ck) \<Longrightarrow> prefix (ck @ ''/'') p"
    by (auto simp: originals_def path_defs)
  have inside: "q \<noteq> tmp_path ck" "q \<notin> set (originals ck)" "q \<notin> (\<lambda>p. p @ BACKUP_SUFFIX) ` set (originals ck)"
    if "prefix (src @ ''/transformer/'') q" for q
    using apart [OF that] ours originals_inside by blast+
  have same: "dict_get d' q = dict_get d q" if "prefix (src @ ''/transformer/'') q" for q
    using inside [OF that] by (simp add: m' out(1) originals_def)
  have "glob_safetensors (src @ ''/transformer'') d' = glob_safetensors (src @ ''/transformer'') d"
    by (rule glob_unchanged [where X = "{q. dict_get d' q \<noteq> dict_get d q}" and f = "dict_get d'"])
      (use assms(2) dist same in \<open>auto simp: fun_eq_iff\<close>)
  moreover have "dict_get d' (st_path ck) = Some out" "dict_get d' (st_path ck @ BACKUP_SUFFIX) = Some (pr_fp8 p)"
    using m' a paths_distinct [of ck] by auto
  ultimately show thesis using that [OF pr _ _ out(2)] same by blast
qed

lemma sources_rescanned:
  assumes "scan_shards libs ADDED_TENSORS d (glob_safetensors dir d) [] = Inr sm" "source_hashes libs dir ADDED_TENSORS d' = Inr srcs"
    and "glob_safetensors dir d' = glob_safetensors dir d"
    and "\<And>q. prefix (dir @ ''/'') q \<Longrightarrow> dict_get d' q = dict_get d q"
  shows "scans_agree libs d sm srcs"
proof (rule scans_agree_shards [OF _ assms(1)])
  show "hash_shards libs ADDED_TENSORS d' (glob_safetensors dir d) [] = Inr srcs"
    using assms(2) by (simp add: source_hashes_def assms(3))
  show "scans_agree libs d [] []" by (simp add: scans_agree_def)
  show "read_file s d' = read_file s d" if "s \<in> set (glob_safetensors dir d)" for s
    using that assms(4) by (auto simp: glob_safetensors_def in_directory_def read_file_def)
qed

lemma kept_hash:
  assumes "hash_entries sha bytes start (hd_tensors h) = Inr pre"
    and "hash_entries sha bytes start (kept_entries (hd_tensors h) plan) = Inr kept" "distinct (dict_keys pre)"
    and "mp_keep plan = filter (\<lambda>n. n \<notin> set DROPPED_LMHEAD) (dict_keys (hd_tensors h))"
    and "(name, x) \<in> set pre" "name \<notin> set DROPPED_LMHEAD"
  shows "name \<in> set (mp_keep plan)" "dict_get kept name = Some x"
proof -
  have x: "dict_get pre name = Some x" using assms(3,5) by (simp add: dict_keys_def)
  then show mem: "name \<in> set (mp_keep plan)"
    using assms(6) hash_entries_get [OF assms(1)] by (auto simp: assms(4) set_dict_keys)
  with x show "dict_get kept name = Some x"
    by (simp add: hash_entries_get [OF assms(1)] hash_entries_get [OF assms(2)] kept_entries_get)
qed

text \<open>
  C11: What the mutation verified, the probe accepts: after a mutation with backup and verification, on a
  checkpoint whose FP8 \<open>lm_head\<close> had its quantizer sidecars and a source directory outside of it, the
  probe's byte-identity check against the backup and its source-identity check find no problem.
\<close>

theorem verified_mutation_passes_probe:
  assumes "apply_mutation libs ck src True True d = (Inr rep, d')" "distinct (dict_keys d)"
    and "\<And>p. prefix (src @ ''/transformer/'') p \<Longrightarrow> \<not> prefix (ck @ ''/'') p"
    and "hash_file libs (st_path ck @ BACKUP_SUFFIX) d' = Inr pre" "distinct (dict_keys pre)" "set DROPPED_LMHEAD \<subseteq> set (dict_keys pre)"
    and "hash_file libs (st_path ck) d' = Inr post" "source_hashes libs (src @ ''/transformer'') ADDED_TENSORS d' = Inr srcs"
  shows "check_scoped_byte_identity pre post = [] \<and> check_source_identity post srcs = []"
proof -
  obtain p :: prepared and out where p: "prepare libs ck src d = Inr p"
    and files: "dict_get d' (st_path ck) = Some out" "dict_get d' (st_path ck @ BACKUP_SUFFIX) = Some (pr_fp8 p)"
    and ver: "verify_output libs out (pr_plan p) (pr_pre_hashes p) (pr_src_hashes p) = Inr ()"
    and glob: "glob_safetensors (src @ ''/transformer'') d' = glob_safetensors (src @ ''/transformer'') d"
    and same: "\<forall>q. prefix (src @ ''/transformer/'') q \<longrightarrow> dict_get d' q = dict_get d q"
    by (rule verified_mutation [OF assms(1,2,3)])
  obtain h n where hd: "read_header (ck_loads libs) (pr_fp8 p) = Inr (h, n)"
    and scan: "scan_shards libs ADDED_TENSORS d (glob_safetensors (src @ ''/transformer'') d) [] = Inr (pr_srcmap p)"
    and plan: "mp_keep (pr_plan p) = filter (\<lambda>n. n \<notin> set DROPPED_LMHEAD) (dict_keys (hd_tensors h))"
      "mp_drop (pr_plan p) = filter (\<lambda>n. n \<in> set (dict_keys (hd_tensors h))) DROPPED_LMHEAD" "mp_add (pr_plan p) = ADDED_TENSORS"
    and hashes: "hash_entries (ck_sha libs) (pr_fp8 p) (data_start n) (kept_entries (hd_tensors h) (pr_plan p)) = Inr (pr_pre_hashes p)"
      "hash_sources libs d (pr_srcmap p) = Inr (pr_src_hashes p)"
    by (rule prepare_Inr [OF p])
  have pre: "hash_entries (ck_sha libs) (pr_fp8 p) (data_start n) (hd_tensors h) = Inr pre"
    using assms(4) files(2) hd by (simp add: hash_file_def read_file_def hash_all_tensors_def)
  have post: "hash_all_tensors (ck_loads libs) (ck_sha libs) out = Inr post"
    using assms(7) files(1) by (simp add: hash_file_def read_file_def)
  note out = verify_output_post [OF ver post]
  have kept: "dict_get post name = Some x" if "(name, x) \<in> set pre" "name \<notin> set DROPPED_LMHEAD" for name x
    using kept_hash [OF pre hashes(1) assms(5) plan(1) that] out(1) [of name] by auto
  have gone: "dict_get post name = None" if "name \<in> set DROPPED_LMHEAD" "suffix ''._amax'' name \<or> suffix ''._scale'' name" for name
  proof -
    have "name \<in> set (dict_keys (hd_tensors h))"
      using assms(6) that(1) hash_entries_none [OF pre, of name] by (auto simp: set_dict_keys)
    then show ?thesis using out(3) [of name] that sidecar_names by (simp add: plan)
  qed
  have added: "\<exists>x. dict_get post name = Some x \<and> dict_get (pr_src_hashes p) name = Some x" if "name \<in> set ADDED_TENSORS" for name
    using out(2) that by (simp add: plan)
  have "scans_agree libs d (pr_srcmap p) srcs" by (rule sources_rescanned [OF scan assms(8) glob]) (simp add: same)
  then have source: "dict_get srcs name = Some x" if "dict_get (pr_src_hashes p) name = Some x" for name x
    using that by (fastforce simp: scans_agree_def hash_sources_get [OF hashes(2)])
  have "check_scoped_byte_identity pre post = []"
    using kept gone added by (fastforce simp: check_scoped_byte_identity_def)
  moreover have "check_source_identity post srcs = []"
    using added source by (fastforce simp: check_source_identity_def)
  ultimately show ?thesis by simp
qed

lemma demo_probe:
  "case apply_mutation demo_ck ''c'' ''s'' True True demo_disk of
     (Inr rep, d') \<Rightarrow>
       (case hash_file demo_ck (st_path ''c'' @ BACKUP_SUFFIX) d' of
          Inr pre \<Rightarrow> distinct (dict_keys pre) \<and> set DROPPED_LMHEAD \<subseteq> set (dict_keys pre) | Inl _ \<Rightarrow> False) \<and>
       is_ok (hash_file demo_ck (st_path ''c'') d') \<and> is_ok (source_hashes demo_ck ''s/transformer'' ADDED_TENSORS d')
   | _ \<Rightarrow> False"
  by code_simp

lemma verified_mutation_passes_probe_witness:
  "\<exists>rep d' pre post. apply_mutation demo_ck ''c'' ''s'' True True demo_disk = (Inr rep, d') \<and>
     hash_file demo_ck (st_path ''c'' @ BACKUP_SUFFIX) d' = Inr pre \<and> hash_file demo_ck (st_path ''c'') d' = Inr post \<and>
     check_scoped_byte_identity pre post = []"
proof -
  obtain rep d' pre post srcs where run: "apply_mutation demo_ck ''c'' ''s'' True True demo_disk = (Inr rep, d')"
    and pre: "hash_file demo_ck (st_path ''c'' @ BACKUP_SUFFIX) d' = Inr pre" "distinct (dict_keys pre)" "set DROPPED_LMHEAD \<subseteq> set (dict_keys pre)"
    and post: "hash_file demo_ck (st_path ''c'') d' = Inr post" "source_hashes demo_ck (''s'' @ ''/transformer'') ADDED_TENSORS d' = Inr srcs"
    using demo_probe by (auto simp: is_ok_iff split: prod.splits sum.splits)
  have "distinct (dict_keys demo_disk)" by code_simp
  moreover have "\<not> prefix (''c'' @ ''/'') p" if "prefix (''s'' @ ''/transformer/'') p" for p
    using that by (auto simp: prefix_def)
  ultimately show ?thesis using verified_mutation_passes_probe [OF run _ _ pre post] run pre(1) post(1) by blast
qed

section \<open>The sidecars\<close>

lemma lower_if_present_other: "lower_if_present k n d = Inr d' \<Longrightarrow> j \<noteq> k \<Longrightarrow> dict_get d' j = dict_get d j"
  by (auto simp: lower_if_present_def result_simps update_conv' split: option.splits)

lemma update_mixed_quantized:
  assumes "update_mixed mp = Inr mp'"
  obtains xs where "dict_get mp' ''quantized'' = Some (PList (filter (\<lambda>p. p \<noteq> PStr ''lm_head'') xs))"
  using assms by (auto simp: update_mixed_def bindE_Inr_iff dest!: lower_if_present_other [where j = "''quantized''"])

lemma updated_config_fields:
  assumes "updated_config qc n = Inr qc'"
  obtains mp xs where "dict_get qc' ''mixed_precision'' = Some (PDict mp)"
    "dict_get mp ''quantized'' = Some (PList (filter (\<lambda>p. p \<noteq> PStr ''lm_head'') xs))"
    "dict_get qc' ''quant_lmhead'' = Some (PBool False)" "dict_get qc' ''recipe'' = dict_get qc ''recipe''"
proof -
  define q0 where "q0 = dict_set ''quant_lmhead'' (PBool False) qc"
  obtain mp0 mp where mp: "update_mixed mp0 = Inr mp" and rest: "(case val_get (dict_set ''mixed_precision'' (PDict mp) q0) ''scale_layout'' of
       PNone \<Rightarrow> Inr (dict_set ''mixed_precision'' (PDict mp) q0)
     | v \<Rightarrow> bindE (as_dict v) (\<lambda>sl. mapE (\<lambda>sl1. dict_set ''scale_layout'' (PDict sl1) (dict_set ''mixed_precision'' (PDict mp) q0))
         (update_scale_layout n sl))) = Inr qc'"
    using assms unfolding updated_config_def Let_def q0_def [symmetric] bindE_Inr_iff by blast
  have "qc' = dict_set ''mixed_precision'' (PDict mp) q0 \<or>
      (\<exists>sl. qc' = dict_set ''scale_layout'' (PDict sl) (dict_set ''mixed_precision'' (PDict mp) q0))"
    using rest by (cases "val_get (dict_set ''mixed_precision'' (PDict mp) q0) ''scale_layout''") (auto simp: result_simps)
  then have "dict_get qc' ''mixed_precision'' = Some (PDict mp)" "dict_get qc' ''quant_lmhead'' = Some (PBool False)"
    "dict_get qc' ''recipe'' = dict_get qc ''recipe''"
    by (auto simp: q0_def update_conv')
  then show thesis using that update_mixed_quantized [OF mp] by metis
qed

text \<open>
  The rewritten sidecars pass the probe: whatever the two sidecars held, once \<open>updated_sidecars\<close> returns,
  the probe finds nothing wrong with them and the configuration the commit writes, provided the recipe
  was the FP8 one; a wrong recipe is reported and nothing else.
\<close>

theorem updated_sidecars_pass_probe:
  assumes "updated_sidecars qc qmd n = Inr (qc', qmd')"
  shows "check_sidecars (dict_set ''action_gen'' (PBool True) cfg) qc' qmd' =
    Inr (if val_get qc ''recipe'' = PStr ''fp8_blockwise_mixed'' then []
         else [[MLit ''quantization_config recipe changed: '', MVal (val_get qc ''recipe'')]])"
proof -
  have qc': "updated_config qc n = Inr qc'" and qmd': "updated_map_diff qmd = Inr qmd'"
    using assms by (auto simp: updated_sidecars_def result_simps)
  obtain mp xs where mp: "dict_get qc' ''mixed_precision'' = Some (PDict mp)"
      "dict_get mp ''quantized'' = Some (PList (filter (\<lambda>p. p \<noteq> PStr ''lm_head'') xs))"
    and rest: "dict_get qc' ''quant_lmhead'' = Some (PBool False)" "dict_get qc' ''recipe'' = dict_get qc ''recipe''"
    by (rule updated_config_fields [OF qc'])
  have "get_truthy qmd' ''dropped_action_keys'' = False"
    using qmd' by (auto simp: updated_map_diff_def result_simps get_truthy_def)
  then show ?thesis using mp rest
    by (simp add: check_sidecars_def mixed_precision_def py_get_def py_contains_def val_get_def)
qed

lemma updated_sidecars_pass_probe_witness:
  "\<exists>qc' qmd'. updated_sidecars [(''recipe'', PStr ''fp8_blockwise_mixed''), (''mixed_precision'', PDict [(''quantized'', PList [PStr ''lm_head''])])] [] 2 = Inr (qc', qmd') \<and>
     check_sidecars [(''action_gen'', PBool True)] qc' qmd' = Inr []"
proof -
  have "is_ok (updated_sidecars [(''recipe'', PStr ''fp8_blockwise_mixed''), (''mixed_precision'', PDict [(''quantized'', PList [PStr ''lm_head''])])] [] 2)"
    by code_simp
  then obtain qc' qmd' where run: "updated_sidecars [(''recipe'', PStr ''fp8_blockwise_mixed''), (''mixed_precision'', PDict [(''quantized'', PList [PStr ''lm_head''])])] [] 2 = Inr (qc', qmd')"
    by (auto simp: is_ok_iff)
  show ?thesis using run updated_sidecars_pass_probe [OF run, of "[]"] by (simp add: val_get_def)
qed

end
