(* ===== verification/Preflight.thy ===== *)
theory Preflight
  imports Checkpoint_Rewrite
begin

text \<open>
  The gates around the reasoner: the co-residency verdicts over a VRAM trace
  (\<open>api/engines/vllm/coresidency.py\<close>) and the reasoner-source guard
  (\<open>api/engines/vllm/reasoner_preflight.py\<close>), which decides from the safetensors headers alone whether a
  directory holds a servable BF16 understanding tower. What \<open>nvidia-smi\<close> answers is an argument.
\<close>

section \<open>Co-residency\<close>

definition VRAM_BUDGET_BYTES :: int where "VRAM_BUDGET_BYTES = 32 * 1024 ^ 3"
definition MIN_GENERATION_BYTES :: int where "MIN_GENERATION_BYTES = 1024 ^ 3"

definition VLLM_UP :: string where "VLLM_UP = ''vllm_up''"
definition VLLM_DOWN :: string where "VLLM_DOWN = ''vllm_down''"
definition GENERATION_UP :: string where "GENERATION_UP = ''generation_up''"

record vram_sample =
  vs_label :: string
  vs_resident_bytes :: int

definition within_budget :: "vram_sample list \<Rightarrow> int \<Rightarrow> bool" where
  "within_budget trace budget \<longleftrightarrow> list_all (\<lambda>s. vs_resident_bytes s \<le> budget) trace"

definition labelled :: "string \<Rightarrow> vram_sample list \<Rightarrow> vram_sample list" where
  "labelled l trace = filter (\<lambda>s. vs_label s = l) trace"

definition handoff_ok :: "vram_sample list \<Rightarrow> int \<Rightarrow> int \<Rightarrow> int \<Rightarrow> bool" where
  "handoff_ok trace budget idle_bytes min_generation_bytes =
     (if \<not> within_budget trace budget then False
      else if list_ex (\<lambda>l. labelled l trace = [] \<or>
                list_ex (\<lambda>s. vs_resident_bytes s < min_generation_bytes) (labelled l trace)) [VLLM_UP, GENERATION_UP]
        then False
      else (let downs = labelled VLLM_DOWN trace
            in \<not> (downs = [] \<or> list_ex (\<lambda>s. idle_bytes < vs_resident_bytes s) downs)))"

text \<open>\<open>str.splitlines\<close> and the first field of \<open>str.split\<close>.\<close>

definition line_end :: "char \<Rightarrow> bool" where
  "line_end c \<longleftrightarrow> (let n = of_char c :: nat in (10 \<le> n \<and> n \<le> 13) \<or> (28 \<le> n \<and> n \<le> 30) \<or> n = 133)"

fun split_lines :: "string \<Rightarrow> string \<Rightarrow> string list" where
  "split_lines acc [] = (if acc = [] then [] else [rev acc])"
| "split_lines acc (c # cs) =
     (if \<not> line_end c then split_lines (c # acc) cs
      else (case cs of
        d # ds \<Rightarrow> rev acc # (if of_char c = (13 :: nat) \<and> of_char d = (10 :: nat) then split_lines [] ds else split_lines [] (d # ds))
      | [] \<Rightarrow> [rev acc]))"

definition first_field :: "string \<Rightarrow> string" where
  "first_field s = takeWhile (\<lambda>c. \<not> is_space c) (dropWhile is_space s)"

definition parse_smi_used_mib :: "string \<Rightarrow> py_exc + int" where
  "parse_smi_used_mib text =
     (case filter (\<lambda>l. strip l \<noteq> []) (split_lines [] (strip text)) of
        [] \<Rightarrow> Inr 0
      | l # ls \<Rightarrow> (case parse_int (first_field l) of None \<Rightarrow> Inl ValueError | Some n \<Rightarrow> Inr n))"

text \<open>\<open>None\<close> is a run of \<open>nvidia-smi\<close> that failed.\<close>

definition gpu_memory_used_bytes :: "string option \<Rightarrow> py_exc + int" where
  "gpu_memory_used_bytes smi = (case smi of
     None \<Rightarrow> Inr 0 | Some out \<Rightarrow> mapE (\<lambda>n. n * 1024 * 1024) (parse_smi_used_mib out))"

definition vram_sample_of :: "string \<Rightarrow> string option \<Rightarrow> py_exc + vram_sample" where
  "vram_sample_of label smi = mapE (\<lambda>n. \<lparr>vs_label = label, vs_resident_bytes = n\<rparr>) (gpu_memory_used_bytes smi)"

section \<open>The reasoner source\<close>

definition KEEP :: "string list" where
  "KEEP = [''layers.'', ''embed_tokens.'', ''norm.'', ''lm_head.'', ''blocks.'', ''merger.'', ''patch_embed.'', ''pos_embed.'',
     ''deepstack_merger_list.'']"

definition DROP_SUBSTR :: "string list" where
  "DROP_SUBSTR = [''_moe_gen'', ''.add_q_proj.'', ''.add_k_proj.'', ''.add_v_proj.'', ''.to_add_out.'',
     ''.norm_added_q.'', ''.norm_added_k.'']"

definition DROP_PREFIX :: "string list" where
  "DROP_PREFIX = [''proj_in.'', ''proj_out.'', ''time_embedder.'', ''audio_proj_in.'', ''audio_proj_out.'',
     ''action_proj_in.'', ''action_proj_out.'', ''audio_modality_embed'', ''action_modality_embed'']"

definition QUANT_WEIGHT_DTYPES :: "string list" where
  "QUANT_WEIGHT_DTYPES = [''F8_E4M3'', ''F8_E4M3FN'', ''F8_E5M2'', ''I8'', ''INT8'']"

definition QUANT_SIDECAR_SUFFIX :: "string list" where
  "QUANT_SIDECAR_SUFFIX = [''weight_packed'', ''weight_block_scale'', ''weight_global_scale'',
     ''weight_quantizer._amax'', ''weight_quantizer._scale'']"

definition MAX_HEADER_BYTES :: nat where "MAX_HEADER_BYTES = 128 * 1024 * 1024"

datatype source_code =
  QUANTIZED_WEIGHT | HAS_QUANT_SIDECAR | EMPTY_UNDERSTANDING_TOWER | NO_TRANSFORMER_WEIGHTS | MALFORMED_HEADER

record source_rejection =
  sr_code :: source_code
  sr_message :: message
  sr_tensor :: "string option"
  sr_dtype :: "string option"

datatype source_exc = ReasonerSourceError source_rejection | SourceRaise ck_exc

definition contains :: "string \<Rightarrow> string \<Rightarrow> bool" where
  "contains s name \<longleftrightarrow> list_ex (prefix s) (suffixes name)"

definition is_dropped :: "string \<Rightarrow> bool" where
  "is_dropped name \<longleftrightarrow> list_ex (\<lambda>s. contains s name) DROP_SUBSTR \<or> list_ex (\<lambda>p. prefix p name) DROP_PREFIX"

definition is_kept :: "string \<Rightarrow> bool" where
  "is_kept name \<longleftrightarrow> list_ex (\<lambda>p. prefix p name) KEEP \<and> \<not> is_dropped name"

definition has_sidecar_suffix :: "string \<Rightarrow> bool" where
  "has_sidecar_suffix name \<longleftrightarrow> list_ex (\<lambda>s. suffix s name) QUANT_SIDECAR_SUFFIX"

fun scan_headers :: "bool \<Rightarrow> tensors \<Rightarrow> source_rejection option" where
  "scan_headers seen [] =
     (if seen then None
      else Some \<lparr>sr_code = EMPTY_UNDERSTANDING_TOWER,
             sr_message = [MLit ''no reasoner-kept understanding-tower weight tensors found in transformer headers''],
             sr_tensor = None, sr_dtype = None\<rparr>)"
| "scan_headers seen ((name, m) # ts) =
     (if \<not> is_kept name then scan_headers seen ts
      else if has_sidecar_suffix name then
        Some \<lparr>sr_code = HAS_QUANT_SIDECAR, sr_message = [MLit ''reasoner-kept blockwise-quant sidecar present: '', MStr name],
              sr_tensor = Some name, sr_dtype = None\<rparr>
      else if suffix ''.weight'' name then
        (if str_upper (tm_dtype m) \<in> set QUANT_WEIGHT_DTYPES then
           Some \<lparr>sr_code = QUANTIZED_WEIGHT,
                 sr_message = [MLit ''reasoner-kept weight '', MStr name, MLit '' has quantized dtype '', MStr (str_upper (tm_dtype m))],
                 sr_tensor = Some name, sr_dtype = Some (str_upper (tm_dtype m))\<rparr>
         else scan_headers True ts)
      else scan_headers seen ts)"

definition reasoner_source_verdict :: "tensors \<Rightarrow> source_rejection option" where
  "reasoner_source_verdict headers = scan_headers False headers"

definition read_safetensors_header :: "ck_libs \<Rightarrow> string \<Rightarrow> disk \<Rightarrow> source_exc + tensors" where
  "read_safetensors_header libs p d =
     bindE (map_errE SourceRaise (read_file p d)) (\<lambda>raw.
       if length raw < 8 then Inl (SourceRaise StructError)
       else (let n = from_le (take 8 raw) in
         if \<not> (0 < n \<and> n \<le> MAX_HEADER_BYTES) then
           Inl (ReasonerSourceError \<lparr>sr_code = MALFORMED_HEADER,
             sr_message = [MStr (last (components p)), MLit '': safetensors header length '', MInt (int n), MLit '' is implausible (expected 1..'',
               MInt (int MAX_HEADER_BYTES), MLit '') - corrupt or hostile file''], sr_tensor = None, sr_dtype = None\<rparr>)
         else map_errE (SourceRaise \<circ> CkRaise) (mapE hd_tensors (ck_loads libs (take n (drop 8 raw))))))"

fun merge_headers :: "ck_libs \<Rightarrow> string list \<Rightarrow> disk \<Rightarrow> tensors \<Rightarrow> source_exc + tensors" where
  "merge_headers libs [] d merged = Inr merged"
| "merge_headers libs (p # ps) d merged =
     bindE (read_safetensors_header libs p d) (\<lambda>ts. merge_headers libs ps d (dict_merge merged ts))"

definition read_transformer_headers :: "ck_libs \<Rightarrow> string \<Rightarrow> disk \<Rightarrow> source_exc + tensors" where
  "read_transformer_headers libs model_dir d =
     (let files = glob_safetensors (model_dir @ ''/transformer'') d in
      if files = [] then
        Inl (ReasonerSourceError \<lparr>sr_code = NO_TRANSFORMER_WEIGHTS,
          sr_message = [MLit ''no transformer/*.safetensors under '', MStr model_dir], sr_tensor = None, sr_dtype = None\<rparr>)
      else merge_headers libs files d [])"

definition assert_reasoner_source :: "ck_libs \<Rightarrow> string \<Rightarrow> disk \<Rightarrow> source_exc + unit" where
  "assert_reasoner_source libs model_dir d =
     bindE (read_transformer_headers libs model_dir d) (\<lambda>ts.
       raise_if (map_option ReasonerSourceError (reasoner_source_verdict ts)))"

text \<open>The exit status of the command over its arguments; other exceptions escape.\<close>

definition preflight_exit :: "ck_libs \<Rightarrow> string list \<Rightarrow> disk \<Rightarrow> ck_exc + nat" where
  "preflight_exit libs argv d = (case argv of
     [dir] \<Rightarrow> (case assert_reasoner_source libs dir d of
        Inr _ \<Rightarrow> Inr 0 | Inl (ReasonerSourceError _) \<Rightarrow> Inr 1 | Inl (SourceRaise e) \<Rightarrow> Inl e)
   | _ \<Rightarrow> Inr 2)"

section \<open>What the verdicts say\<close>

text \<open>A reasoner-kept tensor that plain serving could not read.\<close>

definition blocks_serving :: "string \<times> tensor_meta \<Rightarrow> bool" where
  "blocks_serving e \<longleftrightarrow> is_kept (fst e) \<and>
     (has_sidecar_suffix (fst e) \<or> suffix ''.weight'' (fst e) \<and> str_upper (tm_dtype (snd e)) \<in> set QUANT_WEIGHT_DTYPES)"

definition kept_weight :: "string \<times> tensor_meta \<Rightarrow> bool" where
  "kept_weight e \<longleftrightarrow> is_kept (fst e) \<and> suffix ''.weight'' (fst e)"

lemma scan_headers_None:
  "scan_headers seen ts = None \<longleftrightarrow> list_all (\<lambda>e. \<not> blocks_serving e) ts \<and> (seen \<or> list_ex kept_weight ts)"
  by (induction seen ts rule: scan_headers.induct) (auto simp: blocks_serving_def kept_weight_def)

lemma preflight_exit_zero:
  "preflight_exit libs argv d = Inr 0 \<longleftrightarrow>
    (\<exists>dir ts. argv = [dir] \<and> read_transformer_headers libs dir d = Inr ts \<and> reasoner_source_verdict ts = None)"
  by (auto simp: preflight_exit_def assert_reasoner_source_def result_simps map_option_case
      split: list.splits sum.splits source_exc.splits option.splits)

text \<open>
  C34: The preflight serves exactly the BF16 towers: the command exits with 0 if and only if it was given
  one directory whose shards' headers read and merge, no reasoner-kept tensor carries a quantization
  sidecar or a quantized weight type, and at least one reasoner-kept weight is there.
\<close>

theorem preflight_exact:
  "preflight_exit libs argv d = Inr 0 \<longleftrightarrow>
    (\<exists>dir ts. argv = [dir] \<and> read_transformer_headers libs dir d = Inr ts \<and>
       list_ex kept_weight ts \<and> \<not> list_ex blocks_serving ts)"
  unfolding preflight_exit_zero reasoner_source_verdict_def scan_headers_None
  by (auto simp: list_all_iff list_ex_iff)

lemma within_budget_iff: "within_budget trace budget \<longleftrightarrow> (\<forall>s \<in> set trace. vs_resident_bytes s \<le> budget)"
  by (simp add: within_budget_def list_all_iff)

text \<open>An accepted handoff: both planes were loaded, the reasoner was released, nothing was over budget.\<close>

lemma handoff_ok_iff:
  "handoff_ok trace budget idle least \<longleftrightarrow>
    (\<forall>s \<in> set trace. vs_resident_bytes s \<le> budget) \<and>
    (\<forall>l \<in> {VLLM_UP, GENERATION_UP}. labelled l trace \<noteq> [] \<and> (\<forall>s \<in> set (labelled l trace). least \<le> vs_resident_bytes s)) \<and>
    labelled VLLM_DOWN trace \<noteq> [] \<and> (\<forall>s \<in> set (labelled VLLM_DOWN trace). vs_resident_bytes s \<le> idle)"
  by (auto simp: handoff_ok_def within_budget_iff list_ex_iff not_le not_less Let_def)

end
