(* ===== verification/Link_Files.thy ===== *)
theory Link_Files
  imports Trust_Paths
begin

text \<open>
  A file system with symbolic links, for the code that replaces links by copies: the calls of
  \<open>os\<close> and \<open>pathlib\<close> the source uses, with the resolution of a path as the kernel does it. A path is
  absolute and given by its parts (\<open>..\<close> is a part; \<open>pathlib\<close> keeps it). The directories are entries
  of the map, a directory's children are the paths that extend it by one name. Permissions, hard
  links and special files are left out; so are the moves of whole directories, which no caller does.
\<close>

section \<open>Paths and nodes\<close>

type_synonym path = "string list"

datatype node = File "byte list" | Link string | Dir

type_synonym fs = "(path, node) dict"

datatype fs_exc = NotFound | NotADirectory | IsADirectory | FileExists | TooManyLinks
  | SymlinkLoop | RecursionError | NotSubpath

type_synonym 'a fs_op = "(fs, fs_exc, 'a) op"

definition node_at :: "fs \<Rightarrow> path \<Rightarrow> node option" where
  "node_at fs p = (if p = [] then Some Dir else dict_get fs p)"

definition isabs :: "string \<Rightarrow> bool" where
  "isabs t = (case t of [] \<Rightarrow> False | c # _ \<Rightarrow> c = CHR ''/'')"

definition parts :: "string \<Rightarrow> string list" where
  "parts t = filter (\<lambda>c. c \<noteq> ''.'') (components t)"

section \<open>Resolution of a path\<close>

text \<open>
  The kernel's walk: \<open>here\<close> is the directory reached, \<open>n\<close> the links it may still follow. A link in the
  last place is followed when \<open>follow\<close> holds. The value is the place of the last part, which
  may be missing; everything before it exists.
\<close>

definition MAXSYMLINKS :: nat where "MAXSYMLINKS = 40"

function walk :: "fs \<Rightarrow> bool \<Rightarrow> nat \<Rightarrow> path \<Rightarrow> string list \<Rightarrow> fs_exc + path" where
  "walk fs follow n here [] = Inr here"
| "walk fs follow n here (c # cs) =
     (if c = ''..'' then walk fs follow n (butlast here) cs
      else (case node_at fs (here @ [c]) of
          Some (Link t) \<Rightarrow>
            if cs = [] \<and> \<not> follow then Inr (here @ [c])
            else (case n of 0 \<Rightarrow> Inl TooManyLinks
                  | Suc m \<Rightarrow> walk fs follow m (if isabs t then [] else here) (parts t @ cs))
        | Some Dir \<Rightarrow> walk fs follow n (here @ [c]) cs
        | Some (File _) \<Rightarrow> if cs = [] then Inr (here @ [c]) else Inl NotADirectory
        | None \<Rightarrow> if cs = [] then Inr (here @ [c]) else Inl NotFound))"
  by pat_completeness auto
termination
  by (relation "measures [\<lambda>(fs, follow, n, here, cs). n, \<lambda>(fs, follow, n, here, cs). length cs]") auto

definition locate :: "fs \<Rightarrow> bool \<Rightarrow> path \<Rightarrow> fs_exc + path" where
  "locate fs follow p = walk fs follow MAXSYMLINKS [] p"

definition stat_node :: "fs \<Rightarrow> bool \<Rightarrow> path \<Rightarrow> fs_exc + node" where
  "stat_node fs follow p = bindE (locate fs follow p)
     (\<lambda>l. case node_at fs l of None \<Rightarrow> Inl NotFound | Some k \<Rightarrow> Inr k)"

text \<open>The tests of \<open>pathlib\<close> answer False where the call fails for one of these errors.\<close>

definition path_exists :: "fs \<Rightarrow> path \<Rightarrow> bool" where
  "path_exists fs p = (case stat_node fs True p of Inr _ \<Rightarrow> True | Inl _ \<Rightarrow> False)"

definition is_dir :: "fs \<Rightarrow> path \<Rightarrow> bool" where
  "is_dir fs p = (stat_node fs True p = Inr Dir)"

definition is_file :: "fs \<Rightarrow> path \<Rightarrow> bool" where
  "is_file fs p = (case stat_node fs True p of Inr (File _) \<Rightarrow> True | _ \<Rightarrow> False)"

definition is_symlink :: "fs \<Rightarrow> path \<Rightarrow> bool" where
  "is_symlink fs p = (case stat_node fs False p of Inr (Link _) \<Rightarrow> True | _ \<Rightarrow> False)"

text \<open>
  \<open>os.path.realpath\<close>, not strict: missing parts are kept, a part that is a link is replaced by its
  resolution, remembered in \<open>seen\<close> (\<open>None\<close> while it is under way); a link met while it is under way
  is a loop, and the rest is then joined as it is and normalised lexically.
\<close>

datatype pending = Part string | Resolved path

fun pending_parts :: "pending list \<Rightarrow> string list" where
  "pending_parts [] = []"
| "pending_parts (Part c # ps) = c # pending_parts ps"
| "pending_parts (Resolved _ # ps) = pending_parts ps"

function realpath_from :: "fs \<Rightarrow> (path, path option) dict \<Rightarrow> path \<Rightarrow> pending list \<Rightarrow> path" where
  "realpath_from fs seen here [] = here"
| "realpath_from fs seen here (Resolved q # ps) = realpath_from fs (dict_set q (Some here) seen) here ps"
| "realpath_from fs seen here (Part c # ps) =
     (if c = ''..'' then realpath_from fs seen (butlast here) ps
      else (case dict_get fs (here @ [c]) of
          Some (Link t) \<Rightarrow> (case dict_get seen (here @ [c]) of
              Some (Some r) \<Rightarrow> realpath_from fs seen r ps
            | Some None \<Rightarrow> collapse [] (here @ [c] @ pending_parts ps)
            | None \<Rightarrow> realpath_from fs (dict_set (here @ [c]) None seen) (if isabs t then [] else here)
                (map Part (parts t) @ Resolved (here @ [c]) # ps))
        | _ \<Rightarrow> realpath_from fs seen (here @ [c]) ps))"
  by pat_completeness auto

definition unseen :: "fs \<Rightarrow> (path, path option) dict \<Rightarrow> nat" where
  "unseen fs seen = card (set (dict_keys fs) - set (dict_keys seen))"

lemma unseen_set_le: "unseen fs (dict_set q r seen) \<le> unseen fs seen"
  unfolding unseen_def by (intro card_mono) (auto simp: dict_keys_def dom_update)

lemma unseen_set_less:
  assumes "dict_get fs q \<noteq> None" "dict_get seen q = None"
  shows "unseen fs (dict_set q r seen) < unseen fs seen"
  unfolding unseen_def
proof (rule psubset_card_mono)
  have "q \<in> set (dict_keys fs)" "q \<notin> set (dict_keys seen)"
    using assms by (auto simp: dict_keys_def map_of_eq_None_iff)
  then show "set (dict_keys fs) - set (dict_keys (dict_set q r seen)) \<subset> set (dict_keys fs) - set (dict_keys seen)"
    by (auto simp: dict_keys_def dom_update)
qed simp

termination realpath_from
proof (relation "measures [\<lambda>(fs, seen, here, ps). unseen fs seen, \<lambda>(fs, seen, here, ps). length ps]", goal_cases)
  case (2 fs seen here q ps)
  then show ?case using unseen_set_le [of fs q "Some here" seen] by (auto simp: le_less)
qed (auto intro!: unseen_set_less)

text \<open>\<open>Path.resolve\<close>: the resolved path, unless a \<open>stat\<close> of it reports a loop.\<close>

definition resolve_path :: "fs \<Rightarrow> path \<Rightarrow> fs_exc + path" where
  "resolve_path fs p = (let r = realpath_from fs [] [] (map Part p)
     in if stat_node fs True r = Inl TooManyLinks then Inl SymlinkLoop else Inr r)"

section \<open>Calls\<close>

definition names_in :: "fs \<Rightarrow> path \<Rightarrow> string list" where
  "names_in fs d = sort (remdups (map last (filter (\<lambda>p. p \<noteq> [] \<and> butlast p = d) (dict_keys fs))))"

text \<open>\<open>sorted(p.iterdir())\<close>, as the names.\<close>

definition listdir :: "fs \<Rightarrow> path \<Rightarrow> fs_exc + string list" where
  "listdir fs p = bindE (locate fs True p) (\<lambda>l. case node_at fs l of
     None \<Rightarrow> Inl NotFound | Some Dir \<Rightarrow> Inr (names_in fs l) | Some _ \<Rightarrow> Inl NotADirectory)"

definition read_bytes :: "fs \<Rightarrow> path \<Rightarrow> fs_exc + byte list" where
  "read_bytes fs p = bindE (stat_node fs True p) (\<lambda>k. case k of
     File b \<Rightarrow> Inr b | Dir \<Rightarrow> Inl IsADirectory | Link _ \<Rightarrow> Inl NotFound)"

definition readlink :: "fs \<Rightarrow> path \<Rightarrow> string option" where
  "readlink fs p = (case stat_node fs False p of Inr (Link t) \<Rightarrow> Some t | _ \<Rightarrow> None)"

text \<open>\<open>open(p, "wb")\<close> and the bytes written: it follows a link, and creates the file it names.\<close>

definition write_bytes :: "path \<Rightarrow> byte list \<Rightarrow> unit fs_op" where
  "write_bytes p b fs = (case locate fs True p of Inl e \<Rightarrow> (Inl e, fs)
     | Inr l \<Rightarrow> if node_at fs l = Some Dir then (Inl IsADirectory, fs) else (Inr (), dict_set l (File b) fs))"

definition unlink :: "path \<Rightarrow> unit fs_op" where
  "unlink p fs = (case locate fs False p of Inl e \<Rightarrow> (Inl e, fs)
     | Inr l \<Rightarrow> (case node_at fs l of
          None \<Rightarrow> (Inl NotFound, fs) | Some Dir \<Rightarrow> (Inl IsADirectory, fs)
        | Some _ \<Rightarrow> (Inr (), AList.delete l fs)))"

definition mkdir_one :: "path \<Rightarrow> unit fs_op" where
  "mkdir_one p fs = (case locate fs False p of Inl e \<Rightarrow> (Inl e, fs)
     | Inr l \<Rightarrow> if node_at fs l = None then (Inr (), dict_set l Dir fs) else (Inl FileExists, fs))"

text \<open>\<open>Path.mkdir(parents=True, exist_ok=True)\<close>; the second attempt has \<open>parents=False\<close>.\<close>

definition mkdir_exist_ok :: "path \<Rightarrow> fs_exc \<Rightarrow> unit fs_op" where
  "mkdir_exist_ok p e fs = (if is_dir fs p then Inr () else Inl e, fs)"

function mkdir_parents :: "path \<Rightarrow> unit fs_op" where
  "mkdir_parents p fs = (case mkdir_one p fs of
     (Inr u, fs') \<Rightarrow> (Inr u, fs')
   | (Inl e, fs') \<Rightarrow>
       if e = NotFound \<and> p \<noteq> [] then
         then_op (mkdir_parents (butlast p))
           (\<lambda>_ fs. case mkdir_one p fs of (Inr u, fs') \<Rightarrow> (Inr u, fs') | (Inl e, fs') \<Rightarrow>
              if e = NotFound then (Inl e, fs') else mkdir_exist_ok p e fs') fs'
       else if e = NotFound then (Inl e, fs') else mkdir_exist_ok p e fs')"
  by pat_completeness auto
termination
  by (relation "measure (\<lambda>(p, fs). length p)") auto

declare mkdir_parents.simps [simp del]

text \<open>\<open>os.replace\<close> of a file: the destination's own entry is replaced, a link is not followed.\<close>

definition replace_file :: "path \<Rightarrow> path \<Rightarrow> unit fs_op" where
  "replace_file p q fs = (case (locate fs False p, locate fs False q) of
     (Inl e, _) \<Rightarrow> (Inl e, fs) | (_, Inl e) \<Rightarrow> (Inl e, fs)
   | (Inr l, Inr m) \<Rightarrow> (case node_at fs l of
        None \<Rightarrow> (Inl NotFound, fs)
      | Some k \<Rightarrow> if node_at fs m = Some Dir then (Inl IsADirectory, fs)
                  else (Inr (), dict_set m k (AList.delete l fs))))"

end
