(* ===== verification/Self_Contained.thy ===== *)
theory Self_Contained
  imports Link_Files Integrity_Probe
begin

text \<open>
  The self-contained copy step (\<open>tools/checkpoint_prep/copy_shared.py\<close>): the plan from the fixed
  inventory, the sweep of leftover links, the copy over a file system with symbolic links, and the
  verification with its provenance record. SHA-256, the header decoder, the text decoder, the JSON
  printer and the clock are arguments, and so is the depth the interpreter's stack allows.
\<close>

section \<open>Data\<close>

record copy_env =
  ce_sha :: "byte list \<Rightarrow> string"
  ce_loads :: "byte list \<Rightarrow> py_exc + header"
  ce_text :: "byte list \<Rightarrow> string"
  ce_base_ref :: string
  ce_depth :: nat

datatype copy_exc = OsFailure fs_exc | AbsentSources path "path list" | OverTransformer string | Hashing ck_exc

datatype item_kind = KFile | KDir

record copy_item =
  ci_rel :: string
  ci_kind :: item_kind
  ci_source :: path
  ci_dest :: path
  ci_group :: string

record copy_plan =
  cp_items :: "copy_item list"
  cp_dst :: path
  cp_source :: path

record copy_report =
  cr_ok :: bool
  cr_problems :: "message list"
  cr_files :: nat
  cr_facts :: "(string, nat) dict"

definition TMP_COPY :: string where "TMP_COPY = ''.s6-tmp''"
definition TEXT_SUFFIXES :: "string list" where "TEXT_SUFFIXES = [''.json'', ''.txt'']"
definition PROVENANCE :: string where "PROVENANCE = ''self_contained_provenance.json''"

definition SHARED_DIRS :: "string list" where
  "SHARED_DIRS = [''vae'', ''text_tokenizer'', ''vision_encoder'', ''sound_tokenizer'', ''scheduler'']"

definition ROOT_FILES :: "string list" where
  "ROOT_FILES = [''model_index.json'', ''config.json'', ''generation_config.json'', ''checkpoint.json'',
     ''tokenizer.json'', ''tokenizer_config.json'', ''vocab.json'', ''merges.txt'',
     ''chat_template.json'', ''preprocessor_config.json'', ''video_preprocessor_config.json'']"

definition ASSET_FILES :: "string list" where
  "ASSET_FILES = [''example_t2v_prompt.json'', ''example_t2v_output.mp4'', ''negative_prompt.json'',
     ''example_i2v_prompt.json'', ''example_i2v_input.jpg'', ''example_t2vs_prompt.json'',
     ''example_action_fd_agibotworld_first_frame.png'',
     ''example_action_fd_agibotworld_action_chunks.json'',
     ''example_action_fd_agibotworld_4chunk_output.mp4'']"

definition REASONER_DIRS :: "string list" where "REASONER_DIRS = [''transformer'', ''vision_encoder'']"

definition REASONER_CONFIGS :: "string list" where
  "REASONER_CONFIGS = [''config.json'', ''generation_config.json'', ''tokenizer.json'', ''tokenizer_config.json'',
     ''vocab.json'', ''merges.txt'', ''chat_template.json'', ''preprocessor_config.json'',
     ''video_preprocessor_config.json'']"

section \<open>The plan\<close>

text \<open>The calls of \<open>add\<close>, in order: the relative path, the kind, the source and the group.\<close>

definition inventory :: "path \<Rightarrow> (string \<times> item_kind \<times> path \<times> string) list" where
  "inventory src =
     map (\<lambda>d. (d, KDir, src @ [d], ''shared'')) SHARED_DIRS @
     map (\<lambda>f. (f, KFile, src @ [f], ''root'')) ROOT_FILES @
     map (\<lambda>a. (''assets/'' @ a, KFile, src @ [''assets'', a], ''assets'')) ASSET_FILES @
     map (\<lambda>d. (''reasoner/'' @ d, KDir, src @ [d], ''reasoner'')) REASONER_DIRS @
     map (\<lambda>f. (''reasoner/'' @ f, KFile, src @ [f], ''reasoner'')) REASONER_CONFIGS"

definition item_of :: "path \<Rightarrow> string \<times> item_kind \<times> path \<times> string \<Rightarrow> copy_item" where
  "item_of dst e = (case e of (rel, kind, source, grp) \<Rightarrow>
     \<lparr>ci_rel = rel, ci_kind = kind, ci_source = source, ci_dest = dst @ parts rel, ci_group = grp\<rparr>)"

definition over_transformer :: "string \<Rightarrow> bool" where
  "over_transformer rel \<longleftrightarrow> rel = ''transformer'' \<or> prefix ''transformer/'' rel"

definition plan_copy :: "path \<Rightarrow> path \<Rightarrow> fs \<Rightarrow> copy_exc + copy_plan" where
  "plan_copy dst src fs =
     (let present = (\<lambda>(rel, kind, source, grp). path_exists fs source);
          items = map (item_of dst) (filter present (inventory src));
          missing = map (\<lambda>(rel, kind, source, grp). source) (filter (\<lambda>e. \<not> present e) (inventory src))
      in if missing \<noteq> [] then Inl (AbsentSources src missing)
         else (case find (\<lambda>it. over_transformer (ci_rel it)) items of
            Some it \<Rightarrow> Inl (OverTransformer (ci_rel it))
          | None \<Rightarrow> Inr \<lparr>cp_items = items, cp_dst = dst, cp_source = src\<rparr>))"

section \<open>The sweep of leftover links\<close>

definition points_into :: "fs \<Rightarrow> path \<Rightarrow> path \<Rightarrow> fs_exc + bool" where
  "points_into fs link base = (case readlink fs link of
     None \<Rightarrow> Inr False
   | Some t \<Rightarrow>
       bindE (resolve_path fs (if isabs t then parts t else butlast link @ parts t)) (\<lambda>resolved.
       bindE (resolve_path fs base) (\<lambda>base_r. Inr (prefix base_r resolved))))"

definition sweep_source :: "fs \<Rightarrow> path \<Rightarrow> fs_exc + path" where
  "sweep_source fs entry = (case readlink fs entry of
     None \<Rightarrow> Inl NotFound
   | Some t \<Rightarrow> if isabs t then Inr (parts t) else resolve_path fs (butlast entry @ parts t))"

fun sweep_items :: "fs \<Rightarrow> path \<Rightarrow> path \<Rightarrow> string list \<Rightarrow> fs_exc + copy_item list" where
  "sweep_items fs dst src [] = Inr []"
| "sweep_items fs dst src (c # cs) =
     bindE (points_into fs (dst @ [c]) src) (\<lambda>b.
       if b then bindE (sweep_source fs (dst @ [c])) (\<lambda>source.
              mapE (\<lambda>rest. \<lparr>ci_rel = c, ci_kind = (if is_dir fs (dst @ [c]) then KDir else KFile),
                             ci_source = source, ci_dest = dst @ [c], ci_group = ''sweep''\<rparr> # rest)
                (sweep_items fs dst src cs))
       else sweep_items fs dst src cs)"

definition plan_symlink_sweep :: "path \<Rightarrow> path \<Rightarrow> fs \<Rightarrow> fs_exc + copy_item list" where
  "plan_symlink_sweep dst src fs = bindE (listdir fs dst) (sweep_items fs dst src)"

section \<open>The copy\<close>

text \<open>The streaming loop: what is written is the concatenation of the chunks read.\<close>

function read_chunks :: "nat \<Rightarrow> byte list \<Rightarrow> byte list" where
  "read_chunks n raw = (if n = 0 \<or> raw = [] then [] else take n raw @ read_chunks n (drop n raw))"
  by pat_completeness auto
termination by (relation "measure (\<lambda>(n, raw). length raw)") auto

declare read_chunks.simps [simp del]

definition tmp_sibling :: "path \<Rightarrow> path" where
  "tmp_sibling p = butlast p @ [last p @ TMP_COPY]"

definition clear_tmp :: "path \<Rightarrow> unit fs_op" where
  "clear_tmp p fs = when_op (is_symlink fs p \<or> path_exists fs p) (unlink p) fs"

definition copy_file_bytes :: "path \<Rightarrow> path \<Rightarrow> unit fs_op" where
  "copy_file_bytes src dest =
     then_op (clear_tmp (tmp_sibling dest)) (\<lambda>_.
     then_op (pure_op (\<lambda>fs. read_bytes fs src)) (\<lambda>raw.
     then_op (write_bytes (tmp_sibling dest) (read_chunks CHUNK raw)) (\<lambda>_.
     replace_file (tmp_sibling dest) dest)))"

definition drop_link :: "path \<Rightarrow> unit fs_op" where
  "drop_link p fs = when_op (is_symlink fs p) (unlink p) fs"

definition ensure_real_dir :: "path \<Rightarrow> unit fs_op" where
  "ensure_real_dir p = then_op (drop_link p) (\<lambda>_. mkdir_parents p)"

fun ensure_dirs :: "path \<Rightarrow> string list \<Rightarrow> unit fs_op" where
  "ensure_dirs cur [] fs = (Inr (), fs)"
| "ensure_dirs cur (c # cs) fs = then_op (ensure_real_dir (cur @ [c])) (\<lambda>_. ensure_dirs (cur @ [c]) cs) fs"

definition ensure_real_parents :: "path \<Rightarrow> path \<Rightarrow> unit fs_op" where
  "ensure_real_parents dest base fs =
     (if prefix base dest then ensure_dirs base (butlast (drop (length base) dest)) fs else (Inl NotSubpath, fs))"

definition copy_leaf :: "path \<Rightarrow> path \<Rightarrow> unit fs_op" where
  "copy_leaf src dest = then_op (drop_link dest) (\<lambda>_. copy_file_bytes src dest)"

fun copy_tree :: "nat \<Rightarrow> path \<Rightarrow> path \<Rightarrow> unit fs_op" where
  "copy_tree 0 src dst fs = (Inl RecursionError, fs)"
| "copy_tree (Suc n) src dst fs =
     then_op (pure_op (\<lambda>fs. listdir fs src)) (for_each (\<lambda>c fs.
       if is_dir fs (src @ [c])
       then then_op (ensure_real_dir (dst @ [c])) (\<lambda>_. copy_tree n (src @ [c]) (dst @ [c])) fs
       else copy_leaf (src @ [c]) (dst @ [c]) fs)) fs"

definition copy_item_op :: "nat \<Rightarrow> path \<Rightarrow> copy_item \<Rightarrow> unit fs_op" where
  "copy_item_op depth base it =
     then_op (ensure_real_parents (ci_dest it) base) (\<lambda>_.
       (case ci_kind it of
          KDir \<Rightarrow> then_op (ensure_real_dir (ci_dest it)) (\<lambda>_. copy_tree depth (ci_source it) (ci_dest it))
        | KFile \<Rightarrow> copy_leaf (ci_source it) (ci_dest it)))"

definition execute_copy :: "nat \<Rightarrow> copy_plan \<Rightarrow> unit fs_op" where
  "execute_copy depth plan = for_each (copy_item_op depth (cp_dst plan)) (cp_items plan)"

section \<open>The verification\<close>

record prov_entry =
  pe_group :: string
  pe_rel :: string
  pe_source :: path
  pe_sha :: "string option"
  pe_bytes :: "nat option"

definition has_bf16_backref :: "copy_env \<Rightarrow> fs \<Rightarrow> path \<Rightarrow> bool" where
  "has_bf16_backref env fs p =
     (name_suffix (last p) \<in> set TEXT_SUFFIXES \<and>
      (case read_bytes fs p of Inl _ \<Rightarrow> False
       | Inr b \<Rightarrow> list_ex (prefix (ce_base_ref env)) (suffixes (ce_text env b))))"

type_synonym verdict = "message list \<times> prov_entry list"

definition join_verdicts :: "verdict \<Rightarrow> verdict \<Rightarrow> verdict" where
  "join_verdicts v w = (fst v @ fst w, snd v @ snd w)"

definition verify_file :: "copy_env \<Rightarrow> fs \<Rightarrow> string \<Rightarrow> path \<Rightarrow> path \<Rightarrow> string \<Rightarrow> fs_exc + verdict" where
  "verify_file env fs grp src dest rel =
     (if is_symlink fs dest then Inr ([[MLit ''still a symlink (not self-contained): '', MStr rel]], [])
      else if \<not> is_file fs dest then Inr ([[MLit ''missing copied file: '', MStr rel]], [])
      else bindE (read_bytes fs dest) (\<lambda>copied.
           bindE (read_bytes fs src) (\<lambda>original.
           Inr ((if ce_sha env copied \<noteq> ce_sha env original
                 then [[MLit ''sha256 mismatch vs source: '', MStr rel]] else []) @
                (if has_bf16_backref env fs dest
                 then [[MLit ''BF16 back-reference ('', MStr (ce_base_ref env), MLit '') in copied config: '', MStr rel]] else []),
                [\<lparr>pe_group = grp, pe_rel = rel, pe_source = src,
                  pe_sha = Some (ce_sha env copied), pe_bytes = Some (length copied)\<rparr>]))))"

fun gather :: "('a \<Rightarrow> 'e + verdict) \<Rightarrow> 'a list \<Rightarrow> 'e + verdict" where
  "gather f [] = Inr ([], [])"
| "gather f (x # xs) = bindE (f x) (\<lambda>v. mapE (join_verdicts v) (gather f xs))"

fun verify_tree :: "copy_env \<Rightarrow> fs \<Rightarrow> string \<Rightarrow> nat \<Rightarrow> path \<Rightarrow> path \<Rightarrow> string \<Rightarrow> fs_exc + verdict" where
  "verify_tree env fs grp 0 src dest rel = Inl RecursionError"
| "verify_tree env fs grp (Suc n) src dest rel =
     (if is_symlink fs dest then Inr ([[MLit ''still a symlink (not self-contained): '', MStr rel]], [])
      else if \<not> is_dir fs dest then Inr ([[MLit ''missing copied directory: '', MStr rel]], [])
      else bindE (listdir fs src) (gather (\<lambda>c.
             if is_dir fs (src @ [c]) then verify_tree env fs grp n (src @ [c]) (dest @ [c]) (rel @ ''/'' @ c)
             else verify_file env fs grp (src @ [c]) (dest @ [c]) (rel @ ''/'' @ c))))"

definition verify_item :: "copy_env \<Rightarrow> fs \<Rightarrow> copy_item \<Rightarrow> fs_exc + verdict" where
  "verify_item env fs it = (case ci_kind it of
     KDir \<Rightarrow> verify_tree env fs (ci_group it) (ce_depth env) (ci_source it) (ci_dest it) (ci_rel it)
   | KFile \<Rightarrow> verify_file env fs (ci_group it) (ci_source it) (ci_dest it) (ci_rel it))"

text \<open>The hashes of the quantized tensors, under \<open>file/tensor\<close> keys.\<close>

definition hash_shard :: "copy_env \<Rightarrow> fs \<Rightarrow> path \<Rightarrow> copy_exc + hashes" where
  "hash_shard env fs p = bindE (map_errE OsFailure (read_bytes fs p))
     (\<lambda>raw. map_errE Hashing (hash_all_tensors (ce_loads env) (ce_sha env) raw))"

fun snapshot_shards :: "copy_env \<Rightarrow> fs \<Rightarrow> path \<Rightarrow> string list \<Rightarrow> hashes \<Rightarrow> copy_exc + hashes" where
  "snapshot_shards env fs dir [] out = Inr out"
| "snapshot_shards env fs dir (c # cs) out = bindE (hash_shard env fs (dir @ [c])) (\<lambda>hs.
     snapshot_shards env fs dir cs (dict_merge out (map (\<lambda>(name, h). (c @ ''/'' @ name, h)) hs)))"

definition snapshot_transformer_hashes :: "copy_env \<Rightarrow> path \<Rightarrow> fs \<Rightarrow> copy_exc + hashes" where
  "snapshot_transformer_hashes env ckpt fs =
     (let tdir = ckpt @ [''transformer''] in
      if \<not> is_dir fs tdir then Inr []
      else bindE (map_errE OsFailure (listdir fs tdir))
             (\<lambda>names. snapshot_shards env fs tdir (filter (suffix ''.safetensors'') names) []))"

definition changed_tensors :: "hashes \<Rightarrow> hashes \<Rightarrow> message list" where
  "changed_tensors pre post = concat (map (\<lambda>(name, h). if dict_get post name \<noteq> Some h
     then [[MLit ''quantized transformer tensor changed (INV-11 violation): '', MStr name]] else []) pre)"

fun borrowed_entries :: "fs \<Rightarrow> path \<Rightarrow> path \<Rightarrow> string list \<Rightarrow> fs_exc + message list" where
  "borrowed_entries fs dst src [] = Inr []"
| "borrowed_entries fs dst src (c # cs) = bindE (points_into fs (dst @ [c]) src) (\<lambda>b.
     mapE (append (if b then [[MLit ''top-level entry still symlinks into the BF16 base (not self-contained): '', MStr c]] else []))
       (borrowed_entries fs dst src cs))"

definition transformer_problems :: "copy_env \<Rightarrow> path \<Rightarrow> hashes option \<Rightarrow> fs \<Rightarrow> copy_exc + message list" where
  "transformer_problems env dst pre fs = (case pre of None \<Rightarrow> Inr []
     | Some hs \<Rightarrow> mapE (changed_tensors hs) (snapshot_transformer_hashes env dst fs))"

definition borrowed_problems :: "path \<Rightarrow> path \<Rightarrow> fs \<Rightarrow> copy_exc + message list" where
  "borrowed_problems dst src fs = map_errE OsFailure (bindE (listdir fs dst) (borrowed_entries fs dst src))"

definition check_copy :: "copy_env \<Rightarrow> copy_plan \<Rightarrow> hashes option \<Rightarrow> fs \<Rightarrow> copy_exc + verdict" where
  "check_copy env plan pre fs =
     bindE (map_errE OsFailure (gather (verify_item env fs) (cp_items plan))) (\<lambda>v.
     bindE (transformer_problems env (cp_dst plan) pre fs) (\<lambda>changed.
     mapE (\<lambda>borrowed. (fst v @ changed @ borrowed, snd v)) (borrowed_problems (cp_dst plan) (cp_source plan) fs)))"

text \<open>
  The provenance record is written as text, through a link when its path is one. \<open>text\<close> prints the
  record with the time of the call.
\<close>

record provenance =
  pv_dst :: path
  pv_source :: path
  pv_count :: nat
  pv_files :: "prov_entry list"

definition os_op :: "'a fs_op \<Rightarrow> (fs, copy_exc, 'a) op" where
  "os_op m fs = (case m fs of (r, fs') \<Rightarrow> (map_errE OsFailure r, fs'))"

definition write_provenance :: "(provenance \<Rightarrow> byte list) \<Rightarrow> copy_plan \<Rightarrow> prov_entry list \<Rightarrow> (fs, copy_exc, unit) op" where
  "write_provenance print plan prov = os_op (write_bytes (cp_dst plan @ [PROVENANCE])
     (print \<lparr>pv_dst = cp_dst plan, pv_source = cp_source plan, pv_count = length prov, pv_files = sort_key pe_rel prov\<rparr>))"

definition verify_copy ::
  "copy_env \<Rightarrow> (provenance \<Rightarrow> byte list) \<Rightarrow> bool \<Rightarrow> copy_plan \<Rightarrow> hashes option \<Rightarrow> (fs, copy_exc, copy_report) op" where
  "verify_copy env print record_it plan pre =
     then_op (pure_op (check_copy env plan pre)) (\<lambda>v.
     then_op (when_op record_it (write_provenance print plan (snd v))) (\<lambda>_.
     pure_op (\<lambda>_. Inr \<lparr>cr_ok = (fst v = []), cr_problems = fst v, cr_files = length (snd v),
       cr_facts = [(''copied_files'', length (snd v)),
                   (''transformer_tensors_checked'', case pre of None \<Rightarrow> 0 | Some hs \<Rightarrow> length hs)]\<rparr>)))"

section \<open>The whole step\<close>

definition with_items :: "copy_plan \<Rightarrow> copy_item list \<Rightarrow> copy_plan" where
  "with_items plan items = \<lparr>cp_items = items, cp_dst = cp_dst plan, cp_source = cp_source plan\<rparr>"

definition unverified_entry :: "copy_item \<Rightarrow> prov_entry" where
  "unverified_entry it = \<lparr>pe_group = ci_group it, pe_rel = ci_rel it, pe_source = ci_source it,
     pe_sha = None, pe_bytes = None\<rparr>"

definition sweep_leftovers :: "copy_env \<Rightarrow> copy_plan \<Rightarrow> (fs, copy_exc, copy_item list) op" where
  "sweep_leftovers env plan =
     then_op (pure_op (\<lambda>fs. map_errE OsFailure (plan_symlink_sweep (cp_dst plan) (cp_source plan) fs))) (\<lambda>sweep.
     then_op (when_op (sweep \<noteq> []) (os_op (execute_copy (ce_depth env) (with_items plan sweep)))) (\<lambda>_.
     pure_op (\<lambda>_. Inr sweep)))"

definition conclude ::
  "copy_env \<Rightarrow> (provenance \<Rightarrow> byte list) \<Rightarrow> bool \<Rightarrow> hashes \<Rightarrow> copy_plan \<Rightarrow> (fs, copy_exc, copy_report) op" where
  "conclude env print verify pre plan =
     (if verify then verify_copy env print True plan (Some pre)
      else then_op (write_provenance print plan (map unverified_entry (cp_items plan)))
             (\<lambda>_. pure_op (\<lambda>_. Inr \<lparr>cr_ok = True, cr_problems = [], cr_files = length (cp_items plan), cr_facts = []\<rparr>)))"

definition make_self_contained ::
  "copy_env \<Rightarrow> (provenance \<Rightarrow> byte list) \<Rightarrow> path \<Rightarrow> path \<Rightarrow> bool \<Rightarrow> (fs, copy_exc, copy_report) op" where
  "make_self_contained env print dst src verify =
     then_op (pure_op (plan_copy dst src)) (\<lambda>plan.
     then_op (pure_op (snapshot_transformer_hashes env dst)) (\<lambda>pre.
     then_op (os_op (execute_copy (ce_depth env) plan)) (\<lambda>_.
     then_op (sweep_leftovers env plan) (\<lambda>sweep.
     conclude env print verify pre (with_items plan (cp_items plan @ sweep))))))"

text \<open>The two commands' exit status: an unsafe plan or a refused header is 2, any other error escapes.\<close>

definition copy_exit :: "copy_exc + copy_report \<Rightarrow> copy_exc + nat" where
  "copy_exit r = (case r of
     Inr rep \<Rightarrow> Inr (if cr_ok rep then 0 else 1)
   | Inl (AbsentSources src missing) \<Rightarrow> Inr 2
   | Inl (OverTransformer rel) \<Rightarrow> Inr 2
   | Inl (Hashing (MutationError msg)) \<Rightarrow> Inr 2
   | Inl e \<Rightarrow> Inl e)"

definition verify_self_contained :: "copy_env \<Rightarrow> path \<Rightarrow> path \<Rightarrow> fs \<Rightarrow> copy_exc + copy_report" where
  "verify_self_contained env dst src fs =
     bindE (plan_copy dst src fs) (\<lambda>plan. fst (verify_copy env (\<lambda>_. []) False plan None fs))"

end
