(* ===== verification/Link_Facts.thy ===== *)
theory Link_Facts
  imports Link_Files
begin

text \<open>
  Lemmas of the file system with links: resolution depends on the nodes only and grows with them, a
  path whose directories are all real resolves to itself, and each call changes one entry.
\<close>

section \<open>Nodes\<close>

lemma node_at_root [simp]: "node_at fs [] = Some Dir"
  by (simp add: node_at_def)

lemma node_at_set [simp]: "l \<noteq> [] \<Longrightarrow> node_at (dict_set l k fs) p = (if p = l then Some k else node_at fs p)"
  by (simp add: node_at_def)

lemma node_at_delete [simp]: "l \<noteq> [] \<Longrightarrow> node_at (AList.delete l fs) p = (if p = l then None else node_at fs p)"
  by (simp add: node_at_def delete_conv')

definition same_nodes :: "fs \<Rightarrow> fs \<Rightarrow> bool" where
  "same_nodes f g \<longleftrightarrow> (\<forall>p. node_at f p = node_at g p)"

definition fewer_nodes :: "fs \<Rightarrow> fs \<Rightarrow> bool" where
  "fewer_nodes f g \<longleftrightarrow> (\<forall>p k. node_at f p = Some k \<longrightarrow> node_at g p = Some k)"

section \<open>Resolution\<close>

text \<open>The induction over a walk, with the cases of the next part named.\<close>

lemma walk_induct [case_names finish up missing leaf enter stop loop follow]:
  assumes "\<And>n here. P n here []"
    and "\<And>n here cs. P n (butlast here) cs \<Longrightarrow> P n here (''..'' # cs)"
    and "\<And>n here c cs. c \<noteq> ''..'' \<Longrightarrow> node_at fs (here @ [c]) = None \<Longrightarrow> P n here (c # cs)"
    and "\<And>n here c cs b. c \<noteq> ''..'' \<Longrightarrow> node_at fs (here @ [c]) = Some (File b) \<Longrightarrow> P n here (c # cs)"
    and "\<And>n here c cs. c \<noteq> ''..'' \<Longrightarrow> node_at fs (here @ [c]) = Some Dir \<Longrightarrow> P n (here @ [c]) cs \<Longrightarrow> P n here (c # cs)"
    and "\<And>n here c t. c \<noteq> ''..'' \<Longrightarrow> node_at fs (here @ [c]) = Some (Link t) \<Longrightarrow> \<not> follow \<Longrightarrow> P n here [c]"
    and "\<And>here c cs t. c \<noteq> ''..'' \<Longrightarrow> node_at fs (here @ [c]) = Some (Link t) \<Longrightarrow> cs \<noteq> [] \<or> follow \<Longrightarrow> P 0 here (c # cs)"
    and "\<And>n here c cs t. c \<noteq> ''..'' \<Longrightarrow> node_at fs (here @ [c]) = Some (Link t) \<Longrightarrow> cs \<noteq> [] \<or> follow \<Longrightarrow>
           P n (if isabs t then [] else here) (parts t @ cs) \<Longrightarrow> P (Suc n) here (c # cs)"
  shows "P n here cs"
proof (induction n arbitrary: here cs)
  case (0 here cs)
  show ?case
  proof (induction cs arbitrary: here)
    case (Cons c cs)
    show ?case
      by (cases "c = ''..''"; cases "node_at fs (here @ [c])"; cases "the (node_at fs (here @ [c]))"; cases "cs \<noteq> [] \<or> follow")
        (use Cons in \<open>auto intro: assms\<close>)
  qed (rule assms(1))
next
  case (Suc n here cs)
  show ?case
  proof (induction cs arbitrary: here)
    case (Cons c cs)
    show ?case
      by (cases "c = ''..''"; cases "node_at fs (here @ [c])"; cases "the (node_at fs (here @ [c]))"; cases "cs \<noteq> [] \<or> follow")
        (use Cons Suc in \<open>auto intro: assms\<close>)
  qed (rule assms(1))
qed

lemma walk_mono:
  assumes "walk f follow n here cs = Inr l" "node_at f l = Some k" "fewer_nodes f g"
  shows "walk g follow n here cs = Inr l"
  using assms(1)
proof (induction n here cs rule: walk_induct [where fs = f and follow = follow])
qed (use assms(2,3) in \<open>auto simp: fewer_nodes_def split: if_splits\<close>)

lemma locate_mono:
  "locate f follow p = Inr l \<Longrightarrow> node_at f l = Some k \<Longrightarrow> fewer_nodes f g \<Longrightarrow> locate g follow p = Inr l"
  unfolding locate_def by (rule walk_mono)

lemma stat_Inr: "stat_node fs follow p = Inr k \<longleftrightarrow> (\<exists>l. locate fs follow p = Inr l \<and> node_at fs l = Some k)"
  by (auto simp: stat_node_def result_simps split: option.splits)

lemma stat_mono: "stat_node f follow p = Inr k \<Longrightarrow> fewer_nodes f g \<Longrightarrow> stat_node g follow p = Inr k"
  unfolding stat_Inr by (metis fewer_nodes_def locate_mono)

lemma read_mono: "read_bytes f p = Inr b \<Longrightarrow> fewer_nodes f g \<Longrightarrow> read_bytes g p = Inr b"
  unfolding read_bytes_def by (auto simp: result_simps dest: stat_mono)

lemma walk_cong:
  assumes "same_nodes f g"
  shows "walk f follow n here cs = walk g follow n here cs"
proof (induction n here cs rule: walk_induct [where fs = f and follow = follow])
qed (use assms in \<open>auto simp: same_nodes_def\<close>)

lemma locate_cong: "same_nodes f g \<Longrightarrow> locate f = locate g"
  using walk_cong by (auto simp: locate_def fun_eq_iff)

text \<open>A link never ends a walk that follows links.\<close>

lemma walk_follow_no_link:
  assumes "walk fs True n here cs = Inr l" "\<And>p. prefix p here \<Longrightarrow> node_at fs p = Some Dir"
  shows "node_at fs l \<noteq> Some (Link t)"
  using assms
proof (induction n here cs rule: walk_induct [where fs = fs and follow = True])
  case (up n here cs)
  then show ?case by (metis prefixeq_butlast prefix_order.trans walk.simps(2))
next
  case (follow n here c cs u)
  then show ?case by (cases "isabs u") auto
qed (auto simp: prefix_snoc split: if_splits)

section \<open>Real directories\<close>

text \<open>A real directory: no part is \<open>..\<close>, and every directory on the way is an entry of its own, no link.\<close>

definition real_dir :: "fs \<Rightarrow> path \<Rightarrow> bool" where
  "real_dir fs d \<longleftrightarrow> ''..'' \<notin> set d \<and> list_all (\<lambda>p. node_at fs p = Some Dir) (prefixes d)"

lemma real_dir_iff: "real_dir fs d \<longleftrightarrow> ''..'' \<notin> set d \<and> (\<forall>p. prefix p d \<longrightarrow> node_at fs p = Some Dir)"
  by (auto simp: real_dir_def list_all_iff)

lemma real_dirD: "real_dir fs d \<Longrightarrow> node_at fs d = Some Dir" "real_dir fs d \<Longrightarrow> ''..'' \<notin> set d"
  by (simp_all add: real_dir_iff)

lemma real_dir_snoc: "real_dir fs (d @ [c]) \<longleftrightarrow> real_dir fs d \<and> c \<noteq> ''..'' \<and> node_at fs (d @ [c]) = Some Dir"
  by (auto simp: real_dir_iff prefix_snoc)

lemma real_dir_parent: "real_dir fs d \<Longrightarrow> prefix p d \<Longrightarrow> real_dir fs p"
  by (auto simp: real_dir_iff dest: set_mono_prefix prefix_order.trans)

lemma real_dir_frame:
  "real_dir f d \<Longrightarrow> (\<And>p. prefix p d \<Longrightarrow> node_at g p = node_at f p) \<Longrightarrow> real_dir g d"
  by (simp add: real_dir_iff)

lemma walk_real:
  "real_dir fs (here @ d) \<Longrightarrow> walk fs follow n here (d @ cs) = walk fs follow n (here @ d) cs"
proof (induction d arbitrary: here)
  case (Cons c d)
  have "real_dir fs (here @ [c])" by (rule real_dir_parent [OF Cons.prems]) simp
  then have "c \<noteq> ''..''" "node_at fs (here @ [c]) = Some Dir" by (simp_all add: real_dir_snoc)
  then show ?case using Cons.IH [of "here @ [c]"] Cons.prems by simp
qed simp

lemma locate_real: "real_dir fs d \<Longrightarrow> locate fs follow d = Inr d"
  using walk_real [of fs "[]" d follow MAXSYMLINKS "[]"] by (simp add: locate_def)

lemma locate_child:
  "real_dir fs d \<Longrightarrow> c \<noteq> ''..'' \<Longrightarrow> locate fs False (d @ [c]) = Inr (d @ [c])"
  using walk_real [of fs "[]" d False MAXSYMLINKS "[c]"]
  by (auto simp: locate_def split: option.splits node.splits)

lemma locate_child_follow:
  "real_dir fs d \<Longrightarrow> c \<noteq> ''..'' \<Longrightarrow> (\<And>t. node_at fs (d @ [c]) \<noteq> Some (Link t)) \<Longrightarrow>
   locate fs True (d @ [c]) = Inr (d @ [c])"
  using walk_real [of fs "[]" d True MAXSYMLINKS "[c]"]
  by (auto simp: locate_def split: option.splits node.splits)

lemma is_symlink_child:
  "real_dir fs d \<Longrightarrow> c \<noteq> ''..'' \<Longrightarrow> is_symlink fs (d @ [c]) \<longleftrightarrow> (\<exists>t. node_at fs (d @ [c]) = Some (Link t))"
  by (auto simp: is_symlink_def stat_node_def locate_child split: option.splits node.splits)

lemma is_dir_child:
  "real_dir fs d \<Longrightarrow> c \<noteq> ''..'' \<Longrightarrow> (\<And>t. node_at fs (d @ [c]) \<noteq> Some (Link t)) \<Longrightarrow>
   is_dir fs (d @ [c]) \<longleftrightarrow> node_at fs (d @ [c]) = Some Dir"
  by (auto simp: is_dir_def stat_node_def locate_child_follow split: option.splits)

section \<open>Listings\<close>

lemma set_names_in: "set (names_in fs d) = {c. node_at fs (d @ [c]) \<noteq> None}"
proof -
  have "c \<in> set (names_in fs d) \<longleftrightarrow> d @ [c] \<in> set (dict_keys fs)" for c
    unfolding names_in_def by (force simp: image_iff)
  then show ?thesis by (auto simp: node_at_def dict_keys_def map_of_eq_None_iff)
qed

lemma names_in_sorted: "sorted (names_in fs d)" "distinct (names_in fs d)"
proof -
  have "distinct (map last (filter (\<lambda>p. p \<noteq> [] \<and> butlast p = d) (remdups (dict_keys fs))))" for fs :: fs
    by (auto simp: distinct_map inj_on_def) (metis append_butlast_last_id)
  show "sorted (names_in fs d)" "distinct (names_in fs d)"
    unfolding names_in_def by simp_all
qed

lemma names_in_cong:
  assumes "\<And>c. node_at f (d @ [c]) = None \<longleftrightarrow> node_at g (d @ [c]) = None"
  shows "names_in f d = names_in g d"
  by (rule sorted_distinct_set_unique) (simp_all add: names_in_sorted set_names_in assms)

lemma listdir_Inr:
  "listdir fs p = Inr names \<longleftrightarrow> (\<exists>l. locate fs True p = Inr l \<and> node_at fs l = Some Dir \<and> names = names_in fs l)"
proof -
  have "(case node_at fs l of None \<Rightarrow> Inl NotFound | Some Dir \<Rightarrow> Inr (names_in fs l) | Some _ \<Rightarrow> Inl NotADirectory) = Inr names
      \<longleftrightarrow> node_at fs l = Some Dir \<and> names = names_in fs l" for l
    by (cases "node_at fs l"; cases "the (node_at fs l)") auto
  then show ?thesis by (simp add: listdir_def result_simps)
qed

lemma names_in_plain: "list_all (\<lambda>(p, _). ''..'' \<notin> set p) fs \<Longrightarrow> c \<in> set (names_in fs d) \<Longrightarrow> c \<noteq> ''..''"
  unfolding set_names_in by (auto simp: node_at_def list_all_iff dest!: map_of_SomeD)

end
