(* ===== verification/Copy_Facts.thy ===== *)
theory Copy_Facts
  imports Self_Contained Link_Facts
begin

text \<open>
  Where the self-contained copy writes. Each operation on a child of a real directory changes that
  child's entry (and its temporary sibling) and nothing else, and the loops stay inside the
  directories they walk, whether they finish or raise.
\<close>

section \<open>Confined changes\<close>

definition plain_fs :: "fs \<Rightarrow> bool" where
  "plain_fs fs \<longleftrightarrow> list_all (\<lambda>(p, _). ''..'' \<notin> set p) fs"

definition confined :: "path set \<Rightarrow> fs \<Rightarrow> fs \<Rightarrow> bool" where
  "confined A f g \<longleftrightarrow> (plain_fs f \<longrightarrow> plain_fs g) \<and> (\<forall>p. p \<notin> A \<longrightarrow> node_at g p = node_at f p)"

lemma confined_refl [simp]: "confined A f f"
  by (simp add: confined_def)

lemma confined_trans: "confined A f g \<Longrightarrow> confined A g h \<Longrightarrow> confined A f h"
  by (simp add: confined_def)

lemma confined_mono: "confined A f g \<Longrightarrow> A \<subseteq> B \<Longrightarrow> confined B f g"
  by (auto simp: confined_def)

lemma confined_at: "confined A f g \<Longrightarrow> p \<notin> A \<Longrightarrow> node_at g p = node_at f p"
  by (simp add: confined_def)

lemma confined_plain: "confined A f g \<Longrightarrow> plain_fs f \<Longrightarrow> plain_fs g"
  by (simp add: confined_def)

lemma confined_real: "confined A f g \<Longrightarrow> real_dir f d \<Longrightarrow> (\<And>p. prefix p d \<Longrightarrow> p \<notin> A) \<Longrightarrow> real_dir g d"
  by (erule real_dir_frame) (simp add: confined_at)

lemma plain_fs_set: "plain_fs fs \<Longrightarrow> ''..'' \<notin> set l \<Longrightarrow> plain_fs (dict_set l k fs)"
  by (induction fs) (auto simp: plain_fs_def)

lemma plain_fs_delete: "plain_fs fs \<Longrightarrow> plain_fs (AList.delete l fs)"
  by (auto simp: plain_fs_def list_all_iff AList.delete_eq)

lemma confined_set: "l \<noteq> [] \<Longrightarrow> ''..'' \<notin> set l \<Longrightarrow> l \<in> A \<Longrightarrow> confined A f (dict_set l k f)"
  by (auto simp: confined_def plain_fs_set)

lemma confined_delete: "l \<noteq> [] \<Longrightarrow> l \<in> A \<Longrightarrow> confined A f (AList.delete l f)"
  by (auto simp: confined_def plain_fs_delete)

lemma plain_fs_names: "plain_fs fs \<Longrightarrow> c \<in> set (names_in fs d) \<Longrightarrow> c \<noteq> ''..''"
  unfolding plain_fs_def by (rule names_in_plain)

lemma plain_fs_listdir: "plain_fs fs \<Longrightarrow> listdir fs p = Inr names \<Longrightarrow> c \<in> set names \<Longrightarrow> c \<noteq> ''..''"
  by (auto simp: listdir_Inr dest: plain_fs_names)

section \<open>One entry\<close>

text \<open>The entry \<open>c\<close> of a real directory \<open>d\<close>, by its own node.\<close>

lemma child_plain: "real_dir fs d \<Longrightarrow> c \<noteq> ''..'' \<Longrightarrow> ''..'' \<notin> set (d @ [c])"
  by (simp add: real_dir_iff)

lemma unlink_child:
  "real_dir fs d \<Longrightarrow> c \<noteq> ''..'' \<Longrightarrow> node_at fs (d @ [c]) \<noteq> None \<Longrightarrow> node_at fs (d @ [c]) \<noteq> Some Dir \<Longrightarrow>
   unlink (d @ [c]) fs = (Inr (), AList.delete (d @ [c]) fs)"
  by (auto simp: unlink_def locate_child split: option.splits node.splits)

lemma unlink_child_confined:
  "real_dir fs d \<Longrightarrow> c \<noteq> ''..'' \<Longrightarrow> unlink (d @ [c]) fs = (r, g) \<Longrightarrow>
   confined {d @ [c]} fs g \<and> (r = Inr () \<longrightarrow> node_at g (d @ [c]) = None)"
  by (auto simp: unlink_def locate_child confined_delete split: option.splits node.splits)

lemma drop_link_child:
  assumes "real_dir fs d" "c \<noteq> ''..''" "drop_link (d @ [c]) fs = (r, g)"
  shows "r = Inr ()" "confined {d @ [c]} fs g" "real_dir g d"
    and "node_at g (d @ [c]) = (case node_at fs (d @ [c]) of Some (Link t) \<Rightarrow> None | k \<Rightarrow> k)"
proof -
  have *: "r = Inr () \<and> g = (if \<exists>t. node_at fs (d @ [c]) = Some (Link t) then AList.delete (d @ [c]) fs else fs)"
    using assms by (auto simp: drop_link_def when_op_def is_symlink_child unlink_child split: if_splits)
  then show "r = Inr ()" "confined {d @ [c]} fs g" by (auto simp: confined_delete)
  then show "real_dir g d" using assms(1) by (auto elim!: confined_real simp: prefix_snoc prefix_def)
  show "node_at g (d @ [c]) = (case node_at fs (d @ [c]) of Some (Link t) \<Rightarrow> None | k \<Rightarrow> k)"
    using * by (auto split: option.splits node.splits)
qed

lemma mkdir_child:
  assumes "real_dir fs d" "c \<noteq> ''..''" "\<And>t. node_at fs (d @ [c]) \<noteq> Some (Link t)" "mkdir_parents (d @ [c]) fs = (r, g)"
  shows "confined {d @ [c]} fs g" "r = Inr () \<longleftrightarrow> (\<forall>b. node_at fs (d @ [c]) \<noteq> Some (File b))"
    "r = Inr () \<Longrightarrow> real_dir g (d @ [c])"
    "node_at fs (d @ [c]) = Some Dir \<Longrightarrow> g = fs"
proof -
  have eq: "mkdir_parents (d @ [c]) fs =
      (case node_at fs (d @ [c]) of None \<Rightarrow> (Inr (), dict_set (d @ [c]) Dir fs)
       | Some Dir \<Rightarrow> (Inr (), fs) | _ \<Rightarrow> (Inl FileExists, fs))"
    using assms(1-3) by (subst mkdir_parents.simps)
      (auto simp: mkdir_one_def mkdir_exist_ok_def locate_child is_dir_child split: option.splits node.splits)
  then show "confined {d @ [c]} fs g" "r = Inr () \<longleftrightarrow> (\<forall>b. node_at fs (d @ [c]) \<noteq> Some (File b))"
    "node_at fs (d @ [c]) = Some Dir \<Longrightarrow> g = fs"
    using assms child_plain [OF assms(1,2)] by (auto intro!: confined_set split: option.splits node.splits)
  assume "r = Inr ()"
  then have "node_at g (d @ [c]) = Some Dir"
    using assms(3,4) eq by (auto split: option.splits node.splits)
  moreover have "real_dir g d"
    using \<open>confined {d @ [c]} fs g\<close> assms(1) by (rule confined_real) (auto simp: prefix_def)
  ultimately show "real_dir g (d @ [c])" using assms(2) by (simp add: real_dir_snoc)
qed

lemma ensure_real_dir_child:
  assumes "real_dir fs d" "c \<noteq> ''..''" "ensure_real_dir (d @ [c]) fs = (r, g)"
  shows "confined {d @ [c]} fs g" "r = Inr () \<Longrightarrow> real_dir g (d @ [c])" "real_dir g d"
    "r = Inr () \<longleftrightarrow> (\<forall>b. node_at fs (d @ [c]) \<noteq> Some (File b))"
proof -
  obtain q h where h: "drop_link (d @ [c]) fs = (q, h)" by (cases "drop_link (d @ [c]) fs")
  note drop = drop_link_child [OF assms(1,2) h]
  have m: "mkdir_parents (d @ [c]) h = (r, g)"
    using assms(3) h drop(1) by (simp add: ensure_real_dir_def then_op_def)
  have "node_at h (d @ [c]) \<noteq> Some (Link t)" for t using drop(4) by (simp split: option.splits node.splits)
  note mk = mkdir_child [OF drop(3) assms(2) this m]
  show "confined {d @ [c]} fs g" using drop(2) mk(1) by (rule confined_trans)
  then show "real_dir g d" using assms(1) by (rule confined_real) (auto simp: prefix_def)
  show "r = Inr () \<Longrightarrow> real_dir g (d @ [c])" by (rule mk(3))
  show "r = Inr () \<longleftrightarrow> (\<forall>b. node_at fs (d @ [c]) \<noteq> Some (File b))"
    using mk(2) drop(4) by (auto split: option.splits node.splits)
qed

section \<open>One file\<close>

lemma read_chunks_all: "0 < n \<Longrightarrow> read_chunks n raw = raw"
  by (induction n raw rule: read_chunks.induct) (subst read_chunks.simps, auto)

lemma tmp_sibling_child [simp]: "tmp_sibling (d @ [c]) = d @ [c @ TMP_COPY]"
  by (simp add: tmp_sibling_def)

lemma tmp_name_plain: "c @ TMP_COPY \<noteq> ''..''" "c @ TMP_COPY \<noteq> c"
  by (auto simp: TMP_COPY_def append_eq_Cons_conv)

lemma path_exists_child:
  "real_dir fs d \<Longrightarrow> c \<noteq> ''..'' \<Longrightarrow> (\<And>t. node_at fs (d @ [c]) \<noteq> Some (Link t)) \<Longrightarrow>
   path_exists fs (d @ [c]) \<longleftrightarrow> node_at fs (d @ [c]) \<noteq> None"
  by (auto simp: path_exists_def stat_node_def locate_child_follow split: option.splits)

lemma clear_tmp_child:
  assumes "real_dir fs d" "c \<noteq> ''..''" "clear_tmp (d @ [c]) fs = (r, g)"
  shows "confined {d @ [c]} fs g" "real_dir g d" "r = Inr () \<Longrightarrow> node_at g (d @ [c]) = None"
    "r = Inr () \<longleftrightarrow> node_at fs (d @ [c]) \<noteq> Some Dir"
proof -
  have eq: "clear_tmp (d @ [c]) fs = (case node_at fs (d @ [c]) of
      None \<Rightarrow> (Inr (), fs) | Some Dir \<Rightarrow> (Inl IsADirectory, fs) | _ \<Rightarrow> (Inr (), AList.delete (d @ [c]) fs))"
    using assms(1,2)
    by (cases "node_at fs (d @ [c])"; cases "the (node_at fs (d @ [c]))")
      (simp_all add: clear_tmp_def when_op_def is_symlink_child path_exists_child unlink_def locate_child)
  then show c: "confined {d @ [c]} fs g"
    using assms(3) by (auto simp: confined_delete split: option.splits node.splits)
  show "real_dir g d" by (rule confined_real [OF c assms(1)]) (auto simp: prefix_def)
  show "r = Inr () \<Longrightarrow> node_at g (d @ [c]) = None" "r = Inr () \<longleftrightarrow> node_at fs (d @ [c]) \<noteq> Some Dir"
    using eq assms(3) by (auto split: option.splits node.splits)
qed

lemma put_file_child:
  assumes "real_dir fs d" "c \<noteq> ''..''" "node_at fs (d @ [c @ TMP_COPY]) = None"
    and "then_op (write_bytes (d @ [c @ TMP_COPY]) b) (\<lambda>_. replace_file (d @ [c @ TMP_COPY]) (d @ [c])) fs = (r, g)"
  shows "confined {d @ [c], d @ [c @ TMP_COPY]} fs g"
    "r = Inr () \<longleftrightarrow> node_at fs (d @ [c]) \<noteq> Some Dir"
    "r = Inr () \<Longrightarrow> node_at g (d @ [c]) = Some (File b) \<and> node_at g (d @ [c @ TMP_COPY]) = None"
proof -
  let ?t = "d @ [c @ TMP_COPY]"
  let ?f = "dict_set ?t (File b) fs"
  let ?g = "dict_set (d @ [c]) (File b) (AList.delete ?t ?f)"
  have "real_dir ?f d" using assms(1) by (rule real_dir_frame) (auto simp: prefix_def)
  then have eq: "(r, g) = (if node_at fs (d @ [c]) = Some Dir then (Inl IsADirectory, ?f) else (Inr (), ?g))"
    using assms tmp_name_plain
    by (simp add: then_op_def write_bytes_def replace_file_def locate_child locate_child_follow)
  have f: "confined {d @ [c], ?t} fs ?f"
    using child_plain [OF assms(1) tmp_name_plain(1)] by (intro confined_set) auto
  have "confined {d @ [c], ?t} ?f (AList.delete ?t ?f)" by (rule confined_delete) auto
  moreover have "confined {d @ [c], ?t} (AList.delete ?t ?f) ?g"
    using child_plain [OF assms(1,2)] by (intro confined_set) auto
  ultimately have "confined {d @ [c], ?t} fs ?g" using f confined_trans by blast
  with f eq show "confined {d @ [c], ?t} fs g" by (auto split: if_splits)
  show "r = Inr () \<longleftrightarrow> node_at fs (d @ [c]) \<noteq> Some Dir"
    "r = Inr () \<Longrightarrow> node_at g (d @ [c]) = Some (File b) \<and> node_at g ?t = None"
    using eq tmp_name_plain(2) [of c] by (auto split: if_splits)
qed

lemma copy_file_bytes_steps:
  "copy_file_bytes src (d @ [c]) = then_op (clear_tmp (d @ [c @ TMP_COPY])) (\<lambda>_. then_op (pure_op (\<lambda>fs. read_bytes fs src))
     (\<lambda>raw. then_op (write_bytes (d @ [c @ TMP_COPY]) raw) (\<lambda>_. replace_file (d @ [c @ TMP_COPY]) (d @ [c]))))"
  by (simp add: copy_file_bytes_def read_chunks_all CHUNK_def)

lemma copy_file_bytes_child:
  assumes "real_dir fs d" "c \<noteq> ''..''" "copy_file_bytes src (d @ [c]) fs = (r, g)"
  shows "confined {d @ [c], d @ [c @ TMP_COPY]} fs g"
  using assms(3) unfolding copy_file_bytes_steps
proof (cases rule: then_op_cases)
  case (stop e)
  then show ?thesis using clear_tmp_child(1) [OF assms(1) tmp_name_plain(1)] by (auto intro: confined_mono)
next
  case (go u h)
  let ?t = "d @ [c @ TMP_COPY]"
  note cl = clear_tmp_child [OF assms(1) tmp_name_plain(1) go(1)]
  have h: "confined {d @ [c], ?t} fs h" using cl(1) by (rule confined_mono) auto
  show ?thesis
  proof (cases "read_bytes h src")
    case (Inl e)
    then show ?thesis using go(2) h by (auto simp: then_op_def pure_op_def)
  next
    case (Inr b)
    have "then_op (write_bytes ?t b) (\<lambda>_. replace_file ?t (d @ [c])) h = (r, g)"
      using go(2) Inr by (simp add: then_op_def [of "pure_op _"] pure_op_def)
    note put = put_file_child [OF cl(2) assms(2) _ this]
    have "node_at h ?t = None" using cl(3) by simp
    from put(1) [OF this] show ?thesis using h by (blast intro: confined_trans)
  qed
qed

lemma copy_file_bytes_total:
  assumes "real_dir fs d" "c \<noteq> ''..''" "node_at fs (d @ [c]) \<noteq> Some Dir" "node_at fs (d @ [c @ TMP_COPY]) \<noteq> Some Dir"
    and "\<And>h. confined {d @ [c @ TMP_COPY]} fs h \<Longrightarrow> read_bytes h src = Inr b"
  shows "\<exists>g. copy_file_bytes src (d @ [c]) fs = (Inr (), g) \<and>
    node_at g (d @ [c]) = Some (File b) \<and> node_at g (d @ [c @ TMP_COPY]) = None"
proof -
  let ?t = "d @ [c @ TMP_COPY]"
  obtain q h where h: "clear_tmp ?t fs = (q, h)" by (cases "clear_tmp ?t fs")
  note cl = clear_tmp_child [OF assms(1) tmp_name_plain(1) h]
  have q: "q = Inr ()" using cl(4) assms(4) by simp
  obtain r g where g: "then_op (write_bytes ?t b) (\<lambda>_. replace_file ?t (d @ [c])) h = (r, g)"
    by (cases "then_op (write_bytes ?t b) (\<lambda>_. replace_file ?t (d @ [c])) h")
  note put = put_file_child [OF cl(2) assms(2) cl(3) [OF q] g]
  have "node_at h (d @ [c]) = node_at fs (d @ [c])" using cl(1) tmp_name_plain(2) by (intro confined_at) auto
  then have r: "r = Inr ()" using put(2) assms(3) by simp
  have "copy_file_bytes src (d @ [c]) fs = (Inr (), g)"
    using h q assms(5) [OF cl(1)] g r by (simp add: copy_file_bytes_steps then_op_def [of "clear_tmp _"] then_op_def [of "pure_op _"] pure_op_def)
  then show ?thesis using put(3) r by blast
qed

section \<open>One leaf, one directory\<close>

text \<open>What the copy of the child \<open>c\<close> of \<open>d\<close> may touch: everything at or below it, and the temporary sibling.\<close>

definition spot :: "path \<Rightarrow> string \<Rightarrow> path set" where
  "spot d c = {p. prefix (d @ [c]) p} \<union> {d @ [c @ TMP_COPY]}"

definition below :: "path \<Rightarrow> path set" where
  "below d = {p. strict_prefix d p}"

lemma spot_below: "spot d c \<subseteq> below d"
  by (auto simp: spot_def below_def strict_prefix_def prefix_def)

lemma below_snoc: "below (d @ [c]) \<subseteq> spot d c"
  by (auto simp: spot_def below_def strict_prefix_def)

lemma below_mono: "prefix d e \<Longrightarrow> below e \<subseteq> below d"
  by (auto simp: below_def intro: prefix_order.le_less_trans)

lemma confined_below_real: "confined (below d) f g \<Longrightarrow> real_dir f d \<Longrightarrow> real_dir g d"
  by (erule confined_real) (auto simp: below_def)

lemma copy_leaf_child:
  assumes "real_dir fs d" "c \<noteq> ''..''" "copy_leaf src (d @ [c]) fs = (r, g)"
  shows "confined (spot d c) fs g"
proof -
  obtain q h where h: "drop_link (d @ [c]) fs = (q, h)" by (cases "drop_link (d @ [c]) fs")
  note drop = drop_link_child [OF assms(1,2) h]
  have "copy_file_bytes src (d @ [c]) h = (r, g)"
    using assms(3) h drop(1) by (simp add: copy_leaf_def then_op_def)
  note cp = copy_file_bytes_child [OF drop(3) assms(2) this]
  have "{d @ [c]} \<subseteq> spot d c" "{d @ [c], d @ [c @ TMP_COPY]} \<subseteq> spot d c" by (auto simp: spot_def)
  then show ?thesis using drop(2) cp by (blast intro: confined_trans confined_mono)
qed

lemma copy_leaf_total:
  assumes "real_dir fs d" "c \<noteq> ''..''" "node_at fs (d @ [c]) \<noteq> Some Dir" "node_at fs (d @ [c @ TMP_COPY]) \<noteq> Some Dir"
    and "\<And>h. confined (spot d c) fs h \<Longrightarrow> read_bytes h src = Inr b"
  shows "\<exists>g. copy_leaf src (d @ [c]) fs = (Inr (), g) \<and> confined (spot d c) fs g \<and>
    node_at g (d @ [c]) = Some (File b) \<and> node_at g (d @ [c @ TMP_COPY]) = None"
proof -
  obtain q h where h: "drop_link (d @ [c]) fs = (q, h)" by (cases "drop_link (d @ [c]) fs")
  note drop = drop_link_child [OF assms(1,2) h]
  have sub: "{d @ [c]} \<subseteq> spot d c" "{d @ [c @ TMP_COPY]} \<subseteq> spot d c" by (auto simp: spot_def)
  have "node_at h (d @ [c]) \<noteq> Some Dir" using drop(4) assms(3) by (auto split: option.splits node.splits)
  moreover have "node_at h (d @ [c @ TMP_COPY]) \<noteq> Some Dir"
    using assms(4) confined_at [OF drop(2), of "d @ [c @ TMP_COPY]"] tmp_name_plain(2) by simp
  moreover have "read_bytes k src = Inr b" if "confined {d @ [c @ TMP_COPY]} h k" for k
    using drop(2) that sub by (blast intro: assms(5) confined_trans confined_mono)
  ultimately obtain g where g: "copy_file_bytes src (d @ [c]) h = (Inr (), g)"
      "node_at g (d @ [c]) = Some (File b)" "node_at g (d @ [c @ TMP_COPY]) = None"
    using copy_file_bytes_total [OF drop(3) assms(2)] by blast
  have "copy_leaf src (d @ [c]) fs = (Inr (), g)" using g(1) h drop(1) by (simp add: copy_leaf_def then_op_def)
  with copy_leaf_child [OF assms(1,2) this] g show ?thesis by blast
qed

definition copy_child :: "nat \<Rightarrow> path \<Rightarrow> path \<Rightarrow> string \<Rightarrow> unit fs_op" where
  "copy_child n src dst c fs =
     (if is_dir fs (src @ [c])
      then then_op (ensure_real_dir (dst @ [c])) (\<lambda>_. copy_tree n (src @ [c]) (dst @ [c])) fs
      else copy_leaf (src @ [c]) (dst @ [c]) fs)"

lemma copy_tree_Suc:
  "copy_tree (Suc n) src dst fs = (case listdir fs src of Inl e \<Rightarrow> (Inl e, fs) | Inr names \<Rightarrow> for_each (copy_child n src dst) names fs)"
  by (simp add: copy_tree.simps(2) then_op_def pure_op_def copy_child_def [abs_def] split: sum.splits)

declare copy_tree.simps(2) [simp del]

lemma copy_child_confined:
  assumes rec: "\<And>s d f r g. real_dir f d \<Longrightarrow> plain_fs f \<Longrightarrow> copy_tree n s d f = (r, g) \<Longrightarrow> confined (below d) f g"
    and "real_dir fs d" "plain_fs fs" "c \<noteq> ''..''" "copy_child n src d c fs = (r, g)"
  shows "confined (spot d c) fs g"
proof (cases "is_dir fs (src @ [c])")
  case True
  then have "then_op (ensure_real_dir (d @ [c])) (\<lambda>_. copy_tree n (src @ [c]) (d @ [c])) fs = (r, g)"
    using assms(5) by (simp add: copy_child_def)
  then show ?thesis
  proof (cases rule: then_op_cases)
    case (stop e)
    then show ?thesis using ensure_real_dir_child(1) [OF assms(2,4)] by (auto simp: spot_def intro: confined_mono)
  next
    case (go u h)
    note en = ensure_real_dir_child [OF assms(2,4) go(1)]
    have h: "confined (spot d c) fs h" using en(1) by (rule confined_mono) (simp add: spot_def)
    have "confined (below (d @ [c])) h g"
      using en(2) confined_plain [OF h assms(3)] go(2) by (intro rec) simp_all
    then show ?thesis using h below_snoc by (blast intro: confined_trans confined_mono)
  qed
next
  case False
  then show ?thesis using copy_leaf_child [OF assms(2,4)] assms(5) by (simp add: copy_child_def)
qed

lemma copy_tree_confined:
  "real_dir f d \<Longrightarrow> plain_fs f \<Longrightarrow> copy_tree n s d f = (r, g) \<Longrightarrow> confined (below d) f g"
proof (induction n arbitrary: s d f r g)
  case (Suc n)
  show ?case
  proof (cases "listdir f s")
    case (Inr names)
    then have run: "for_each (copy_child n s d) names f = (r, g)" using Suc.prems(3) by (simp add: copy_tree_Suc)
    have "real_dir g d \<and> plain_fs g \<and> confined (below d) f g"
    proof (rule for_each_keeps [OF run])
      fix c h q k
      assume c: "c \<in> set names" and h: "real_dir h d \<and> plain_fs h \<and> confined (below d) f h"
        and k: "copy_child n s d c h = (q, k)"
      have "c \<noteq> ''..''" by (rule plain_fs_listdir [OF Suc.prems(2) Inr c])
      then have "confined (spot d c) h k" using h k by (intro copy_child_confined [of n]) (blast intro: Suc.IH)+
      then have "confined (below d) h k" using spot_below by (rule confined_mono)
      then show "real_dir k d \<and> plain_fs k \<and> confined (below d) f k"
        using h by (blast intro: confined_below_real confined_plain confined_trans)
    qed (use Suc.prems in simp)
    then show ?thesis by blast
  qed (use Suc.prems in \<open>simp add: copy_tree_Suc\<close>)
qed simp

section \<open>Items and plans\<close>

definition spine :: "path \<Rightarrow> path \<Rightarrow> path set" where
  "spine cur q = {p. strict_prefix cur p \<and> prefix p (cur @ q)}"

lemma spine_step: "spine (cur @ [c]) q \<subseteq> spine cur (c # q)" "cur @ [c] \<in> spine cur (c # q)"
  by (auto simp: spine_def strict_prefix_def prefix_def)

lemma ensure_dirs_spec:
  "real_dir f cur \<Longrightarrow> ''..'' \<notin> set q \<Longrightarrow> ensure_dirs cur q f = (r, g) \<Longrightarrow>
   confined (spine cur q) f g \<and> (r = Inr () \<longrightarrow> real_dir g (cur @ q))"
proof (induction q arbitrary: cur f)
  case (Cons c q)
  from Cons.prems(3) have "then_op (ensure_real_dir (cur @ [c])) (\<lambda>_. ensure_dirs (cur @ [c]) q) f = (r, g)" by simp
  then show ?case
  proof (cases rule: then_op_cases)
    case (stop e)
    have "confined {cur @ [c]} f g" using stop(1) Cons.prems by (intro ensure_real_dir_child(1)) auto
    then show ?thesis using stop(2) spine_step(2) by (auto intro: confined_mono)
  next
    case (go u h)
    have c: "c \<noteq> ''..''" using Cons.prems(2) by auto
    note en = ensure_real_dir_child [OF Cons.prems(1) c go(1)]
    have "confined (spine cur (c # q)) f h" using en(1) by (rule confined_mono) (simp add: spine_step)
    moreover have "confined (spine (cur @ [c]) q) h g \<and> (r = Inr () \<longrightarrow> real_dir g ((cur @ [c]) @ q))"
      using en(2) Cons.prems(2) go(2) by (intro Cons.IH) auto
    ultimately show ?thesis using confined_mono [OF _ spine_step(1)] by (auto intro: confined_trans)
  qed
qed simp

text \<open>What the copy of the item at \<open>dst @ q\<close> may touch.\<close>

definition item_area :: "path \<Rightarrow> path \<Rightarrow> path set" where
  "item_area dst q = spine dst (butlast q) \<union> spot (dst @ butlast q) (last q)"

definition inner :: "path \<Rightarrow> bool" where
  "inner q \<longleftrightarrow> q \<noteq> [] \<and> ''..'' \<notin> set q"

lemma inner_split: "inner q \<Longrightarrow> q = butlast q @ [last q] \<and> last q \<noteq> ''..'' \<and> ''..'' \<notin> set (butlast q)"
  unfolding inner_def by (metis append_butlast_last_id in_set_butlastD last_in_set)

lemma item_area_top: "inner q \<Longrightarrow> item_area dst q \<subseteq> spot dst (hd q)"
proof -
  assume "inner q"
  then obtain c q' where q: "q = c # q'" by (cases q) (auto simp: inner_def)
  show ?thesis
    by (cases q' rule: rev_cases) (auto simp: q item_area_def spine_def spot_def strict_prefix_def prefix_def butlast_append append_eq_append_conv2 append_eq_Cons_conv Cons_eq_append_conv)
qed

definition put_item :: "nat \<Rightarrow> copy_item \<Rightarrow> unit fs_op" where
  "put_item n it = (case ci_kind it of
     KDir \<Rightarrow> then_op (ensure_real_dir (ci_dest it)) (\<lambda>_. copy_tree n (ci_source it) (ci_dest it))
   | KFile \<Rightarrow> copy_leaf (ci_source it) (ci_dest it))"

lemma put_item_confined:
  assumes "real_dir f d" "plain_fs f" "c \<noteq> ''..''" "ci_dest it = d @ [c]" "put_item n it f = (r, g)"
  shows "confined (spot d c) f g"
proof (cases "ci_kind it")
  case KFile
  then show ?thesis using copy_leaf_child [OF assms(1,3)] assms(4,5) by (simp add: put_item_def)
next
  case KDir
  then have "then_op (ensure_real_dir (d @ [c])) (\<lambda>_. copy_tree n (ci_source it) (d @ [c])) f = (r, g)"
    using assms(4,5) by (simp add: put_item_def)
  then show ?thesis
  proof (cases rule: then_op_cases)
    case (stop e)
    then show ?thesis using ensure_real_dir_child(1) [OF assms(1,3)] by (auto simp: spot_def intro: confined_mono)
  next
    case (go u h)
    note en = ensure_real_dir_child [OF assms(1,3) go(1)]
    have h: "confined (spot d c) f h" using en(1) by (rule confined_mono) (simp add: spot_def)
    have "confined (below (d @ [c])) h g"
      using en(2) confined_plain [OF h assms(2)] go(2) by (intro copy_tree_confined) simp_all
    then show ?thesis using h below_snoc by (blast intro: confined_trans confined_mono)
  qed
qed

lemma copy_item_op_eq:
  "ci_dest it = dst @ q \<Longrightarrow> copy_item_op n dst it = then_op (ensure_dirs dst (butlast q)) (\<lambda>_. put_item n it)"
  by (simp add: copy_item_op_def put_item_def ensure_real_parents_def [abs_def])

lemma copy_item_confined:
  assumes "real_dir f dst" "plain_fs f" "inner q" "ci_dest it = dst @ q" "copy_item_op n dst it f = (r, g)"
  shows "confined (item_area dst q) f g"
proof -
  have run: "then_op (ensure_dirs dst (butlast q)) (\<lambda>_. put_item n it) f = (r, g)"
    using assms(4,5) by (simp add: copy_item_op_eq)
  note q = inner_split [OF assms(3)]
  from run show ?thesis
  proof (cases rule: then_op_cases)
    case (stop e)
    then show ?thesis using ensure_dirs_spec [OF assms(1)] q by (auto simp: item_area_def intro: confined_mono)
  next
    case (go u h)
    have en: "confined (spine dst (butlast q)) f h" "real_dir h (dst @ butlast q)"
      using ensure_dirs_spec [OF assms(1) _ go(1)] q by auto
    have "ci_dest it = (dst @ butlast q) @ [last q]" using assms(4) q by simp
    then have "confined (spot (dst @ butlast q) (last q)) h g"
      using en go(2) q confined_plain [OF en(1) assms(2)] by (intro put_item_confined) auto
    then show ?thesis using en(1) unfolding item_area_def by (blast intro: confined_trans confined_mono)
  qed
qed

text \<open>A plan whose items all lie inside \<open>dst\<close> changes only the entries it names there.\<close>

definition planned_tops :: "path \<Rightarrow> copy_item list \<Rightarrow> path set" where
  "planned_tops dst items = (\<Union>it\<in>set items. spot dst (hd (drop (length dst) (ci_dest it))))"

definition inside :: "path \<Rightarrow> copy_item \<Rightarrow> bool" where
  "inside dst it \<longleftrightarrow> prefix dst (ci_dest it) \<and> inner (drop (length dst) (ci_dest it))"

lemma planned_tops_below: "planned_tops dst items \<subseteq> below dst"
  using spot_below by (auto simp: planned_tops_def)

lemma execute_copy_confined:
  assumes "real_dir f dst" "plain_fs f" "list_all (inside dst) items"
    and "for_each (copy_item_op n dst) items f = (r, g)"
  shows "confined (planned_tops dst items) f g"
proof -
  have "real_dir g dst \<and> plain_fs g \<and> confined (planned_tops dst items) f g"
  proof (rule for_each_keeps [OF assms(4)])
    fix it h q k
    assume it: "it \<in> set items" and h: "real_dir h dst \<and> plain_fs h \<and> confined (planned_tops dst items) f h"
      and k: "copy_item_op n dst it h = (q, k)"
    let ?q = "drop (length dst) (ci_dest it)"
    have q: "ci_dest it = dst @ ?q" "inner ?q"
      using assms(3) it by (auto simp: list_all_iff inside_def prefix_def)
    have "confined (item_area dst ?q) h k" using h q k by (intro copy_item_confined) auto
    then have "confined (planned_tops dst items) h k"
      by (rule confined_mono) (use item_area_top [OF q(2), of dst] it in \<open>auto simp: planned_tops_def\<close>)
    then show "real_dir k dst \<and> plain_fs k \<and> confined (planned_tops dst items) f k"
      using h planned_tops_below by (blast intro: confined_below_real confined_plain confined_trans confined_mono)
  qed (use assms in simp)
  then show ?thesis by blast
qed

end
