(* ===== verification/Copy_Contents.thy ===== *)
theory Copy_Contents
  imports Copy_Facts
begin

text \<open>
  What the copy leaves behind. A source that can be read without passing through the destination is
  copied in full into a vacant place: the loops return, and every file of the source, read through
  whatever links, is afterwards a real file with the same bytes under real directories.
\<close>

section \<open>Sources apart from the destination\<close>

definition prune :: "path \<Rightarrow> fs \<Rightarrow> fs" where
  "prune dst fs = filter (\<lambda>(p, _). \<not> strict_prefix dst p) fs"

definition readable :: "fs \<Rightarrow> path \<Rightarrow> bool" where
  "readable fs p = (case read_bytes fs p of Inr _ \<Rightarrow> True | Inl _ \<Rightarrow> False)"

text \<open>The source tree is read, to depth \<open>n\<close>, with everything below \<open>dst\<close> taken away.\<close>

fun separate :: "nat \<Rightarrow> path \<Rightarrow> fs \<Rightarrow> path \<Rightarrow> bool" where
  "separate 0 dst fs s = False"
| "separate (Suc n) dst fs s = (case locate (prune dst fs) True s of
     Inl _ \<Rightarrow> False
   | Inr l \<Rightarrow> l \<noteq> dst \<and> node_at (prune dst fs) l = Some Dir \<and>
       list_all (\<lambda>c. if is_dir (prune dst fs) (s @ [c]) then separate n dst fs (s @ [c])
                      else readable (prune dst fs) (s @ [c])) (names_in fs l))"

fun tree_file :: "fs \<Rightarrow> path \<Rightarrow> string list \<Rightarrow> bool" where
  "tree_file fs s [] = is_file fs s"
| "tree_file fs s (c # q) = (case listdir fs s of Inl _ \<Rightarrow> False
     | Inr names \<Rightarrow> c \<in> set names \<and> tree_file fs (s @ [c]) q)"

lemma node_at_prune: "node_at (prune dst fs) p = (if strict_prefix dst p then None else node_at fs p)"
  unfolding prune_def node_at_def by (induction fs) auto

lemma prune_fewer: "confined (below dst) fs h \<Longrightarrow> fewer_nodes (prune dst fs) h"
  by (auto simp: fewer_nodes_def node_at_prune below_def confined_def split: if_splits)

lemma readable_kept:
  "readable (prune dst fs) p \<Longrightarrow> \<exists>b. \<forall>h. confined (below dst) fs h \<longrightarrow> read_bytes h p = Inr b"
  unfolding readable_def by (auto intro: read_mono prune_fewer split: sum.splits)

lemma read_bytes_file: "read_bytes fs p = Inr b \<longleftrightarrow> stat_node fs True p = Inr (File b)"
proof -
  have "(case k of File b \<Rightarrow> Inr b | Dir \<Rightarrow> Inl IsADirectory | Link _ \<Rightarrow> Inl NotFound) = Inr b \<longleftrightarrow> k = File b" for k
    by (cases k) auto
  then show ?thesis by (simp add: read_bytes_def result_simps)
qed

lemma read_not_dir: "read_bytes fs p = Inr b \<Longrightarrow> \<not> is_dir fs p"
  by (simp add: read_bytes_file is_dir_def)

lemma is_file_read: "is_file fs p \<Longrightarrow> \<exists>b. read_bytes fs p = Inr b"
  by (auto simp: is_file_def read_bytes_file split: sum.splits node.splits)

lemma is_dir_kept: "is_dir (prune dst fs) p \<Longrightarrow> confined (below dst) fs h \<Longrightarrow> is_dir h p"
  unfolding is_dir_def by (rule stat_mono [OF _ prune_fewer])

text \<open>What the copy sees of such a source, in any state it reaches.\<close>

lemma separate_listing:
  assumes "separate (Suc n) dst fs s" "confined (below dst) fs h"
  shows "listdir h s = listdir fs s"
proof -
  obtain l where l: "locate (prune dst fs) True s = Inr l" "l \<noteq> dst" "node_at (prune dst fs) l = Some Dir"
    using assms(1) by (auto split: sum.splits)
  have out: "\<not> strict_prefix dst (l @ [c])" for c
    using l(2,3) by (auto simp: node_at_prune prefix_snoc strict_prefix_def split: if_splits)
  have k: "listdir k s = Inr (names_in fs l)" if k: "confined (below dst) fs k" for k
  proof -
    have "locate k True s = Inr l" using l prune_fewer [OF k] by (blast intro: locate_mono)
    moreover have "node_at k l = Some Dir" using l(3) prune_fewer [OF k] by (simp add: fewer_nodes_def)
    moreover have "names_in k l = names_in fs l"
      using k out by (intro names_in_cong) (simp add: confined_def below_def)
    ultimately show ?thesis by (simp add: listdir_Inr)
  qed
  show ?thesis using k [OF assms(2)] k [OF confined_refl] by simp
qed

lemma separate_children:
  assumes "separate (Suc n) dst fs s"
  obtains names where "listdir fs s = Inr names" "sorted names" "distinct names"
    "\<And>c. c \<in> set names \<Longrightarrow> (is_dir (prune dst fs) (s @ [c]) \<and> separate n dst fs (s @ [c])) \<or> readable (prune dst fs) (s @ [c])"
proof -
  obtain l where l: "locate (prune dst fs) True s = Inr l" "node_at (prune dst fs) l = Some Dir"
     "list_all (\<lambda>c. if is_dir (prune dst fs) (s @ [c]) then separate n dst fs (s @ [c])
        else readable (prune dst fs) (s @ [c])) (names_in fs l)"
    using assms by (auto split: sum.splits)
  have "fewer_nodes (prune dst fs) fs" by (rule prune_fewer) simp
  then have "locate fs True s = Inr l" "node_at fs l = Some Dir"
    using l by (auto intro: locate_mono simp: fewer_nodes_def)
  then have "listdir fs s = Inr (names_in fs l)" by (simp add: listdir_Inr)
  then show ?thesis using l(3) by (intro that) (auto simp: names_in_sorted list_all_iff split: if_splits)
qed

section \<open>Trees\<close>

definition real_file :: "fs \<Rightarrow> path \<Rightarrow> byte list \<Rightarrow> bool" where
  "real_file fs p b \<longleftrightarrow> real_dir fs (butlast p) \<and> node_at fs p = Some (File b)"

lemma real_file_frame:
  assumes "real_file f p b" "confined A f g" "\<And>q. prefix q p \<Longrightarrow> q \<notin> A"
  shows "real_file g p b"
  unfolding real_file_def
proof
  show "real_dir g (butlast p)"
    using assms by (intro confined_real [OF assms(2)]) (auto simp: real_file_def dest: prefix_order.trans [OF _ prefixeq_butlast])
  show "node_at g p = Some (File b)" using assms confined_at [OF assms(2)] by (simp add: real_file_def)
qed

text \<open>
  Every file of the tree at \<open>s\<close> is a real file, with the bytes it had in \<open>fs\<close>, at the place it has in
  the tree at \<open>d\<close>, and \<open>d\<close> itself is no link.
\<close>

definition copied :: "fs \<Rightarrow> path \<Rightarrow> fs \<Rightarrow> path \<Rightarrow> bool" where
  "copied fs s h d \<longleftrightarrow> (\<forall>t. node_at h d \<noteq> Some (Link t)) \<and>
     (\<forall>q. tree_file fs s q \<longrightarrow> (\<exists>b. read_bytes fs (s @ q) = Inr b \<and> real_file h (d @ q) b))"

definition vacant :: "fs \<Rightarrow> path \<Rightarrow> bool" where
  "vacant fs d \<longleftrightarrow> (\<forall>p. strict_prefix d p \<longrightarrow> node_at fs p = None)"

lemma copied_frame:
  assumes "copied fs s f d" "confined A f g" "\<And>q p. prefix p (d @ q) \<Longrightarrow> p \<notin> A"
  shows "copied fs s g d"
  unfolding copied_def
proof (intro conjI allI impI)
  show "node_at g d \<noteq> Some (Link t)" for t
    using assms(1) confined_at [OF assms(2), of d] assms(3) [of d "[]"] by (simp add: copied_def)
  fix q assume "tree_file fs s q"
  then obtain b where "read_bytes fs (s @ q) = Inr b" "real_file f (d @ q) b" using assms(1) by (auto simp: copied_def)
  then show "\<exists>b. read_bytes fs (s @ q) = Inr b \<and> real_file g (d @ q) b"
    using real_file_frame [OF _ assms(2)] assms(3) by blast
qed

lemma copied_leaf:
  assumes "read_bytes fs s = Inr b" "real_dir g d" "node_at g (d @ [c]) = Some (File b)"
  shows "copied fs s g (d @ [c])"
proof -
  have q: "tree_file fs s q \<Longrightarrow> q = []" for q
    using assms(1) by (cases q) (auto simp: read_bytes_file listdir_def stat_node_def result_simps split: sum.splits option.splits node.splits)
  show ?thesis using assms by (auto simp: copied_def real_file_def dest!: q)
qed

lemma copied_tree:
  assumes "listdir fs s = Inr names" "\<And>c. c \<in> set names \<Longrightarrow> copied fs (s @ [c]) g (d @ [c])" "node_at g d = Some Dir"
  shows "copied fs s g d"
  unfolding copied_def
proof (intro conjI allI impI)
  show "node_at g d \<noteq> Some (Link t)" for t using assms(3) by simp
  fix q assume q: "tree_file fs s q"
  obtain l where "stat_node fs True s = Inr Dir" using assms(1) by (auto simp: listdir_Inr stat_Inr)
  then obtain c q' where "q = c # q'" "c \<in> set names" "tree_file fs (s @ [c]) q'"
    using q assms(1) by (cases q) (auto simp: is_file_def)
  then show "\<exists>b. read_bytes fs (s @ q) = Inr b \<and> real_file g (d @ q) b"
    using assms(2) [of c] by (auto simp: copied_def)
qed

section \<open>The loops return\<close>

text \<open>The state of the loop over a directory: the names done are copied, nothing else is there.\<close>

definition filling :: "path \<Rightarrow> fs \<Rightarrow> path \<Rightarrow> path \<Rightarrow> string list \<Rightarrow> fs \<Rightarrow> bool" where
  "filling dst fs s d names h \<longleftrightarrow> real_dir h d \<and> plain_fs h \<and> confined (below dst) fs h \<and>
     (\<forall>p. strict_prefix d p \<longrightarrow> node_at h p \<noteq> None \<longrightarrow> (\<exists>c\<in>set names. prefix (d @ [c]) p)) \<and>
     (\<forall>c\<in>set names. copied fs (s @ [c]) h (d @ [c]))"

definition enters :: "nat \<Rightarrow> path \<Rightarrow> fs \<Rightarrow> bool" where
  "enters n dst fs \<longleftrightarrow> (\<forall>s d f. separate n dst fs s \<longrightarrow> confined (below dst) fs f \<longrightarrow> plain_fs f \<longrightarrow> prefix dst d \<longrightarrow>
     real_dir f d \<longrightarrow> vacant f d \<longrightarrow> (\<exists>g. copy_tree n s d f = (Inr (), g) \<and> copied fs s g d))"

lemma entersD:
  assumes "enters n dst fs" "separate n dst fs s" "confined (below dst) fs f" "plain_fs f" "prefix dst d" "real_dir f d" "vacant f d"
  obtains g where "copy_tree n s d f = (Inr (), g)" "confined (below d) f g" "copied fs s g d"
  using assms copy_tree_confined [OF assms(6,4)] unfolding enters_def by blast

lemma copy_child_leaf:
  assumes fs: "confined (below dst) fs h" "prefix dst d" "real_dir h d"
    and c: "c \<noteq> ''..''" "node_at h (d @ [c]) = None" "node_at h (d @ [c @ TMP_COPY]) = None"
    and src: "readable (prune dst fs) (s @ [c])"
  shows "\<exists>g. copy_child n s d c h = (Inr (), g) \<and> confined (spot d c) h g \<and>
    node_at g (d @ [c @ TMP_COPY]) = None \<and> copied fs (s @ [c]) g (d @ [c])"
proof -
  have sub: "spot d c \<subseteq> below dst" using spot_below below_mono [OF fs(2)] by blast
  obtain b where b: "\<And>k. confined (below dst) fs k \<Longrightarrow> read_bytes k (s @ [c]) = Inr b"
    using readable_kept [OF src] by blast
  have "read_bytes k (s @ [c]) = Inr b" if "confined (spot d c) h k" for k
    by (rule b) (rule confined_trans [OF fs(1) confined_mono [OF that sub]])
  then obtain g where g: "copy_leaf (s @ [c]) (d @ [c]) h = (Inr (), g)" "confined (spot d c) h g"
     "node_at g (d @ [c]) = Some (File b)" "node_at g (d @ [c @ TMP_COPY]) = None"
    using copy_leaf_total [OF fs(3) c(1), where src = "s @ [c]" and b = b] c(2,3) by auto
  have "real_dir g d" using g(2) spot_below fs(3) by (blast intro: confined_below_real confined_mono)
  then have "copied fs (s @ [c]) g (d @ [c])" using b [OF confined_refl] g(3) by (intro copied_leaf)
  then show ?thesis using g b [OF fs(1)] by (auto simp: copy_child_def dest: read_not_dir)
qed

text \<open>A directory of the source goes into a fresh directory, whose own loop returns.\<close>

lemma fresh_dir:
  assumes "real_dir h d" "c \<noteq> ''..''" "\<And>b. node_at h (d @ [c]) \<noteq> Some (File b)" "vacant h (d @ [c])"
  shows "\<exists>k. ensure_real_dir (d @ [c]) h = (Inr (), k) \<and> confined {d @ [c]} h k \<and> real_dir k (d @ [c]) \<and> vacant k (d @ [c])"
proof -
  obtain q k where k: "ensure_real_dir (d @ [c]) h = (q, k)" by (cases "ensure_real_dir (d @ [c]) h")
  note en = ensure_real_dir_child [OF assms(1,2) k]
  have q: "q = Inr ()" using en(4) assms(3) by simp
  have "vacant k (d @ [c])"
    unfolding vacant_def
  proof (intro allI impI)
    fix p assume p: "strict_prefix (d @ [c]) p"
    then have "node_at k p = node_at h p" by (intro confined_at [OF en(1)]) auto
    then show "node_at k p = None" using p assms(4) by (simp add: vacant_def)
  qed
  with k q en show ?thesis by blast
qed

lemma copy_into_fresh:
  assumes rec: "enters n dst fs" and fs: "confined (below dst) fs h" "plain_fs h" "prefix dst d" "real_dir h d"
    and c: "c \<noteq> ''..''" "\<And>b. node_at h (d @ [c]) \<noteq> Some (File b)" "vacant h (d @ [c])"
    and src: "separate n dst fs s"
  shows "\<exists>g. then_op (ensure_real_dir (d @ [c])) (\<lambda>_. copy_tree n s (d @ [c])) h = (Inr (), g) \<and>
    confined (spot d c) h g \<and> node_at g (d @ [c @ TMP_COPY]) = node_at h (d @ [c @ TMP_COPY]) \<and> copied fs s g (d @ [c])"
proof -
  obtain k where k: "ensure_real_dir (d @ [c]) h = (Inr (), k)" "confined {d @ [c]} h k" "real_dir k (d @ [c])" "vacant k (d @ [c])"
    using fresh_dir [OF fs(4) c] by blast
  have hk: "confined (spot d c) h k" using k(2) by (rule confined_mono) (simp add: spot_def)
  have "confined (below dst) fs k"
    using fs(1) hk spot_below below_mono [OF fs(3)] by (blast intro: confined_trans confined_mono)
  then obtain g where g: "copy_tree n s (d @ [c]) k = (Inr (), g)" "confined (below (d @ [c])) k g" "copied fs s g (d @ [c])"
    using entersD [OF rec src _ confined_plain [OF hk fs(2)] _ k(3,4)] fs(3) by auto
  have "node_at g (d @ [c @ TMP_COPY]) = node_at k (d @ [c @ TMP_COPY])"
    using tmp_name_plain(2) by (intro confined_at [OF g(2)]) (auto simp: below_def strict_prefix_def)
  also have "\<dots> = node_at h (d @ [c @ TMP_COPY])" using tmp_name_plain(2) confined_at [OF k(2)] by simp
  finally show ?thesis
    using k(1) g confined_trans [OF hk confined_mono [OF g(2) below_snoc]] by (simp add: then_op_def)
qed

lemma copy_child_total:
  assumes rec: "enters n dst fs" and fs: "confined (below dst) fs h" "plain_fs h" "prefix dst d" "real_dir h d"
    and c: "c \<noteq> ''..''" "node_at h (d @ [c]) = None" "node_at h (d @ [c @ TMP_COPY]) = None" "vacant h (d @ [c])"
    and src: "(is_dir (prune dst fs) (s @ [c]) \<and> separate n dst fs (s @ [c])) \<or> readable (prune dst fs) (s @ [c])"
  shows "\<exists>g. copy_child n s d c h = (Inr (), g) \<and> confined (spot d c) h g \<and>
    node_at g (d @ [c @ TMP_COPY]) = None \<and> copied fs (s @ [c]) g (d @ [c])"
  using src
proof
  assume "is_dir (prune dst fs) (s @ [c]) \<and> separate n dst fs (s @ [c])"
  then have a: "is_dir h (s @ [c])" "separate n dst fs (s @ [c])" using is_dir_kept [OF _ fs(1)] by blast+
  then show ?thesis
    using copy_into_fresh [OF rec fs c(1) _ c(4) a(2)] c(2,3) by (auto simp: copy_child_def)
qed (rule copy_child_leaf [OF fs(1,3,4) c(1-3)])

lemma sorted_names_before:
  assumes "sorted names" "distinct names" "names = before @ c # rest" "e \<in> set before"
  shows "e \<noteq> c" "e \<noteq> c @ TMP_COPY"
proof -
  show "e \<noteq> c" using assms(2-4) by auto
  have "e \<le> c" using assms(1,3,4) by (auto simp: sorted_append)
  moreover have "c \<le> c @ TMP_COPY" "c \<noteq> c @ TMP_COPY"
    by (simp_all add: list_le_def list_less_def lexord_append_rightI TMP_COPY_def)
  ultimately show "e \<noteq> c @ TMP_COPY" using \<open>e \<noteq> c\<close> by (metis order_antisym)
qed

lemma filling_step:
  assumes rec: "enters n dst fs" and d: "prefix dst d" and I: "filling dst fs s d before h"
    and names: "sorted names" "distinct names" "names = before @ c # rest" "c \<noteq> ''..''"
    and src: "(is_dir (prune dst fs) (s @ [c]) \<and> separate n dst fs (s @ [c])) \<or> readable (prune dst fs) (s @ [c])"
  shows "\<exists>g. copy_child n s d c h = (Inr (), g) \<and> filling dst fs s d (before @ [c]) g"
proof -
  note before = sorted_names_before [OF names(1-3)]
  have h: "real_dir h d" "plain_fs h" "confined (below dst) fs h"
      "\<And>p. strict_prefix d p \<Longrightarrow> node_at h p \<noteq> None \<Longrightarrow> \<exists>e\<in>set before. prefix (d @ [e]) p"
      "\<And>e. e \<in> set before \<Longrightarrow> copied fs (s @ [e]) h (d @ [e])"
    using I by (auto simp: filling_def)
  have none: "node_at h (d @ x # q) = None" if "x \<notin> set before" for x q
    by (rule ccontr) (use h(4) [of "d @ x # q"] that in \<open>auto simp: strict_prefix_def\<close>)
  have new: "c \<notin> set before" "c @ TMP_COPY \<notin> set before" using before by blast+
  have "vacant h (d @ [c])" using none [OF new(1)] by (auto simp: vacant_def strict_prefix_def prefix_def)
  then obtain g where g: "copy_child n s d c h = (Inr (), g)" "confined (spot d c) h g"
      "node_at g (d @ [c @ TMP_COPY]) = None" "copied fs (s @ [c]) g (d @ [c])"
    using copy_child_total [OF rec h(3,2) d h(1) names(4) _ _ _ src] none [OF new(1), of "[]"] none [OF new(2), of "[]"] by auto
  have free: "p \<notin> spot d c" if "e \<in> set before" "prefix p (d @ [e] @ q)" for e p q
    using that before [of e] by (auto simp: spot_def prefix_def append_eq_append_conv2 append_eq_Cons_conv Cons_eq_append_conv)
  have "copied fs (s @ [e]) g (d @ [e])" if "e \<in> set before" for e
    by (rule copied_frame [OF h(5) [OF that] g(2)]) (use free [OF that] in simp)
  moreover have "\<exists>e\<in>set (before @ [c]). prefix (d @ [e]) p" if p: "strict_prefix d p" "node_at g p \<noteq> None" for p
  proof (cases "p \<in> spot d c")
    case True
    then show ?thesis using p(2) g(3) by (auto simp: spot_def)
  next
    case False
    then show ?thesis using confined_at [OF g(2)] h(4) [OF p(1)] p(2) by auto
  qed
  moreover have "real_dir g d" "plain_fs g" "confined (below dst) fs g"
    using g(2) h(1-3) spot_below below_mono [OF d]
    by (blast intro: confined_below_real confined_mono confined_plain confined_trans)+
  ultimately show ?thesis using g(1,4) by (auto simp: filling_def)
qed

lemma all_enter: "enters n dst fs"
proof (induction n)
  case (Suc n)
  show ?case
    unfolding enters_def
  proof (intro allI impI)
    fix s d f assume src: "separate (Suc n) dst fs s"
      and f: "confined (below dst) fs f" "plain_fs f" "prefix dst d" "real_dir f d" "vacant f d"
    obtain names where names: "listdir fs s = Inr names" "sorted names" "distinct names"
      "\<And>c. c \<in> set names \<Longrightarrow> (is_dir (prune dst fs) (s @ [c]) \<and> separate n dst fs (s @ [c])) \<or> readable (prune dst fs) (s @ [c])"
      using separate_children [OF src] by blast
    have ls: "listdir f s = Inr names" using separate_listing [OF src f(1)] names(1) by simp
    have "\<exists>g. for_each (copy_child n s d) names f = (Inr (), g) \<and> filling dst fs s d names g"
    proof (rule for_each_total)
      show "filling dst fs s d [] f" using f by (auto simp: filling_def vacant_def)
      fix before c rest h assume at: "names = before @ c # rest" "filling dst fs s d before h"
      then have c: "c \<in> set names" by simp
      show "\<exists>g. copy_child n s d c h = (Inr (), g) \<and> filling dst fs s d (before @ [c]) g"
        by (rule filling_step [OF Suc.IH f(3) at(2) names(2,3) at(1) plain_fs_listdir [OF f(2) ls c] names(4) [OF c]])
    qed
    then obtain g where g: "for_each (copy_child n s d) names f = (Inr (), g)" "filling dst fs s d names g" by blast
    have "copied fs s g d" by (rule copied_tree [OF names(1)]) (use g(2) in \<open>simp_all add: filling_def real_dirD(1)\<close>)
    then show "\<exists>g. copy_tree (Suc n) s d f = (Inr (), g) \<and> copied fs s g d"
      using g(1) ls by (auto simp: copy_tree_Suc)
  qed
qed (simp add: enters_def)

end
