(* ===== verification/Copy_Plan.thy ===== *)
theory Copy_Plan
  imports Copy_Contents
begin

text \<open>
  The copy of a whole plan into a farm of links: items that do not get in each other's way, sources
  apart from the destination, and a destination where the planned entries are links or missing.
\<close>

section \<open>One item\<close>

definition readable_item :: "nat \<Rightarrow> path \<Rightarrow> fs \<Rightarrow> copy_item \<Rightarrow> bool" where
  "readable_item n dst fs it = (case ci_kind it of
     KDir \<Rightarrow> separate n dst fs (ci_source it) | KFile \<Rightarrow> readable (prune dst fs) (ci_source it))"

lemma put_item_total:
  assumes it: "readable_item n dst fs it" "ci_dest it = d @ [c]"
    and fs: "confined (below dst) fs h" "plain_fs h" "prefix dst d" "real_dir h d"
    and c: "c \<noteq> ''..''" "node_at h (d @ [c]) = None \<or> node_at h (d @ [c]) = Some (Link t)"
      "node_at h (d @ [c @ TMP_COPY]) \<noteq> Some Dir" "vacant h (d @ [c])"
  shows "\<exists>g. put_item n it h = (Inr (), g) \<and> confined (spot d c) h g \<and>
    node_at g (d @ [c @ TMP_COPY]) \<in> {None, node_at h (d @ [c @ TMP_COPY])} \<and> copied fs (ci_source it) g (d @ [c])"
proof (cases "ci_kind it")
  case KDir
  then have "separate n dst fs (ci_source it)" using it(1) by (simp add: readable_item_def)
  moreover have "node_at h (d @ [c]) \<noteq> Some (File b)" for b using c(2) by auto
  ultimately obtain g where "then_op (ensure_real_dir (d @ [c])) (\<lambda>_. copy_tree n (ci_source it) (d @ [c])) h = (Inr (), g)"
      "confined (spot d c) h g" "node_at g (d @ [c @ TMP_COPY]) = node_at h (d @ [c @ TMP_COPY])" "copied fs (ci_source it) g (d @ [c])"
    using copy_into_fresh [OF all_enter fs c(1) _ c(4)] by blast
  then show ?thesis using KDir it(2) by (auto simp: put_item_def)
next
  case KFile
  then have "\<exists>b. \<forall>k. confined (below dst) fs k \<longrightarrow> read_bytes k (ci_source it) = Inr b"
    using it(1) by (intro readable_kept) (simp add: readable_item_def)
  then obtain b where b: "\<And>k. confined (below dst) fs k \<Longrightarrow> read_bytes k (ci_source it) = Inr b" by blast
  have "spot d c \<subseteq> below dst" using spot_below below_mono [OF fs(3)] by blast
  then have "read_bytes k (ci_source it) = Inr b" if "confined (spot d c) h k" for k
    by (intro b confined_trans [OF fs(1)] confined_mono [OF that])
  moreover have "node_at h (d @ [c]) \<noteq> Some Dir" using c(2) by auto
  ultimately obtain g where g: "copy_leaf (ci_source it) (d @ [c]) h = (Inr (), g)" "confined (spot d c) h g"
     "node_at g (d @ [c]) = Some (File b)" "node_at g (d @ [c @ TMP_COPY]) = None"
    using copy_leaf_total [OF fs(4) c(1) _ c(3), where src = "ci_source it" and b = b] by blast
  have "real_dir g d" using g(2) spot_below fs(4) by (blast intro: confined_below_real confined_mono)
  then have "copied fs (ci_source it) g (d @ [c])" using b [OF confined_refl] g(3) by (intro copied_leaf)
  then show ?thesis using g KFile it(2) by (auto simp: put_item_def)
qed

lemma ensure_dirs_total:
  "real_dir f cur \<Longrightarrow> ''..'' \<notin> set q \<Longrightarrow> (\<And>p b. p \<in> spine cur q \<Longrightarrow> node_at f p \<noteq> Some (File b)) \<Longrightarrow>
   \<exists>g. ensure_dirs cur q f = (Inr (), g)"
proof (induction q arbitrary: cur f)
  case (Cons c q)
  obtain r h where h: "ensure_real_dir (cur @ [c]) f = (r, h)" by (cases "ensure_real_dir (cur @ [c]) f")
  have "c \<noteq> ''..''" using Cons.prems(2) by auto
  note en = ensure_real_dir_child [OF Cons.prems(1) this h]
  have r: "r = Inr ()" using en(4) Cons.prems(3) [of "cur @ [c]"] by (simp add: spine_def strict_prefix_def)
  have "\<And>p b. p \<in> spine (cur @ [c]) q \<Longrightarrow> node_at h p \<noteq> Some (File b)"
  proof -
    fix p b assume p: "p \<in> spine (cur @ [c]) q"
    have "p \<noteq> cur @ [c]" using p by (auto simp: spine_def)
    then have "node_at h p = node_at f p" using confined_at [OF en(1)] by simp
    then show "node_at h p \<noteq> Some (File b)" using Cons.prems(3) [of p b] p spine_step(1) [of cur c q] by auto
  qed
  then have "\<exists>g. ensure_dirs (cur @ [c]) q h = (Inr (), g)"
    using Cons.prems(2) by (intro Cons.IH [OF en(2) [OF r]]) auto
  then obtain g where "ensure_dirs (cur @ [c]) q h = (Inr (), g)" by blast
  then show ?case using h r by (simp add: then_op_def)
qed simp

section \<open>A farm of links\<close>

definition apart :: "path \<Rightarrow> path \<Rightarrow> bool" where
  "apart p q \<longleftrightarrow> \<not> prefix p q \<and> \<not> prefix q p \<and> \<not> prefix (tmp_sibling p) q \<and> \<not> prefix q (tmp_sibling p) \<and>
     \<not> prefix (tmp_sibling q) p \<and> \<not> prefix p (tmp_sibling q)"

definition top_name :: "path \<Rightarrow> path \<Rightarrow> string" where
  "top_name dst p = hd (drop (length dst) p)"

definition plan_tops :: "path \<Rightarrow> copy_item list \<Rightarrow> string list" where
  "plan_tops dst items = concat (map (\<lambda>it. [top_name dst (ci_dest it), top_name dst (ci_dest it) @ TMP_COPY]) items)"

definition farm :: "path \<Rightarrow> copy_item list \<Rightarrow> fs \<Rightarrow> bool" where
  "farm dst items fs = list_all (\<lambda>(p, k). strict_prefix dst p \<longrightarrow> top_name dst p \<in> set (plan_tops dst items) \<longrightarrow>
     length p = Suc (length dst) \<and> (case k of Link _ \<Rightarrow> True | _ \<Rightarrow> False)) fs"

definition touching :: "path \<Rightarrow> path \<Rightarrow> bool" where
  "touching p q \<longleftrightarrow> prefix p q \<or> prefix q p"

text \<open>The state of the loop over the items: what is not a link of the farm belongs to an item done.\<close>

definition farmed :: "path \<Rightarrow> fs \<Rightarrow> string list \<Rightarrow> copy_item list \<Rightarrow> fs \<Rightarrow> bool" where
  "farmed dst fs tops items h \<longleftrightarrow> real_dir h dst \<and> plain_fs h \<and> confined (below dst) fs h \<and>
     (\<forall>p. strict_prefix dst p \<longrightarrow> top_name dst p \<in> set tops \<longrightarrow> node_at h p \<noteq> None \<longrightarrow>
        (\<exists>c t. p = dst @ [c] \<and> node_at h p = Some (Link t)) \<or> (\<exists>e\<in>set items. touching p (ci_dest e))) \<and>
     (\<forall>e\<in>set items. real_dir h (butlast (ci_dest e)) \<and> copied fs (ci_source e) h (ci_dest e))"

lemma farm_farmed:
  assumes "farm dst items fs" "real_dir fs dst" "plain_fs fs"
  shows "farmed dst fs (plan_tops dst items) [] fs"
proof -
  have "\<exists>c t. p = dst @ [c] \<and> node_at fs p = Some (Link t)"
    if p: "strict_prefix dst p" "top_name dst p \<in> set (plan_tops dst items)" "node_at fs p \<noteq> None" for p
  proof -
    from p(1,3) obtain k where k: "node_at fs p = Some k" "(p, k) \<in> set fs"
      by (auto simp: node_at_def dest: map_of_SomeD split: if_splits)
    then have "length p = Suc (length dst) \<and> (case k of Link _ \<Rightarrow> True | _ \<Rightarrow> False)"
      using assms(1) p(1,2) unfolding farm_def list_all_iff by blast
    then have "length p = Suc (length dst)" "\<exists>t. k = Link t" by (simp_all split: node.splits)
    moreover obtain r where "p = dst @ r" using p(1) by (auto simp: strict_prefix_def prefix_def)
    ultimately show ?thesis using k(1) by (cases r) auto
  qed
  with assms(2,3) show ?thesis by (simp add: farmed_def)
qed

section \<open>The next item\<close>

text \<open>The place of the next item, apart from those done: a link or nothing, and nothing below it.\<close>

lemma farmed_node:
  assumes "farmed dst fs tops items h" "strict_prefix dst p" "top_name dst p \<in> set tops"
    and "\<And>e. e \<in> set items \<Longrightarrow> \<not> touching p (ci_dest e)"
  shows "node_at h p = None \<or> (\<exists>c t. p = dst @ [c] \<and> node_at h p = Some (Link t))"
  using assms unfolding farmed_def by blast

lemma apart_touching: "apart p q \<Longrightarrow> \<not> touching p q" "apart p q \<Longrightarrow> \<not> touching (tmp_sibling p) q"
  by (auto simp: apart_def touching_def)

lemma apart_below: "apart p q \<Longrightarrow> prefix p r \<Longrightarrow> \<not> touching r q"
  by (auto simp: apart_def touching_def dest: prefix_same_cases prefix_order.trans)

lemma top_name_longer: "strict_prefix dst p \<Longrightarrow> prefix p q \<Longrightarrow> top_name dst q = top_name dst p"
  by (auto simp: top_name_def strict_prefix_def prefix_def hd_append split: if_splits)

lemma farmed_spine:
  assumes I: "farmed dst fs tops items h" and q: "inner q" "top_name dst (dst @ q) \<in> set tops"
    and ap: "\<And>e. e \<in> set items \<Longrightarrow> apart (dst @ q) (ci_dest e)"
    and p: "p \<in> spine dst (butlast q)"
  shows "node_at h p \<noteq> Some (File b)"
proof
  assume f: "node_at h p = Some (File b)"
  have pq: "strict_prefix dst p" "strict_prefix p (dst @ q)"
    using p q(1) by (cases q rule: rev_cases; auto simp: spine_def inner_def strict_prefix_def prefix_def)+
  then have "top_name dst p \<in> set tops" using q(2) top_name_longer [of dst p "dst @ q"] by auto
  then obtain e where e: "e \<in> set items" "touching p (ci_dest e)"
    using farmed_node [OF I pq(1)] f by auto
  have "strict_prefix p (ci_dest e)"
    using e(2) ap [OF e(1)] pq(2) by (auto simp: touching_def apart_def strict_prefix_def dest: prefix_order.trans)
  then have "prefix p (butlast (ci_dest e))"
    by (metis append_butlast_last_id prefix_snoc prefix_bot.not_eq_extremum strict_prefix_def prefix_order.less_irrefl strict_prefix_simps(1))
  then have "node_at h p = Some Dir" using I e(1) by (auto simp: farmed_def real_dir_iff)
  with f show False by simp
qed

text \<open>An item done stays copied while an item apart from it is: the two share only real directories.\<close>

lemma item_area_touching:
  assumes "inner q" "p \<in> item_area dst q"
  shows "touching p (dst @ q) \<or> p = tmp_sibling (dst @ q)"
proof -
  obtain b c where q: "q = b @ [c]" using assms(1) by (cases q rule: rev_cases) (auto simp: inner_def)
  then have "tmp_sibling (dst @ q) = dst @ b @ [c @ TMP_COPY]" by (simp add: tmp_sibling_def butlast_append)
  with assms(2) q show ?thesis
    by (auto simp: item_area_def spine_def spot_def touching_def intro: prefix_order.trans)
qed

lemma prefix_of_butlast: "prefix p (butlast q) \<Longrightarrow> prefix p q"
  by (rule prefix_order.trans [OF _ prefixeq_butlast])

lemma real_dir_settled:
  assumes "real_dir h d" "\<And>p. prefix p d \<Longrightarrow> node_at g p = node_at h p \<or> node_at g p = Some Dir"
  shows "real_dir g d"
  using assms(1) assms(2) unfolding real_dir_iff by metis

lemma copied_beside:
  assumes "copied fs s h e" "real_dir h (butlast e)" "confined (item_area dst q) h g" "inner q"
    and "real_dir g (dst @ butlast q)" "apart (dst @ q) e"
  shows "real_dir g (butlast e)" "copied fs s g e"
proof -
  have in_spine: "node_at g p = Some Dir \<and> \<not> prefix e p" if p: "p \<in> item_area dst q" "touching p e" for p
  proof -
    have "p \<in> spine dst (butlast q)"
    proof (rule ccontr)
      assume "p \<notin> spine dst (butlast q)"
      then have "prefix (dst @ q) p \<or> p = tmp_sibling (dst @ q)"
        using p(1) inner_split [OF assms(4)] item_area_touching [OF assms(4) p(1)]
        by (auto simp: item_area_def spot_def tmp_sibling_def butlast_append)
      then show False using assms(6) p(2) apart_touching apart_below by blast
    qed
    then have "prefix p (dst @ butlast q)" by (simp add: spine_def)
    moreover from this have "prefix p (dst @ q)" by (rule prefix_order.trans) (simp add: prefixeq_butlast)
    then have "\<not> prefix e p" using assms(6) prefix_order.trans unfolding apart_def by blast
    ultimately show ?thesis using assms(5) by (simp add: real_dir_iff)
  qed
  have keep: "node_at g p = node_at h p \<or> node_at g p = Some Dir \<and> \<not> prefix e p" if "touching p e" for p
    using in_spine [OF _ that] confined_at [OF assms(3)] by blast
  show "real_dir g (butlast e)"
    by (rule real_dir_settled [OF assms(2)]) (use keep prefix_of_butlast touching_def in blast)
  show "copied fs s g e"
    unfolding copied_def
  proof (intro conjI allI impI)
    show "node_at g e \<noteq> Some (Link t)" for t
      using assms(1) keep [of e] by (auto simp: touching_def copied_def)
    fix r assume "tree_file fs s r"
    then obtain b where b: "read_bytes fs (s @ r) = Inr b" "real_file h (e @ r) b" using assms(1) by (auto simp: copied_def)
    have "touching p e" if "prefix p (e @ r)" for p
      using that by (auto simp: touching_def prefix_append)
    then have k: "node_at g p = node_at h p \<or> node_at g p = Some Dir \<and> \<not> prefix e p" if "prefix p (e @ r)" for p
      using keep that by blast
    have "real_dir h (butlast (e @ r))" using b(2) by (simp add: real_file_def)
    then have "real_dir g (butlast (e @ r))" by (rule real_dir_settled) (use k prefix_of_butlast in blast)
    moreover have "node_at g (e @ r) = Some (File b)"
      using b(2) k [of "e @ r"] by (auto simp: real_file_def)
    ultimately show "\<exists>b. read_bytes fs (s @ r) = Inr b \<and> real_file g (e @ r) b" using b(1) by (auto simp: real_file_def)
  qed
qed

lemma farmed_place:
  assumes I: "farmed dst fs tops items h" and q: "inner q" "top_name dst (dst @ q) \<in> set tops"
      "top_name dst (tmp_sibling (dst @ q)) \<in> set tops"
    and ap: "\<And>e. e \<in> set items \<Longrightarrow> apart (dst @ q) (ci_dest e)"
    and k: "confined (spine dst (butlast q)) h k"
  shows "\<exists>t. node_at k (dst @ q) = None \<or> node_at k (dst @ q) = Some (Link t)"
    "node_at k (tmp_sibling (dst @ q)) \<noteq> Some Dir" "vacant k (dst @ q)"
proof -
  obtain b c where bc: "q = b @ [c]" using q(1) by (cases q rule: rev_cases) (auto simp: inner_def)
  then have t: "tmp_sibling (dst @ q) = dst @ b @ [c @ TMP_COPY]" by (simp add: tmp_sibling_def butlast_append)
  have same: "node_at k p = node_at h p" if "length (dst @ q) \<le> length p" for p
    using that bc by (intro confined_at [OF k]) (auto simp: spine_def dest: prefix_length_le)
  have sp: "strict_prefix dst (dst @ q)" "strict_prefix dst (tmp_sibling (dst @ q))"
    using bc t by (auto simp: strict_prefix_def)
  show "\<exists>t. node_at k (dst @ q) = None \<or> node_at k (dst @ q) = Some (Link t)"
    using farmed_node [OF I sp(1) q(2)] apart_touching(1) [OF ap] same [of "dst @ q"] by auto
  show "node_at k (tmp_sibling (dst @ q)) \<noteq> Some Dir"
    using farmed_node [OF I sp(2) q(3)] apart_touching(2) [OF ap] same [of "tmp_sibling (dst @ q)"] t bc by auto
  show "vacant k (dst @ q)"
    unfolding vacant_def
  proof (intro allI impI)
    fix p assume p: "strict_prefix (dst @ q) p"
    then have pp: "strict_prefix dst p" "prefix (dst @ q) p" "Suc (length (dst @ q)) \<le> length p"
      by (auto simp: strict_prefix_def prefix_def) (metis Nil_is_append_conv length_0_conv not_less_eq_eq zero_less_iff_neq_zero gr0I le_zero_eq)+
    have "top_name dst p \<in> set tops" using q(2) top_name_longer [OF sp(1) pp(2)] by simp
    then have "node_at h p = None"
      using farmed_node [OF I pp(1)] apart_below [OF ap pp(2)] pp(3) bc by auto
    then show "node_at k p = None" using same pp(3) by simp
  qed
qed

lemma farmed_step:
  assumes I: "farmed dst fs tops items h" and q: "ci_dest it = dst @ q" "inner q" "top_name dst (dst @ q) \<in> set tops"
      "top_name dst (tmp_sibling (dst @ q)) \<in> set tops"
    and ap: "\<And>e. e \<in> set items \<Longrightarrow> apart (dst @ q) (ci_dest e)"
    and src: "readable_item n dst fs it"
  shows "\<exists>g. copy_item_op n dst it h = (Inr (), g) \<and> farmed dst fs tops (items @ [it]) g"
proof -
  have h: "real_dir h dst" "plain_fs h" "confined (below dst) fs h" using I by (auto simp: farmed_def)
  note qs = inner_split [OF q(2)]
  obtain k where k: "ensure_dirs dst (butlast q) h = (Inr (), k)"
    using ensure_dirs_total [OF h(1), of "butlast q"] farmed_spine [OF I q(2,3) ap] qs by blast
  have k2: "confined (spine dst (butlast q)) h k" "real_dir k (dst @ butlast q)"
    using ensure_dirs_spec [OF h(1) _ k] qs by auto
  have conf: "confined (below dst) fs k"
    using h(3) confined_mono [OF k2(1), of "below dst"] by (auto simp: spine_def below_def intro: confined_trans)
  have at: "dst @ q = (dst @ butlast q) @ [last q]" using qs by simp
  then have t: "tmp_sibling (dst @ q) = (dst @ butlast q) @ [last q @ TMP_COPY]" by (metis tmp_sibling_child)
  note place = farmed_place [OF I q(2-4) ap k2(1)]
  have dest: "ci_dest it = (dst @ butlast q) @ [last q]" using q(1) at by simp
  obtain l where l: "node_at k ((dst @ butlast q) @ [last q]) = None \<or> node_at k ((dst @ butlast q) @ [last q]) = Some (Link l)"
    using place(1) unfolding at by blast
  have "last q \<noteq> ''..''" "prefix dst (dst @ butlast q)" using qs by auto
  note put = put_item_total [OF src dest conf confined_plain [OF k2(1) h(2)] this(2) k2(2) this(1) l
      place(2) [unfolded t] place(3) [unfolded at]]
  obtain g where g: "put_item n it k = (Inr (), g)" "confined (spot (dst @ butlast q) (last q)) k g"
      "node_at g (tmp_sibling (dst @ q)) \<in> {None, node_at k (tmp_sibling (dst @ q))}" "copied fs (ci_source it) g (dst @ q)"
    using put unfolding t [symmetric] at [symmetric] by blast
  have run: "copy_item_op n dst it h = (Inr (), g)" using k g(1) by (simp add: copy_item_op_eq [OF q(1)] then_op_def)
  have area: "confined (item_area dst q) h g" by (rule copy_item_confined [OF h(1,2) q(2,1) run])
  have "below (dst @ butlast q) \<subseteq> below dst" by (rule below_mono) simp
  then have in_below: "confined (below dst) k g" using g(2) spot_below by (blast intro: confined_mono)
  have rd: "real_dir g (dst @ butlast q)" using g(2) spot_below k2(2) by (blast intro: confined_below_real confined_mono)
  have "real_dir g dst" using rd by (rule real_dir_parent) simp
  moreover have "plain_fs g" by (rule confined_plain [OF area h(2)])
  moreover have "confined (below dst) fs g" using conf in_below by (rule confined_trans)
  moreover have "real_dir g (butlast (ci_dest e)) \<and> copied fs (ci_source e) g (ci_dest e)" if "e \<in> set (items @ [it])" for e
    using that I copied_beside [OF _ _ area q(2) rd ap] rd g(4) q(1) at by (auto simp: farmed_def butlast_append)
  moreover have "(\<exists>c t. p = dst @ [c] \<and> node_at g p = Some (Link t)) \<or> (\<exists>e\<in>set (items @ [it]). touching p (ci_dest e))"
    if p: "strict_prefix dst p" "top_name dst p \<in> set tops" "node_at g p \<noteq> None" for p
  proof (cases "touching p (dst @ q)")
    case False
    have "node_at g p = node_at h p"
    proof (cases "p \<in> item_area dst q")
      case True
      then have "p = tmp_sibling (dst @ q)" using item_area_touching [OF q(2)] False by blast
      moreover from this have "node_at k p = node_at h p" using t by (intro confined_at [OF k2(1)]) (auto simp: spine_def prefix_def)
      ultimately show ?thesis using g(3) p(3) by auto
    qed (rule confined_at [OF area])
    then show ?thesis using I p unfolding farmed_def by auto
  qed (use q(1) in auto)
  ultimately show ?thesis using run by (auto simp: farmed_def)
qed

section \<open>The plan\<close>

definition in_turn :: "path \<Rightarrow> copy_item list \<Rightarrow> bool" where
  "in_turn dst items \<longleftrightarrow> sorted_wrt (\<lambda>e it. apart (ci_dest it) (ci_dest e)) items"

lemma plan_tops_item:
  assumes "it \<in> set items" "ci_dest it = dst @ q" "inner q"
  shows "top_name dst (dst @ q) \<in> set (plan_tops dst items)" "top_name dst (tmp_sibling (dst @ q)) \<in> set (plan_tops dst items)"
proof -
  obtain b c where q: "q = b @ [c]" using assms(3) by (cases q rule: rev_cases) (auto simp: inner_def)
  then have "top_name dst (tmp_sibling (dst @ q)) \<in> {top_name dst (dst @ q), top_name dst (dst @ q) @ TMP_COPY}"
    by (cases b) (simp_all add: tmp_sibling_def top_name_def butlast_append)
  then show "top_name dst (dst @ q) \<in> set (plan_tops dst items)" "top_name dst (tmp_sibling (dst @ q)) \<in> set (plan_tops dst items)"
    using assms(1,2) by (force simp: plan_tops_def)+
qed

lemma execute_copy_total:
  assumes "real_dir fs dst" "plain_fs fs" "farm dst items fs" "list_all (inside dst) items" "in_turn dst items"
    and "list_all (readable_item n dst fs) items"
  shows "\<exists>g. for_each (copy_item_op n dst) items fs = (Inr (), g) \<and> confined (below dst) fs g \<and>
    (\<forall>it\<in>set items. real_dir g (butlast (ci_dest it)) \<and> copied fs (ci_source it) g (ci_dest it))"
proof -
  have "\<exists>g. for_each (copy_item_op n dst) items fs = (Inr (), g) \<and> farmed dst fs (plan_tops dst items) items g"
  proof (rule for_each_total [where I = "farmed dst fs (plan_tops dst items)"])
    show "farmed dst fs (plan_tops dst items) [] fs" by (rule farm_farmed [OF assms(3,1,2)])
    fix before it rest h
    assume items: "items = before @ it # rest" and I: "farmed dst fs (plan_tops dst items) before h"
    let ?q = "drop (length dst) (ci_dest it)"
    have it: "it \<in> set items" using items by simp
    then have q: "ci_dest it = dst @ ?q" "inner ?q" using assms(4) by (auto simp: list_all_iff inside_def prefix_def)
    have "apart (dst @ ?q) (ci_dest e)" if "e \<in> set before" for e
      using assms(5) that q(1) by (auto simp: in_turn_def items sorted_wrt_append)
    then show "\<exists>g. copy_item_op n dst it h = (Inr (), g) \<and> farmed dst fs (plan_tops dst items) (before @ [it]) g"
      using assms(6) it by (intro farmed_step [OF I q plan_tops_item [OF it q]]) (auto simp: list_all_iff)
  qed
  then show ?thesis by (auto simp: farmed_def)
qed

end
