(* ===== verification/Self_Contained_Facts.thy ===== *)
theory Self_Contained_Facts
  imports Copy_Plan
begin

text \<open>
  What the self-contained copy guarantees: the plan fails closed, the run stays inside the \<open>-dist\<close>
  directory and off the quantized transformer whatever happens, a finished run leaves real copies of
  the inventory, and an empty list of problems means what it says.
\<close>

section \<open>The inventory\<close>

definition good_rel :: "string \<Rightarrow> bool" where
  "good_rel rel \<longleftrightarrow> inner (parts rel) \<and> \<not> over_transformer rel \<and>
     hd (parts rel) \<notin> {''transformer'', PROVENANCE} \<and> hd (parts rel) @ TMP_COPY \<notin> {''transformer'', PROVENANCE}"

lemma inventory_rels: "map fst (inventory src) = map fst (inventory [])"
  by (simp add: inventory_def)

lemma inventory_good: "e \<in> set (inventory src) \<Longrightarrow> good_rel (fst e)"
proof -
  have "list_all good_rel (map fst (inventory []))"
    by code_simp
  then show "e \<in> set (inventory src) \<Longrightarrow> good_rel (fst e)"
    by (metis inventory_rels list_all_iff image_eqI list.set_map)
qed

definition all_present :: "path \<Rightarrow> fs \<Rightarrow> bool" where
  "all_present src fs = list_all (\<lambda>(rel, kind, source, grp). path_exists fs source) (inventory src)"

definition absent_sources :: "path \<Rightarrow> fs \<Rightarrow> path list" where
  "absent_sources src fs = filter (\<lambda>p. \<not> path_exists fs p) (map (\<lambda>(rel, kind, source, grp). source) (inventory src))"

definition full_plan :: "path \<Rightarrow> path \<Rightarrow> copy_plan" where
  "full_plan dst src = \<lparr>cp_items = map (item_of dst) (inventory src), cp_dst = dst, cp_source = src\<rparr>"

lemma item_rel [simp]: "ci_rel (item_of dst e) = fst e"
  by (simp add: item_of_def split: prod.split)

lemma item_dest [simp]: "ci_dest (item_of dst e) = dst @ parts (fst e)"
  by (simp add: item_of_def split: prod.split)

lemma plan_copy_cases:
  "plan_copy dst src fs = (if all_present src fs then Inr (full_plan dst src) else Inl (AbsentSources src (absent_sources src fs)))"
proof -
  let ?present = "\<lambda>(rel, kind, source, grp). path_exists fs source"
  have none: "find (\<lambda>it. over_transformer (ci_rel it)) (map (item_of dst) (inventory src)) = None"
    using inventory_good by (auto simp: find_None_iff good_rel_def)
  have miss: "map (\<lambda>(rel, kind, source, grp). source) (filter (\<lambda>e. \<not> ?present e) (inventory src)) = absent_sources src fs"
    unfolding absent_sources_def filter_map by (simp add: case_prod_unfold comp_def)
  have all: "all_present src fs \<longleftrightarrow> absent_sources src fs = []"
    by (auto simp: all_present_def absent_sources_def filter_empty_conv list_all_iff)
  show ?thesis
  proof (cases "all_present src fs")
    case True
    then have "filter ?present (inventory src) = inventory src"
      by (simp add: all_present_def list_all_iff filter_id_conv)
    then show ?thesis using True all none unfolding plan_copy_def Let_def miss by (simp add: full_plan_def)
  next
    case False
    then show ?thesis using all unfolding plan_copy_def Let_def miss by simp
  qed
qed

lemma inventory_inside: "list_all (inside dst) (cp_items (full_plan dst src))"
  using inventory_good by (auto simp: full_plan_def list_all_iff inside_def good_rel_def)

lemma inventory_tops:
  assumes "c \<in> {''transformer'', PROVENANCE}"
  shows "dst @ c # q \<notin> planned_tops dst (cp_items (full_plan dst src))"
proof
  assume "dst @ c # q \<in> planned_tops dst (cp_items (full_plan dst src))"
  then obtain e where e: "e \<in> set (inventory src)" "dst @ c # q \<in> spot dst (hd (parts (fst e)))"
    by (auto simp: planned_tops_def full_plan_def)
  then show False using inventory_good [OF e(1)] assms by (auto simp: good_rel_def spot_def)
qed

section \<open>The sweep\<close>

lemma points_into_link: "points_into fs p base = Inr True \<Longrightarrow> is_symlink fs p"
  by (auto simp: points_into_def readlink_def is_symlink_def split: option.splits sum.splits node.splits)

lemma sweep_items_from:
  "sweep_items fs dst src cs = Inr items \<Longrightarrow> it \<in> set items \<Longrightarrow>
   \<exists>c\<in>set cs. ci_dest it = dst @ [c] \<and> is_symlink fs (dst @ [c])"
  by (induction cs arbitrary: items) (auto simp: result_simps points_into_link split: if_splits)

lemma plan_sweep_from:
  assumes "plan_symlink_sweep dst src fs = Inr items" "it \<in> set items" "real_dir fs dst" "plain_fs fs"
  shows "\<exists>c t. ci_dest it = dst @ [c] \<and> c \<noteq> ''..'' \<and> node_at fs (dst @ [c]) = Some (Link t)"
proof -
  obtain names where n: "listdir fs dst = Inr names" "sweep_items fs dst src names = Inr items"
    using assms(1) by (auto simp: plan_symlink_sweep_def result_simps)
  obtain c where c: "c \<in> set names" "ci_dest it = dst @ [c]" "is_symlink fs (dst @ [c])"
    using sweep_items_from [OF n(2) assms(2)] by blast
  then have "c \<noteq> ''..''" using plain_fs_listdir [OF assms(4) n(1)] by blast
  then show ?thesis using c assms(3) by (auto simp: is_symlink_child)
qed

lemma sweep_inside:
  assumes "plan_symlink_sweep dst src fs = Inr items" "real_dir fs dst" "plain_fs fs"
  shows "list_all (inside dst) items"
  unfolding list_all_iff
proof
  fix it assume "it \<in> set items"
  then obtain c where "ci_dest it = dst @ [c]" "c \<noteq> ''..''" using plan_sweep_from [OF assms(1) _ assms(2,3)] by blast
  then show "inside dst it" by (simp add: inside_def inner_def)
qed

lemma sweep_tops:
  assumes "plan_symlink_sweep dst src fs = Inr items" "real_dir fs dst" "plain_fs fs"
    and "\<And>t. node_at fs (dst @ [c]) \<noteq> Some (Link t)" "\<not> suffix TMP_COPY c"
  shows "dst @ c # q \<notin> planned_tops dst items"
proof
  assume "dst @ c # q \<in> planned_tops dst items"
  then obtain it where it: "it \<in> set items" "dst @ c # q \<in> spot dst (hd (drop (length dst) (ci_dest it)))"
    by (auto simp: planned_tops_def)
  obtain b t where "ci_dest it = dst @ [b]" "node_at fs (dst @ [b]) = Some (Link t)"
    using plan_sweep_from [OF assms(1) it(1) assms(2,3)] by blast
  then show False using it(2) assms(4,5) by (auto simp: spot_def suffix_def)
qed

section \<open>Where the whole run writes\<close>

text \<open>
  \<open>guarded dst f h\<close>: since \<open>f\<close> only entries strictly below \<open>dst\<close> changed, none at or below
  the transformer unless that was a link, and the provenance path is still no link.
\<close>

definition writable :: "path \<Rightarrow> fs \<Rightarrow> path set" where
  "writable dst f = (if \<exists>t. node_at f (dst @ [''transformer'']) = Some (Link t) then below dst
     else {p \<in> below dst. \<not> prefix (dst @ [''transformer'']) p})"

definition guarded :: "path \<Rightarrow> fs \<Rightarrow> fs \<Rightarrow> bool" where
  "guarded dst f h \<longleftrightarrow> real_dir h dst \<and> plain_fs h \<and> confined (writable dst f) f h \<and>
     (\<forall>t. node_at h (dst @ [PROVENANCE]) \<noteq> Some (Link t))"

lemma guarded_step:
  assumes "guarded dst f h" "confined A h k" "A \<subseteq> writable dst f" "dst @ [PROVENANCE] \<notin> A"
  shows "guarded dst f k"
proof -
  have "A \<subseteq> below dst" using assms(3) by (auto simp: writable_def split: if_splits)
  then have "confined (below dst) h k" using assms(2) by (rule confined_mono [rotated])
  then have "real_dir k dst" "plain_fs k"
    using assms(1) by (auto simp: guarded_def intro: confined_below_real confined_plain)
  moreover have "confined (writable dst f) f k"
    using assms(1-3) unfolding guarded_def by (blast intro: confined_trans confined_mono)
  ultimately show ?thesis using assms(1) confined_at [OF assms(2,4)] by (simp add: guarded_def)
qed

lemma transformer_kept:
  "guarded dst f h \<Longrightarrow> (\<And>t. node_at f (dst @ [''transformer'']) \<noteq> Some (Link t)) \<Longrightarrow> prefix (dst @ [''transformer'']) p \<Longrightarrow>
   node_at h p = node_at f p"
  unfolding guarded_def by (elim conjE confined_at) (auto simp: writable_def)

lemma tops_writable:
  assumes "\<And>q. dst @ PROVENANCE # q \<notin> planned_tops dst items"
    and "(\<And>t. node_at f (dst @ [''transformer'']) \<noteq> Some (Link t)) \<Longrightarrow> (\<And>q. dst @ ''transformer'' # q \<notin> planned_tops dst items)"
  shows "planned_tops dst items \<subseteq> writable dst f" "dst @ [PROVENANCE] \<notin> planned_tops dst items"
proof -
  show "dst @ [PROVENANCE] \<notin> planned_tops dst items" using assms(1) [of "[]"] by simp
  show "planned_tops dst items \<subseteq> writable dst f"
    using assms(2) planned_tops_below [of dst items] by (fastforce simp: writable_def prefix_def)
qed

lemma guarded_inventory:
  assumes "guarded dst f h" "execute_copy n (full_plan dst src) h = (q, k)"
  shows "guarded dst f k"
proof -
  have h: "real_dir h dst" "plain_fs h" using assms(1) by (simp_all add: guarded_def)
  have run: "for_each (copy_item_op n dst) (cp_items (full_plan dst src)) h = (q, k)"
    using assms(2) by (simp add: execute_copy_def full_plan_def)
  note c = execute_copy_confined [OF h inventory_inside run]
  note tops = tops_writable [OF inventory_tops inventory_tops]
  show ?thesis using guarded_step [OF assms(1) c] tops by simp
qed

lemma guarded_sweep:
  assumes "guarded dst f h" "plan_symlink_sweep dst src h = Inr items" "for_each (copy_item_op n dst) items h = (q, k)"
  shows "guarded dst f k"
proof -
  have h: "real_dir h dst" "plain_fs h" using assms(1) by (simp_all add: guarded_def)
  have c: "confined (planned_tops dst items) h k"
    by (rule execute_copy_confined [OF h sweep_inside [OF assms(2) h] assms(3)])
  have names: "\<not> suffix TMP_COPY PROVENANCE" "\<not> suffix TMP_COPY ''transformer''" by code_simp+
  note free = sweep_tops [OF assms(2) h]
  have p: "dst @ PROVENANCE # q \<notin> planned_tops dst items" for q
    using assms(1) names(1) by (intro free) (simp_all add: guarded_def)
  have t: "dst @ ''transformer'' # q \<notin> planned_tops dst items"
    if "\<And>t. node_at f (dst @ [''transformer'']) \<noteq> Some (Link t)" for q
    using transformer_kept [OF assms(1) that, of "dst @ [''transformer'']"] that names(2) by (intro free) simp_all
  show ?thesis using guarded_step [OF assms(1) c] tops_writable [OF p t] by blast
qed

lemma write_child:
  assumes "guarded dst f h" "os_op (write_bytes (dst @ [PROVENANCE]) b) h = (q, k)"
  shows "k = h \<or> k = dict_set (dst @ [PROVENANCE]) (File b) h" "confined {dst @ [PROVENANCE]} h k"
proof -
  have h: "real_dir h dst" "\<And>t. node_at h (dst @ [PROVENANCE]) \<noteq> Some (Link t)"
    using assms(1) by (simp_all add: guarded_def)
  have plain: "PROVENANCE \<noteq> ''..''" by (simp add: PROVENANCE_def)
  show k: "k = h \<or> k = dict_set (dst @ [PROVENANCE]) (File b) h"
    using assms(2) locate_child_follow [OF h(1) plain h(2)]
    by (auto simp: os_op_def write_bytes_def split: if_splits)
  have "confined {dst @ [PROVENANCE]} h (dict_set (dst @ [PROVENANCE]) (File b) h)"
    using child_plain [OF h(1) plain] by (intro confined_set) auto
  then show "confined {dst @ [PROVENANCE]} h k" using k by auto
qed

lemma provenance_writable: "{dst @ [PROVENANCE]} \<subseteq> writable dst f" "{dst @ [PROVENANCE]} \<subseteq> below dst"
  by (auto simp: writable_def below_def strict_prefix_def PROVENANCE_def)

lemma guarded_write:
  assumes "guarded dst f h" "os_op (write_bytes (dst @ [PROVENANCE]) b) h = (q, k)"
  shows "guarded dst f k"
proof -
  note w = write_child [OF assms]
  have h: "real_dir h dst" "plain_fs h" "confined (writable dst f) f h" using assms(1) by (simp_all add: guarded_def)
  have "confined (writable dst f) f k"
    by (rule confined_trans [OF h(3) confined_mono [OF w(2) provenance_writable(1)]])
  moreover have "real_dir k dst"
    by (rule confined_below_real [OF confined_mono [OF w(2) provenance_writable(2)] h(1)])
  moreover have "plain_fs k" by (rule confined_plain [OF w(2) h(2)])
  moreover have "node_at k (dst @ [PROVENANCE]) \<noteq> Some (Link t)" for t
    using w(1) assms(1) by (auto simp: guarded_def)
  ultimately show ?thesis by (simp add: guarded_def)
qed

lemma os_op_run: "os_op m s = (r, t) \<Longrightarrow> \<exists>q. m s = (q, t)"
  by (auto simp: os_op_def split: prod.splits)

lemma keeps_os_op: "op_keeps J m \<Longrightarrow> op_keeps J (os_op m)"
  unfolding op_keeps_def by (meson os_op_run)

lemma guarded_provenance:
  "cp_dst plan = dst \<Longrightarrow> op_keeps (guarded dst f) (write_provenance print plan prov)"
  unfolding op_keeps_def write_provenance_def by (auto intro: guarded_write)

lemma guarded_conclude:
  "cp_dst plan = dst \<Longrightarrow> op_keeps (guarded dst f) (conclude env print verify pre plan)"
  unfolding conclude_def verify_copy_def
  by (auto intro!: keeps_then keeps_pure keeps_when guarded_provenance)

lemma leftovers_cases:
  assumes "sweep_leftovers env (full_plan dst src) h = (r, k)"
  obtains "k = h" | sweep q where "plan_symlink_sweep dst src h = Inr sweep" "for_each (copy_item_op (ce_depth env) dst) sweep h = (q, k)"
  using assms unfolding sweep_leftovers_def
proof (cases rule: then_op_cases)
  case (go sweep h')
  then have sw: "plan_symlink_sweep dst src h = Inr sweep" "h' = h"
    by (simp_all add: pure_op_eq result_simps full_plan_def)
  from go(2) sw(2) obtain q where
    "when_op (sweep \<noteq> []) (os_op (execute_copy (ce_depth env) (with_items (full_plan dst src) sweep))) h = (q, k)"
    by (auto simp: pure_op_eq elim!: then_op_cases)
  then show ?thesis
    using that sw(1) by (auto simp: when_op_def execute_copy_def with_items_def full_plan_def split: if_splits dest!: os_op_run)
qed (simp add: pure_op_eq that)

lemma guarded_leftovers: "op_keeps (guarded dst f) (sweep_leftovers env (full_plan dst src))"
  unfolding op_keeps_def by (auto elim!: leftovers_cases intro: guarded_sweep)

lemma guarded_run: "op_keeps (guarded dst f) (make_self_contained env print dst src verify)"
  unfolding make_self_contained_def
proof (intro keeps_then keeps_pure)
  fix s plan t assume "pure_op (plan_copy dst src) s = (Inr plan, t)"
  then have plan: "plan = full_plan dst src" by (simp add: pure_op_eq plan_copy_cases split: if_splits)
  show "op_keeps (guarded dst f) (os_op (execute_copy (ce_depth env) plan))"
    unfolding plan by (intro keeps_os_op) (auto simp: op_keeps_def intro: guarded_inventory)
  show "op_keeps (guarded dst f) (sweep_leftovers env plan)"
    unfolding plan by (rule guarded_leftovers)
  show "op_keeps (guarded dst f) (conclude env print verify pre (with_items plan items))" for pre items
    by (rule guarded_conclude) (simp add: plan with_items_def full_plan_def)
qed

section \<open>What the whole run leaves\<close>

lemma apart_suffix: "a \<noteq> [] \<Longrightarrow> b \<noteq> [] \<Longrightarrow> apart (dst @ a) (dst @ b) \<longleftrightarrow> apart a b"
proof -
  have "tmp_sibling (dst @ x) = dst @ tmp_sibling x" if "x \<noteq> []" for x
    using that by (simp add: tmp_sibling_def butlast_append)
  then show "a \<noteq> [] \<Longrightarrow> b \<noteq> [] \<Longrightarrow> apart (dst @ a) (dst @ b) \<longleftrightarrow> apart a b" by (simp add: apart_def)
qed

definition inventory_paths :: "path list" where
  "inventory_paths = map (\<lambda>d. [d]) (SHARED_DIRS @ ROOT_FILES) @ map (\<lambda>a. [''assets'', a]) ASSET_FILES @
     map (\<lambda>d. [''reasoner'', d]) (REASONER_DIRS @ REASONER_CONFIGS)"

lemma inventory_parts: "map parts (map fst (inventory [])) = inventory_paths"
  by code_simp

lemma inventory_in_turn: "in_turn dst (cp_items (full_plan dst src))"
proof -
  have "sorted_wrt (\<lambda>a b. apart b a) (map parts (map fst (inventory [])))"
    unfolding inventory_parts by code_simp
  then have "sorted_wrt (\<lambda>a b. apart (parts (fst b)) (parts (fst a))) (inventory src)"
    unfolding inventory_rels [of src, symmetric] sorted_wrt_map .
  moreover have "parts (fst e) \<noteq> []" if "e \<in> set (inventory src)" for e
    using inventory_good [OF that] by (simp add: good_rel_def inner_def)
  ultimately have "sorted_wrt (\<lambda>a b. apart (dst @ parts (fst b)) (dst @ parts (fst a))) (inventory src)"
    by (elim sorted_wrt_mono_rel [rotated]) (simp add: apart_suffix)
  then show ?thesis by (simp add: in_turn_def full_plan_def sorted_wrt_map)
qed

text \<open>The inventory is in place: every item is copied, below real directories.\<close>

definition in_place :: "path \<Rightarrow> path \<Rightarrow> fs \<Rightarrow> fs \<Rightarrow> bool" where
  "in_place dst src f h \<longleftrightarrow> (\<forall>it\<in>set (cp_items (full_plan dst src)).
     real_dir h (butlast (ci_dest it)) \<and> copied f (ci_source it) h (ci_dest it))"

definition inventory_tops_of :: "string set" where
  "inventory_tops_of = (\<lambda>rel. hd (parts rel)) ` set (map fst (inventory []))"

lemma inventory_dest:
  assumes "it \<in> set (cp_items (full_plan dst src))"
  obtains c q where "ci_dest it = dst @ c # q" "c \<in> inventory_tops_of"
proof -
  obtain e where e: "e \<in> set (inventory src)" "it = item_of dst e" using assms by (auto simp: full_plan_def)
  then have "fst e \<in> set (map fst (inventory []))" unfolding inventory_rels [of src, symmetric] by simp
  moreover obtain c q where "parts (fst e) = c # q"
    using inventory_good [OF e(1)] by (cases "parts (fst e)") (auto simp: good_rel_def inner_def)
  ultimately show ?thesis using e(2) by (intro that [of c q]) (auto simp: inventory_tops_of_def intro!: image_eqI)
qed

lemma inventory_tops_plain: "c \<in> inventory_tops_of \<Longrightarrow> \<not> suffix TMP_COPY c \<and> c \<noteq> PROVENANCE"
proof -
  have "list_all (\<lambda>rel. \<not> suffix TMP_COPY (hd (parts rel)) \<and> hd (parts rel) \<noteq> PROVENANCE) (map fst (inventory []))"
    by code_simp
  then show "c \<in> inventory_tops_of \<Longrightarrow> \<not> suffix TMP_COPY c \<and> c \<noteq> PROVENANCE"
    by (auto simp: inventory_tops_of_def list_all_iff)
qed

lemma in_place_frame:
  assumes "in_place dst src f h" "confined A h k" "A \<subseteq> below dst" "\<And>c q. c \<in> inventory_tops_of \<Longrightarrow> dst @ c # q \<notin> A"
  shows "in_place dst src f k"
  unfolding in_place_def
proof
  fix it assume it: "it \<in> set (cp_items (full_plan dst src))"
  obtain c q where c: "ci_dest it = dst @ c # q" "c \<in> inventory_tops_of" by (rule inventory_dest [OF it])
  have free: "p \<notin> A" if "prefix p (ci_dest it @ r)" for p r
  proof (cases "prefix p dst")
    case True
    then show ?thesis using assms(3) by (auto simp: below_def dest: prefix_order.le_less_trans)
  next
    case False
    then have "\<exists>q'. p = dst @ c # q'" using that c(1) by (auto simp: prefix_append prefix_Cons)
    then show ?thesis using assms(4) [OF c(2)] by auto
  qed
  have "real_dir k (butlast (ci_dest it))"
    using assms(1) it free [of _ "[]"] by (intro confined_real [OF assms(2)]) (auto simp: in_place_def dest: prefix_of_butlast)
  moreover have "copied f (ci_source it) k (ci_dest it)"
    using assms(1) it free by (intro copied_frame [OF _ assms(2)]) (auto simp: in_place_def)
  ultimately show "real_dir k (butlast (ci_dest it)) \<and> copied f (ci_source it) k (ci_dest it)" by simp
qed

text \<open>An entry of the inventory is no link once it is in place.\<close>

lemma in_place_no_link:
  assumes "in_place dst src f h" "c \<in> inventory_tops_of"
  shows "node_at h (dst @ [c]) \<noteq> Some (Link t)"
proof -
  obtain e where e: "e \<in> set (inventory src)" "hd (parts (fst e)) = c"
    using assms(2) unfolding inventory_tops_of_def inventory_rels [of src, symmetric] by auto
  then have it: "item_of dst e \<in> set (cp_items (full_plan dst src))" by (simp add: full_plan_def)
  obtain q where q: "parts (fst e) = c # q"
    using inventory_good [OF e(1)] e(2) by (cases "parts (fst e)") (auto simp: good_rel_def inner_def)
  have i: "real_dir h (butlast (dst @ c # q)) \<and> copied f (ci_source (item_of dst e)) h (dst @ c # q)"
    using assms(1) it q by (auto simp: in_place_def)
  show ?thesis
  proof (cases "q = []")
    case False
    then have "prefix (dst @ [c]) (butlast (dst @ c # q))" by (simp add: butlast_append)
    then show ?thesis using i by (simp add: real_dir_iff)
  qed (use i in \<open>simp add: copied_def\<close>)
qed


definition settled :: "path \<Rightarrow> path \<Rightarrow> fs \<Rightarrow> fs \<Rightarrow> bool" where
  "settled dst src f h \<longleftrightarrow> guarded dst f h \<and> in_place dst src f h"

lemma settled_leftovers: "op_keeps (settled dst src f) (sweep_leftovers env (full_plan dst src))"
  unfolding op_keeps_def
proof (intro allI impI)
  fix h r k assume h: "settled dst src f h" "sweep_leftovers env (full_plan dst src) h = (r, k)"
  from h(2) show "settled dst src f k"
  proof (cases rule: leftovers_cases)
    case (2 sweep q)
    have g: "guarded dst f h" "in_place dst src f h" "real_dir h dst" "plain_fs h"
      using h(1) by (simp_all add: settled_def guarded_def)
    note run = execute_copy_confined [OF g(3,4) sweep_inside [OF 2(1) g(3,4)] 2(2)]
    have "dst @ c # q \<notin> planned_tops dst sweep" if "c \<in> inventory_tops_of" for c q
      using that inventory_tops_plain in_place_no_link [OF g(2) that] by (intro sweep_tops [OF 2(1) g(3,4)]) auto
    then have "in_place dst src f k" by (rule in_place_frame [OF g(2) run planned_tops_below])
    then show ?thesis using guarded_sweep [OF g(1) 2] by (simp add: settled_def)
  qed (use h in simp)
qed

lemma settled_provenance:
  assumes "cp_dst plan = dst"
  shows "op_keeps (settled dst src f) (write_provenance print plan prov)"
  unfolding op_keeps_def write_provenance_def assms
proof (intro allI impI)
  fix h q k b assume h: "settled dst src f h" "os_op (write_bytes (dst @ [PROVENANCE]) b) h = (q, k)"
  then have g: "guarded dst f h" "in_place dst src f h" by (simp_all add: settled_def)
  have "in_place dst src f k"
    by (rule in_place_frame [OF g(2) write_child(2) [OF g(1) h(2)] provenance_writable(2)]) (auto dest: inventory_tops_plain)
  then show "settled dst src f k" using guarded_write [OF g(1) h(2)] by (simp add: settled_def)
qed

lemma settled_conclude: "cp_dst plan = dst \<Longrightarrow> op_keeps (settled dst src f) (conclude env print verify pre plan)"
  unfolding conclude_def verify_copy_def
  by (auto intro!: keeps_then keeps_pure keeps_when settled_provenance)

lemma readable_item_exists: "readable_item n dst f it \<Longrightarrow> path_exists f (ci_source it)"
proof -
  assume r: "readable_item n dst f it"
  have few: "fewer_nodes (prune dst f) f" by (rule prune_fewer) simp
  have "\<exists>k. stat_node (prune dst f) True (ci_source it) = Inr k"
    using r by (cases n) (auto simp: readable_item_def readable_def stat_Inr read_bytes_file split: item_kind.splits sum.splits)
  then show ?thesis using stat_mono [OF _ few] by (auto simp: path_exists_def)
qed

lemma readable_present:
  assumes "list_all (readable_item n dst f) (cp_items (full_plan dst src))"
  shows "all_present src f"
  using assms readable_item_exists
  by (fastforce simp: all_present_def full_plan_def list_all_iff item_of_def split: prod.splits)

section \<open>What an empty list of problems means\<close>

lemma gather_clean: "gather f xs = Inr ([], pv) \<Longrightarrow> x \<in> set xs \<Longrightarrow> \<exists>w. f x = Inr ([], w)"
  by (induction xs arbitrary: pv) (auto simp: result_simps join_verdicts_def)

text \<open>
  The copy of a file: no link, the hash of the source, and, for a JSON or text file, a text in which the
  path of the BF16 base does not occur.
\<close>

definition same_file :: "copy_env \<Rightarrow> fs \<Rightarrow> path \<Rightarrow> path \<Rightarrow> bool" where
  "same_file env fs s d \<longleftrightarrow> \<not> is_symlink fs d \<and>
     (\<exists>b b'. read_bytes fs s = Inr b \<and> read_bytes fs d = Inr b' \<and> ce_sha env b' = ce_sha env b \<and>
       (name_suffix (last d) \<in> {''.json'', ''.txt''} \<longrightarrow> \<not> sublist (ce_base_ref env) (ce_text env b')))"

lemma sublist_suffix_prefix: "list_ex (prefix xs) (suffixes ys) \<longleftrightarrow> sublist xs ys"
  unfolding list_ex_iff set_suffixes_eq by (auto simp: suffix_def prefix_def sublist_def)

lemma verify_file_clean: "verify_file env fs grp s d rel = Inr ([], w) \<Longrightarrow> same_file env fs s d"
  by (auto simp: verify_file_def same_file_def result_simps has_bf16_backref_def TEXT_SUFFIXES_def sublist_suffix_prefix split: if_splits)


lemma tree_file_leaf: "\<not> is_dir fs s \<Longrightarrow> tree_file fs s q \<Longrightarrow> q = []"
  by (cases q) (auto simp: listdir_Inr is_dir_def stat_Inr split: sum.splits)

lemma verify_tree_clean:
  "verify_tree env fs grp n s d rel = Inr ([], w) \<Longrightarrow> tree_file fs s q \<Longrightarrow>
   \<not> is_symlink fs d \<and> same_file env fs (s @ q) (d @ q)"
proof (induction n arbitrary: s d rel w q)
  case (Suc n)
  then obtain names where names: "listdir fs s = Inr names" "\<not> is_symlink fs d"
    "gather (\<lambda>c. if is_dir fs (s @ [c]) then verify_tree env fs grp n (s @ [c]) (d @ [c]) (rel @ ''/'' @ c)
        else verify_file env fs grp (s @ [c]) (d @ [c]) (rel @ ''/'' @ c)) names = Inr ([], w)"
    by (auto simp: result_simps split: if_splits)
  have "stat_node fs True s = Inr Dir" using names(1) by (auto simp: listdir_Inr stat_Inr)
  then obtain c q' where q: "q = c # q'" "c \<in> set names" "tree_file fs (s @ [c]) q'"
    using Suc.prems(2) names(1) by (cases q) (auto simp: is_file_def)
  from gather_clean [OF names(3) q(2)] obtain v where
    v: "(if is_dir fs (s @ [c]) then verify_tree env fs grp n (s @ [c]) (d @ [c]) (rel @ ''/'' @ c)
        else verify_file env fs grp (s @ [c]) (d @ [c]) (rel @ ''/'' @ c)) = Inr ([], v)" by blast
  show ?case
  proof (cases "is_dir fs (s @ [c])")
    case True
    then have "same_file env fs ((s @ [c]) @ q') ((d @ [c]) @ q')" using Suc.IH [OF _ q(3)] v by (metis (no_types))
    then show ?thesis using q(1) names(2) by simp
  next
    case False
    then have "same_file env fs (s @ [c]) (d @ [c])" using v verify_file_clean by auto
    then show ?thesis using q names(2) tree_file_leaf [OF False q(3)] by simp
  qed
qed simp

lemma verify_item_clean:
  "verify_item env fs it = Inr ([], w) \<Longrightarrow> tree_file fs (ci_source it) q \<Longrightarrow> ci_kind it = KDir \<or> q = [] \<Longrightarrow>
   same_file env fs (ci_source it @ q) (ci_dest it @ q)"
  by (auto simp: verify_item_def split: item_kind.splits dest: verify_tree_clean verify_file_clean)

lemma changed_tensors_clean: "changed_tensors pre post = [] \<longleftrightarrow> (\<forall>(name, h)\<in>set pre. dict_get post name = Some h)"
  unfolding changed_tensors_def by (induction pre) (auto split: if_splits)

lemma borrowed_clean: "borrowed_entries fs dst src names = Inr [] \<Longrightarrow> c \<in> set names \<Longrightarrow> points_into fs (dst @ [c]) src = Inr False"
  by (induction names) (auto simp: result_simps split: if_splits)

section \<open>A small checkpoint\<close>

text \<open>
  The witnesses run on a base with every inventory entry, one of its files a link out of the base,
  and a \<open>-dist\<close> directory with an absolute and a relative link into it.
\<close>

definition demo_base :: fs where
  "demo_base = ([''b''], Dir) # map (\<lambda>d. ([''b'', d], Dir)) (SHARED_DIRS @ [''transformer'', ''assets'']) @
     map (\<lambda>f. ([''b'', f], File [1, 2])) ROOT_FILES @
     map (\<lambda>f. ([''b'', ''assets'', f], File [3])) ASSET_FILES @
     [([''b'', ''transformer'', ''w''], Link ''../../blobs/w''), ([''blobs''], Dir), ([''blobs'', ''w''], File [7, 7])]"

definition demo_dist :: fs where
  "demo_dist = demo_base @ [([''d''], Dir), ([''d'', ''transformer''], Dir), ([''d'', ''vae''], Link ''/b/vae''),
     ([''d'', ''config.json''], Link ''../b/config.json'')]"

definition demo_copy_env :: copy_env where
  "demo_copy_env = \<lparr>ce_sha = map (\<lambda>b. char_of (unat b)), ce_loads = (\<lambda>_. Inl ValueError), ce_text = (\<lambda>_. ''x''),
     ce_base_ref = ''/data'', ce_depth = 2\<rparr>"

lemma demo_dist_ok: "real_dir demo_dist [''d'']" "plain_fs demo_dist"
  by code_simp+

lemma demo_dist_provenance: "node_at demo_dist [''d'', PROVENANCE] \<noteq> Some (Link t)"
  by (simp add: node_at_def demo_dist_def demo_base_def PROVENANCE_def SHARED_DIRS_def ROOT_FILES_def ASSET_FILES_def)

definition demo_copied_plan :: copy_plan where
  "demo_copied_plan = \<lparr>cp_items = [\<lparr>ci_rel = ''vae'', ci_kind = KDir, ci_source = [''b'', ''vae''],
     ci_dest = [''d'', ''vae''], ci_group = ''shared''\<rparr>], cp_dst = [''d''], cp_source = [''b'']\<rparr>"

definition demo_copied :: fs where
  "demo_copied = [([''b''], Dir), ([''b'', ''vae''], Dir), ([''b'', ''vae'', ''w''], File [1, 2]),
     ([''d''], Dir), ([''d'', ''vae''], Dir), ([''d'', ''vae'', ''w''], File [1, 2])]"

section \<open>Properties\<close>

text \<open>
  C13: When the \<open>-dist\<close> path is a real directory of the disk and its \<open>self_contained_provenance.json\<close> is not
  a symbolic link, a run of the self-contained copy, finished or stopped by any error, changes only
  entries strictly below the \<open>-dist\<close> directory, so never the BF16 base it copies from, and leaves the
  quantized transformer alone unless that entry was itself a link. Through a provenance link the run does
  write outside (\<open>provenance_link_escapes\<close>).
\<close>

theorem self_contained_run_contained:
  assumes "real_dir f dst" "plain_fs f"
    and "\<And>t. node_at f (dst @ [PROVENANCE]) \<noteq> Some (Link t)"
    and "make_self_contained env print dst src verify f = (r, g)"
  shows "(\<not> strict_prefix dst p \<longrightarrow> node_at g p = node_at f p) \<and>
    ((\<nexists>t. node_at f (dst @ [''transformer'']) = Some (Link t)) \<longrightarrow> prefix (dst @ [''transformer'']) p \<longrightarrow>
       node_at g p = node_at f p)"
proof -
  have "guarded dst f g"
    using assms by (intro op_keepsD [OF guarded_run assms(4)]) (simp add: guarded_def)
  then have "confined (writable dst f) f g" by (simp add: guarded_def)
  moreover have "p \<notin> writable dst f" if "\<not> strict_prefix dst p" using that by (simp add: writable_def below_def)
  moreover have "p \<notin> writable dst f"
    if "\<nexists>t. node_at f (dst @ [''transformer'']) = Some (Link t)" "prefix (dst @ [''transformer'']) p"
    using that by (simp add: writable_def)
  ultimately show ?thesis using confined_at by blast
qed

theorem self_contained_run_contained_witness:
  "node_at (snd (make_self_contained demo_copy_env (\<lambda>_. [1]) [''d''] [''b''] True demo_dist)) [''b'', ''config.json''] = Some (File [1, 2])"
proof -
  have "node_at demo_dist ([''d''] @ [PROVENANCE]) \<noteq> Some (Link t)" for t using demo_dist_provenance by simp
  note self_contained_run_contained [OF demo_dist_ok this surjective_pairing,
      where env = demo_copy_env and print = "\<lambda>_. [1]" and src = "[''b'']" and verify = True and p = "[''b'', ''config.json'']"]
  moreover have "node_at demo_dist [''b'', ''config.json''] = Some (File [1, 2])" by code_simp
  ultimately show ?thesis by (simp add: strict_prefix_def)
qed

text \<open>
  The provenance record is written through a link in its place: the sweep replaces only links into the
  base, so a link to anywhere else receives the record.
\<close>

definition demo_linked :: fs where
  "demo_linked = [([''d''], Dir), ([''e''], Dir), ([''e'', ''x''], File [9]), ([''d'', PROVENANCE], Link ''/e/x'')]"

lemma provenance_link_escapes:
  "node_at demo_linked [''e'', ''x''] = Some (File [9]) \<and>
   node_at (snd (write_provenance (\<lambda>_. [1]) (full_plan [''d''] [''b'']) [] demo_linked)) [''e'', ''x''] = Some (File [1])"
  by code_simp

text \<open>
  Planning fails closed and touches nothing else: either every inventory source exists and the
  plan is the whole inventory in order, none of it at or below the transformer, or the plan is
  refused with exactly the missing sources.
\<close>

theorem copy_plan_exact:
  "plan_copy dst src fs =
     (if absent_sources src fs = [] then Inr (full_plan dst src) else Inl (AbsentSources src (absent_sources src fs)))
   \<and> list_all (\<lambda>it. \<not> prefix (dst @ [''transformer'']) (ci_dest it)) (cp_items (full_plan dst src))"
proof
  have "all_present src fs \<longleftrightarrow> absent_sources src fs = []"
    by (auto simp: all_present_def absent_sources_def filter_empty_conv list_all_iff)
  then show "plan_copy dst src fs =
      (if absent_sources src fs = [] then Inr (full_plan dst src) else Inl (AbsentSources src (absent_sources src fs)))"
    by (simp add: plan_copy_cases)
  have "\<not> prefix (dst @ [''transformer'']) (dst @ parts (fst e))" if "e \<in> set (inventory src)" for e
    using inventory_good [OF that] by (cases "parts (fst e)") (auto simp: good_rel_def inner_def)
  then show "list_all (\<lambda>it. \<not> prefix (dst @ [''transformer'']) (ci_dest it)) (cp_items (full_plan dst src))"
    by (auto simp: full_plan_def list_all_iff)
qed



text \<open>
  C32: A verification without problems means what it promises: every file of every planned item has
  at its destination a file that is no link, hashes as the source and, when its name ends in .json or
  .txt, does not contain the path of the BF16 base in its text (files of other kinds are not searched);
  every tensor hashed before the copy still hashes the same; and no top-level entry is a link that
  resolves into the base.
\<close>

theorem clean_verdict_sound:
  assumes "check_copy env plan pre fs = Inr ([], prov)"
  shows "(\<forall>it\<in>set (cp_items plan). \<forall>q. tree_file fs (ci_source it) q \<longrightarrow> ci_kind it = KDir \<or> q = [] \<longrightarrow>
      same_file env fs (ci_source it @ q) (ci_dest it @ q)) \<and>
    (\<forall>hs. pre = Some hs \<longrightarrow> (\<exists>post. snapshot_transformer_hashes env (cp_dst plan) fs = Inr post \<and>
      (\<forall>(name, h)\<in>set hs. dict_get post name = Some h))) \<and>
    (\<exists>names. listdir fs (cp_dst plan) = Inr names \<and>
      (\<forall>c\<in>set names. points_into fs (cp_dst plan @ [c]) (cp_source plan) = Inr False))"
proof -
  obtain w where v: "gather (verify_item env fs) (cp_items plan) = Inr ([], w)"
    and t: "transformer_problems env (cp_dst plan) pre fs = Inr []"
    and b: "borrowed_problems (cp_dst plan) (cp_source plan) fs = Inr []"
    using assms by (auto simp: check_copy_def result_simps)
  have "same_file env fs (ci_source it @ q) (ci_dest it @ q)"
    if "it \<in> set (cp_items plan)" "tree_file fs (ci_source it) q" "ci_kind it = KDir \<or> q = []" for it q
    using gather_clean [OF v that(1)] verify_item_clean that(2,3) by blast
  moreover have "\<exists>post. snapshot_transformer_hashes env (cp_dst plan) fs = Inr post \<and>
      (\<forall>(name, h)\<in>set hs. dict_get post name = Some h)" if "pre = Some hs" for hs
    using t that by (auto simp: transformer_problems_def result_simps changed_tensors_clean [symmetric])
  moreover obtain names where "listdir fs (cp_dst plan) = Inr names"
      "borrowed_entries fs (cp_dst plan) (cp_source plan) names = Inr []"
    using b by (auto simp: borrowed_problems_def result_simps)
  ultimately show ?thesis using borrowed_clean by blast
qed

theorem clean_verdict_sound_witness:
  "same_file demo_copy_env demo_copied [''b'', ''vae'', ''w''] [''d'', ''vae'', ''w'']"
proof -
  have clean: "check_copy demo_copy_env demo_copied_plan (Some []) demo_copied = Inr ([],
      [\<lparr>pe_group = ''shared'', pe_rel = ''vae/w'', pe_source = [''b'', ''vae'', ''w''], pe_sha = Some [CHR 0x01, CHR 0x02], pe_bytes = Some 2\<rparr>])"
    and leaf: "tree_file demo_copied [''b'', ''vae''] [''w'']"
    by code_simp+
  from clean_verdict_sound [OF clean] leaf show ?thesis by (simp add: demo_copied_plan_def)
qed

end
