(* ===== verification/Diffusers_Loader.thy ===== *)
theory Diffusers_Loader
  imports Reasoner Link_Facts Integrity_Probe
begin

text \<open>
  The loaders of the in-process diffusers engines (\<open>api/engines/diffusers_oracle/config.py\<close> and
  \<open>loader.py\<close>, \<open>api/engines/diffusers_action/loader.py\<close>): configuration from the environment, discovery of
  the weights, the precision check, and the graft of the action adapters. torch, diffusers, modelopt
  and safetensors are one argument; a checkpoint is a tree of the file system with links.
\<close>

section \<open>The libraries\<close>

text \<open>
  \<open>'m\<close> is a transformer module, \<open>'s\<close> a modelopt state, \<open>'t\<close> a tensor, \<open>'p\<close> a pipeline. A call may raise, with a message.
  \<open>tl_load_file\<close> is \<open>load_file\<close>, \<open>tl_safe_open\<close> the keys and tensors a \<open>safe_open\<close> handle gives.
\<close>

datatype diffusers_exc =
  LibError string
| MissingWeights "path list"
| NoAdapters path
| PrecisionError message
| BadValue message
| BadType py_exc
| ReadFailed fs_exc

record ('m, 's, 't, 'p) torch_libs =
  tl_load_config :: "path \<Rightarrow> fs \<Rightarrow> string + params"
  tl_from_config :: "params \<Rightarrow> string + 'm"
  tl_load_state :: "path \<Rightarrow> fs \<Rightarrow> string + 's"
  tl_restore :: "'m \<Rightarrow> 's \<Rightarrow> string + 'm option"
  tl_load_file :: "path \<Rightarrow> fs \<Rightarrow> string + (string, 't) dict"
  tl_safe_open :: "path \<Rightarrow> fs \<Rightarrow> string + (string, 't) dict"
  tl_load_state_dict :: "'m \<Rightarrow> (string, 't) dict \<Rightarrow> string + 'm"
  tl_state_keys :: "'m \<Rightarrow> string list"
  tl_pipeline :: "string \<Rightarrow> 'm \<Rightarrow> string \<Rightarrow> bool \<Rightarrow> string + 'p"
  tl_json :: "byte list \<Rightarrow> py_exc + pyval"
  tl_str :: "pyval \<Rightarrow> string"

section \<open>Configuration\<close>

definition ORACLE_MODEL_DIR :: string where "ORACLE_MODEL_DIR = ''/data/models/Cosmos3-Nano-NVFP4-Blockwise''"

record oracle_config =
  oc_model_dir :: string
  oc_device :: string

definition oracle_from_env :: "(string, string) dict \<Rightarrow> oracle_config" where
  "oracle_from_env environ =
     \<lparr>oc_model_dir = environ_get environ ''COSMOS3_MODEL_DIR'' ORACLE_MODEL_DIR,
      oc_device = environ_get environ ''COSMOS3_DEVICE'' ''cuda''\<rparr>"

definition GEN_TOWER_QUANTIZED :: nat where "GEN_TOWER_QUANTIZED = 505"

record action_config =
  ac_quant_dir :: string
  ac_base_action_dir :: "string option"
  ac_device :: string

definition action_from_env :: "(string, string) dict \<Rightarrow> action_config" where
  "action_from_env environ =
     \<lparr>ac_quant_dir = environ_get environ ''COSMOS3_MODEL_DIR'' ''/data/models/Cosmos3-Nano-FP8-Blockwise'',
      ac_base_action_dir = dict_get environ ''COSMOS3_BASE_ACTION_DIR'',
      ac_device = environ_get environ ''COSMOS3_DEVICE'' ''cuda''\<rparr>"

section \<open>Precision\<close>

definition precision_from_quant_config :: "(pyval \<Rightarrow> string) \<Rightarrow> pyval \<Rightarrow> diffusers_exc + (precision \<times> string)" where
  "precision_from_quant_config to_str cfg =
     bindE (map_errE BadType (py_get cfg ''recipe'' (PStr []))) (\<lambda>r.
     bindE (map_errE BadType (bindE (py_get cfg ''scale_layout'' (PDict [])) (\<lambda>sl. py_get sl ''granularity'' (PStr [])))) (\<lambda>g.
     let recipe = py_str to_str r; granularity = py_str to_str g in
     if prefix ''nvfp4'' recipe then Inr (NVFP4, granularity)
     else if recipe = ''fp8'' then Inr (FP8, granularity)
     else Inl (BadValue [MLit ''unknown quantization recipe: '', MRepr recipe])))"

definition observe_precision :: "string list \<Rightarrow> precision \<times> nat" where
  "observe_precision ks =
     ((if list_ex (suffix ''weight_quantizer._double_scale'') ks then NVFP4 else FP8),
      length (filter (suffix ''weight_quantizer._amax'') ks))"

definition verify_precision ::
  "(pyval \<Rightarrow> string) \<Rightarrow> string list \<Rightarrow> pyval \<Rightarrow> string \<Rightarrow> nat \<Rightarrow> diffusers_exc + engine_info" where
  "verify_precision to_str ks quant_cfg ckpt expected =
     bindE (precision_from_quant_config to_str quant_cfg) (\<lambda>(declared, granularity).
     let (observed, n) = observe_precision ks in
     if observed \<noteq> declared then
       Inl (PrecisionError [MStr ckpt, MLit '': declared '', MStr (precision_value declared), MLit '' but the loaded weights are '',
         MStr (precision_value observed), MLit '' (n_quantized='', MInt (int n), MLit '')''])
     else if n \<noteq> expected then
       Inl (PrecisionError [MStr ckpt, MLit '': expected '', MInt (int expected), MLit '' quantized modules but loaded '',
         MInt (int n), MLit '' (partial/corrupt restore?)''])
     else mapE (\<lambda>r. \<lparr>ei_engine = ''diffusers_oracle'', ei_precision = declared, ei_checkpoint_dir = ckpt,
         ei_n_quantized = int n, ei_granularity = granularity, ei_recipe = py_str to_str r\<rparr>)
       (map_errE BadType (py_get quant_cfg ''recipe'' (PStr []))))"

section \<open>The weights on disk\<close>

text \<open>\<open>glob\<close> of the shards of a directory: sorted, hidden names left out, empty where it cannot be listed.\<close>

definition glob_shards :: "fs \<Rightarrow> path \<Rightarrow> path list" where
  "glob_shards fs dir = (case listdir fs dir of Inl _ \<Rightarrow> []
     | Inr names \<Rightarrow> map (\<lambda>n. dir @ [n]) (filter (\<lambda>n. suffix ''.safetensors'' n \<and> hd n \<noteq> CHR ''.'') names))"

definition holds_weights :: "fs \<Rightarrow> path \<Rightarrow> bool" where
  "holds_weights fs dir \<longleftrightarrow> glob_shards fs dir \<noteq> [] \<and> path_exists fs (dir @ [''modelopt_state.pt'']) \<and>
     path_exists fs (dir @ [''config.json''])"

definition candidates :: "string \<Rightarrow> path list" where
  "candidates base = [parts base @ [''transformer'', ''transformer''], parts base @ [''transformer''], parts base]"

definition discover_transformer_dir :: "fs \<Rightarrow> string \<Rightarrow> diffusers_exc + path" where
  "discover_transformer_dir fs base = (case find (holds_weights fs) (candidates base) of
     Some dir \<Rightarrow> Inr dir | None \<Rightarrow> Inl (MissingWeights (candidates base)))"

definition read_quant_config :: "(byte list \<Rightarrow> py_exc + pyval) \<Rightarrow> fs \<Rightarrow> string \<Rightarrow> diffusers_exc + pyval" where
  "read_quant_config json fs base =
     (let p = parts base @ [''quantization_config.json''] in
      if \<not> path_exists fs p then Inr (PDict [])
      else bindE (map_errE ReadFailed (read_bytes fs p)) (\<lambda>b. map_errE BadType (json b)))"

section \<open>Loading\<close>

fun load_shards :: "(path \<Rightarrow> fs \<Rightarrow> string + (string, 't) dict) \<Rightarrow> fs \<Rightarrow> path list \<Rightarrow> (string, 't) dict \<Rightarrow> diffusers_exc + (string, 't) dict" where
  "load_shards load fs [] out = Inr out"
| "load_shards load fs (p # ps) out =
     bindE (map_errE LibError (load p fs)) (\<lambda>d. load_shards load fs ps (dict_merge out d))"

text \<open>The skeleton with the modelopt state restored into it, which may replace the module.\<close>

definition restored_skeleton ::
  "('m, 's, 't, 'p) torch_libs \<Rightarrow> bool \<Rightarrow> fs \<Rightarrow> path \<Rightarrow> diffusers_exc + 'm" where
  "restored_skeleton libs action_gen fs dir = map_errE LibError
     (bindE (tl_load_config libs (dir @ [''config.json'']) fs) (\<lambda>cfg.
      bindE (tl_from_config libs (dict_set ''action_gen'' (PBool action_gen) cfg)) (\<lambda>m.
      bindE (tl_load_state libs (dir @ [''modelopt_state.pt'']) fs) (\<lambda>st.
      mapE (\<lambda>r. case r of None \<Rightarrow> m | Some m' \<Rightarrow> m') (tl_restore libs m st)))))"

definition load_transformer :: "('m, 's, 't, 'p) torch_libs \<Rightarrow> fs \<Rightarrow> path \<Rightarrow> diffusers_exc + 'm" where
  "load_transformer libs fs dir =
     bindE (restored_skeleton libs False fs dir) (\<lambda>m.
     bindE (load_shards (tl_load_file libs) fs (glob_shards fs dir) []) (\<lambda>tensors.
     map_errE LibError (tl_load_state_dict libs m tensors)))"

text \<open>
  The pipelines a process has been made to assemble, in order: the directory, the transformer, the
  device and whether the VAE tiles. Assembling one moves the weights to the GPU.
\<close>

type_synonym 'm assembled = "(string \<times> 'm \<times> string \<times> bool) list"

definition load_pipeline ::
  "('m, 's, 't, 'p) torch_libs \<Rightarrow> oracle_config \<Rightarrow> 'm \<Rightarrow> ('m assembled, diffusers_exc, 'p) op" where
  "load_pipeline libs cfg m built =
     (map_errE LibError (tl_pipeline libs (oc_model_dir cfg) m (oc_device cfg) False),
      built @ [(oc_model_dir cfg, m, oc_device cfg, False)])"

definition build_oracle ::
  "('m, 's, 't, 'p) torch_libs \<Rightarrow> fs \<Rightarrow> oracle_config \<Rightarrow> ('m assembled, diffusers_exc, 'p \<times> engine_info \<times> string) op" where
  "build_oracle libs fs cfg =
     then_op (pure_op (\<lambda>_. discover_transformer_dir fs (oc_model_dir cfg))) (\<lambda>dir.
     then_op (pure_op (\<lambda>_. load_transformer libs fs dir)) (\<lambda>m.
     then_op (pure_op (\<lambda>_. read_quant_config (tl_json libs) fs (oc_model_dir cfg))) (\<lambda>qc.
     then_op (pure_op (\<lambda>_. verify_precision (tl_str libs) (tl_state_keys libs m) qc (oc_model_dir cfg) 505)) (\<lambda>info.
     then_op (load_pipeline libs cfg m) (\<lambda>pipe.
     pure_op (\<lambda>_. Inr (pipe, info, oc_device cfg)))))))"

section \<open>The action graft\<close>

definition merge_state_dicts :: "(string, 't) dict \<Rightarrow> (string, 't) dict \<Rightarrow> diffusers_exc + (string, 't) dict" where
  "merge_state_dicts gen adapters =
     (let overlap = filter (\<lambda>k. k \<in> set (dict_keys adapters)) (dict_keys gen) in
      if overlap \<noteq> [] then Inl (BadValue [MLit ''action graft key collision (GEN and adapters): '', MStrs (sort overlap)])
      else Inr (dict_merge gen adapters))"

definition is_adapter :: "string \<Rightarrow> bool" where
  "is_adapter k \<longleftrightarrow> prefix ''action_'' k"

definition adapters_of :: "(string, 't) dict \<Rightarrow> (string, 't) dict" where
  "adapters_of d = filter (\<lambda>(k, t). is_adapter k) d"

definition read_action_adapter_tensors :: "('m, 's, 't, 'p) torch_libs \<Rightarrow> fs \<Rightarrow> path \<Rightarrow> diffusers_exc + (string, 't) dict" where
  "read_action_adapter_tensors libs fs dir =
     bindE (load_shards (\<lambda>p fs. mapE adapters_of (tl_safe_open libs p fs)) fs (glob_shards fs dir) []) (\<lambda>tensors.
     if tensors = [] then Inl (NoAdapters dir) else Inr tensors)"

definition action_dir :: "action_config \<Rightarrow> path \<Rightarrow> path" where
  "action_dir cfg dir = (case ac_base_action_dir cfg of None \<Rightarrow> dir | Some b \<Rightarrow> if b = [] then dir else parts b)"

definition load_action_transformer ::
  "('m, 's, 't, 'p) torch_libs \<Rightarrow> fs \<Rightarrow> action_config \<Rightarrow> diffusers_exc + ('m \<times> engine_info)" where
  "load_action_transformer libs fs cfg =
     bindE (discover_transformer_dir fs (ac_quant_dir cfg)) (\<lambda>dir.
     bindE (restored_skeleton libs True fs dir) (\<lambda>m0.
     bindE (load_shards (tl_load_file libs) fs (glob_shards fs dir) []) (\<lambda>gen.
     bindE (read_action_adapter_tensors libs fs (action_dir cfg dir)) (\<lambda>adapters.
     bindE (merge_state_dicts gen adapters) (\<lambda>merged.
     bindE (map_errE LibError (tl_load_state_dict libs m0 merged)) (\<lambda>m.
     bindE (read_quant_config (tl_json libs) fs (ac_quant_dir cfg)) (\<lambda>qc.
     mapE (\<lambda>info. (m, info\<lparr>ei_engine := ''diffusers_action''\<rparr>))
       (verify_precision (tl_str libs) (tl_state_keys libs m) qc (ac_quant_dir cfg) GEN_TOWER_QUANTIZED))))))))"

definition build_action_engine ::
  "('m, 's, 't, 'p) torch_libs \<Rightarrow> fs \<Rightarrow> action_config \<Rightarrow> diffusers_exc + ('p \<times> engine_info \<times> string)" where
  "build_action_engine libs fs cfg =
     bindE (load_action_transformer libs fs cfg) (\<lambda>(m, info).
     bindE (map_errE LibError (tl_pipeline libs (ac_quant_dir cfg) m (ac_device cfg) True)) (\<lambda>pipe.
     Inr (pipe, info, ac_device cfg)))"

section \<open>Lemmas\<close>

lemma dict_keys_merge: "set (dict_keys (dict_merge d e)) = set (dict_keys d) \<union> set (dict_keys e)"
proof -
  have "fst ` set (fold (\<lambda>(k, v). dict_set k v) e d) = fst ` set d \<union> fst ` set e"
  proof (induction e arbitrary: d)
    case (Cons x e)
    then show ?case by (cases x) (simp add: dom_update Un_assoc)
  qed simp
  then show ?thesis by (simp add: dict_merge_def dict_keys_def)
qed

lemma load_shards_keys:
  "load_shards load fs ps out = Inr out' \<Longrightarrow>
   set (dict_keys out') = set (dict_keys out) \<union> (\<Union>p\<in>set ps. case load p fs of Inr d \<Rightarrow> set (dict_keys d) | Inl _ \<Rightarrow> {})"
  by (induction ps arbitrary: out) (auto simp: result_simps dict_keys_merge)

lemma load_shards_loaded: "load_shards load fs ps out = Inr out' \<Longrightarrow> p \<in> set ps \<Longrightarrow> \<exists>d. load p fs = Inr d"
  by (induction ps arbitrary: out) (auto simp: result_simps)

lemma load_shards_returns: "(\<And>p. p \<in> set ps \<Longrightarrow> \<exists>d. load p fs = Inr d) \<Longrightarrow> \<exists>out'. load_shards load fs ps out = Inr out'"
  by (induction ps arbitrary: out) (force simp: result_simps)+

lemma dict_keys_adapters: "set (dict_keys (adapters_of d)) = {k \<in> set (dict_keys d). is_adapter k}"
  by (auto simp: adapters_of_def dict_keys_def)

lemma adapters_keys_case:
  "(case mapE adapters_of r of Inl _ \<Rightarrow> {} | Inr d \<Rightarrow> set (dict_keys d)) =
   {k \<in> (case r of Inl _ \<Rightarrow> {} | Inr d \<Rightarrow> set (dict_keys d)). is_adapter k}"
  by (cases r) (simp_all add: dict_keys_adapters)

lemma dict_keys_Nil: "set (dict_keys d) = {} \<longleftrightarrow> d = []"
  by (auto simp: dict_keys_def)

text \<open>Reading the adapters from the shards the weights came from gives the adapters among the weights.\<close>

lemma adapters_same_dir:
  assumes same: "\<And>p d. tl_load_file libs p fs = Inr d \<Longrightarrow> tl_safe_open libs p fs = Inr d"
    and gen: "load_shards (tl_load_file libs) fs (glob_shards fs dir) [] = Inr gen"
  shows "if list_ex is_adapter (dict_keys gen)
    then (\<exists>ad. read_action_adapter_tensors libs fs dir = Inr ad \<and> set (dict_keys ad) = {k \<in> set (dict_keys gen). is_adapter k})
    else read_action_adapter_tensors libs fs dir = Inl (NoAdapters dir)"
proof -
  let ?open = "\<lambda>p fs. mapE adapters_of (tl_safe_open libs p fs)"
  have opened: "?open p fs = mapE adapters_of (tl_load_file libs p fs)" if "p \<in> set (glob_shards fs dir)" for p
    using load_shards_loaded [OF gen that] same by auto
  have "\<exists>d. ?open p fs = Inr d" if "p \<in> set (glob_shards fs dir)" for p
    using load_shards_loaded [OF gen that] opened [OF that] by (auto simp: result_simps)
  then have "\<exists>ad. load_shards ?open fs (glob_shards fs dir) [] = Inr ad" by (rule load_shards_returns)
  then obtain ad where ad: "load_shards ?open fs (glob_shards fs dir) [] = Inr ad" by blast
  have "set (dict_keys ad) = (\<Union>p\<in>set (glob_shards fs dir). case mapE adapters_of (tl_load_file libs p fs) of Inr d \<Rightarrow> set (dict_keys d) | Inl _ \<Rightarrow> {})"
    using load_shards_keys [OF ad] opened by (simp add: dict_keys_def)
  also have "\<dots> = {k \<in> set (dict_keys gen). is_adapter k}"
    unfolding load_shards_keys [OF gen] by (auto simp: adapters_keys_case dict_keys_def [of "[]"])
  finally have keys: "set (dict_keys ad) = {k \<in> set (dict_keys gen). is_adapter k}" .
  then have "ad = [] \<longleftrightarrow> \<not> list_ex is_adapter (dict_keys gen)"
    by (auto simp: list_ex_iff dict_keys_Nil [symmetric])
  then show ?thesis using ad keys by (simp add: read_action_adapter_tensors_def)
qed

lemma merge_own_adapters:
  assumes "set (dict_keys ad) = {k \<in> set (dict_keys gen). is_adapter k}" "list_ex is_adapter (dict_keys gen)"
  shows "merge_state_dicts gen ad = Inl (BadValue [MLit ''action graft key collision (GEN and adapters): '',
    MStrs (sort (filter is_adapter (dict_keys gen)))])"
proof -
  have "filter (\<lambda>k. k \<in> set (dict_keys ad)) (dict_keys gen) = filter is_adapter (dict_keys gen)"
    by (rule filter_cong) (auto simp: assms(1))
  moreover have "filter is_adapter (dict_keys gen) \<noteq> []" using assms(2) by (auto simp: filter_empty_conv list_ex_iff)
  ultimately show ?thesis by (simp add: merge_state_dicts_def)
qed

lemma verify_precision_Inr:
  "verify_precision to_str ks qc ckpt n = Inr info \<Longrightarrow>
   precision_from_quant_config to_str qc = Inr (ei_precision info, ei_granularity info) \<and>
   observe_precision ks = (ei_precision info, n) \<and> ei_n_quantized info = int n \<and> ei_checkpoint_dir info = ckpt"
  for info :: engine_info
  unfolding verify_precision_def
  by (cases "observe_precision ks") (auto simp: result_simps split: if_splits)

lemma precision_recipe:
  "precision_from_quant_config to_str (PDict qc) = Inr (p, g) \<Longrightarrow>
   \<exists>r. py_get (PDict qc) ''recipe'' (PStr []) = Inr r \<and> (prefix ''nvfp4'' (py_str to_str r) \<or> py_str to_str r = ''fp8'')"
  by (auto simp: precision_from_quant_config_def result_simps Let_def split: if_splits)

section \<open>A small checkpoint\<close>

definition demo_weights :: fs where
  "demo_weights = [([''m''], Dir), ([''m'', ''quantization_config.json''], File [1]), ([''m'', ''transformer''], Dir),
     ([''m'', ''transformer'', ''a.safetensors''], File [2]), ([''m'', ''transformer'', ''config.json''], File [3]),
     ([''m'', ''transformer'', ''modelopt_state.pt''], File [4])]"

definition demo_torch :: "string list \<Rightarrow> params \<Rightarrow> (unit, unit, nat, unit) torch_libs" where
  "demo_torch ks qc = \<lparr>tl_load_config = (\<lambda>p fs. Inr []), tl_from_config = (\<lambda>cfg. Inr ()), tl_load_state = (\<lambda>p fs. Inr ()),
     tl_restore = (\<lambda>m st. Inr None), tl_load_file = (\<lambda>p fs. Inr [(''action_proj_in.fc.weight'', 1), (''layers.0.weight'', 2)]),
     tl_safe_open = (\<lambda>p fs. Inr [(''action_proj_in.fc.weight'', 1), (''layers.0.weight'', 2)]),
     tl_load_state_dict = (\<lambda>m ts. Inr ()), tl_state_keys = (\<lambda>m. ks), tl_pipeline = (\<lambda>d m dev tiling. Inr ()),
     tl_json = (\<lambda>b. Inr (PDict qc)), tl_str = (\<lambda>v. [])\<rparr>"

definition demo_oracle :: oracle_config where "demo_oracle = \<lparr>oc_model_dir = ''/m'', oc_device = ''cuda''\<rparr>"
definition demo_action :: action_config where
  "demo_action = \<lparr>ac_quant_dir = ''/m'', ac_base_action_dir = None, ac_device = ''cuda''\<rparr>"

definition probed_qc :: params where
  "probed_qc = [(''recipe'', PStr ''fp8_blockwise_mixed''), (''quant_lmhead'', PBool False)]"

section \<open>Properties\<close>

lemma graft_exact:
  assumes same: "\<And>p d. tl_load_file libs p fs = Inr d \<Longrightarrow> tl_safe_open libs p fs = Inr d"
    and cfg: "ac_base_action_dir cfg = None \<or> ac_base_action_dir cfg = Some []"
    and "discover_transformer_dir fs (ac_quant_dir cfg) = Inr dir" "restored_skeleton libs True fs dir = Inr m"
    and gen: "load_shards (tl_load_file libs) fs (glob_shards fs dir) [] = Inr gen"
  shows "load_action_transformer libs fs cfg = Inl (if list_ex is_adapter (dict_keys gen)
    then BadValue [MLit ''action graft key collision (GEN and adapters): '', MStrs (sort (filter is_adapter (dict_keys gen)))]
    else NoAdapters dir)"
proof -
  have dir: "action_dir cfg dir = dir" using cfg by (auto simp: action_dir_def)
  show ?thesis
  proof (cases "list_ex is_adapter (dict_keys gen)")
    case True
    then obtain ad where "read_action_adapter_tensors libs fs dir = Inr ad" "set (dict_keys ad) = {k \<in> set (dict_keys gen). is_adapter k}"
      using adapters_same_dir [OF same gen] by auto
    then show ?thesis using assms True merge_own_adapters [of ad gen] by (simp add: load_action_transformer_def dir)
  next
    case False
    then show ?thesis using assms adapters_same_dir [OF same gen] by (simp add: load_action_transformer_def dir)
  qed
qed

lemma graft_raises:
  assumes same: "\<And>p d. tl_load_file libs p fs = Inr d \<Longrightarrow> tl_safe_open libs p fs = Inr d"
    and cfg: "ac_base_action_dir cfg = None \<or> ac_base_action_dir cfg = Some []"
  shows "\<exists>e. load_action_transformer libs fs cfg = Inl e"
proof (rule ccontr)
  assume "\<nexists>e. load_action_transformer libs fs cfg = Inl e"
  then obtain x where "load_action_transformer libs fs cfg = Inr x" by (cases "load_action_transformer libs fs cfg") auto
  moreover from this obtain dir m gen where "discover_transformer_dir fs (ac_quant_dir cfg) = Inr dir"
      "restored_skeleton libs True fs dir = Inr m" "load_shards (tl_load_file libs) fs (glob_shards fs dir) [] = Inr gen"
    unfolding load_action_transformer_def bindE_Inr_iff by blast
  from graft_exact [OF same cfg this] calculation show False by simp
qed

text \<open>
  The self-contained configuration of the action graft never loads: with no separate adapter
  directory the weights just loaded already hold every adapter, so the merge meets its own keys and
  raises, or there are no adapters at all; whatever the checkpoint, no engine is built.
\<close>

theorem self_contained_graft_never_loads:
  assumes same: "\<And>p d. tl_load_file libs p fs = Inr d \<Longrightarrow> tl_safe_open libs p fs = Inr d"
    and "ac_base_action_dir cfg = None \<or> ac_base_action_dir cfg = Some []"
  shows "(\<exists>e. build_action_engine libs fs cfg = Inl e) \<and>
    (\<forall>dir m gen. discover_transformer_dir fs (ac_quant_dir cfg) = Inr dir \<longrightarrow> restored_skeleton libs True fs dir = Inr m \<longrightarrow>
      load_shards (tl_load_file libs) fs (glob_shards fs dir) [] = Inr gen \<longrightarrow>
      load_action_transformer libs fs cfg = Inl (if list_ex is_adapter (dict_keys gen)
        then BadValue [MLit ''action graft key collision (GEN and adapters): '', MStrs (sort (filter is_adapter (dict_keys gen)))]
        else NoAdapters dir))"
  using graft_raises [OF assms] graft_exact [OF assms] by (auto simp: build_action_engine_def)

theorem self_contained_graft_never_loads_witness:
  "load_action_transformer (demo_torch [] []) demo_weights demo_action = Inl (BadValue
     [MLit ''action graft key collision (GEN and adapters): '', MStrs [''action_proj_in.fc.weight'']])"
proof -
  let ?d = "[''m'', ''transformer'']"
  let ?gen = "[(''action_proj_in.fc.weight'', 1), (''layers.0.weight'', 2)] :: (string, nat) dict"
  have same: "tl_load_file (demo_torch [] []) p demo_weights = Inr d \<Longrightarrow> tl_safe_open (demo_torch [] []) p demo_weights = Inr d" for p d
    by (simp add: demo_torch_def)
  have cfg: "ac_base_action_dir demo_action = None \<or> ac_base_action_dir demo_action = Some []" by (simp add: demo_action_def)
  have "discover_transformer_dir demo_weights (ac_quant_dir demo_action) = Inr ?d"
    "load_shards (tl_load_file (demo_torch [] [])) demo_weights (glob_shards demo_weights ?d) [] = Inr ?gen"
    by code_simp+
  moreover have "restored_skeleton (demo_torch [] []) True demo_weights ?d = Inr ()" by (simp add: restored_skeleton_def demo_torch_def)
  moreover have "sort (filter is_adapter (dict_keys ?gen)) = [''action_proj_in.fc.weight''] \<and> list_ex is_adapter (dict_keys ?gen)"
    by code_simp
  ultimately show ?thesis using self_contained_graft_never_loads [OF same cfg] by simp
qed

text \<open>What the oracle loader must have established of the weights and the sidecar before it goes on.\<close>

definition declared_weights ::
  "('m, 's, 't, 'p) torch_libs \<Rightarrow> fs \<Rightarrow> string \<Rightarrow> 'm \<Rightarrow> engine_info \<Rightarrow> bool" where
  "declared_weights libs fs base m info \<longleftrightarrow>
     (\<exists>dir. holds_weights fs dir \<and> dir \<in> set (candidates base) \<and> load_transformer libs fs dir = Inr m) \<and>
     (\<exists>qc. read_quant_config (tl_json libs) fs base = Inr qc \<and>
        precision_from_quant_config (tl_str libs) qc = Inr (ei_precision info, ei_granularity info)) \<and>
     observe_precision (tl_state_keys libs m) = (ei_precision info, 505) \<and> ei_n_quantized info = 505 \<and>
     ei_checkpoint_dir info = base"

lemma build_oracle_steps:
  fixes info :: engine_info
  assumes "discover_transformer_dir fs (oc_model_dir cfg) = Inr dir" "load_transformer libs fs dir = Inr m"
    "read_quant_config (tl_json libs) fs (oc_model_dir cfg) = Inr qc"
    "verify_precision (tl_str libs) (tl_state_keys libs m) qc (oc_model_dir cfg) 505 = Inr info"
  shows "declared_weights libs fs (oc_model_dir cfg) m info"
  using assms verify_precision_Inr [OF assms(4)]
  by (auto simp: declared_weights_def discover_transformer_dir_def find_Some_iff split: option.splits)

text \<open>
  C30: A mismatch never reaches the pipeline: the oracle loader either raises with no pipeline
  assembled, or it has found weights whose observed precision is the one the sidecar declares, with all
  505 quantized modules, and only then assembles exactly one pipeline, around those weights; what it
  returns is that pipeline with the facts it verified, or the error of assembling it.
\<close>

theorem oracle_serves_declared_precision:
  fixes libs :: "('m, 's, 't, 'p) torch_libs"
  shows "(\<exists>e. build_oracle libs fs cfg built = (Inl e, built)) \<or>
    (\<exists>m (info :: engine_info). declared_weights libs fs (oc_model_dir cfg) m info \<and>
       build_oracle libs fs cfg built =
         (mapE (\<lambda>pipe. (pipe, info, oc_device cfg))
            (map_errE LibError (tl_pipeline libs (oc_model_dir cfg) m (oc_device cfg) False)),
          built @ [(oc_model_dir cfg, m, oc_device cfg, False)]))"
proof (cases "discover_transformer_dir fs (oc_model_dir cfg)")
  case (Inr dir)
  note d = this
  show ?thesis
  proof (cases "load_transformer libs fs dir")
    case (Inr m)
    note m = this
    show ?thesis
    proof (cases "read_quant_config (tl_json libs) fs (oc_model_dir cfg)")
      case (Inr qc)
      then show ?thesis
        using build_oracle_steps [OF d m Inr] d m
        by (cases "verify_precision (tl_str libs) (tl_state_keys libs m) qc (oc_model_dir cfg) 505";
            cases "tl_pipeline libs (oc_model_dir cfg) m (oc_device cfg) False")
           (auto simp: build_oracle_def load_pipeline_def then_op_def pure_op_def)
    qed (simp add: build_oracle_def d m then_op_def pure_op_def)
  qed (simp add: build_oracle_def d then_op_def pure_op_def)
qed (simp add: build_oracle_def then_op_def pure_op_def)

lemma demo_oracle_loads:
  fixes libs :: "(unit, unit, nat, unit) torch_libs"
  assumes "libs = demo_torch (replicate n ''x.weight_quantizer._amax'') [(''recipe'', PStr ''fp8'')]"
  shows "discover_transformer_dir demo_weights ''/m'' = Inr [''m'', ''transformer'']"
    "load_transformer libs demo_weights [''m'', ''transformer''] = Inr ()"
    "read_quant_config (tl_json libs) demo_weights ''/m'' = Inr (PDict [(''recipe'', PStr ''fp8'')])"
    "observe_precision (tl_state_keys libs ()) = (FP8, n)"
proof -
  have disk: "path_exists demo_weights (parts ''/m'' @ [''quantization_config.json''])"
    "read_bytes demo_weights (parts ''/m'' @ [''quantization_config.json'']) = Inr [1]"
    "load_shards (\<lambda>p fs. Inr [(''action_proj_in.fc.weight'', 1 :: nat), (''layers.0.weight'', 2)]) demo_weights
       (glob_shards demo_weights [''m'', ''transformer'']) [] = Inr [(''action_proj_in.fc.weight'', 1), (''layers.0.weight'', 2)]"
    by code_simp+
  show "discover_transformer_dir demo_weights ''/m'' = Inr [''m'', ''transformer'']" by code_simp
  show "load_transformer libs demo_weights [''m'', ''transformer''] = Inr ()"
    using disk(3) by (simp add: assms load_transformer_def restored_skeleton_def demo_torch_def)
  show "read_quant_config (tl_json libs) demo_weights ''/m'' = Inr (PDict [(''recipe'', PStr ''fp8'')])"
    using disk(1,2) by (simp add: assms read_quant_config_def demo_torch_def)
  show "observe_precision (tl_state_keys libs ()) = (FP8, n)"
    by (simp add: assms demo_torch_def observe_precision_def filter_replicate list_ex_iff suffix_def)
qed

theorem oracle_serves_declared_precision_witness:
  "snd (build_oracle (demo_torch (replicate 504 ''x.weight_quantizer._amax'') [(''recipe'', PStr ''fp8'')]) demo_weights demo_oracle []) = []"
proof -
  let ?libs = "demo_torch (replicate 504 ''x.weight_quantizer._amax'') [(''recipe'', PStr ''fp8'')]"
  note l = demo_oracle_loads(4) [OF refl, of 504]
  have "\<not> declared_weights ?libs demo_weights (oc_model_dir demo_oracle) m info" for m and info :: engine_info
    using l by (cases m) (simp add: declared_weights_def)
  then show ?thesis using oracle_serves_declared_precision [of ?libs demo_weights demo_oracle "[]"] by auto
qed

text \<open>
  The recipe the integrity probe demands is one both loaders refuse: a checkpoint whose
  sidecars pass the probe is served by neither of the in-process engines.
\<close>

theorem probed_checkpoint_refused_by_loaders:
  fixes libs :: "('m, 's, 't, 'p) torch_libs"
  assumes "check_sidecars tcfg qc qmd = Inr []"
    and "\<And>base. base \<in> {oc_model_dir ocfg, ac_quant_dir acfg} \<Longrightarrow>
      read_quant_config (tl_json libs) fs base = Inr (PDict qc)"
  shows "(\<exists>e. build_oracle libs fs ocfg built = (Inl e, built)) \<and> (\<exists>e. build_action_engine libs fs acfg = Inl e)"
proof -
  have "val_get qc ''recipe'' = PStr ''fp8_blockwise_mixed''"
    using assms(1) by (auto simp: check_sidecars_def result_simps split: if_splits)
  then have "dict_get qc ''recipe'' = Some (PStr ''fp8_blockwise_mixed'')"
    by (auto simp: val_get_def split: option.splits)
  then have "precision_from_quant_config to_str (PDict qc) \<noteq> Inr x" for to_str x
    by (cases x) (auto simp: py_get_def py_str_def dest!: precision_recipe)
  then have "verify_precision to_str ks (PDict qc) ckpt n \<noteq> Inr i" for to_str ks ckpt n i
    using verify_precision_Inr by metis
  then have v: "\<exists>e. verify_precision to_str ks (PDict qc) ckpt n = Inl e" for to_str ks ckpt n
    by (metis sum.exhaust)
  then have "\<nexists>y. load_action_transformer libs fs acfg = Inr y"
    using assms(2) by (auto simp: load_action_transformer_def result_simps) (metis sum.distinct(1))
  moreover have "\<exists>e. build_oracle libs fs ocfg built = (Inl e, built)"
    using assms(2) [of "oc_model_dir ocfg"] v [of "tl_str libs" "tl_state_keys libs _" "oc_model_dir ocfg" 505]
    by (auto simp: build_oracle_def then_op_def pure_op_def split: sum.split) (metis sum.distinct(1))
  ultimately show ?thesis
    by (cases "load_action_transformer libs fs acfg") (auto simp: build_action_engine_def)
qed

theorem probed_checkpoint_refused_by_loaders_witness:
  "\<exists>e. build_oracle (demo_torch [] probed_qc) demo_weights demo_oracle [] = (Inl e, [])"
proof -
  have clean: "check_sidecars [(''action_gen'', PBool True)] probed_qc [] = Inr []"
    by code_simp
  have disk: "path_exists demo_weights (parts ''/m'' @ [''quantization_config.json''])"
    "read_bytes demo_weights (parts ''/m'' @ [''quantization_config.json'']) = Inr [1]"
    by code_simp+
  have "read_quant_config (tl_json (demo_torch [] probed_qc)) demo_weights base = Inr (PDict probed_qc)"
    if "base \<in> {oc_model_dir demo_oracle, ac_quant_dir demo_action}" for base
    using that disk by (auto simp: demo_oracle_def demo_action_def read_quant_config_def demo_torch_def)
  from probed_checkpoint_refused_by_loaders [OF clean this] show ?thesis by simp
qed

end
