(* ===== verification/Observability.thy ===== *)
theory Observability
  imports Job_Runner Orchestrator Trust_Paths
begin

text \<open>
  Instrumentation (\<open>api/app/observability\<close>, \<open>api/app/routes/metrics.py\<close>): the metric families, the metered
  job work and orchestrator, the ASGI middleware, and the gauges computed at a scrape. The Prometheus
  client is a parameter: a call on a handle is recorded, or raises as the parameter says.
\<close>

section \<open>Metric families\<close>

datatype metric = HttpRequests | HttpDuration | JobSubmitted | JobTerminal | JobDuration | PlaneAcquire

datatype family_kind = CounterFamily | HistogramFamily

record metric_family =
  mf_name :: string
  mf_kind :: family_kind
  mf_labels :: "string list"
  mf_buckets :: "rat list"

definition HTTP_BUCKETS :: "rat list" where
  "HTTP_BUCKETS = [5 / 1000, 1 / 100, 25 / 1000, 5 / 100, 1 / 10, 1 / 4, 1 / 2, 1, 5 / 2, 5, 10]"
definition JOB_BUCKETS :: "rat list" where "JOB_BUCKETS = [1 / 2, 1, 2, 5, 10, 20, 30, 60, 120, 300, 600]"
definition ACQUIRE_BUCKETS :: "rat list" where "ACQUIRE_BUCKETS = [1, 2, 5, 10, 20, 30, 60, 120, 180, 300]"

definition build_metrics :: "metric \<Rightarrow> metric_family" where
  "build_metrics h = (case h of
     HttpRequests \<Rightarrow> \<lparr>mf_name = ''cosmos3_http_requests'', mf_kind = CounterFamily,
       mf_labels = [''method'', ''route'', ''status''], mf_buckets = []\<rparr>
   | HttpDuration \<Rightarrow> \<lparr>mf_name = ''cosmos3_http_request_duration_seconds'', mf_kind = HistogramFamily,
       mf_labels = [''method'', ''route''], mf_buckets = HTTP_BUCKETS\<rparr>
   | JobSubmitted \<Rightarrow> \<lparr>mf_name = ''cosmos3_job_submitted'', mf_kind = CounterFamily,
       mf_labels = [''mode''], mf_buckets = []\<rparr>
   | JobTerminal \<Rightarrow> \<lparr>mf_name = ''cosmos3_job_terminal'', mf_kind = CounterFamily,
       mf_labels = [''mode'', ''outcome''], mf_buckets = []\<rparr>
   | JobDuration \<Rightarrow> \<lparr>mf_name = ''cosmos3_job_duration_seconds'', mf_kind = HistogramFamily,
       mf_labels = [''mode'', ''outcome''], mf_buckets = JOB_BUCKETS\<rparr>
   | PlaneAcquire \<Rightarrow> \<lparr>mf_name = ''cosmos3_plane_acquire_duration_seconds'', mf_kind = HistogramFamily,
       mf_labels = [''plane'', ''transition''], mf_buckets = ACQUIRE_BUCKETS\<rparr>)"

text \<open>\<open>labels(...).inc()\<close> and \<open>labels(...).observe(x)\<close>, and when the client accepts them.\<close>

datatype metric_call = Inc metric "string list" | Observe metric "string list" pyfloat

fun call_typed :: "metric_call \<Rightarrow> bool" where
  "call_typed (Inc h ls) \<longleftrightarrow> mf_kind (build_metrics h) = CounterFamily \<and> length ls = length (mf_labels (build_metrics h))"
| "call_typed (Observe h ls x) \<longleftrightarrow> mf_kind (build_metrics h) = HistogramFamily \<and> length ls = length (mf_labels (build_metrics h))"

text \<open>
  A metered state is a world with the calls made so far. \<open>ml_elapsed\<close> is the difference of two
  \<open>perf_counter\<close> readings.
\<close>

record ('w, 'e) meter_lib =
  ml_elapsed :: "'w \<Rightarrow> 'w \<Rightarrow> pyfloat"
  ml_raises :: "metric_call list \<Rightarrow> metric_call \<Rightarrow> 'e option"
  ml_is_exception :: "'e \<Rightarrow> bool"

record 'w metered =
  md_world :: 'w
  md_log :: "metric_call list"

definition metric_call :: "('w, 'e) meter_lib \<Rightarrow> metric_call \<Rightarrow> ('w metered, 'e, unit) op" where
  "metric_call lib c m = (case ml_raises lib (md_log m) c of
     Some e \<Rightarrow> (Inl e, m) | None \<Rightarrow> (Inr (), m\<lparr>md_log := md_log m @ [c]\<rparr>))"

definition inside :: "('w, 'e, 'a) op \<Rightarrow> ('w metered, 'e, 'a) op" where
  "inside f m = (let (r, w) = f (md_world m) in (r, m\<lparr>md_world := w\<rparr>))"

section \<open>The metered work and orchestrator\<close>

definition count_job :: "('w, 'e) meter_lib \<Rightarrow> string \<Rightarrow> string \<Rightarrow> pyfloat \<Rightarrow> ('w metered, 'e, unit) op" where
  "count_job lib mode outcome elapsed =
     then_op (metric_call lib (Observe JobDuration [mode, outcome] elapsed))
       (\<lambda>_. metric_call lib (Inc JobTerminal [mode, outcome]))"

definition metered_work ::
  "('w, 'e) meter_lib \<Rightarrow> (job_record \<Rightarrow> ('w, 'e, 'a) op) \<Rightarrow> job_record \<Rightarrow> ('w metered, 'e, 'a) op" where
  "metered_work lib inner record m = (case inside (inner record) m of
     (Inl e, m1) \<Rightarrow>
       if ml_is_exception lib e then
         then_op (count_job lib (jr_mode record) ''failed'' (ml_elapsed lib (md_world m) (md_world m1)))
           (\<lambda>_. pure_op (\<lambda>_. Inl e)) m1
       else (Inl e, m1)
   | (Inr res, m1) \<Rightarrow>
       then_op (count_job lib (jr_mode record) ''succeeded'' (ml_elapsed lib (md_world m) (md_world m1)))
         (\<lambda>_. pure_op (\<lambda>_. Inr res)) m1)"

definition transition_label :: "residency_id option \<Rightarrow> residency_id \<Rightarrow> string" where
  "transition_label before target =
     (if before = None then ''cold_load'' else if before = Some target then ''reacquire'' else ''swap'')"

text \<open>
  The metered orchestrator around the manager's steps. \<open>mo_pending\<close> holds the label read when a task
  called \<open>acquire\<close>; the \<open>finally\<close> observes it when that task's inner call is over.
\<close>

record metered_orch =
  mo_inner :: orch
  mo_pending :: "task \<Rightarrow> (residency_id \<times> string) option"
  mo_log :: "metric_call list"

definition new_metered_orch :: "int \<Rightarrow> metered_orch" where
  "new_metered_orch timeout = \<lparr>mo_inner = new_orchestrator timeout, mo_pending = (\<lambda>t. None), mo_log = []\<rparr>"

definition metered_acquire :: "task \<Rightarrow> residency_id \<Rightarrow> metered_orch \<Rightarrow> metered_orch" where
  "metered_acquire t target s =
     s\<lparr>mo_inner := goto t (AcqLock target) (mo_inner s),
       mo_pending := (mo_pending s)(t \<mapsto> (target, transition_label (oc_slot (mo_inner s)) target))\<rparr>"

definition acquire_observed :: "task \<Rightarrow> residency_id \<Rightarrow> string \<Rightarrow> pyfloat \<Rightarrow> metered_orch \<Rightarrow> metered_orch" where
  "acquire_observed t target transition elapsed s =
     s\<lparr>mo_pending := (mo_pending s)(t := None),
       mo_log := mo_log s @ [Observe PlaneAcquire [plane_value (rid_plane target), transition] elapsed]\<rparr>"

inductive metered_step :: "metered_orch \<Rightarrow> metered_orch \<Rightarrow> bool" where
  ms_acquire: "oc_pc (mo_inner s) t = None \<Longrightarrow> mo_pending s t = None \<Longrightarrow> metered_step s (metered_acquire t r s)"
| ms_inner: "orch_step (mo_inner s) i \<Longrightarrow> metered_step s (s\<lparr>mo_inner := i\<rparr>)"
| ms_finally: "oc_pc (mo_inner s) t = Some (Finished res) \<Longrightarrow> mo_pending s t = Some (r, l) \<Longrightarrow>
    metered_step s (acquire_observed t r l elapsed s)"

section \<open>The middleware\<close>

datatype asgi_message = ResponseStart int | ResponseBody "byte list" bool

record http_scope =
  sc_type :: string
  sc_method :: "string option"
  sc_route_path :: "pyval option"

text \<open>
  An ASGI application as the tree of what it does: it may receive, send (and see whether the send
  raised), let the router put the matched route into the scope, return or raise.
\<close>

datatype 'e asgi_app =
  Returns
| Raises 'e
| Receives "'e + pyval \<Rightarrow> 'e asgi_app"
| Matched "pyval option" "'e asgi_app"
| Sends asgi_message "'e option \<Rightarrow> 'e asgi_app"

type_synonym ('w, 'e) sender = "asgi_message \<Rightarrow> 'w \<Rightarrow> 'e option \<times> 'w"
type_synonym ('w, 'e) receiver = "'w \<Rightarrow> ('e + pyval) \<times> 'w"

primrec run_asgi :: "'e asgi_app \<Rightarrow> ('w, 'e) receiver \<Rightarrow> ('w, 'e) sender \<Rightarrow> http_scope \<Rightarrow> 'w
    \<Rightarrow> ('e option \<times> http_scope) \<times> 'w" where
  "run_asgi Returns recv send scope w = ((None, scope), w)"
| "run_asgi (Raises e) recv send scope w = ((Some e, scope), w)"
| "run_asgi (Receives k) recv send scope w = (case recv w of (x, w1) \<Rightarrow> run_asgi (k x) recv send scope w1)"
| "run_asgi (Matched p k) recv send scope w = run_asgi k recv send (scope\<lparr>sc_route_path := p\<rparr>) w"
| "run_asgi (Sends msg k) recv send scope w = (case send msg w of (x, w1) \<Rightarrow> run_asgi (k x) recv send scope w1)"

definition UNMATCHED :: string where "UNMATCHED = ''__unmatched__''"

definition route_template :: "http_scope \<Rightarrow> string" where
  "route_template scope = (case sc_route_path scope of Some (PStr p) \<Rightarrow> p | _ \<Rightarrow> UNMATCHED)"

text \<open>The wrapped \<open>send\<close>; \<open>status_holder\<close> is the first component of the state.\<close>

definition send_wrapper :: "('w, 'e) sender \<Rightarrow> (int \<times> 'w, 'e) sender" where
  "send_wrapper send msg s =
     (let code = (case msg of ResponseStart c \<Rightarrow> c | ResponseBody b again \<Rightarrow> fst s); (x, w) = send msg (snd s)
      in (x, (code, w)))"

definition same_receive :: "('w, 'e) receiver \<Rightarrow> (int \<times> 'w, 'e) receiver" where
  "same_receive recv s = (let (x, w) = recv (snd s) in (x, (fst s, w)))"

definition metrics_middleware ::
  "('w, 'e) meter_lib \<Rightarrow> 'e asgi_app \<Rightarrow> ('w, 'e) receiver \<Rightarrow> ('w, 'e) sender \<Rightarrow> http_scope \<Rightarrow> 'w metered
     \<Rightarrow> ('e option \<times> http_scope) \<times> 'w metered" where
  "metrics_middleware lib app recv send scope m =
     (if sc_type scope \<noteq> ''http'' then
        (let (r, w) = run_asgi app recv send scope (md_world m) in (r, m\<lparr>md_world := w\<rparr>))
      else
        (let ((r, scope1), (code, w)) = run_asgi app (same_receive recv) (send_wrapper send) scope (0, md_world m);
             m1 = m\<lparr>md_world := w\<rparr>;
             verb = (case sc_method scope1 of None \<Rightarrow> ''UNKNOWN'' | Some v \<Rightarrow> v);
             route = route_template scope1;
             (ignored, m2) = then_op (metric_call lib (Inc HttpRequests [verb, route, show_int code]))
               (\<lambda>_. metric_call lib (Observe HttpDuration [verb, route] (ml_elapsed lib (md_world m) w))) m1
         in ((r, scope1), m2)))"

text \<open>What an application hands to \<open>send\<close>, in order; the reference for the status label.\<close>

primrec sent_messages :: "'e asgi_app \<Rightarrow> ('w, 'e) receiver \<Rightarrow> ('w, 'e) sender \<Rightarrow> 'w \<Rightarrow> asgi_message list" where
  "sent_messages Returns recv send w = []"
| "sent_messages (Raises e) recv send w = []"
| "sent_messages (Receives k) recv send w = (case recv w of (x, w1) \<Rightarrow> sent_messages (k x) recv send w1)"
| "sent_messages (Matched p k) recv send w = sent_messages k recv send w"
| "sent_messages (Sends msg k) recv send w = msg # (case send msg w of (x, w1) \<Rightarrow> sent_messages (k x) recv send w1)"

fun last_status :: "int \<Rightarrow> asgi_message list \<Rightarrow> int" where
  "last_status c [] = c"
| "last_status c (ResponseStart d # ms) = last_status d ms"
| "last_status c (ResponseBody b again # ms) = last_status c ms"

section \<open>The gauges of a scrape\<close>

record gauge_family =
  gf_name :: string
  gf_samples :: "(string list \<times> pyfloat) list"

text \<open>\<open>collections.Counter\<close> over the statuses.\<close>

definition counter_of :: "string list \<Rightarrow> (string, nat) dict" where
  "counter_of vs = fold (\<lambda>v d. dict_set v (Suc (case dict_get d v of None \<Rightarrow> 0 | Some n \<Rightarrow> n)) d) vs []"

definition count_of :: "(string, nat) dict \<Rightarrow> string \<Rightarrow> nat" where
  "count_of d v = (case dict_get d v of None \<Rightarrow> 0 | Some n \<Rightarrow> n)"

definition jobs_gauge :: "store \<Rightarrow> gauge_family" where
  "jobs_gauge st = (let counts = counter_of (map (\<lambda>(i, r). status_value (jr_status r)) (st_jobs st)) in
     \<lparr>gf_name = ''cosmos3_jobs'',
      gf_samples = map (\<lambda>q. ([status_value q], Finite (of_nat (count_of counts (status_value q))))) all_statuses\<rparr>)"

definition plane_gauge :: "residency_id option \<Rightarrow> gauge_family" where
  "plane_gauge resident =
     (let v = map_option (\<lambda>r. plane_value (rid_plane r)) resident in
      \<lparr>gf_name = ''cosmos3_plane_resident'',
       gf_samples = map (\<lambda>p. ([plane_value p], if Some (plane_value p) = v then Finite 1 else Finite 0)) all_planes\<rparr>)"

definition state_collect :: "store \<Rightarrow> residency_id option \<Rightarrow> gauge_family list" where
  "state_collect st resident = [jobs_gauge st, plane_gauge resident]"

record gpu_reading =
  gr_used_bytes :: int
  gr_total_bytes :: int
  gr_utilization_ratio :: "rat option"

text \<open>
  The two telemetry libraries: each call answers or raises. The quotient by 100 is kept exact.
\<close>

record 'e gpu_libs =
  gl_nvml_init :: "'e + unit"
  gl_nvml_handle :: "'e + unit"
  gl_nvml_memory :: "'e + (int \<times> int)"
  gl_nvml_utilization :: "'e + int"
  gl_nvml_shutdown :: "'e + unit"
  gl_torch_available :: "'e + bool"
  gl_torch_mem_info :: "'e + (int \<times> int)"

text \<open>The \<open>finally\<close>: what \<open>nvmlShutdown\<close> raises replaces the reading.\<close>

definition nvml_sample :: "'e gpu_libs \<Rightarrow> 'e + gpu_reading" where
  "nvml_sample g =
     bindE (gl_nvml_init g) (\<lambda>_.
     (let reading = bindE (gl_nvml_handle g) (\<lambda>_. bindE (gl_nvml_memory g) (\<lambda>(used, total').
          mapE (\<lambda>gpu. \<lparr>gr_used_bytes = used, gr_total_bytes = total', gr_utilization_ratio = Some (of_int gpu / 100)\<rparr>)
            (gl_nvml_utilization g)))
      in bindE (gl_nvml_shutdown g) (\<lambda>_. reading)))"

definition torch_sample :: "'e gpu_libs \<Rightarrow> 'e + gpu_reading option" where
  "torch_sample g =
     bindE (gl_torch_available g) (\<lambda>available.
     if \<not> available then Inr None
     else mapE (\<lambda>(free, total'). Some \<lparr>gr_used_bytes = total' - free, gr_total_bytes = total', gr_utilization_ratio = None\<rparr>)
       (gl_torch_mem_info g))"

definition gpu_sample :: "'e gpu_libs \<Rightarrow> gpu_reading option" where
  "gpu_sample g = (case nvml_sample g of Inr x \<Rightarrow> Some x
     | Inl e \<Rightarrow> (case torch_sample g of Inr y \<Rightarrow> y | Inl e' \<Rightarrow> None))"

definition gpu_collect :: "('e + gpu_reading option) \<Rightarrow> gauge_family list" where
  "gpu_collect sampled = (case sampled of
     Inr (Some x) \<Rightarrow>
       [\<lparr>gf_name = ''cosmos3_gpu_memory_used_bytes'', gf_samples = [([], Finite (of_int (gr_used_bytes x)))]\<rparr>,
        \<lparr>gf_name = ''cosmos3_gpu_memory_total_bytes'', gf_samples = [([], Finite (of_int (gr_total_bytes x)))]\<rparr>]
       @ (case gr_utilization_ratio x of None \<Rightarrow> []
          | Some u \<Rightarrow> [\<lparr>gf_name = ''cosmos3_gpu_utilization_ratio'', gf_samples = [([], Finite u)]\<rparr>])
   | _ \<Rightarrow> [])"

text \<open>\<open>register_collectors\<close>: a scrape runs both collectors, and the endpoint answers what the client renders.\<close>

definition scrape :: "store \<Rightarrow> residency_id option \<Rightarrow> ('e + gpu_reading option) \<Rightarrow> gauge_family list" where
  "scrape st resident sampled = state_collect st resident @ gpu_collect sampled"

definition metrics_route :: "'b \<times> string \<Rightarrow> nat \<times> 'b \<times> string" where
  "metrics_route rendered = (200, fst rendered, snd rendered)"

section \<open>Lemmas\<close>

definition never_raises :: "('w, 'e) meter_lib \<Rightarrow> bool" where
  "never_raises lib \<longleftrightarrow> (\<forall>log c. call_typed c \<longrightarrow> ml_raises lib log c = None)"

lemma metric_call_ok: "never_raises lib \<Longrightarrow> call_typed c \<Longrightarrow> metric_call lib c m = (Inr (), m\<lparr>md_log := md_log m @ [c]\<rparr>)"
  by (simp add: metric_call_def never_raises_def)

lemma metric_call_world: "metric_call lib c m = (r, m') \<Longrightarrow> md_world m' = md_world m"
  by (auto simp: metric_call_def split: option.splits)

lemma metric_call_log: "metric_call lib c m = (r, m') \<Longrightarrow> md_log m' = md_log m \<or> md_log m' = md_log m @ [c]"
  by (auto simp: metric_call_def split: option.splits)

text \<open>Two calls in order: the world is untouched, and the log grows by a prefix of the two.\<close>

lemma two_calls:
  assumes "then_op (metric_call lib c) (\<lambda>_. metric_call lib d) m = (r, m')"
  shows "md_world m' = md_world m \<and> (\<exists>k. md_log m' = md_log m @ take k [c, d])"
  using assms
proof (cases rule: then_op_cases)
  case (stop e)
  then show ?thesis using metric_call_world metric_call_log by (metis append_Nil2 take_0 take_Suc_Cons)
next
  case (go x t)
  then have "md_log t = md_log m @ [c]" by (auto simp: metric_call_def split: option.splits)
  moreover have "md_log m' = md_log t @ take 0 [d] \<or> md_log m' = md_log t @ take 1 [d]"
    using metric_call_log [OF go(2)] by simp
  ultimately have "md_log m' = md_log m @ take 1 [c, d] \<or> md_log m' = md_log m @ take 2 [c, d]" by auto
  then show ?thesis using metric_call_world [OF go(1)] metric_call_world [OF go(2)] by metis
qed

lemma two_calls_ok:
  "never_raises lib \<Longrightarrow> call_typed c \<Longrightarrow> call_typed d \<Longrightarrow>
   then_op (metric_call lib c) (\<lambda>_. metric_call lib d) m = (Inr (), m\<lparr>md_log := md_log m @ [c, d]\<rparr>)"
  by (simp add: then_op_def metric_call_ok)

lemma count_job_ok:
  "never_raises lib \<Longrightarrow> count_job lib md out x m =
     (Inr (), m\<lparr>md_log := md_log m @ [Observe JobDuration [md, out] x, Inc JobTerminal [md, out]]\<rparr>)"
  by (simp add: count_job_def two_calls_ok build_metrics_def)

text \<open>Wrapping \<open>send\<close> changes nothing of a run but the status it remembers.\<close>

lemma run_wrapped:
  "run_asgi app (same_receive recv) (send_wrapper send) scope (c, w) =
     (case run_asgi app recv send scope w of (r, w1) \<Rightarrow> (r, (last_status c (sent_messages app recv send w), w1)))"
proof (induction app arbitrary: scope c w)
  case (Receives k)
  then show ?case by (cases "recv w") (simp add: same_receive_def)
next
  case (Sends msg k)
  then show ?case by (cases "send msg w"; cases msg) (simp_all add: send_wrapper_def)
qed auto

lemma metrics_middleware_http:
  assumes "sc_type scope = ''http''"
    and "run_asgi app recv send scope (md_world m) = ((r, scope1), w)"
  shows "metrics_middleware lib app recv send scope m =
    ((r, scope1), snd (then_op
       (metric_call lib (Inc HttpRequests [(case sc_method scope1 of None \<Rightarrow> ''UNKNOWN'' | Some v \<Rightarrow> v), route_template scope1,
          show_int (last_status 0 (sent_messages app recv send (md_world m)))]))
       (\<lambda>_. metric_call lib (Observe HttpDuration [(case sc_method scope1 of None \<Rightarrow> ''UNKNOWN'' | Some v \<Rightarrow> v),
          route_template scope1] (ml_elapsed lib (md_world m) w)))
       (m\<lparr>md_world := w\<rparr>)))"
  using assms by (simp add: metrics_middleware_def run_wrapped Let_def split: prod.split)

text \<open>\<open>Counter\<close> counts.\<close>

lemma counter_of_append: "counter_of (vs @ [v]) = dict_set v (Suc (count_of (counter_of vs) v)) (counter_of vs)"
  by (simp add: counter_of_def count_of_def)

lemma count_of_counter: "count_of (counter_of vs) v = count_list vs v"
proof (induction vs rule: rev_induct)
  case Nil
  then show ?case by (simp add: counter_of_def count_of_def)
next
  case (snoc u vs)
  then show ?case by (auto simp: counter_of_append count_of_def)
qed

lemma count_list_map_inj:
  "(\<And>x. f x = f q \<longleftrightarrow> x = q) \<Longrightarrow> count_list (map f xs) (f q) = length (filter (\<lambda>x. x = q) xs)"
  by (induction xs) auto

definition jobs_with :: "store \<Rightarrow> job_status \<Rightarrow> nat" where
  "jobs_with st q = length (filter (\<lambda>(i, r). jr_status r = q) (st_jobs st))"

lemma counted_jobs:
  "count_of (counter_of (map (\<lambda>(i, r). status_value (jr_status r)) (st_jobs st))) (status_value q) = jobs_with st q"
proof -
  have "map (\<lambda>(i, r). status_value (jr_status r)) (st_jobs st) = map status_value (map (\<lambda>(i, r). jr_status r) (st_jobs st))"
    by auto
  then show ?thesis
    by (simp only: count_of_counter count_list_map_inj [where f = status_value, OF status_value_inj])
       (simp add: jobs_with_def filter_map comp_def split_def)
qed

lemma statuses_total:
  fixes xs :: "(string \<times> job_record) list"
  shows "(\<Sum>q\<leftarrow>all_statuses. length (filter (\<lambda>(i, r). jr_status r = q) xs)) = length xs"
proof (induction xs)
  case (Cons a xs)
  then show ?case by (cases a; cases "jr_status (snd a)") (simp_all add: all_statuses_def)
qed (simp add: all_statuses_def)

lemma plane_value_inj: "plane_value p = plane_value q \<longleftrightarrow> p = q"
  by (cases p; cases q) (simp_all add: plane_value_def)

lemma plane_sample:
  "([plane_value p], Finite 1) \<in> set (gf_samples (plane_gauge resident)) \<longleftrightarrow> map_option rid_plane resident = Some p"
  by (cases p; cases resident; cases "rid_plane (the resident)") (simp_all add: plane_gauge_def all_planes_def plane_value_def)

text \<open>Metering leaves the manager's behaviour alone: its runs are the inner manager's runs.\<close>

lemma metered_step_inner: "metered_step s s' \<Longrightarrow> orch_step\<^sup>*\<^sup>* (mo_inner s) (mo_inner s')"
  by (induction rule: metered_step.induct) (auto simp: metered_acquire_def acquire_observed_def intro: call_acquire)

lemma metered_run_inner: "metered_step\<^sup>*\<^sup>* s s' \<Longrightarrow> orch_step\<^sup>*\<^sup>* (mo_inner s) (mo_inner s')"
  by (induction rule: rtranclp_induct) (auto dest: metered_step_inner)

interpretation acquire_log: step_invariant metered_step "\<lambda>s. list_all call_typed (mo_log s)"
  by unfold_locales (auto elim!: metered_step.cases simp: metered_acquire_def acquire_observed_def build_metrics_def)

lemma metered_work_log:
  "\<exists>cs. md_log (snd (metered_work lib inner record m)) = md_log m @ cs \<and> list_all call_typed cs"
proof -
  have c: "\<exists>cs. md_log m' = md_log m1 @ cs \<and> list_all call_typed cs"
    if "then_op (count_job lib md out x) (\<lambda>_. pure_op (\<lambda>_. f)) m1 = (r, m')" for md out x f r and m1 m' :: "'a metered"
  proof -
    have "\<exists>q. count_job lib md out x m1 = (q, m')"
      using that by (cases "count_job lib md out x m1"; cases "fst (count_job lib md out x m1)") (auto simp: then_op_def pure_op_def)
    then obtain k where "md_log m' = md_log m1 @ take k [Observe JobDuration [md, out] x, Inc JobTerminal [md, out]]"
      using two_calls unfolding count_job_def by blast
    moreover have "list_all call_typed (take k [Observe JobDuration [md, out] x, Inc JobTerminal [md, out]])"
      by (cases k; cases "k - 1") (simp_all add: build_metrics_def)
    ultimately show ?thesis by blast
  qed
  obtain r m1 where i: "inside (inner record) m = (r, m1)" by (cases "inside (inner record) m")
  then have l: "md_log m1 = md_log m" by (auto simp: inside_def split: prod.splits)
  obtain q m' where w: "metered_work lib inner record m = (q, m')" by (cases "metered_work lib inner record m")
  have "m' = m1 \<or> (\<exists>md out x f. then_op (count_job lib md out x) (\<lambda>_. pure_op (\<lambda>_. f)) m1 = (q, m'))"
    using w i by (cases r) (auto simp: metered_work_def split: if_splits)
  then show ?thesis using c l w by fastforce
qed

lemma middleware_calls:
  assumes run: "run_asgi app recv send scope (md_world m) = ((r, scope1), w)"
    and calls: "calls = (if sc_type scope = ''http'' then
       [Inc HttpRequests [(case sc_method scope1 of None \<Rightarrow> ''UNKNOWN'' | Some v \<Rightarrow> v), route_template scope1,
          show_int (last_status 0 (sent_messages app recv send (md_world m)))],
        Observe HttpDuration [(case sc_method scope1 of None \<Rightarrow> ''UNKNOWN'' | Some v \<Rightarrow> v), route_template scope1]
          (ml_elapsed lib (md_world m) w)] else [])"
  shows "\<exists>m'. metrics_middleware lib app recv send scope m = ((r, scope1), m') \<and> md_world m' = w \<and>
    (\<exists>k. md_log m' = md_log m @ take k calls) \<and> (never_raises lib \<longrightarrow> md_log m' = md_log m @ calls)"
proof (cases "sc_type scope = ''http''")
  case True
  let ?c = "calls ! 0" and ?d = "calls ! 1"
  obtain q m' where q: "then_op (metric_call lib ?c) (\<lambda>_. metric_call lib ?d) (m\<lparr>md_world := w\<rparr>) = (q, m')"
    by (cases "then_op (metric_call lib ?c) (\<lambda>_. metric_call lib ?d) (m\<lparr>md_world := w\<rparr>)")
  then have "metrics_middleware lib app recv send scope m = ((r, scope1), m')"
    using True metrics_middleware_http [OF True run, of lib] by (simp add: calls)
  moreover have "md_world m' = w" "\<exists>k. md_log m' = md_log m @ take k calls"
    using two_calls [OF q] True by (auto simp: calls)
  moreover have "never_raises lib \<Longrightarrow> md_log m' = md_log m @ calls"
    using q two_calls_ok [of lib ?c ?d] True by (auto simp: calls build_metrics_def)
  ultimately show ?thesis by blast
qed (use run in \<open>simp add: metrics_middleware_def calls\<close>)

lemma cancelled_job_counted:
  "never_raises lib \<Longrightarrow> inner record (md_world m) = (Inr res, w) \<Longrightarrow> i \<in> rn_cancelled s \<Longrightarrow>
   \<exists>x. md_log (snd (metered_work lib inner record m)) =
     md_log m @ [Observe JobDuration [jr_mode record, ''succeeded''] x, Inc JobTerminal [jr_mode record, ''succeeded'']] \<and>
   rn_store (work_returned i res s) = rn_store s"
  by (auto simp: metered_work_def inside_def then_op_def count_job_ok pure_op_def work_returned_def finish_process_def)

lemma unanswered_exception_counted_as_0:
  "never_raises lib \<Longrightarrow> sc_type scope = ''http'' \<Longrightarrow>
   \<exists>x verb. md_log (snd (metrics_middleware lib (Raises e) recv send scope m)) =
     md_log m @ [Inc HttpRequests [verb, route_template scope, show_int 0], Observe HttpDuration [verb, route_template scope] x]"
  by (auto simp: metrics_middleware_def two_calls_ok build_metrics_def Let_def)

section \<open>Properties\<close>

definition demo_meter :: "(nat, unit) meter_lib" where
  "demo_meter = \<lparr>ml_elapsed = (\<lambda>a b. Finite (of_nat (b - a))), ml_raises = (\<lambda>log c. None), ml_is_exception = (\<lambda>e. True)\<rparr>"

definition demo_metered :: "nat metered" where "demo_metered = \<lparr>md_world = 5, md_log = []\<rparr>"

definition demo_scope :: http_scope where
  "demo_scope = \<lparr>sc_type = ''http'', sc_method = Some ''GET'', sc_route_path = None\<rparr>"

definition demo_app :: "unit asgi_app" where
  "demo_app = Matched (Some (PStr ''/v1/jobs/{job_id}'')) (Sends (ResponseStart 404) (\<lambda>x. Sends (ResponseBody [] False) (\<lambda>y. Returns)))"

definition demo_send :: "(nat, unit) sender" where "demo_send msg w = (None, Suc w)"
definition demo_receive :: "(nat, unit) receiver" where "demo_receive w = (Inr PNone, w)"

text \<open>
  C27: The HTTP middleware is transparent and counts each request once: whatever the application
  receives, sends or raises, and whatever the metrics client does, the result, the messages sent and
  the world are those of the application alone. Of the two calls it owes a request it makes a prefix,
  and both when the client accepts them: the count under the matched route and the last status sent,
  0 when none was, and the duration.
\<close>

theorem middleware_transparent:
  assumes "run_asgi app recv send scope (md_world m) = ((r, scope1), w)"
    and "calls = (if sc_type scope = ''http'' then
       [Inc HttpRequests [(case sc_method scope1 of None \<Rightarrow> ''UNKNOWN'' | Some v \<Rightarrow> v), route_template scope1,
          show_int (last_status 0 (sent_messages app recv send (md_world m)))],
        Observe HttpDuration [(case sc_method scope1 of None \<Rightarrow> ''UNKNOWN'' | Some v \<Rightarrow> v), route_template scope1]
          (ml_elapsed lib (md_world m) w)] else [])"
  shows "\<exists>m'. metrics_middleware lib app recv send scope m = ((r, scope1), m') \<and> md_world m' = w \<and>
    (\<exists>k. md_log m' = md_log m @ take k calls) \<and> (never_raises lib \<longrightarrow> md_log m' = md_log m @ calls)"
  using assms by (rule middleware_calls)

theorem middleware_transparent_witness:
  "\<exists>m'. metrics_middleware demo_meter demo_app demo_receive demo_send demo_scope demo_metered =
      ((None, demo_scope\<lparr>sc_route_path := Some (PStr ''/v1/jobs/{job_id}'')\<rparr>), m') \<and> md_world m' = 7 \<and>
     md_log m' = [Inc HttpRequests [''GET'', ''/v1/jobs/{job_id}'', show_int 404], Observe HttpDuration [''GET'', ''/v1/jobs/{job_id}''] (Finite 2)]"
proof -
  have run: "run_asgi demo_app demo_receive demo_send demo_scope (md_world demo_metered) =
      ((None, demo_scope\<lparr>sc_route_path := Some (PStr ''/v1/jobs/{job_id}'')\<rparr>), 7)"
    by (simp add: demo_app_def demo_send_def demo_metered_def)
  show ?thesis
    using middleware_transparent [OF run refl, of demo_meter]
    by (auto simp: demo_app_def demo_send_def demo_metered_def demo_scope_def route_template_def never_raises_def demo_meter_def)
qed

text \<open>
  The metered work is the work: with a metrics client that accepts well-formed calls it gives the
  same result or exception and the same world, having observed the duration and counted the outcome
  once; an exception outside \<open>Exception\<close> passes uncounted.
\<close>

theorem metered_work_transparent:
  assumes "never_raises lib" and "inner record (md_world m) = (r, w)"
  shows "metered_work lib inner record m = (r, m\<lparr>md_world := w, md_log := md_log m @
    (if \<exists>e. r = Inl e \<and> \<not> ml_is_exception lib e then []
     else let outcome = (case r of Inl e \<Rightarrow> ''failed'' | Inr x \<Rightarrow> ''succeeded'') in
       [Observe JobDuration [jr_mode record, outcome] (ml_elapsed lib (md_world m) w), Inc JobTerminal [jr_mode record, outcome]])\<rparr>)"
  using assms by (cases r) (simp_all add: metered_work_def inside_def then_op_def count_job_ok pure_op_def Let_def)

theorem metered_work_transparent_witness:
  "metered_work demo_meter (\<lambda>r w. (Inl (), Suc w)) demo_job demo_metered = (Inl () :: unit + unit,
     \<lparr>md_world = 6, md_log = [Observe JobDuration [jr_mode demo_job, ''failed''] (Finite 1), Inc JobTerminal [jr_mode demo_job, ''failed'']]\<rparr>)"
  using metered_work_transparent [of demo_meter "\<lambda>r w. (Inl (), Suc w)" demo_job demo_metered "Inl () :: unit + unit" 6]
  by (simp add: never_raises_def demo_meter_def demo_metered_def Let_def)

text \<open>
  C28: Every call on a metric handle fits its declaration: whatever the middleware, the metered work
  and the metered manager record is an increment of a counter or an observation of a histogram, with
  one value per declared label.
\<close>

theorem metric_calls_typed:
  assumes "list_all call_typed (md_log m)" and "metered_step\<^sup>*\<^sup>* (new_metered_orch T) s"
  shows "list_all call_typed (md_log (snd (metrics_middleware lib app recv send scope m)))
    \<and> list_all call_typed (md_log (snd (metered_work lib inner record m))) \<and> list_all call_typed (mo_log s)"
proof (intro conjI)
  obtain r scope1 w where run: "run_asgi app recv send scope (md_world m) = ((r, scope1), w)" by (metis surj_pair)
  have typed: "list_all call_typed (take k [Inc HttpRequests [a, b, c], Observe HttpDuration [a, b] x])" for k a b c x
    by (cases k; cases "k - 1") (simp_all add: build_metrics_def)
  show "list_all call_typed (md_log (snd (metrics_middleware lib app recv send scope m)))"
    using middleware_calls [OF run refl, of lib] assms(1) typed by (auto simp: build_metrics_def split: if_splits)
  show "list_all call_typed (md_log (snd (metered_work lib inner record m)))"
    using metered_work_log [of lib inner "record" m] assms(1) by auto
  show "list_all call_typed (mo_log s)"
    using acquire_log.along_run [OF assms(2)] by (simp add: new_metered_orch_def)
qed

theorem metric_calls_typed_witness:
  "list_all call_typed (md_log (snd (metrics_middleware demo_meter demo_app demo_receive demo_send demo_scope demo_metered)))
    \<and> list_all call_typed (md_log (snd (metered_work demo_meter (\<lambda>r w. (Inr (), w)) demo_job demo_metered)))
    \<and> list_all call_typed (mo_log (metered_acquire 0 gen_rid (new_metered_orch 0)))"
proof (rule metric_calls_typed [where T = 0])
  show "metered_step\<^sup>*\<^sup>* (new_metered_orch 0) (metered_acquire 0 gen_rid (new_metered_orch 0))"
    by (rule r_into_rtranclp, rule ms_acquire) (simp_all add: new_metered_orch_def new_orchestrator_def)
qed (simp add: demo_metered_def)

text \<open>
  A scrape tells the truth: each job state's gauge is the number of jobs in that state, the gauges
  add up to the jobs stored, and in every reachable state of the manager a plane's gauge is 1 exactly
  when the recorded worker was made for that plane, so at most one is.
\<close>

theorem scrape_gauges_exact:
  assumes "orch_step\<^sup>*\<^sup>* (new_orchestrator T) s"
  shows "gf_samples (jobs_gauge st) = map (\<lambda>q. ([status_value q], Finite (of_nat (jobs_with st q)))) all_statuses
    \<and> (\<Sum>q\<leftarrow>all_statuses. jobs_with st q) = length (st_jobs st)
    \<and> (([plane_value p], Finite 1) \<in> set (gf_samples (plane_gauge (oc_slot s))) \<longleftrightarrow>
        (\<exists>w r. oc_worker s = Some w \<and> oc_made s w = Some r \<and> rid_plane r = p))"
proof (intro conjI)
  show "([plane_value p], Finite 1) \<in> set (gf_samples (plane_gauge (oc_slot s))) \<longleftrightarrow>
      (\<exists>w r. oc_worker s = Some w \<and> oc_made s w = Some r \<and> rid_plane r = p)"
    using recorded_worker [OF assms] by (cases "oc_worker s") (auto simp: plane_sample)
qed (simp_all add: jobs_gauge_def counted_jobs jobs_with_def statuses_total)

theorem scrape_gauges_exact_witness:
  "gf_samples (jobs_gauge (demo_store demo_job [])) = [([''queued''], Finite 1), ([''running''], Finite 0),
      ([''succeeded''], Finite 0), ([''failed''], Finite 0), ([''cancelled''], Finite 0)]
   \<and> ([''reasoning''], Finite 1) \<notin> set (gf_samples (plane_gauge (oc_slot started)))"
  using scrape_gauges_exact [OF started_run, of "demo_store demo_job []" REASONING]
  by (simp add: started_state jobs_with_def demo_store_def demo_job_def new_job_def all_statuses_def status_value_def plane_value_def)

end
