(* ===== verification/App_Wiring.thy ===== *)
theory App_Wiring
  imports Submission Observability
begin

text \<open>
  The assembly of the service: readiness (\<open>api/app/readiness.py\<close>, \<open>health.py\<close>) and \<open>api/app/main.py\<close>, that is
  logging, the choice of the generation engine, the worker factory, the configuration read when the
  app is built, and the lifespan that starts and stops the runner and the manager.
\<close>

section \<open>Readiness and health\<close>

record warmup_state =
  wu_warmed_up :: bool

definition cold_start :: warmup_state where "cold_start = \<lparr>wu_warmed_up = False\<rparr>"

definition mark_warmed :: "warmup_state \<Rightarrow> warmup_state" where "mark_warmed s = s\<lparr>wu_warmed_up := True\<rparr>"

definition is_ready :: "warmup_state \<Rightarrow> bool" where "is_ready s = wu_warmed_up s"

definition readiness_payload :: "warmup_state \<Rightarrow> health_status" where
  "readiness_payload s = (if wu_warmed_up s then \<lparr>hs_status = ''ready'', hs_detail = None\<rparr>
     else \<lparr>hs_status = ''warming'', hs_detail = Some ''model/route warmup in progress''\<rparr>)"

definition liveness_payload :: health_status where "liveness_payload = \<lparr>hs_status = ''live'', hs_detail = None\<rparr>"

definition live_route :: "nat \<times> health_status" where "live_route = (200, liveness_payload)"

definition ready_route :: "warmup_state \<Rightarrow> nat \<times> health_status" where
  "ready_route s = (if \<not> is_ready s then 503 else 200, readiness_payload s)"

section \<open>Logging\<close>

record py_logger =
  lg_handlers :: nat
  lg_propagate :: bool
  lg_level :: string

text \<open>The level names \<open>setLevel\<close> knows; any other string is a \<open>ValueError\<close>.\<close>

definition LOG_LEVELS :: "string list" where
  "LOG_LEVELS = [''CRITICAL'', ''FATAL'', ''ERROR'', ''WARN'', ''WARNING'', ''INFO'', ''DEBUG'', ''NOTSET'']"

definition configure_logging :: "(string, string) dict \<Rightarrow> (py_logger, py_exc, unit) op" where
  "configure_logging environ lg =
     (let lg1 = (if lg_handlers lg = 0 then lg\<lparr>lg_handlers := 1, lg_propagate := False\<rparr> else lg);
          level = str_upper (environ_get environ ''COSMOS3_LOG_LEVEL'' ''INFO'')
      in if level \<in> set LOG_LEVELS then (Inr (), lg1\<lparr>lg_level := level\<rparr>) else (Inl ValueError, lg1))"

section \<open>The edge tokenizer\<close>

text \<open>\<open>load\<close> stands for importing \<open>transformers\<close> and \<open>from_pretrained\<close>; what it raises is masked.\<close>

definition load_edge_tokenizer ::
  "(pyfloat \<Rightarrow> string) \<Rightarrow> (string \<Rightarrow> py_exc + pyfloat) \<Rightarrow> (string \<Rightarrow> 'e + 't) \<Rightarrow> (string, string) dict \<Rightarrow> 't option" where
  "load_edge_tokenizer show_float parse_float load environ =
     (if environ_get environ ''COSMOS3_REASONER_TOKENIZER'' ''1'' = ''0'' then None
      else (case reasoner_from_env show_float parse_float environ of
        Inl e \<Rightarrow> None
      | Inr cfg \<Rightarrow> (case load (rc_model_dir cfg) of Inl e \<Rightarrow> None | Inr t \<Rightarrow> Some t)))"

section \<open>The generation engine and the worker factory\<close>

definition GEN_ENGINES :: "string list" where "GEN_ENGINES = [''diffusers'', ''vllm_omni'']"

datatype boot_exc = UnknownEngine message | BadEnviron py_exc

definition gen_engine :: "(string, string) dict \<Rightarrow> boot_exc + string" where
  "gen_engine environ =
     (let engine = environ_get environ ''COSMOS3_GEN_ENGINE'' ''vllm_omni''
      in if engine \<notin> set GEN_ENGINES then
           Inl (UnknownEngine [MLit ''COSMOS3_GEN_ENGINE='', MRepr engine, MLit '' must be one of '', MStrs GEN_ENGINES])
         else Inr engine)"

text \<open>The two works the runner can be given: \<open>vllm_omni_work\<close> and \<open>gen_client.work\<close>.\<close>

datatype gen_seam = VllmOmniWork | GenPlaneWork

definition select_gen_work :: "(string, string) dict \<Rightarrow> boot_exc + gen_seam" where
  "select_gen_work environ = mapE (\<lambda>e. if e = ''vllm_omni'' then VllmOmniWork else GenPlaneWork) (gen_engine environ)"

datatype built_worker = ContainerWorker plane_spec string | SubprocessWorker plane_spec

definition default_worker_factory :: "string \<Rightarrow> (string, string) dict \<Rightarrow> residency_id \<Rightarrow> boot_exc + built_worker" where
  "default_worker_factory sys_executable environ target =
     (if rid_plane target = REASONING then
        Inr (ContainerWorker
          (container_reasoning_spec (environ_get environ ''COSMOS3_VLLM_REASONER_URL'' ''http://vllm-reasoner:8000'') ''/v1/models'')
          (environ_get environ ''COSMOS3_REASONER_CONTAINER'' ''cosmos3-nano-webui-vllm-reasoner''))
      else bindE (gen_engine environ) (\<lambda>engine.
        if engine = ''vllm_omni'' then
          Inr (let ep = endpoint_for environ
               in ContainerWorker (container_generation_spec (oe_base_url ep) ''/v1/models'') (oe_container ep))
        else
          Inr (SubprocessWorker (generation_spec sys_executable
            (environ_get environ ''COSMOS3_GEN_READY_FILE'' ''/tmp/cosmos3_gen_ready'') None ''orchestrator.gen_worker''
            (Some (environ_get environ ''COSMOS3_MODEL_DIR'' ''/data/models/Cosmos3-Nano-FP8-Blockwise''))))))"

section \<open>Building the app\<close>

record 't app_config =
  ap_idle_timeout :: pyfloat
  ap_ready_timeout :: pyfloat
  ap_cap :: context_cap
  ap_tokenizer :: "'t option"
  ap_heartbeat :: pyfloat
  ap_work :: gen_seam

text \<open>What \<open>create_app\<close> reads of the environment, in its order.\<close>

definition create_app ::
  "(pyfloat \<Rightarrow> string) \<Rightarrow> (string \<Rightarrow> py_exc + pyfloat) \<Rightarrow> (string \<Rightarrow> 'e + 't) \<Rightarrow> (string, string) dict \<Rightarrow> gen_seam
     \<Rightarrow> boot_exc + 't app_config" where
  "create_app show_float parse_float load environ job_work = map_errE BadEnviron
     (bindE (parse_float (environ_get environ ''COSMOS3_IDLE_TIMEOUT_SECONDS'' ''1800'')) (\<lambda>idle_timeout.
      bindE (parse_float (environ_get environ ''COSMOS3_PLANE_READY_TIMEOUT'' ''1800'')) (\<lambda>ready_timeout.
      bindE (cap_from_env environ) (\<lambda>cap.
      let tokenizer = load_edge_tokenizer show_float parse_float load environ in
      mapE (\<lambda>heartbeat. \<lparr>ap_idle_timeout = idle_timeout, ap_ready_timeout = ready_timeout, ap_cap = cap,
          ap_tokenizer = tokenizer, ap_heartbeat = heartbeat, ap_work = job_work\<rparr>)
        (parse_float (environ_get environ ''COSMOS3_SSE_HEARTBEAT_SECONDS'' ''15''))))))"

text \<open>Importing \<open>app.main\<close>.\<close>

definition boot ::
  "(pyfloat \<Rightarrow> string) \<Rightarrow> (string \<Rightarrow> py_exc + pyfloat) \<Rightarrow> (string \<Rightarrow> 'e + 't) \<Rightarrow> (string, string) dict
     \<Rightarrow> (py_logger, boot_exc, 't app_config) op" where
  "boot show_float parse_float load environ =
     then_op (\<lambda>lg. case configure_logging environ lg of (r, lg1) \<Rightarrow> (map_errE BadEnviron r, lg1)) (\<lambda>_.
     pure_op (\<lambda>_. bindE (select_gen_work environ) (create_app show_float parse_float load environ)))"

section \<open>Lemmas\<close>

definition env_level :: "(string, string) dict \<Rightarrow> string" where
  "env_level environ = str_upper (environ_get environ ''COSMOS3_LOG_LEVEL'' ''INFO'')"

definition env_engine :: "(string, string) dict \<Rightarrow> string" where
  "env_engine environ = environ_get environ ''COSMOS3_GEN_ENGINE'' ''vllm_omni''"

lemma gen_engine_Inr: "gen_engine environ = Inr e \<longleftrightarrow> e = env_engine environ \<and> env_engine environ \<in> set GEN_ENGINES"
  by (auto simp: gen_engine_def env_engine_def Let_def)

lemma select_gen_work_Inr:
  "select_gen_work environ = Inr w \<longleftrightarrow> env_engine environ \<in> set GEN_ENGINES \<and>
     w = (if env_engine environ = ''vllm_omni'' then VllmOmniWork else GenPlaneWork)"
  by (auto simp: select_gen_work_def gen_engine_Inr result_simps)

lemma configure_logging_Inr:
  "configure_logging environ lg = (Inr (), lg1) \<longleftrightarrow> env_level environ \<in> set LOG_LEVELS \<and>
     lg1 = (if lg_handlers lg = 0 then lg\<lparr>lg_handlers := 1, lg_propagate := False\<rparr> else lg)\<lparr>lg_level := env_level environ\<rparr>"
  by (auto simp: configure_logging_def env_level_def Let_def)

text \<open>The numbers the app reads, by the variable that holds them.\<close>

definition env_floats :: "(string, string) dict \<Rightarrow> string list" where
  "env_floats environ = [environ_get environ ''COSMOS3_IDLE_TIMEOUT_SECONDS'' ''1800'',
     environ_get environ ''COSMOS3_PLANE_READY_TIMEOUT'' ''1800'', environ_get environ ''COSMOS3_SSE_HEARTBEAT_SECONDS'' ''15'']"

lemma create_app_Inr:
  "(\<exists>cfg. create_app show_float parse_float load environ work = Inr cfg) \<longleftrightarrow>
     (\<forall>v\<in>set (env_floats environ). \<exists>x. parse_float v = Inr x) \<and> (\<exists>cap. cap_from_env environ = Inr cap)"
  by (auto simp: create_app_def env_floats_def result_simps Let_def)

lemma create_app_work: "create_app show_float parse_float load environ work = Inr cfg \<Longrightarrow> ap_work cfg = work"
  by (auto simp: create_app_def result_simps Let_def)

lemma boot_Inr:
  "boot show_float parse_float load environ lg = (Inr cfg, lg1) \<longleftrightarrow> configure_logging environ lg = (Inr (), lg1) \<and>
     (\<exists>w. select_gen_work environ = Inr w \<and> create_app show_float parse_float load environ w = Inr cfg)"
  by (cases "configure_logging environ lg") (auto simp: boot_def then_op_Inr pure_op_eq result_simps split: prod.splits)

lemma boot_ok:
  "(\<exists>cfg lg1. boot show_float parse_float load environ lg = (Inr cfg, lg1)) \<longleftrightarrow>
     env_level environ \<in> set LOG_LEVELS \<and> env_engine environ \<in> set GEN_ENGINES \<and>
     (\<forall>v\<in>set (env_floats environ). \<exists>x. parse_float v = Inr x) \<and> (\<exists>cap. cap_from_env environ = Inr cap)"
  unfolding boot_Inr configure_logging_Inr select_gen_work_Inr
  using create_app_Inr [of show_float parse_float load environ
      "if env_engine environ = ''vllm_omni'' then VllmOmniWork else GenPlaneWork"] by auto

definition worker_spec :: "built_worker \<Rightarrow> plane_spec" where
  "worker_spec w = (case w of ContainerWorker s name \<Rightarrow> s | SubprocessWorker s \<Rightarrow> s)"

section \<open>Properties\<close>

definition demo_parse :: "string \<Rightarrow> py_exc + pyfloat" where
  "demo_parse s = (case parse_int s of None \<Rightarrow> Inl ValueError | Some i \<Rightarrow> Inr (Finite (of_int i)))"

definition demo_logger :: py_logger where "demo_logger = \<lparr>lg_handlers = 0, lg_propagate = True, lg_level = ''WARNING''\<rparr>"

lemmas parse_simps = parse_int_def strip_def is_space_def parse_unsigned_def digit_val_def

definition demo_environ :: "string \<Rightarrow> (string, string) dict" where
  "demo_environ engine = [(''COSMOS3_GEN_ENGINE'', engine), (''COSMOS3_REASONER_MAX_CONTEXT'', ''4096''), (''COSMOS3_REASONER_MAX_OUTPUT'', ''1024'')]"

lemma demo_environ_sound:
  "engine \<in> set GEN_ENGINES \<Longrightarrow> env_level (demo_environ engine) \<in> set LOG_LEVELS \<and> env_engine (demo_environ engine) = engine \<and>
     (\<forall>v\<in>set (env_floats (demo_environ engine)). \<exists>x. demo_parse v = Inr x) \<and> (\<exists>cap. cap_from_env (demo_environ engine) = Inr cap)"
proof -
  have "parse_int ''1800'' = Some 1800" "parse_int ''15'' = Some 15" "parse_int ''4096'' = Some 4096" "parse_int ''1024'' = Some 1024"
    by (simp_all add: parse_simps)
  moreover have "str_upper ''INFO'' = ''INFO''" by code_simp
  ultimately show ?thesis
    by (simp add: demo_environ_def env_level_def env_engine_def env_floats_def environ_get_def demo_parse_def cap_from_env_def py_int_def LOG_LEVELS_def)
qed

text \<open>
  The service starts exactly under a sound configuration: importing the app raises iff the log level
  or the generation engine is unknown, or one of the timeouts or token caps does not parse. Nothing
  else in the environment, the tokenizer included, keeps it from starting.
\<close>

theorem startup_exact:
  "(\<exists>cfg lg1. boot show_float parse_float load environ lg = (Inr cfg, lg1)) \<longleftrightarrow>
     env_level environ \<in> set LOG_LEVELS \<and> env_engine environ \<in> set GEN_ENGINES \<and>
     (\<forall>v\<in>set (env_floats environ). \<exists>x. parse_float v = Inr x) \<and> (\<exists>cap. cap_from_env environ = Inr cap)"
  by (rule boot_ok)

theorem startup_exact_witness:
  "\<exists>cfg lg1. boot (\<lambda>x. []) demo_parse (\<lambda>d. Inl () :: unit + unit) (demo_environ ''vllm_omni'') demo_logger = (Inr cfg, lg1)"
  using startup_exact [of "\<lambda>x. []" demo_parse "\<lambda>d. Inl () :: unit + unit" "demo_environ ''vllm_omni''" demo_logger]
    demo_environ_sound [of "''vllm_omni''"] by (simp add: GEN_ENGINES_def)

text \<open>
  The two seams of the generation engine agree: in a service that has started, the factory makes a
  worker for every identity, of the plane asked for, and the generation worker is the container
  exactly when the runner's work is the container's client. Containers have no command line and are
  probed over HTTP; the logger has one level and its handler once, however often it is configured.
\<close>

theorem engine_seams_agree:
  assumes "boot show_float parse_float load environ lg = (Inr cfg, lg1)"
  shows "(\<exists>w. default_worker_factory exe environ target = Inr w \<and> ps_plane (worker_spec w) = rid_plane target \<and>
      (rid_plane target = GENERATION \<longrightarrow> ((\<exists>sp name. w = ContainerWorker sp name) \<longleftrightarrow> ap_work cfg = VllmOmniWork)) \<and>
      (\<forall>sp name. w = ContainerWorker sp name \<longrightarrow> ps_argv sp = [] \<and> ps_probe_kind sp = HTTP)) \<and>
    lg_handlers lg1 = max 1 (lg_handlers lg) \<and> configure_logging environ lg1 = (Inr (), lg1)"
proof (intro conjI)
  obtain w where log: "configure_logging environ lg = (Inr (), lg1)" and w: "select_gen_work environ = Inr w" and "ap_work cfg = w"
    using assms unfolding boot_Inr using create_app_work by blast
  then show "\<exists>w. default_worker_factory exe environ target = Inr w \<and> ps_plane (worker_spec w) = rid_plane target \<and>
      (rid_plane target = GENERATION \<longrightarrow> ((\<exists>sp name. w = ContainerWorker sp name) \<longleftrightarrow> ap_work cfg = VllmOmniWork)) \<and>
      (\<forall>sp name. w = ContainerWorker sp name \<longrightarrow> ps_argv sp = [] \<and> ps_probe_kind sp = HTTP)"
    using gen_engine_Inr [of environ "env_engine environ"]
    by (cases "rid_plane target") (auto simp: default_worker_factory_def select_gen_work_Inr worker_spec_def Let_def
        container_reasoning_spec_def container_generation_spec_def generation_spec_def)
  show "lg_handlers lg1 = max 1 (lg_handlers lg)" "configure_logging environ lg1 = (Inr (), lg1)"
    using log by (auto simp: configure_logging_Inr)
qed

theorem engine_seams_agree_witness:
  "\<exists>cfg :: unit app_config. ap_work cfg = GenPlaneWork \<and>
     (\<exists>sp. default_worker_factory ''/usr/bin/python'' (demo_environ ''diffusers'') \<lparr>rid_plane = GENERATION, rid_label = None\<rparr>
       = Inr (SubprocessWorker sp) \<and> ps_plane sp = GENERATION)"
proof -
  have e: "''diffusers'' \<in> set GEN_ENGINES" by (simp add: GEN_ENGINES_def)
  then obtain cfg :: "unit app_config" and lg1 where
    b: "boot (\<lambda>x. []) demo_parse (\<lambda>d. Inl () :: unit + unit) (demo_environ ''diffusers'') demo_logger = (Inr cfg, lg1)"
    using demo_environ_sound [OF e] e
      boot_ok [of "\<lambda>x. []" demo_parse "\<lambda>d. Inl () :: unit + unit" "demo_environ ''diffusers''" demo_logger] by auto
  have "ap_work cfg = GenPlaneWork"
    using b demo_environ_sound [OF e] create_app_work unfolding boot_Inr select_gen_work_Inr by fastforce
  moreover obtain w where "default_worker_factory ''/usr/bin/python'' (demo_environ ''diffusers'') \<lparr>rid_plane = GENERATION, rid_label = None\<rparr> = Inr w"
    "ps_plane (worker_spec w) = GENERATION" "(\<exists>sp name. w = ContainerWorker sp name) \<longleftrightarrow> ap_work cfg = VllmOmniWork"
    using engine_seams_agree [OF b, of "''/usr/bin/python''" "\<lparr>rid_plane = GENERATION, rid_label = None\<rparr>"] by auto
  ultimately show ?thesis by (cases w) (auto simp: worker_spec_def)
qed

end
