(* ===== verification/App_Lifespan.thy ===== *)
theory App_Lifespan
  imports App_Wiring
begin

text \<open>
  The running service (\<open>lifespan\<close> in \<open>api/app/main.py\<close>): the warmup task, the runner and the manager side
  by side, and the shutdown that cancels the warmup, stops the runner and frees the slot. One step is
  a step of one of them, or the lifespan coroutine's stretch between two awaits.
\<close>

section \<open>Steps\<close>

datatype 'e warm_task = WarmPending | WarmReturned | WarmCancelled | WarmRaised 'e

text \<open>\<open>Down\<close> is how the lifespan ended: the outcome of \<open>evict_all\<close>, or the warmup's exception.\<close>

datatype 'e life = Serving | AwaitWarm | EvictingAll task | Down task_result | WarmupError 'e

record 'e service =
  sv_life :: "'e life"
  sv_ready :: warmup_state
  sv_warm :: "'e warm_task"
  sv_runner :: runner
  sv_orch :: orch

definition start_service :: "int \<Rightarrow> 'e service" where
  "start_service timeout = \<lparr>sv_life = Serving, sv_ready = cold_start, sv_warm = WarmPending,
     sv_runner = new_runner, sv_orch = new_orchestrator timeout\<rparr>"

definition warm_done :: "'e service \<Rightarrow> 'e service" where
  "warm_done s = s\<lparr>sv_ready := mark_warmed (sv_ready s), sv_warm := WarmReturned\<rparr>"

text \<open>\<open>task.cancel()\<close>: a task that is over stays as it ended.\<close>

definition cancel_warm :: "'e service \<Rightarrow> 'e service" where
  "cancel_warm s = s\<lparr>sv_life := AwaitWarm, sv_warm := (case sv_warm s of WarmPending \<Rightarrow> WarmCancelled | x \<Rightarrow> x)\<rparr>"

definition awaited_warm :: "task \<Rightarrow> 'e service \<Rightarrow> 'e service" where
  "awaited_warm t s = (case sv_warm s of
     WarmRaised e \<Rightarrow> s\<lparr>sv_life := WarmupError e\<rparr>
   | _ \<Rightarrow> s\<lparr>sv_life := EvictingAll t, sv_runner := stop_loop (sv_runner s), sv_orch := goto t AllLock (sv_orch s)\<rparr>)"

text \<open>
  The manager moves; when that ends the \<open>evict_all\<close> the lifespan awaits, the lifespan ends with it.
\<close>

definition orch_moves :: "orch \<Rightarrow> 'e service \<Rightarrow> 'e service" where
  "orch_moves o1 s = s\<lparr>sv_orch := o1, sv_life := (case sv_life s of
     EvictingAll t \<Rightarrow> (case oc_pc o1 t of Some (Finished res) \<Rightarrow> Down res | _ \<Rightarrow> EvictingAll t)
   | l \<Rightarrow> l)\<rparr>"

inductive service_step :: "(string \<Rightarrow> params \<Rightarrow> string) \<Rightarrow> 'e service \<Rightarrow> 'e service \<Rightarrow> bool"
  for fpr :: "string \<Rightarrow> params \<Rightarrow> string" where
  sv_warmed: "sv_warm s = WarmPending \<Longrightarrow> service_step fpr s (warm_done s)"
| sv_warm_raises: "sv_warm s = WarmPending \<Longrightarrow> service_step fpr s (s\<lparr>sv_warm := WarmRaised e\<rparr>)"
| sv_job: "runner_step fpr (sv_runner s) r \<Longrightarrow> service_step fpr s (s\<lparr>sv_runner := r\<rparr>)"
| sv_plane: "orch_step (sv_orch s) o1 \<Longrightarrow> service_step fpr s (orch_moves o1 s)"
| sv_shutdown: "sv_life s = Serving \<Longrightarrow> service_step fpr s (cancel_warm s)"
| sv_awaited: "sv_life s = AwaitWarm \<Longrightarrow> sv_warm s \<noteq> WarmPending \<Longrightarrow> oc_pc (sv_orch s) t = None \<Longrightarrow>
    service_step fpr s (awaited_warm t s)"

section \<open>Invariants\<close>

definition service_inv :: "int \<Rightarrow> (string \<Rightarrow> params \<Rightarrow> string) \<Rightarrow> 'e service \<Rightarrow> bool" where
  "service_inv timeout fpr s \<longleftrightarrow>
     orch_step\<^sup>*\<^sup>* (new_orchestrator timeout) (sv_orch s) \<and> (runner_step fpr)\<^sup>*\<^sup>* new_runner (sv_runner s) \<and>
     (wu_warmed_up (sv_ready s) \<longleftrightarrow> sv_warm s = WarmReturned) \<and>
     (\<forall>t. sv_life s = EvictingAll t \<longrightarrow> (\<exists>pc. oc_pc (sv_orch s) t = Some pc \<and> pc \<in> {AllLock, AllEvict}) \<and> rn_pc (sv_runner s) = Stopped) \<and>
     (\<forall>res. sv_life s = Down res \<longrightarrow> rn_pc (sv_runner s) = Stopped)"

lemma cancel_finish_pc: "cancel_finish i s = Inr (r, s1) \<Longrightarrow> rn_pc s1 = rn_pc s"
  by (auto simp: cancel_finish_def modify_def emit_def result_simps)

lemma cancel_call_pc: "cancel_call i s = (a, s1) \<Longrightarrow> rn_pc s1 = rn_pc s"
  by (auto simp: cancel_call_def Let_def split: sum.splits if_splits prod.splits dest!: cancel_finish_pc)

lemma cancel_resume_pc: "rn_pc (cancel_resume c i s) = rn_pc s"
  by (auto simp: cancel_resume_def Let_def split: sum.splits prod.splits dest!: cancel_finish_pc)

lemma cancel_lost_pc: "rn_pc (cancel_lost c i s) = rn_pc s"
  by (simp add: cancel_lost_def)

lemma stopped_stays: "runner_step fpr s s' \<Longrightarrow> rn_pc s = Stopped \<Longrightarrow> rn_pc s' = Stopped"
  by (induction rule: runner_step.induct)
     (auto simp: enqueue_def report_update_def report_append_def emit_def modify_def cancel_resume_pc cancel_lost_pc stop_loop_def result_simps
       split: sum.splits prod.splits option.splits dest!: cancel_call_pc)

text \<open>An eviction task ends with success only by freeing the slot.\<close>

lemma evict_all_step:
  assumes "orch_step o1 o2" "oc_pc o1 t = Some pc" "pc \<in> {AllLock, AllEvict}"
  shows "(\<exists>pc'. oc_pc o2 t = Some pc' \<and> (pc' \<in> {AllLock, AllEvict} \<or> pc' \<in> Finished ` {Raised, WasCancelled} \<or>
      pc' = Finished Returned \<and> oc_slot o2 = None \<and> oc_worker o2 = None))"
  using assms
  by (cases rule: orch_step.cases)
     (auto simp: stretch_defs goto_def finish_def loading_def Let_def split: if_splits option.splits)

lemma service_inv_step:
  assumes "service_step fpr s s'" "service_inv timeout fpr s"
  shows "service_inv timeout fpr s'"
  using assms
proof (cases rule: service_step.cases)
  case (sv_job r)
  then show ?thesis using assms(2)
    by (auto simp: service_inv_def dest: stopped_stays intro: rtranclp.rtrancl_into_rtrancl)
next
  case (sv_plane o1)
  have run: "orch_step\<^sup>*\<^sup>* (new_orchestrator timeout) o1"
    using sv_plane(2) assms(2) by (auto simp: service_inv_def intro: rtranclp.rtrancl_into_rtrancl)
  show ?thesis
  proof (cases "sv_life s")
    case (EvictingAll t)
    then obtain pc where "oc_pc (sv_orch s) t = Some pc" "pc \<in> {AllLock, AllEvict}" using assms(2) by (auto simp: service_inv_def)
    from evict_all_step [OF sv_plane(2) this] show ?thesis
      using run assms(2) EvictingAll sv_plane(1) by (auto simp: service_inv_def orch_moves_def split: orch_pc.splits)
  qed (use run assms(2) sv_plane(1) in \<open>auto simp: service_inv_def orch_moves_def\<close>)
next
  case (sv_awaited t)
  have "orch_step (sv_orch s) (goto t AllLock (sv_orch s))" using sv_awaited(4) by (rule call_evict_all)
  moreover have "runner_step fpr (sv_runner s) (stop_loop (sv_runner s))" by (rule rs_stop)
  moreover have "rn_pc (stop_loop (sv_runner s)) = Stopped" by (simp add: stop_loop_def split: option.split)
  ultimately show ?thesis using assms(2) sv_awaited(1)
    by (auto simp: service_inv_def awaited_warm_def goto_def split: warm_task.split intro: rtranclp.rtrancl_into_rtrancl)
qed (auto simp: service_inv_def warm_done_def mark_warmed_def cancel_warm_def split: warm_task.splits)

interpretation service: step_invariant "service_step fpr" "service_inv timeout fpr" for fpr timeout
  by unfold_locales (rule service_inv_step)

lemma service_reachable:
  "(service_step fpr)\<^sup>*\<^sup>* (start_service timeout) s \<Longrightarrow> service_inv timeout fpr s"
  by (rule service.along_run) (auto simp: service_inv_def start_service_def cold_start_def)

text \<open>Down without an exception is entered only by the manager's step that frees the slot.\<close>

lemma goes_down:
  assumes "service_step fpr s s'" "service_inv timeout fpr s" "sv_life s \<noteq> Down Returned" "sv_life s' = Down Returned"
  shows "oc_slot (sv_orch s') = None \<and> oc_worker (sv_orch s') = None \<and> rn_pc (sv_runner s') = Stopped"
  using assms
proof (cases rule: service_step.cases)
  case (sv_plane o1)
  then obtain t where t: "sv_life s = EvictingAll t" "oc_pc o1 t = Some (Finished Returned)"
    using assms(3,4) by (auto simp: orch_moves_def split: life.splits option.splits orch_pc.splits)
  then obtain pc where "oc_pc (sv_orch s) t = Some pc" "pc \<in> {AllLock, AllEvict}" "rn_pc (sv_runner s) = Stopped"
    using assms(2) by (auto simp: service_inv_def)
  then show ?thesis using evict_all_step [OF sv_plane(2)] t(2) sv_plane(1) by (fastforce simp: orch_moves_def)
qed (auto simp: warm_done_def cancel_warm_def awaited_warm_def split: warm_task.splits)

text \<open>A warmup that raised ends the lifespan before the runner is stopped and the slot freed.\<close>

lemma failed_warmup_skips_shutdown:
  "sv_life s = AwaitWarm \<Longrightarrow> sv_warm s = WarmRaised e \<Longrightarrow> oc_pc (sv_orch s) t = None \<Longrightarrow>
   service_step fpr s (s\<lparr>sv_life := WarmupError e\<rparr>)"
  using sv_awaited [of s t fpr] by (simp add: awaited_warm_def)

section \<open>Properties\<close>

text \<open>
  Readiness follows the warmup: while the service runs, its ready route answers 200 and \<open>ready\<close>
  exactly when the warmup task has returned, 503 and \<open>warming\<close> otherwise, also when the warmup raised
  or was cancelled; and once ready it stays ready.
\<close>

theorem readiness_follows_warmup:
  assumes "(service_step fpr)\<^sup>*\<^sup>* (start_service timeout) s" and "service_step fpr s s'"
  shows "(if sv_warm s = WarmReturned then fst (ready_route (sv_ready s)) = 200 \<and> hs_status (snd (ready_route (sv_ready s))) = ''ready''
      else fst (ready_route (sv_ready s)) = 503 \<and> hs_status (snd (ready_route (sv_ready s))) = ''warming'')
    \<and> (fst (ready_route (sv_ready s)) = 200 \<longrightarrow> fst (ready_route (sv_ready s')) = 200)"
proof -
  have "wu_warmed_up (sv_ready s) \<longleftrightarrow> sv_warm s = WarmReturned"
    using service_reachable [OF assms(1)] by (simp add: service_inv_def)
  moreover have "wu_warmed_up (sv_ready s) \<Longrightarrow> wu_warmed_up (sv_ready s')"
    using assms(2) by (cases rule: service_step.cases)
      (auto simp: warm_done_def mark_warmed_def orch_moves_def cancel_warm_def awaited_warm_def split: warm_task.splits)
  ultimately show ?thesis by (simp add: ready_route_def is_ready_def readiness_payload_def)
qed

theorem readiness_follows_warmup_witness:
  "fst (ready_route (sv_ready (start_service 0 :: unit service))) = 503"
proof -
  have "service_step (\<lambda>m ps. m) (start_service 0 :: unit service) (warm_done (start_service 0))"
    by (rule sv_warmed) (simp add: start_service_def)
  from readiness_follows_warmup [OF rtranclp.rtrancl_refl this] show ?thesis by (simp add: start_service_def)
qed

text \<open>
  C26: Shutdown frees the GPU: whatever jobs and planes do meanwhile, when the lifespan ends without an
  exception the drain loop is stopped and the manager records no worker and no resident plane.
\<close>

theorem shutdown_frees_plane:
  assumes "(service_step fpr)\<^sup>*\<^sup>* (start_service timeout) s" and "service_step fpr s s'"
    and "sv_life s \<noteq> Down Returned" and "sv_life s' = Down Returned"
  shows "oc_slot (sv_orch s') = None \<and> oc_worker (sv_orch s') = None \<and> rn_pc (sv_runner s') = Stopped"
  using assms(2) service_reachable [OF assms(1)] assms(3,4) by (rule goes_down)

theorem shutdown_frees_plane_witness:
  "rn_pc (sv_runner (orch_moves (evict_all_enter 0 (goto 0 AllLock (new_orchestrator 0)))
     (awaited_warm 0 (cancel_warm (warm_done (start_service 0 :: unit service)))))) = Stopped"
proof -
  let ?s0 = "start_service 0 :: unit service"
  let ?s1 = "warm_done ?s0" let ?s2 = "cancel_warm ?s1" let ?s3 = "awaited_warm 0 ?s2"
  let ?o = "goto 0 AllLock (new_orchestrator 0)"
  have r1: "service_step (\<lambda>m ps. m) ?s0 ?s1" by (rule sv_warmed) (simp add: start_service_def)
  have r2: "service_step (\<lambda>m ps. m) ?s1 ?s2" by (rule sv_shutdown) (simp add: start_service_def warm_done_def)
  have r3: "service_step (\<lambda>m ps. m) ?s2 ?s3"
    by (rule sv_awaited) (simp_all add: start_service_def warm_done_def cancel_warm_def new_orchestrator_def)
  have run: "(service_step (\<lambda>m ps. m))\<^sup>*\<^sup>* ?s0 ?s3"
    using r1 r2 r3 by (metis rtranclp.rtrancl_into_rtrancl rtranclp.rtrancl_refl)
  have s3: "sv_orch ?s3 = ?o" "sv_life ?s3 = EvictingAll 0"
    by (simp_all add: start_service_def warm_done_def cancel_warm_def awaited_warm_def)
  have "orch_step (sv_orch ?s3) (evict_all_enter 0 ?o)"
    unfolding s3 by (rule all_enter) (simp_all add: goto_def new_orchestrator_def)
  then have step: "service_step (\<lambda>m ps. m) ?s3 (orch_moves (evict_all_enter 0 ?o) ?s3)" by (rule sv_plane)
  show ?thesis using shutdown_frees_plane [OF run step] s3
    by (simp add: orch_moves_def evict_all_enter_def cancel_idle_handle_def finish_def goto_def new_orchestrator_def Let_def)
qed

end
