(* ===== verification/Gpu_Lease.thy ===== *)
theory Gpu_Lease
  imports Job_Runner Orchestrator
begin

text \<open>
  The GPU lease: the job loop (\<open>api/jobs/runner.py\<close>), the reasoning streams (\<open>gen\<close> in
  \<open>api/app/routes/reasoning.py\<close>) and the manager (\<open>api/orchestrator/manager.py\<close>) composed as \<open>create_app\<close>
  composes them, around one lease and the manager's lock. The steps are those of \<open>Job_Runner\<close> and
  \<open>Orchestrator\<close>; here they are tied together: the loop goes on when the call it awaits is over, and
  the lock is granted in the order of the calls, as \<open>asyncio.Lock\<close> does. Shutdown is not part of it.
\<close>

section \<open>State\<close>

datatype holder = JobLoop | Stream nat

datatype stream_pc = StreamWaits | StreamAcquires task | Streaming | StreamOver

text \<open>
  \<open>gp_waiters\<close> queues for the manager's lock, \<open>gp_call\<close> is the manager call the job loop awaits, and
  \<open>gp_evictions\<close> the \<open>evict_all\<close> of each cancel coroutine.
\<close>

record gpu =
  gp_runner :: runner
  gp_orch :: orch
  gp_waiters :: "task list"
  gp_lease :: "holder option"
  gp_call :: "task option"
  gp_evictions :: "nat \<Rightarrow> task option"
  gp_stream :: "nat \<Rightarrow> stream_pc option"

definition new_gpu :: "int \<Rightarrow> gpu" where
  "new_gpu timeout = \<lparr>gp_runner = new_runner, gp_orch = new_orchestrator timeout, gp_waiters = [], gp_lease = None,
     gp_call = None, gp_evictions = (\<lambda>c. None), gp_stream = (\<lambda>n. None)\<rparr>"

definition waits :: "orch \<Rightarrow> task \<Rightarrow> bool" where
  "waits m t = (case oc_pc m t of Some (AcqLock r) \<Rightarrow> True | Some AllLock \<Rightarrow> True | _ \<Rightarrow> False)"

text \<open>A new state of the manager: who waits no longer leaves the queue.\<close>

definition with_orch :: "orch \<Rightarrow> gpu \<Rightarrow> gpu" where
  "with_orch m g = g\<lparr>gp_orch := m, gp_waiters := filter (waits m) (gp_waiters g)\<rparr>"

definition call_manager :: "task \<Rightarrow> orch_pc \<Rightarrow> gpu \<Rightarrow> gpu" where
  "call_manager t pc g = g\<lparr>gp_orch := goto t pc (gp_orch g), gp_waiters := gp_waiters g @ [t]\<rparr>"

text \<open>
  The checkpoint parameter is passed on as it is, of whatever type. Labels are only ever compared with
  \<open>==\<close>, which does not tell 1, 1.0 and \<open>True\<close> apart, so a number is kept in one form.
\<close>

fun label_key :: "pyval \<Rightarrow> pyval" where
  "label_key (PBool b) = PInt (if b then 1 else 0)"
| "label_key (PFloat (Finite q)) = (if q = of_int \<lfloor>q\<rfloor> then PInt \<lfloor>q\<rfloor> else PFloat (Finite q))"
| "label_key v = v"

definition job_target :: "job_record \<Rightarrow> residency_id" where
  "job_target r = \<lparr>rid_plane = jr_plane r, rid_label = (if jr_plane r = GENERATION
     then (case dict_get (jr_params r) ''checkpoint'' of None \<Rightarrow> None | Some PNone \<Rightarrow> None
       | Some v \<Rightarrow> Some (label_key v)) else None)\<rparr>"

definition stream_target :: residency_id where "stream_target = \<lparr>rid_plane = REASONING, rid_label = None\<rparr>"

section \<open>The job loop and the streams\<close>

definition job_leases :: "task \<Rightarrow> string \<Rightarrow> job_record \<Rightarrow> gpu \<Rightarrow> gpu" where
  "job_leases t i r g = call_manager t (AcqLock (job_target r))
     (g\<lparr>gp_runner := (gp_runner g)\<lparr>rn_pc := Acquiring i\<rparr>, gp_lease := Some JobLoop, gp_call := Some t\<rparr>)"

text \<open>The end of \<open>async with\<close> and the \<open>finally\<close>, with no suspension between them.\<close>

definition leave :: "gpu \<Rightarrow> gpu" where
  "leave g = with_orch (notify_idle (gp_orch g)) (g\<lparr>gp_lease := None, gp_call := None\<rparr>)"

text \<open>
  After a stretch of the loop that led to \<open>r\<close>: the work goes to its thread, or a failed job's plane is
  evicted (by a fresh call), or the job is over.
\<close>

definition after_job :: "task \<Rightarrow> runner \<Rightarrow> gpu \<Rightarrow> gpu" where
  "after_job t r g = (let g1 = g\<lparr>gp_runner := r, gp_call := None\<rparr> in
     (case rn_pc r of
        Working i \<Rightarrow> g1
      | EvictAfterAcquire i \<Rightarrow> call_manager t AllLock (g1\<lparr>gp_call := Some t\<rparr>)
      | EvictAfterWork i \<Rightarrow> call_manager t AllLock (g1\<lparr>gp_call := Some t\<rparr>)
      | _ \<Rightarrow> leave g1))"

definition set_stream :: "nat \<Rightarrow> stream_pc \<Rightarrow> gpu \<Rightarrow> gpu" where
  "set_stream n pc g = g\<lparr>gp_stream := (gp_stream g)(n \<mapsto> pc)\<rparr>"

definition stream_leases :: "nat \<Rightarrow> task \<Rightarrow> gpu \<Rightarrow> gpu" where
  "stream_leases n t g = call_manager t (AcqLock stream_target) (set_stream n (StreamAcquires t) (g\<lparr>gp_lease := Some (Stream n)\<rparr>))"

definition stream_failed :: "nat \<Rightarrow> gpu \<Rightarrow> gpu" where
  "stream_failed n g = set_stream n StreamOver (g\<lparr>gp_lease := None\<rparr>)"

definition stream_ends :: "nat \<Rightarrow> gpu \<Rightarrow> gpu" where
  "stream_ends n g = with_orch (notify_idle (gp_orch g)) (set_stream n StreamOver (g\<lparr>gp_lease := None\<rparr>))"

section \<open>The steps\<close>

text \<open>A call of the manager is cancelled at the \<open>await\<close> it is in; a load it was in goes on without it.\<close>

definition interrupt :: "task \<Rightarrow> orch \<Rightarrow> orch" where
  "interrupt t m = (case Option.bind (oc_pc m t) loading of
     None \<Rightarrow> finish t WasCancelled m | Some w \<Rightarrow> load_interrupted t w WasCancelled m)"

text \<open>
  The manager's steps under its lock, each with the exception it may end in, the idle timer and a
  dying worker.
\<close>

inductive manager_step :: "orch \<Rightarrow> orch \<Rightarrow> bool" where
  mg_evicted: "oc_pc m t = Some (AcqEvict p r) \<Longrightarrow> manager_step m (acquire_evicted t p r m)"
| mg_evict_raises: "oc_pc m t = Some (AcqEvict p r) \<Longrightarrow> manager_step m (finish t Raised m)"
| mg_vram: "oc_pc m t = Some (AcqVram p r) \<Longrightarrow> manager_step m (acquire_vram released ok t p r m)"
| mg_started: "oc_pc m t = Some (AcqStart r w) \<Longrightarrow> manager_step m (goto t (AcqReady r w) m)"
| mg_start_raises: "oc_pc m t = Some (AcqStart r w) \<Longrightarrow> manager_step m (start_raised t w m)"
| mg_load_raises: "oc_pc m t = Some pc \<Longrightarrow> loading pc = Some w \<Longrightarrow> manager_step m (load_interrupted t w Raised m)"
| mg_ready: "oc_pc m t = Some (AcqReady r w) \<Longrightarrow> manager_step m (acquire_ready ready t r w m)"
| mg_aborted: "oc_pc m t = Some (AcqAbort r w) \<Longrightarrow> manager_step m (acquire_aborted t w m)"
| mg_all_evicted: "oc_pc m t = Some AllEvict \<Longrightarrow> manager_step m (evict_all_evicted t m)"
| mg_all_evict_raises: "oc_pc m t = Some AllEvict \<Longrightarrow> manager_step m (finish t Raised m)"
| mg_idle_fires: "oc_timer m \<Longrightarrow> oc_pc m t = None \<Longrightarrow> manager_step m (on_idle_timeout t m)"
| mg_worker_dies: "manager_step m (m\<lparr>oc_live := oc_live m - {w}\<rparr>)"

text \<open>
  The loop's stretches that leave the lease alone: submissions, dequeuing, progress reports, and
  cancels that need no eviction.
\<close>

inductive local_step :: "(string \<Rightarrow> params \<Rightarrow> string) \<Rightarrow> runner \<Rightarrow> runner \<Rightarrow> bool"
  for fpr :: "string \<Rightarrow> params \<Rightarrow> string" where
  lc_submit: "dict_get (st_jobs (rn_store s)) i = None \<Longrightarrow>
    store_submit fpr i now mode pl ps key (rn_store s) = Inr ((r, False), st) \<Longrightarrow> local_step fpr s (enqueue r st s)"
| lc_dequeue: "rn_pc s = Idle \<Longrightarrow> rn_queue s = i # q \<Longrightarrow> local_step fpr s (process_enter i (s\<lparr>rn_queue := q\<rparr>))"
| lc_report: "rn_thread s = Some i \<Longrightarrow> rn_report s = None \<Longrightarrow> local_step fpr s (report_update i f s)"
| lc_report_event: "rn_report s = Some (i, f) \<Longrightarrow> local_step fpr s (report_append i f s)"
| lc_cancel: "cancel_call i s = (Some answer, s') \<Longrightarrow> local_step fpr s s'"

inductive gpu_step :: "(string \<Rightarrow> params \<Rightarrow> string) \<Rightarrow> gpu \<Rightarrow> gpu \<Rightarrow> bool"
  for fpr :: "string \<Rightarrow> params \<Rightarrow> string" where
  gp_local: "local_step fpr (gp_runner g) r \<Longrightarrow> gpu_step fpr g (g\<lparr>gp_runner := r\<rparr>)"
| gp_job_leases: "rn_pc (gp_runner g) = WaitLease i \<Longrightarrow> gp_lease g = None \<Longrightarrow> job_of (gp_runner g) i = Some r \<Longrightarrow>
    oc_pc (gp_orch g) t = None \<Longrightarrow> gpu_step fpr g (job_leases t i r g)"
| gp_acquired: "rn_pc (gp_runner g) = Acquiring i \<Longrightarrow> gp_call g = Some t \<Longrightarrow>
    oc_pc (gp_orch g) t = Some (Finished Returned) \<Longrightarrow> oc_pc (gp_orch g) t' = None \<Longrightarrow>
    gpu_step fpr g (after_job t' (acquired i (gp_runner g)) g)"
| gp_acquire_failed: "rn_pc (gp_runner g) = Acquiring i \<Longrightarrow> gp_call g = Some t \<Longrightarrow>
    oc_pc (gp_orch g) t = Some (Finished Raised) \<Longrightarrow> oc_pc (gp_orch g) t' = None \<Longrightarrow>
    gpu_step fpr g (after_job t' (acquire_failed i exc (gp_runner g)) g)"
| gp_work_failed: "rn_pc (gp_runner g) = Working i \<Longrightarrow> rn_report (gp_runner g) = None \<Longrightarrow>
    oc_pc (gp_orch g) t' = None \<Longrightarrow> gpu_step fpr g (after_job t' (work_failed i exc (gp_runner g)) g)"
| gp_work_returned: "rn_pc (gp_runner g) = Working i \<Longrightarrow> rn_report (gp_runner g) = None \<Longrightarrow>
    oc_pc (gp_orch g) t' = None \<Longrightarrow> gpu_step fpr g (after_job t' (work_returned i res (gp_runner g)) g)"
| gp_evicted: "rn_pc (gp_runner g) = EvictAfterAcquire i \<or> rn_pc (gp_runner g) = EvictAfterWork i \<Longrightarrow> gp_call g = Some t \<Longrightarrow>
    oc_pc (gp_orch g) t = Some (Finished Returned) \<Longrightarrow> oc_pc (gp_orch g) t' = None \<Longrightarrow>
    gpu_step fpr g (after_job t' (finish_process i (gp_runner g)) g)"
| gp_evict_raised: "rn_pc (gp_runner g) = EvictAfterAcquire i \<or> rn_pc (gp_runner g) = EvictAfterWork i \<Longrightarrow> gp_call g = Some t \<Longrightarrow>
    oc_pc (gp_orch g) t = Some (Finished Raised) \<Longrightarrow> oc_pc (gp_orch g) t' = None \<Longrightarrow>
    gpu_step fpr g (after_job t' (crash EvictionRaised i (gp_runner g)) g)"
| gp_cancel: "cancel_call i (gp_runner g) = (None, r) \<Longrightarrow> rn_cancels (gp_runner g) c = None \<Longrightarrow> oc_pc (gp_orch g) t = None \<Longrightarrow>
    gpu_step fpr g (call_manager t AllLock (g\<lparr>gp_runner := r\<lparr>rn_cancels := (rn_cancels r)(c \<mapsto> i)\<rparr>,
      gp_evictions := (gp_evictions g)(c \<mapsto> t)\<rparr>))"
| gp_cancel_resumes: "rn_cancels (gp_runner g) c = Some i \<Longrightarrow> gp_evictions g c = Some t \<Longrightarrow>
    oc_pc (gp_orch g) t = Some (Finished Returned) \<Longrightarrow>
    gpu_step fpr g (g\<lparr>gp_runner := cancel_resume c i (gp_runner g), gp_evictions := (gp_evictions g)(c := None)\<rparr>)"
| gp_cancel_lost: "rn_cancels (gp_runner g) c = Some i \<Longrightarrow> gp_evictions g c = Some t \<Longrightarrow>
    oc_pc (gp_orch g) t = Some (Finished res) \<Longrightarrow> res \<noteq> Returned \<Longrightarrow>
    gpu_step fpr g (g\<lparr>gp_runner := cancel_lost c i (gp_runner g), gp_evictions := (gp_evictions g)(c := None)\<rparr>)"
| gp_stream_opens: "gp_stream g n = None \<Longrightarrow> gpu_step fpr g (set_stream n StreamWaits g)"
| gp_stream_leases: "gp_stream g n = Some StreamWaits \<Longrightarrow> gp_lease g = None \<Longrightarrow> oc_pc (gp_orch g) t = None \<Longrightarrow>
    gpu_step fpr g (stream_leases n t g)"
| gp_stream_ready: "gp_stream g n = Some (StreamAcquires t) \<Longrightarrow> oc_pc (gp_orch g) t = Some (Finished Returned) \<Longrightarrow>
    gpu_step fpr g (set_stream n Streaming g)"
| gp_stream_failed: "gp_stream g n = Some (StreamAcquires t) \<Longrightarrow> oc_pc (gp_orch g) t = Some (Finished Raised) \<Longrightarrow>
    gpu_step fpr g (stream_failed n g)"
| gp_stream_gone: "gp_stream g n = Some StreamWaits \<Longrightarrow> gpu_step fpr g (set_stream n StreamOver g)"
| gp_stream_cancelled: "gp_stream g n = Some (StreamAcquires t) \<Longrightarrow> oc_pc (gp_orch g) t = Some pc \<Longrightarrow>
    pc \<notin> range Finished \<Longrightarrow>
    gpu_step fpr g (stream_failed n (with_orch (interrupt t (gp_orch g)) g))"
| gp_stream_ends: "gp_stream g n = Some Streaming \<Longrightarrow> gpu_step fpr g (stream_ends n g)"
| gp_enter: "gp_waiters g = t # ts \<Longrightarrow> oc_lock (gp_orch g) = None \<Longrightarrow> oc_pc (gp_orch g) t = Some (AcqLock r) \<Longrightarrow>
    gpu_step fpr g (with_orch (acquire_enter ok t r (gp_orch g)) g)"
| gp_enter_all: "gp_waiters g = t # ts \<Longrightarrow> oc_lock (gp_orch g) = None \<Longrightarrow> oc_pc (gp_orch g) t = Some AllLock \<Longrightarrow>
    gpu_step fpr g (with_orch (evict_all_enter t (gp_orch g)) g)"
| gp_manager: "manager_step (gp_orch g) m \<Longrightarrow> gpu_step fpr g (with_orch m g)"
| gp_idle_checks: "oc_pc (gp_orch g) t = Some IdleStart \<Longrightarrow>
    gpu_step fpr g (with_orch (try_idle_evict t (gp_orch g)) (g\<lparr>gp_waiters := gp_waiters g @ [t]\<rparr>))"

section \<open>The composition refines its parts\<close>

lemma manager_step_orch: "manager_step m m' \<Longrightarrow> orch_step m m'"
  by (induction rule: manager_step.induct) (auto intro: orch_step.intros)

lemma interrupt_orch:
  assumes "oc_pc m t = Some pc" "pc \<notin> range Finished"
  shows "orch_step m (interrupt t m)"
proof (cases "loading pc")
  case None
  then show ?thesis using task_cancelled [OF assms None] by (simp add: interrupt_def assms(1))
next
  case (Some w)
  then show ?thesis using acq_interrupted [OF assms(1) Some, of WasCancelled] by (simp add: interrupt_def assms(1))
qed

lemma local_step_runner: "local_step fpr r r' \<Longrightarrow> runner_step fpr r r'"
  by (induction rule: local_step.induct) (auto intro: runner_step.intros)

lemma gpu_simps [simp]:
  "gp_runner (with_orch m g) = gp_runner g" "gp_orch (with_orch m g) = m" "gp_lease (with_orch m g) = gp_lease g"
  "gp_call (with_orch m g) = gp_call g" "gp_stream (with_orch m g) = gp_stream g"
  "gp_waiters (with_orch m g) = filter (waits m) (gp_waiters g)"
  "gp_runner (call_manager t pc g) = gp_runner g" "gp_orch (call_manager t pc g) = goto t pc (gp_orch g)"
  "gp_lease (call_manager t pc g) = gp_lease g" "gp_call (call_manager t pc g) = gp_call g"
  "gp_stream (call_manager t pc g) = gp_stream g" "gp_waiters (call_manager t pc g) = gp_waiters g @ [t]"
  "gp_runner (set_stream n q g) = gp_runner g" "gp_orch (set_stream n q g) = gp_orch g"
  "gp_lease (set_stream n q g) = gp_lease g" "gp_call (set_stream n q g) = gp_call g"
  "gp_stream (set_stream n q g) = (gp_stream g)(n \<mapsto> q)" "gp_waiters (set_stream n q g) = gp_waiters g"
  by (simp_all add: with_orch_def call_manager_def set_stream_def)

lemma after_job_runner [simp]: "gp_runner (after_job t r g) = r"
  by (simp add: after_job_def leave_def Let_def split: runner_pc.split)

lemma after_job_stream [simp]: "gp_stream (after_job t r g) = gp_stream g"
  by (simp add: after_job_def leave_def Let_def split: runner_pc.split)

lemma after_job_cases:
  obtains (work) i where "rn_pc r = Working i" "gp_orch (after_job t r g) = gp_orch g"
      "gp_waiters (after_job t r g) = gp_waiters g" "gp_lease (after_job t r g) = gp_lease g"
  | (evict) i where "rn_pc r = EvictAfterAcquire i \<or> rn_pc r = EvictAfterWork i" "gp_orch (after_job t r g) = goto t AllLock (gp_orch g)"
      "gp_waiters (after_job t r g) = gp_waiters g @ [t]" "gp_lease (after_job t r g) = gp_lease g"
  | (left) "\<forall>i. rn_pc r \<notin> {Working i, EvictAfterAcquire i, EvictAfterWork i}" "gp_orch (after_job t r g) = notify_idle (gp_orch g)"
      "gp_waiters (after_job t r g) = filter (waits (notify_idle (gp_orch g))) (gp_waiters g)" "gp_lease (after_job t r g) = None"
  by (cases "rn_pc r") (simp_all add: after_job_def leave_def Let_def that)

lemma after_job_orch: "oc_pc (gp_orch g) t = None \<Longrightarrow> orch_step (gp_orch g) (gp_orch (after_job t r g)) \<or> gp_orch (after_job t r g) = gp_orch g"
  by (cases rule: after_job_cases [of r t g]) (auto intro: call_evict_all idle_notified)

lemma gpu_step_runner: "gpu_step fpr g g' \<Longrightarrow> runner_step fpr (gp_runner g) (gp_runner g') \<or> gp_runner g' = gp_runner g"
proof (induction rule: gpu_step.induct)
  case (gp_cancel i g r c t)
  then show ?case using rs_cancel_waits by fastforce
qed (auto simp: job_leases_def stream_leases_def stream_failed_def stream_ends_def
    intro: local_step_runner runner_step.intros)

lemma gpu_step_orch: "gpu_step fpr g g' \<Longrightarrow> orch_step (gp_orch g) (gp_orch g') \<or> gp_orch g' = gp_orch g"
  by (induction rule: gpu_step.induct)
     (auto simp: job_leases_def stream_leases_def stream_failed_def stream_ends_def
       dest: after_job_orch manager_step_orch intro: orch_step.intros interrupt_orch)

section \<open>The manager's state while a holder acquires and uses a plane\<close>

definition calm :: "orch \<Rightarrow> bool" where "calm m \<longleftrightarrow> \<not> oc_timer m \<and> oc_idle m = None"

definition idle_over :: "orch \<Rightarrow> task \<Rightarrow> bool" where "idle_over m u \<longleftrightarrow> (\<forall>pc. oc_pc m u = Some pc \<longrightarrow> pc \<in> range Finished)"

definition acquires :: "residency_id \<Rightarrow> orch_pc \<Rightarrow> bool" where
  "acquires r pc = (case pc of AcqEvict p r' \<Rightarrow> r' = r | AcqVram p r' \<Rightarrow> r' = r | AcqStart r' w \<Rightarrow> r' = r
     | AcqReady r' w \<Rightarrow> r' = r | AcqAbort r' w \<Rightarrow> r' = r | _ \<Rightarrow> False)"

text \<open>What a holder has a right to: nothing, a call under way, or its plane.\<close>

datatype claim = NoClaim | Want task residency_id | Have residency_id

fun claim_ok :: "claim \<Rightarrow> orch \<Rightarrow> task list \<Rightarrow> bool" where
  "claim_ok NoClaim m ws = True"
| "claim_ok (Have r) m ws = (oc_slot m = Some r \<and> calm m \<and> (\<forall>u. idle_over m u))"
| "claim_ok (Want t r) m ws =
     ((\<exists>xs ys. oc_pc m t = Some (AcqLock r) \<and> ws = xs @ t # ys \<and> set ys \<subseteq> set_option (oc_idle m))
      \<or> (\<exists>pc. oc_pc m t = Some pc \<and> acquires r pc \<and> (\<forall>u. u \<noteq> t \<longrightarrow> idle_over m u) \<and> calm m)
      \<or> (oc_pc m t = Some (Finished Returned) \<and> oc_slot m = Some r \<and> calm m \<and> (\<forall>u. idle_over m u))
      \<or> oc_pc m t = Some (Finished Raised) \<or> oc_pc m t = Some (Finished WasCancelled))"

definition timer_ok :: "orch \<Rightarrow> bool" where
  "timer_ok m \<longleftrightarrow> (oc_timer m \<longrightarrow> oc_idle m = None) \<and> (\<forall>u. oc_pc m u = Some IdleStart \<longrightarrow> oc_idle m = Some u)"

definition queue_ok :: "orch \<Rightarrow> task list \<Rightarrow> bool" where
  "queue_ok m ws \<longleftrightarrow> distinct ws \<and> set ws = Collect (waits m)"

lemma orch_step_timer_ok: "orch_step m m' \<Longrightarrow> timer_ok m \<Longrightarrow> timer_ok m'"
proof (induction rule: orch_step.induct)
  case (idle_checks s t)
  then have "oc_idle s = Some t" "\<not> oc_timer s" by (auto simp: timer_ok_def)
  moreover have "u = t" if "oc_pc s u = Some IdleStart" for u
    using idle_checks(2) that \<open>oc_idle s = Some t\<close> by (simp add: timer_ok_def)
  ultimately show ?case by (auto simp: timer_ok_def try_idle_evict_def goto_def finish_def split: if_splits)
qed (auto simp: timer_ok_def stretch_defs goto_def finish_def Let_def split: if_splits option.splits)

interpretation timer: step_invariant orch_step timer_ok
  by unfold_locales (rule orch_step_timer_ok)

lemma waits_simps: "waits m t \<longleftrightarrow> (\<exists>r. oc_pc m t = Some (AcqLock r)) \<or> oc_pc m t = Some AllLock"
  by (auto simp: waits_def split: option.splits orch_pc.splits)

lemma busy_cases:
  assumes "\<not> idle_over m u" "timer_ok m"
  obtains "waits m u" | pc where "oc_pc m u = Some pc" "critical pc" | "oc_idle m = Some u"
proof -
  obtain pc where pc: "oc_pc m u = Some pc" "pc \<notin> range Finished" using assms(1) by (auto simp: idle_over_def)
  then show thesis using that assms(2) by (cases pc) (auto simp: waits_simps timer_ok_def)
qed

text \<open>A task inside the lock moves only itself, and its acquisition ends with its target or an exception.\<close>

lemma inside_facts:
  assumes "manager_step m m'" "orch_inv m"
  obtains (inside) t pc where "oc_pc m t = Some pc" "critical pc" "\<forall>u. u \<noteq> t \<longrightarrow> oc_pc m' u = oc_pc m u"
      "oc_timer m' = oc_timer m" "oc_idle m' = oc_idle m \<or> oc_idle m = Some t \<and> oc_idle m' = None" "\<not> waits m' t"
      "\<forall>r. acquires r pc \<longrightarrow> (\<exists>pc'. oc_pc m' t = Some pc' \<and> acquires r pc') \<or> oc_pc m' t = Some (Finished Raised) \<or>
         oc_pc m' t = Some (Finished Returned) \<and> oc_slot m' = Some r"
  | (fires) t where "oc_timer m" "oc_pc m t = None" "m' = on_idle_timeout t m"
  | (dies) w where "m' = m\<lparr>oc_live := oc_live m - {w}\<rparr>"
  using assms(1)
proof (cases rule: manager_step.cases)
  case (mg_evicted t p r)
  then show ?thesis using that(1) [of t]
    by (auto simp: acquire_evicted_def let_go_def goto_def waits_simps acquires_def)
next
  case (mg_evict_raises t p r)
  then show ?thesis using that(1) [of t] by (auto simp: finish_def waits_simps acquires_def)
next
  case (mg_vram t p r released ok)
  have "plan_load p = Some r" using inv_holder(2) [OF assms(2) mg_vram(2)] by (simp add: pc_ok_def)
  then show ?thesis using that(1) [of t] mg_vram
    by (auto simp: acquire_vram_def vram_released_def acquire_load_def goto_def finish_def waits_simps acquires_def Let_def)
next
  case (mg_started t r w)
  then show ?thesis using that(1) [of t] by (auto simp: goto_def waits_simps acquires_def)
next
  case (mg_start_raises t r w)
  then show ?thesis using that(1) [of t] by (auto simp: start_raised_def let_go_def finish_def waits_simps acquires_def)
next
  case (mg_load_raises t pc w)
  have "critical pc" using loading_critical mg_load_raises(3) by simp
  then show ?thesis using that(1) [of t pc] mg_load_raises
    by (auto simp: load_interrupted_def let_go_def finish_def waits_simps)
next
  case (mg_ready t r w ready)
  then show ?thesis using that(1) [of t] by (auto simp: acquire_ready_def goto_def finish_def waits_simps acquires_def)
next
  case (mg_aborted t r w)
  then show ?thesis using that(1) [of t] by (auto simp: acquire_aborted_def let_go_def finish_def waits_simps acquires_def)
next
  case (mg_all_evicted t)
  then show ?thesis using that(1) [of t] by (auto simp: evict_all_evicted_def let_go_def finish_def waits_simps acquires_def)
next
  case (mg_all_evict_raises t)
  then show ?thesis using that(1) [of t] by (auto simp: finish_def waits_simps acquires_def)
next
  case (mg_idle_fires t)
  then show ?thesis by (intro that(2))
next
  case (mg_worker_dies w)
  then show ?thesis by (rule that(3))
qed

lemma enter_facts:
  assumes "m' = acquire_enter ok t r m" "idle_ok m" "oc_pc m t = Some (AcqLock r)"
  shows "\<forall>u. u \<noteq> t \<longrightarrow> oc_pc m' u = (if oc_idle m = Some u then Some (Finished WasCancelled) else oc_pc m u)"
    and "calm m'" and "\<not> waits m' t"
    and "(\<exists>pc. oc_pc m' t = Some pc \<and> acquires r pc) \<or> oc_pc m' t = Some (Finished Raised) \<or>
      oc_pc m' t = Some (Finished Returned) \<and> oc_slot m' = Some r"
proof -
  have "oc_idle m \<noteq> Some t" using assms(2,3) by (auto simp: idle_ok_def)
  then show "\<forall>u. u \<noteq> t \<longrightarrow> oc_pc m' u = (if oc_idle m = Some u then Some (Finished WasCancelled) else oc_pc m u)"
    "calm m'" "\<not> waits m' t"
    "(\<exists>pc. oc_pc m' t = Some pc \<and> acquires r pc) \<or> oc_pc m' t = Some (Finished Raised) \<or>
      oc_pc m' t = Some (Finished Returned) \<and> oc_slot m' = Some r"
    unfolding assms(1)
    by (auto simp: acquire_enter_def acquire_load_def cancel_idle_timer_def cancel_idle_handle_def goto_def finish_def
        calm_def waits_simps acquires_def plan_acquire_def Let_def split: option.splits if_splits)
qed

lemma enter_all_facts:
  assumes "m' = evict_all_enter t m" "oc_pc m t = Some AllLock"
  shows "\<forall>u. u \<noteq> t \<longrightarrow> oc_pc m' u = oc_pc m u" "\<not> waits m' t" "oc_timer m' = False"
    "oc_idle m' = oc_idle m \<or> oc_idle m = Some t \<and> oc_idle m' = None"
  using assms by (auto simp: evict_all_enter_def cancel_idle_handle_def goto_def finish_def waits_simps Let_def)

section \<open>Claims survive the manager's steps\<close>

definition manager_ok :: "orch \<Rightarrow> task list \<Rightarrow> bool" where
  "manager_ok m ws \<longleftrightarrow> orch_inv m \<and> idle_ok m \<and> timer_ok m \<and> queue_ok m ws"

lemma queue_filter:
  "queue_ok m ws \<Longrightarrow> (\<And>u. waits m' u \<Longrightarrow> waits m u) \<Longrightarrow> queue_ok m' (filter (waits m') ws)"
  by (auto simp: queue_ok_def)

lemma filter_same: "(\<And>u. u \<in> set ws \<Longrightarrow> P u) \<Longrightarrow> filter P ws = ws"
  by (simp add: filter_id_conv)

lemma waits_cong: "oc_pc m' u = oc_pc m u \<Longrightarrow> waits m' u = waits m u"
  by (simp add: waits_def)

lemma acquires_simps [simp]: "\<not> acquires r (AcqLock r')" "\<not> acquires r AllLock" "\<not> acquires r AllEvict"
    "\<not> acquires r IdleStart" "\<not> acquires r (Finished res)"
  by (simp_all add: acquires_def)

lemma not_over: "oc_pc m u = Some pc \<Longrightarrow> pc \<notin> range Finished \<Longrightarrow> \<not> idle_over m u"
  by (simp add: idle_over_def)

lemma critical_not_over: "oc_pc m u = Some pc \<Longrightarrow> critical pc \<Longrightarrow> \<not> idle_over m u"
  by (rule not_over) (auto simp: critical_def split: orch_pc.splits)

lemma waits_not_over: "waits m u \<Longrightarrow> \<not> idle_over m u"
  by (auto simp: waits_simps idle_over_def)

lemma queue_others:
  assumes "manager_ok m ws" "\<forall>u. u \<noteq> t \<longrightarrow> oc_pc m' u = oc_pc m u" "t \<notin> set ws"
  shows "filter (waits m') ws = ws"
proof (rule filter_same)
  fix u assume u: "u \<in> set ws"
  then have "waits m u" using assms(1) by (simp add: manager_ok_def queue_ok_def)
  moreover have "u \<noteq> t" using u assms(3) by auto
  then have "oc_pc m' u = oc_pc m u" using assms(2) by simp
  ultimately show "waits m' u" using waits_cong by metis
qed

lemma claim_inside:
  assumes claim: "claim_ok c m ws" and ok: "manager_ok m ws"
    and t: "oc_pc m t = Some pc" "critical pc" "\<forall>u. u \<noteq> t \<longrightarrow> oc_pc m' u = oc_pc m u"
      "oc_timer m' = oc_timer m" "oc_idle m' = oc_idle m \<or> oc_idle m = Some t \<and> oc_idle m' = None" "\<not> waits m' t"
      "\<forall>r. acquires r pc \<longrightarrow> (\<exists>pc'. oc_pc m' t = Some pc' \<and> acquires r pc') \<or> oc_pc m' t = Some (Finished Raised) \<or>
         oc_pc m' t = Some (Finished Returned) \<and> oc_slot m' = Some r"
  shows "claim_ok c m' (filter (waits m') ws)"
proof -
  have busy: "\<not> idle_over m t" using t(1,2) by (rule critical_not_over)
  have "t \<notin> set ws" using ok t(1,2) by (auto simp: manager_ok_def queue_ok_def waits_simps)
  then have ws: "filter (waits m') ws = ws"
    using queue_others ok t(3) by blast
  show ?thesis
  proof (cases c)
    case (Want t0 r)
    then consider (queued) xs ys where "oc_pc m t0 = Some (AcqLock r)" "ws = xs @ t0 # ys" "set ys \<subseteq> set_option (oc_idle m)"
      | (inside) p where "oc_pc m t0 = Some p" "acquires r p" "\<forall>u. u \<noteq> t0 \<longrightarrow> idle_over m u" "calm m"
      | (over) "oc_pc m t0 = Some (Finished Raised) \<or> oc_pc m t0 = Some (Finished WasCancelled)"
      using claim busy by auto
    then show ?thesis
    proof cases
      case queued
      then have "t0 \<noteq> t" using t(1,2) by auto
      moreover have "set ys \<subseteq> set_option (oc_idle m')" using t(5) queued(2,3) \<open>t \<notin> set ws\<close> by auto
      ultimately have "\<exists>xs ys. oc_pc m' t0 = Some (AcqLock r) \<and> ws = xs @ t0 # ys \<and> set ys \<subseteq> set_option (oc_idle m')"
        using t(3) queued(1,2) by metis
      then show ?thesis using Want ws by simp
    next
      case inside
      then have "t0 = t" using busy by metis
      moreover have "\<forall>u. u \<noteq> t \<longrightarrow> idle_over m' u" using inside(3) t(3) \<open>t0 = t\<close> by (auto simp: idle_over_def)
      moreover have "calm m'" using inside(4) t(4,5) by (auto simp: calm_def)
      moreover have "idle_over m' t" if "oc_pc m' t = Some (Finished Returned)" using that by (simp add: idle_over_def)
      ultimately show ?thesis using t(7) inside(1,2) t(1) Want by (simp, metis)
    next
      case over
      then have "t0 \<noteq> t" using t(1,2) by auto
      then show ?thesis using over t(3) Want by auto
    qed
  qed (use claim busy in auto)
qed

lemma claim_enter:
  assumes claim: "claim_ok c m ws" and ok: "manager_ok m ws"
    and w: "ws = t # ts" "oc_lock m = None" "oc_pc m t = Some (AcqLock r)" "m' = acquire_enter a t r m"
  shows "claim_ok c m' (filter (waits m') ws)"
proof -
  note e = enter_facts [OF w(4) _ w(3)]
  have idle: "idle_ok m" using ok by (simp add: manager_ok_def)
  have busy: "\<not> idle_over m t" using w(3) by (rule not_over) auto
  have over: "idle_over m' u" if "idle_over m u \<or> oc_idle m = Some u" "u \<noteq> t" for u
    using e(1) [OF idle] that by (cases "oc_idle m = Some u") (auto simp: idle_over_def)
  have nocrit: "\<not> critical pc" if "oc_pc m u = Some pc" for u pc
    using ok w(2) that by (auto simp: manager_ok_def orch_inv_def)
  show ?thesis
  proof (cases c)
    case (Want t0 r0)
    then consider (queued) xs ys where "oc_pc m t0 = Some (AcqLock r0)" "ws = xs @ t0 # ys" "set ys \<subseteq> set_option (oc_idle m)"
      | (over) "oc_pc m t0 = Some (Finished Raised) \<or> oc_pc m t0 = Some (Finished WasCancelled)"
      using claim busy w(3) unfolding Want claim_ok.simps by (metis acquires_simps(1) option.inject)
    then show ?thesis
    proof cases
      case queued
      show ?thesis
      proof (cases "t0 = t")
        case True
        then have "xs = []" "r0 = r" using queued(1,2) w(1,3) ok by (cases xs; auto simp: manager_ok_def queue_ok_def)+
        then have "u \<noteq> t \<Longrightarrow> idle_over m' u" for u
          using queued(2,3) True over busy_cases [of m u] ok nocrit
          by (metis Collect_mem_eq append_self_conv2 elem_set manager_ok_def mem_Collect_eq queue_ok_def set_ConsD subsetD)
        moreover have "idle_over m' t" if "oc_pc m' t = Some (Finished Returned)" using that by (simp add: idle_over_def)
        ultimately show ?thesis using e(2,4) [OF idle] True \<open>r0 = r\<close> Want by (simp, metis)
      next
        case False
        then obtain xs' where xs: "xs = t # xs'" using queued(2) w(1) by (cases xs) auto
        have "oc_idle m \<noteq> Some t0" using idle queued(1) by (auto simp: idle_ok_def)
        then have "oc_pc m' t0 = Some (AcqLock r0)" using e(1) [OF idle] False queued(1) by simp
        moreover have "filter (waits m') ys = []"
          using queued(3) over [of _] waits_not_over e(3) [OF idle] by (auto simp: filter_empty_conv elem_set)
        moreover have "waits m' t0" using calculation(1) by (simp add: waits_simps)
        ultimately have "\<exists>xs ys. oc_pc m' t0 = Some (AcqLock r0) \<and> filter (waits m') ws = xs @ t0 # ys \<and> set ys \<subseteq> set_option (oc_idle m')"
          unfolding queued(2) by (intro exI [of _ "filter (waits m') xs"] exI [of _ "[]"]) simp
        then show ?thesis using Want by simp
      qed
    next
      case over
      then have "t0 \<noteq> t" "oc_idle m \<noteq> Some t0" using w(3) idle by (auto simp: idle_ok_def)
      then show ?thesis using over e(1) [OF idle] Want by auto
    qed
  qed (use claim busy in auto)
qed

lemma claim_enter_all:
  assumes claim: "claim_ok c m ws" and ok: "manager_ok m ws"
    and w: "ws = t # ts" "oc_pc m t = Some AllLock" "m' = evict_all_enter t m"
  shows "claim_ok c m' (filter (waits m') ws)"
proof -
  note e = enter_all_facts [OF w(3,2)]
  have busy: "\<not> idle_over m t" using w(2) by (rule not_over) auto
  show ?thesis
  proof (cases c)
    case (Want t0 r0)
    then consider (queued) xs ys where "oc_pc m t0 = Some (AcqLock r0)" "ws = xs @ t0 # ys" "set ys \<subseteq> set_option (oc_idle m)"
      | (over) "oc_pc m t0 = Some (Finished Raised) \<or> oc_pc m t0 = Some (Finished WasCancelled)"
      using claim busy w(2) unfolding Want claim_ok.simps by (metis acquires_simps(2) option.inject)
    then show ?thesis
    proof cases
      case queued
      then have t0: "t0 \<noteq> t" using w(2) by auto
      then obtain xs' where xs: "xs = t # xs'" using queued(2) w(1) by (cases xs) auto
      then have "t \<notin> set ys" using ok queued(2) by (auto simp: manager_ok_def queue_ok_def)
      then have "set (filter (waits m') ys) \<subseteq> set_option (oc_idle m')" using e(4) queued(3) by auto
      moreover have pc: "oc_pc m' t0 = Some (AcqLock r0)" using e(1) t0 queued(1) by simp
      moreover have "waits m' t0" using pc by (simp add: waits_simps)
      ultimately have "\<exists>xs ys. oc_pc m' t0 = Some (AcqLock r0) \<and> filter (waits m') ws = xs @ t0 # ys \<and> set ys \<subseteq> set_option (oc_idle m')"
        unfolding queued(2) by (intro exI [of _ "filter (waits m') xs"] exI [of _ "filter (waits m') ys"]) simp
      then show ?thesis using Want by simp
    next
      case over
      then have "t0 \<noteq> t" using w(2) by auto
      then show ?thesis using over e(1) Want by auto
    qed
  qed (use claim busy in auto)
qed

lemma claim_idle_fires:
  assumes claim: "claim_ok c m ws" and ok: "manager_ok m ws" and t: "oc_timer m" "oc_pc m t = None" "m' = on_idle_timeout t m"
  shows "claim_ok c m' (filter (waits m') ws)"
proof -
  have pc: "oc_pc m' u = (if u = t then Some IdleStart else oc_pc m u)" for u by (simp add: t(3) on_idle_timeout_def goto_def)
  have "oc_idle m = None" using ok t(1) by (simp add: manager_ok_def timer_ok_def)
  have "\<And>u. u \<in> set ws \<Longrightarrow> waits m' u"
    using ok pc t(2) waits_cong by (metis Collect_mem_eq manager_ok_def mem_Collect_eq queue_ok_def waits_simps option.distinct(1))
  then have ws: "filter (waits m') ws = ws" by (rule filter_same)
  show ?thesis
  proof (cases c)
    case (Want t0 r0)
    then have "(\<exists>xs. oc_pc m t0 = Some (AcqLock r0) \<and> ws = xs @ [t0]) \<or>
        oc_pc m t0 = Some (Finished Raised) \<or> oc_pc m t0 = Some (Finished WasCancelled)"
      using claim t(1) \<open>oc_idle m = None\<close> by (auto simp: calm_def)
    then show ?thesis using pc t(2) unfolding Want claim_ok.simps ws by (auto; metis empty_set empty_subsetI)
  qed (use claim t(1) in \<open>auto simp: calm_def\<close>)
qed

lemma claim_idle_checks:
  assumes claim: "claim_ok c m ws" and ok: "manager_ok m ws" and t: "oc_pc m t = Some IdleStart" "m' = try_idle_evict t m"
  shows "claim_ok c m' (filter (waits m') (ws @ [t]))"
proof -
  have idle: "oc_idle m = Some t" using ok t(1) by (simp add: manager_ok_def timer_ok_def)
  have "t \<notin> set ws" using ok t(1) by (auto simp: manager_ok_def queue_ok_def waits_simps)
  have pc: "\<forall>u. u \<noteq> t \<longrightarrow> oc_pc m' u = oc_pc m u" and keep: "waits m' t \<Longrightarrow> oc_idle m' = Some t"
    using t idle by (cases "oc_lock m"; auto simp: try_idle_evict_def goto_def finish_def waits_simps)+
  have ws: "filter (waits m') (ws @ [t]) = ws @ (if waits m' t then [t] else [])"
    using queue_others [OF ok pc \<open>t \<notin> set ws\<close>] by simp
  have busy: "\<not> idle_over m t" using t(1) by (rule not_over) auto
  show ?thesis
  proof (cases c)
    case (Want t0 r0)
    then consider (queued) xs ys where "oc_pc m t0 = Some (AcqLock r0)" "ws = xs @ t0 # ys" "set ys \<subseteq> set_option (oc_idle m)"
      | (over) "oc_pc m t0 = Some (Finished Raised) \<or> oc_pc m t0 = Some (Finished WasCancelled)"
      using claim busy t(1) unfolding Want claim_ok.simps by (metis acquires_simps(4) option.inject)
    then show ?thesis
    proof cases
      case queued
      then have "ys = []" using idle \<open>t \<notin> set ws\<close> by (cases ys) auto
      have "t0 \<noteq> t" using queued(1) t(1) by auto
      then have "\<exists>xs ys. oc_pc m' t0 = Some (AcqLock r0) \<and> filter (waits m') (ws @ [t]) = xs @ t0 # ys \<and> set ys \<subseteq> set_option (oc_idle m')"
        using pc queued(1,2) keep \<open>ys = []\<close> unfolding ws
        by (intro exI [of _ xs] exI [of _ "if waits m' t then [t] else []"]) auto
      then show ?thesis using Want by simp
    next
      case over
      then have "t0 \<noteq> t" using t(1) by auto
      then show ?thesis using over pc Want by auto
    qed
  qed (use claim busy in auto)
qed

lemma claim_manager:
  assumes claim: "claim_ok c m ws" and ok: "manager_ok m ws" and step: "manager_step m m'"
  shows "claim_ok c m' (filter (waits m') ws)"
proof -
  have "orch_inv m" using ok by (simp add: manager_ok_def)
  from step this show ?thesis
  proof (cases rule: inside_facts)
    case (inside t pc)
    then show ?thesis by (rule claim_inside [OF claim ok])
  next
    case (fires t)
    then show ?thesis by (rule claim_idle_fires [OF claim ok])
  next
    case (dies w)
    have "waits m' = waits m" by (rule ext) (simp add: waits_def dies)
    then have "filter (waits m') ws = ws" using ok by (intro filter_same) (simp add: manager_ok_def queue_ok_def)
    moreover have "idle_over (m\<lparr>oc_live := l\<rparr>) = idle_over m" for l by (rule ext) (simp add: idle_over_def)
    ultimately show ?thesis using claim by (cases c) (auto simp: dies calm_def)
  qed
qed

end
