(* ===== verification/Lease_Facts.thy ===== *)
theory Lease_Facts
  imports Gpu_Lease
begin

text \<open>
  What the composition of \<open>Gpu_Lease\<close> promises: while a job's work runs, or a stream relays, its plane
  is the resident one and no eviction, load or idle timer is under way, until its own cancel.
\<close>

section \<open>The invariant of the composition\<close>

definition job_holds :: "runner_pc \<Rightarrow> bool" where
  "job_holds pc = (case pc of Acquiring i \<Rightarrow> True | EvictAfterAcquire i \<Rightarrow> True | Working i \<Rightarrow> True
     | EvictAfterWork i \<Rightarrow> True | _ \<Rightarrow> False)"

definition stream_holds :: "stream_pc option \<Rightarrow> bool" where
  "stream_holds pc = (case pc of Some (StreamAcquires t) \<Rightarrow> True | Some Streaming \<Rightarrow> True | _ \<Rightarrow> False)"

definition target_of :: "runner \<Rightarrow> string \<Rightarrow> residency_id" where
  "target_of s i = job_target (the (job_of s i))"

definition job_claim :: "runner \<Rightarrow> task option \<Rightarrow> claim" where
  "job_claim s call = (case rn_pc s of
     Acquiring i \<Rightarrow> (case call of Some t \<Rightarrow> Want t (target_of s i) | None \<Rightarrow> NoClaim)
   | Working i \<Rightarrow> if i \<in> rn_cancelled s then NoClaim else Have (target_of s i)
   | _ \<Rightarrow> NoClaim)"

definition stream_claim :: "stream_pc option \<Rightarrow> claim" where
  "stream_claim pc = (case pc of Some (StreamAcquires t) \<Rightarrow> Want t stream_target | Some Streaming \<Rightarrow> Have stream_target | _ \<Rightarrow> NoClaim)"

definition claim_of :: "gpu \<Rightarrow> claim" where
  "claim_of g = (case gp_lease g of None \<Rightarrow> NoClaim | Some JobLoop \<Rightarrow> job_claim (gp_runner g) (gp_call g)
     | Some (Stream n) \<Rightarrow> stream_claim (gp_stream g n))"

definition lease_ok :: "gpu \<Rightarrow> bool" where
  "lease_ok g \<longleftrightarrow> (gp_lease g = Some JobLoop \<longleftrightarrow> job_holds (rn_pc (gp_runner g))) \<and>
     (\<forall>n. gp_lease g = Some (Stream n) \<longleftrightarrow> stream_holds (gp_stream g n))"

definition gpu_inv :: "int \<Rightarrow> (string \<Rightarrow> params \<Rightarrow> string) \<Rightarrow> gpu \<Rightarrow> bool" where
  "gpu_inv timeout fpr g \<longleftrightarrow>
     (runner_step fpr)\<^sup>*\<^sup>* new_runner (gp_runner g) \<and> orch_step\<^sup>*\<^sup>* (new_orchestrator timeout) (gp_orch g) \<and>
     queue_ok (gp_orch g) (gp_waiters g) \<and> lease_ok g \<and> claim_ok (claim_of g) (gp_orch g) (gp_waiters g)"

lemma gpu_inv_manager:
  assumes "gpu_inv timeout fpr g" shows "manager_ok (gp_orch g) (gp_waiters g)" "runner_inv (gp_runner g)"
proof -
  have run: "orch_step\<^sup>*\<^sup>* (new_orchestrator timeout) (gp_orch g)" using assms by (simp add: gpu_inv_def)
  moreover have "timer_ok (new_orchestrator timeout)" by (simp add: timer_ok_def new_orchestrator_def)
  ultimately show "manager_ok (gp_orch g) (gp_waiters g)"
    using reachable_inv timer.along_run assms by (simp add: manager_ok_def gpu_inv_def)
  show "runner_inv (gp_runner g)" using assms runner_reachable_inv unfolding gpu_inv_def by blast
qed

text \<open>The target of the current job is read once and stays.\<close>

lemma target_stays:
  assumes "runner_step fpr s s'" "runner_inv s" "rn_pc s = Acquiring i \<or> rn_pc s = Working i \<or> rn_pc s = WaitLease i"
  shows "target_of s' i = target_of s i"
proof -
  have "status_of s i \<noteq> None" using assms(2,3) by (auto simp: runner_inv_def pc_inv_def split: if_splits)
  then obtain r where r: "job_of s i = Some r" by (auto simp: status_of_def)
  then obtain r' where r': "job_of s' i = Some r'" "job_step\<^sup>*\<^sup>* r r'" using runner_step_advance [OF assms(1)] by (auto simp: jobs_advance_def)
  from job_identity_kept.run_grows [OF r'(2)] show ?thesis using r r'(1) by (simp add: target_of_def job_target_def job_identity_def)
qed

text \<open>A cancel asks for an eviction only while its job's work runs.\<close>

lemma cancel_waits_facts:
  assumes "cancel_call i s = (None, s')" "runner_inv s"
  shows "rn_pc s = Working i" "s' = s\<lparr>rn_cancelled := insert i (rn_cancelled s)\<rparr>"
proof -
  obtain r where r: "store_get (rn_store s) i = Inr r" using assms(1) by (cases "store_get (rn_store s) i") (auto simp: cancel_call_def)
  let ?s1 = "s\<lparr>rn_cancelled := insert i (rn_cancelled s)\<rparr>"
  have run: "jr_status r = Running \<and> rn_current s = Some i"
  proof (rule ccontr)
    assume "\<not> (jr_status r = Running \<and> rn_current s = Some i)"
    then have "fst (cancel_call i s) \<noteq> None"
      by (cases "cancel_finish i ?s1") (auto simp: cancel_call_def r Let_def)
    then show False using assms(1) by simp
  qed
  then have s': "s' = ?s1" using assms(1) by (auto simp: cancel_call_def r Let_def split: if_splits)
  have "status_of s i = Some Running" "rn_current s = Some i"
    using run r by (auto simp: store_get_def status_of_def job_of_def split: option.splits)
  then show "rn_pc s = Working i" using assms(2) by (cases "rn_pc s") (auto simp: runner_inv_def pc_inv_def split: if_splits)
  show "s' = s\<lparr>rn_cancelled := insert i (rn_cancelled s)\<rparr>" by (rule s')
qed

lemma cancel_finish_keeps: "cancel_finish i s = Inr x \<Longrightarrow> rn_pc (snd x) = rn_pc s \<and> rn_cancelled (snd x) = rn_cancelled s"
  by (auto simp: cancel_finish_def modify_def emit_def result_simps)

lemma cancel_answer_keeps:
  assumes "cancel_call i s = (Some a, s')" shows "rn_pc s' = rn_pc s \<and> rn_cancelled s \<subseteq> rn_cancelled s'"
proof -
  let ?s1 = "s\<lparr>rn_cancelled := insert i (rn_cancelled s)\<rparr>"
  have "s' = s \<or> s' = ?s1 \<or> (\<exists>x. cancel_finish i ?s1 = Inr x \<and> s' = snd x)"
  proof (cases "cancel_finish i ?s1")
    case (Inr x)
    then show ?thesis using assms by (cases x; cases "store_get (rn_store s) i") (auto simp: cancel_call_def Let_def split: if_splits)
  qed (use assms in \<open>auto simp: cancel_call_def Let_def split: if_splits sum.splits\<close>)
  then show ?thesis using cancel_finish_keeps [of i ?s1] by auto
qed

lemma cancel_resume_keeps: "rn_pc (cancel_resume c i s) = rn_pc s \<and> rn_cancelled (cancel_resume c i s) = rn_cancelled s"
proof -
  let ?s1 = "s\<lparr>rn_cancels := (rn_cancels s)(c := None)\<rparr>"
  have "cancel_resume c i s = ?s1 \<or> (\<exists>x. cancel_finish i ?s1 = Inr x \<and> cancel_resume c i s = snd x)"
    by (cases "cancel_finish i ?s1") (auto simp: cancel_resume_def Let_def)
  then show ?thesis using cancel_finish_keeps [of i ?s1] by auto
qed

text \<open>A local stretch neither takes nor gives back the lease, and claims no more than before.\<close>

lemma local_keeps:
  assumes "local_step fpr s s'"
  shows "rn_pc s' = rn_pc s \<and> rn_cancelled s \<subseteq> rn_cancelled s' \<or> rn_pc s = Idle \<and> \<not> job_holds (rn_pc s')"
  using assms
proof (cases rule: local_step.cases)
  case (lc_cancel i answer)
  then show ?thesis using cancel_answer_keeps by blast
qed (auto simp: enqueue_def process_enter_def report_update_def report_append_def emit_def modify_def job_holds_def result_simps
      split: option.splits sum.splits)

lemma queue_call:
  assumes "queue_ok m ws" "oc_pc m t = None" "pc = AllLock \<or> pc = AcqLock r"
  shows "queue_ok (goto t pc m) (ws @ [t])"
  using assms by (auto simp: queue_ok_def waits_simps goto_def)

lemma notify_waits: "waits (notify_idle m) u \<Longrightarrow> waits m u"
  by (auto simp: waits_simps notify_idle_def cancel_idle_timer_def cancel_idle_handle_def finish_def Let_def split: option.splits if_splits)

lemma interrupt_waits: "waits (interrupt t m) u \<Longrightarrow> waits m u"
  by (auto simp: waits_simps interrupt_def load_interrupted_def let_go_def finish_def split: if_splits option.splits)

text \<open>The manager moves: what is claimed does not change, so it must survive.\<close>

lemma gpu_inv_orch:
  assumes "gpu_inv timeout fpr g" "orch_step (gp_orch g) m" "queue_ok m ws" "claim_ok (claim_of g) m ws"
  shows "gpu_inv timeout fpr (g\<lparr>gp_orch := m, gp_waiters := ws\<rparr>)"
proof -
  have "claim_of (g\<lparr>gp_orch := m, gp_waiters := ws\<rparr>) = claim_of g" by (simp add: claim_of_def cong: option.case_cong holder.case_cong)
  moreover have "orch_step\<^sup>*\<^sup>* (new_orchestrator timeout) m"
    using assms(1,2) unfolding gpu_inv_def by (blast intro: rtranclp.rtrancl_into_rtrancl)
  ultimately show ?thesis using assms(1,3,4) by (simp add: gpu_inv_def lease_ok_def)
qed

text \<open>The runner moves and keeps the lease or its lack: it claims what it did, or nothing.\<close>

lemma gpu_inv_runner:
  assumes inv: "gpu_inv timeout fpr g" and step: "runner_step fpr (gp_runner g) r"
    and holds: "job_holds (rn_pc r) = job_holds (rn_pc (gp_runner g))"
    and claim: "job_claim r (gp_call g) \<in> {job_claim (gp_runner g) (gp_call g), NoClaim}"
  shows "gpu_inv timeout fpr (g\<lparr>gp_runner := r, gp_evictions := e\<rparr>)"
proof -
  have "claim_of (g\<lparr>gp_runner := r, gp_evictions := e\<rparr>) \<in> {claim_of g, NoClaim}"
    using claim by (auto simp: claim_of_def split: option.splits holder.splits)
  then have "claim_ok (claim_of (g\<lparr>gp_runner := r, gp_evictions := e\<rparr>)) (gp_orch g) (gp_waiters g)"
    using inv by (auto simp: gpu_inv_def)
  then show ?thesis using inv step holds unfolding gpu_inv_def lease_ok_def by (auto intro: rtranclp.rtrancl_into_rtrancl)
qed

lemma job_claim_stays:
  assumes "runner_step fpr s s'" "runner_inv s" "rn_pc s' = rn_pc s" "rn_cancelled s \<subseteq> rn_cancelled s'"
  shows "job_claim s' call \<in> {job_claim s call, NoClaim}"
  using assms(3,4) target_stays [OF assms(1,2)]
  by (auto simp: job_claim_def split: runner_pc.splits option.splits)

text \<open>The loop's stretches that may end the job.\<close>

lemma after_job_inv:
  assumes inv: "gpu_inv timeout fpr g" and step: "runner_step fpr (gp_runner g) r" and fresh: "oc_pc (gp_orch g) t = None"
    and holds: "job_holds (rn_pc (gp_runner g))"
    and ends: "rn_pc r = Idle \<or> rn_pc r = EvictAfterAcquire i \<or> rn_pc r = EvictAfterWork i \<or>
      rn_pc r = Working i \<and> (i \<in> rn_cancelled r \<or> claim_ok (Have (target_of r i)) (gp_orch g) (gp_waiters g))"
  shows "gpu_inv timeout fpr (after_job t r g)"
proof -
  have runs: "(runner_step fpr)\<^sup>*\<^sup>* new_runner r" "orch_step\<^sup>*\<^sup>* (new_orchestrator timeout) (gp_orch (after_job t r g))"
    using inv step after_job_orch [OF fresh, of r] by (auto simp: gpu_inv_def intro: rtranclp.rtrancl_into_rtrancl)
  have lease: "gp_lease g = Some JobLoop" "\<forall>n. \<not> stream_holds (gp_stream g n)" and queue: "queue_ok (gp_orch g) (gp_waiters g)"
    using inv holds by (auto simp: gpu_inv_def lease_ok_def)
  show ?thesis
  proof (cases rule: after_job_cases [of r t g])
    case (work j)
    then have "lease_ok (after_job t r g)" using lease by (simp add: lease_ok_def job_holds_def)
    moreover have "claim_ok (claim_of (after_job t r g)) (gp_orch g) (gp_waiters g)"
      using work ends lease(1) by (auto simp: claim_of_def job_claim_def)
    ultimately show ?thesis using runs queue work by (simp add: gpu_inv_def)
  next
    case (evict j)
    then have "lease_ok (after_job t r g)" using lease by (auto simp: lease_ok_def job_holds_def)
    moreover have "claim_of (after_job t r g) = NoClaim" using evict lease(1) by (auto simp: claim_of_def job_claim_def)
    ultimately show ?thesis using runs queue_call [OF queue fresh] evict by (simp add: gpu_inv_def)
  next
    case left
    then have "rn_pc r = Idle" using ends by auto
    then have "lease_ok (after_job t r g)" using lease left by (simp add: lease_ok_def job_holds_def)
    moreover have "claim_of (after_job t r g) = NoClaim" using left by (simp add: claim_of_def)
    ultimately show ?thesis using runs queue_filter [OF queue notify_waits] left by (simp add: gpu_inv_def)
  qed
qed

lemma acquired_pc: "rn_pc (acquired i s) = Idle \<or> rn_pc (acquired i s) = Working i \<and> i \<notin> rn_cancelled s"
  by (auto simp: acquired_def finish_process_def crash_def split: sum.splits)

lemma acquire_failed_pc: "rn_pc (acquire_failed i exc s) = Idle \<or> rn_pc (acquire_failed i exc s) = EvictAfterAcquire i"
  by (auto simp: acquire_failed_def finish_process_def crash_def split: sum.splits)

lemma work_failed_pc: "rn_pc (work_failed i exc s) = Idle \<or> rn_pc (work_failed i exc s) = EvictAfterWork i"
  by (auto simp: work_failed_def finish_process_def crash_def Let_def split: sum.splits)

lemma work_returned_pc: "rn_pc (work_returned i res s) = Idle"
  by (auto simp: work_returned_def finish_process_def crash_def Let_def split: sum.splits)

text \<open>A stream lets go of the lease.\<close>

lemma stream_leaves_inv:
  assumes inv: "gpu_inv timeout fpr g" and holds: "stream_holds (gp_stream g n)"
    and step: "orch_step (gp_orch g) m \<or> m = gp_orch g" and keep: "\<And>u. waits m u \<Longrightarrow> waits (gp_orch g) u"
    and g': "gp_runner g' = gp_runner g" "gp_orch g' = m" "gp_waiters g' = filter (waits m) (gp_waiters g)" "gp_lease g' = None"
      "gp_stream g' = (gp_stream g)(n \<mapsto> StreamOver)"
  shows "gpu_inv timeout fpr g'"
proof -
  have lease: "gp_lease g = Some (Stream n)" using inv holds by (auto simp: gpu_inv_def lease_ok_def)
  then have "\<not> job_holds (rn_pc (gp_runner g))" "\<And>k. k \<noteq> n \<Longrightarrow> \<not> stream_holds (gp_stream g k)"
    using inv by (auto simp: gpu_inv_def lease_ok_def)
  then have "lease_ok g'" using g' by (auto simp: lease_ok_def stream_holds_def)
  moreover have "claim_of g' = NoClaim" using g' by (simp add: claim_of_def)
  moreover have "queue_ok m (filter (waits m) (gp_waiters g))" using inv queue_filter keep by (auto simp: gpu_inv_def)
  ultimately show ?thesis using inv step g' by (auto simp: gpu_inv_def intro: rtranclp.rtrancl_into_rtrancl)
qed

lemma manager_step_waits: "manager_step m m' \<Longrightarrow> waits m' u \<Longrightarrow> waits m u"
  by (induction rule: manager_step.induct)
     (auto simp: waits_simps stretch_defs goto_def finish_def Let_def split: if_splits)

lemma with_orch_inv:
  assumes "gpu_inv timeout fpr g" "orch_step (gp_orch g) m" "\<And>u. waits m u \<Longrightarrow> waits (gp_orch g) u"
    and "claim_ok (claim_of g) m (filter (waits m) (gp_waiters g))"
  shows "gpu_inv timeout fpr (with_orch m g)"
  unfolding with_orch_def using assms queue_filter by (intro gpu_inv_orch) (auto simp: gpu_inv_def)

lemma enter_waits: "idle_ok m \<Longrightarrow> oc_pc m t = Some (AcqLock r) \<Longrightarrow> waits (acquire_enter ok t r m) u \<Longrightarrow> waits m u"
  using enter_facts [OF refl, of m t r ok] by (cases "u = t"; cases "oc_idle m = Some u") (auto simp: waits_simps)

lemma enter_all_waits: "oc_pc m t = Some AllLock \<Longrightarrow> waits (evict_all_enter t m) u \<Longrightarrow> waits m u"
  using enter_all_facts [OF refl, of m t] by (cases "u = t") (auto simp: waits_simps)

text \<open>The steps in which only the manager moves.\<close>

lemma manager_steps_inv:
  assumes inv: "gpu_inv timeout fpr g"
  shows "gp_waiters g = t # ts \<Longrightarrow> oc_lock (gp_orch g) = None \<Longrightarrow> oc_pc (gp_orch g) t = Some (AcqLock r) \<Longrightarrow>
      gpu_inv timeout fpr (with_orch (acquire_enter ok t r (gp_orch g)) g)"
    and "gp_waiters g = t # ts \<Longrightarrow> oc_lock (gp_orch g) = None \<Longrightarrow> oc_pc (gp_orch g) t = Some AllLock \<Longrightarrow>
      gpu_inv timeout fpr (with_orch (evict_all_enter t (gp_orch g)) g)"
    and "manager_step (gp_orch g) m \<Longrightarrow> gpu_inv timeout fpr (with_orch m g)"
    and "oc_pc (gp_orch g) t = Some IdleStart \<Longrightarrow>
      gpu_inv timeout fpr (with_orch (try_idle_evict t (gp_orch g)) (g\<lparr>gp_waiters := gp_waiters g @ [t]\<rparr>))"
proof -
  have ok: "manager_ok (gp_orch g) (gp_waiters g)" and claim: "claim_ok (claim_of g) (gp_orch g) (gp_waiters g)"
    using gpu_inv_manager(1) [OF inv] inv by (auto simp: gpu_inv_def)
  then have idle: "idle_ok (gp_orch g)" by (simp add: manager_ok_def)
  show "gpu_inv timeout fpr (with_orch (acquire_enter ok t r (gp_orch g)) g)"
    if "gp_waiters g = t # ts" "oc_lock (gp_orch g) = None" "oc_pc (gp_orch g) t = Some (AcqLock r)"
    using inv acq_enter [OF that(3,2)] enter_waits [OF idle that(3)] claim_enter [OF claim ok that refl] by (rule with_orch_inv)
  show "gpu_inv timeout fpr (with_orch (evict_all_enter t (gp_orch g)) g)"
    if "gp_waiters g = t # ts" "oc_lock (gp_orch g) = None" "oc_pc (gp_orch g) t = Some AllLock"
    using inv all_enter [OF that(3,2)] enter_all_waits [OF that(3)] claim_enter_all [OF claim ok that(1,3) refl] by (rule with_orch_inv)
  show "gpu_inv timeout fpr (with_orch m g)" if "manager_step (gp_orch g) m"
    using inv manager_step_orch [OF that] manager_step_waits [OF that] claim_manager [OF claim ok that] by (rule with_orch_inv)
  show "gpu_inv timeout fpr (with_orch (try_idle_evict t (gp_orch g)) (g\<lparr>gp_waiters := gp_waiters g @ [t]\<rparr>))"
    if "oc_pc (gp_orch g) t = Some IdleStart"
  proof -
    let ?m = "try_idle_evict t (gp_orch g)"
    have "waits ?m u \<Longrightarrow> waits (gp_orch g) u \<or> u = t" for u
      by (auto simp: waits_simps try_idle_evict_def goto_def finish_def split: if_splits)
    moreover have "\<not> waits (gp_orch g) t" using that by (simp add: waits_simps)
    ultimately have "queue_ok ?m (filter (waits ?m) (gp_waiters g @ [t]))"
      using ok by (auto simp: manager_ok_def queue_ok_def)
    from gpu_inv_orch [OF inv idle_checks [OF that] this claim_idle_checks [OF claim ok that refl]]
    show ?thesis by (simp add: with_orch_def)
  qed
qed

lemma fresh_claim: "claim_ok (Want t r) (goto t (AcqLock r) m) (ws @ [t])"
proof -
  have "ws @ [t] = ws @ t # [] \<and> set [] \<subseteq> set_option (oc_idle m)" by simp
  then show ?thesis unfolding claim_ok.simps goto_def by (intro disjI1 exI [of _ ws] exI [of _ "[]"]) simp
qed

text \<open>The stretches of the job loop.\<close>

lemma job_leases_inv:
  assumes inv: "gpu_inv timeout fpr g" and "rn_pc (gp_runner g) = WaitLease i" "gp_lease g = None"
    "job_of (gp_runner g) i = Some r" "oc_pc (gp_orch g) t = None"
  shows "gpu_inv timeout fpr (job_leases t i r g)"
proof -
  let ?g = "job_leases t i r g"
  have "runner_step fpr (gp_runner g) (gp_runner ?g)" using rs_lease assms(2) by (simp add: job_leases_def)
  moreover have "orch_step (gp_orch g) (gp_orch ?g)" using call_acquire assms(5) by (simp add: job_leases_def)
  moreover have "queue_ok (gp_orch ?g) (gp_waiters ?g)" using queue_call assms(5) inv by (simp add: job_leases_def gpu_inv_def)
  moreover have "lease_ok ?g" using inv assms(3) by (auto simp: job_leases_def lease_ok_def gpu_inv_def job_holds_def)
  moreover have "claim_of ?g = Want t (job_target r)"
    using assms(4) by (simp add: job_leases_def claim_of_def job_claim_def target_of_def job_of_def)
  moreover have "claim_ok (Want t (job_target r)) (gp_orch ?g) (gp_waiters ?g)"
    using fresh_claim by (simp add: job_leases_def del: claim_ok.simps)
  ultimately show ?thesis using inv unfolding gpu_inv_def by (metis rtranclp.rtrancl_into_rtrancl)
qed

lemma acquired_inv:
  assumes inv: "gpu_inv timeout fpr g" and a: "rn_pc (gp_runner g) = Acquiring i" "gp_call g = Some t"
    "oc_pc (gp_orch g) t = Some (Finished Returned)" "oc_pc (gp_orch g) t' = None"
  shows "gpu_inv timeout fpr (after_job t' (acquired i (gp_runner g)) g)"
proof -
  have step: "runner_step fpr (gp_runner g) (acquired i (gp_runner g))" using a(1) by (rule rs_acquired)
  have lease: "gp_lease g = Some JobLoop" using inv a(1) by (simp add: gpu_inv_def lease_ok_def job_holds_def)
  then have "claim_of g = Want t (target_of (gp_runner g) i)" using a(1,2) by (simp add: claim_of_def job_claim_def)
  then have "claim_ok (Have (target_of (gp_runner g) i)) (gp_orch g) (gp_waiters g)" using inv a(3) by (auto simp: gpu_inv_def)
  moreover have "target_of (acquired i (gp_runner g)) i = target_of (gp_runner g) i"
    using target_stays [OF step gpu_inv_manager(2) [OF inv]] a(1) by blast
  ultimately show ?thesis
    using acquired_pc [of i "gp_runner g"] a(1,4) by (intro after_job_inv [OF inv step, of _ i]) (auto simp: job_holds_def)
qed

lemma cancel_inv:
  assumes inv: "gpu_inv timeout fpr g" and c: "cancel_call i (gp_runner g) = (None, r)" "rn_cancels (gp_runner g) c = None"
    "oc_pc (gp_orch g) t = None"
  shows "gpu_inv timeout fpr (call_manager t AllLock (g\<lparr>gp_runner := r\<lparr>rn_cancels := (rn_cancels r)(c \<mapsto> i)\<rparr>,
      gp_evictions := (gp_evictions g)(c \<mapsto> t)\<rparr>))" (is "gpu_inv timeout fpr ?g")
proof -
  have r: "rn_pc (gp_runner g) = Working i" "r = (gp_runner g)\<lparr>rn_cancelled := insert i (rn_cancelled (gp_runner g))\<rparr>"
    using cancel_waits_facts [OF c(1) gpu_inv_manager(2) [OF inv]] by auto
  have "runner_step fpr (gp_runner g) (gp_runner ?g)" using rs_cancel_waits [OF c(1,2)] by simp
  moreover have "orch_step (gp_orch g) (gp_orch ?g)" using call_evict_all c(3) by simp
  moreover have "queue_ok (gp_orch ?g) (gp_waiters ?g)" using queue_call c(3) inv by (simp add: gpu_inv_def)
  moreover have "lease_ok ?g" using inv r by (simp add: lease_ok_def gpu_inv_def)
  moreover have "claim_of ?g = NoClaim"
    using inv r by (simp add: claim_of_def job_claim_def gpu_inv_def lease_ok_def job_holds_def)
  ultimately show ?thesis using inv by (auto simp: gpu_inv_def intro: rtranclp.rtrancl_into_rtrancl)
qed

text \<open>The stretches of a stream.\<close>

lemma stream_leases_inv:
  assumes inv: "gpu_inv timeout fpr g" and "gp_stream g n = Some StreamWaits" "gp_lease g = None" "oc_pc (gp_orch g) t = None"
  shows "gpu_inv timeout fpr (stream_leases n t g)"
proof -
  let ?g = "stream_leases n t g"
  have "orch_step (gp_orch g) (gp_orch ?g)" using call_acquire assms(4) by (simp add: stream_leases_def)
  moreover have "queue_ok (gp_orch ?g) (gp_waiters ?g)" using queue_call assms(4) inv by (simp add: stream_leases_def gpu_inv_def)
  moreover have "lease_ok ?g" using inv assms(3) by (auto simp: stream_leases_def lease_ok_def gpu_inv_def stream_holds_def)
  moreover have "claim_of ?g = Want t stream_target" by (simp add: stream_leases_def claim_of_def stream_claim_def)
  moreover have "claim_ok (Want t stream_target) (gp_orch ?g) (gp_waiters ?g)"
    using fresh_claim by (simp add: stream_leases_def del: claim_ok.simps)
  moreover have "gp_runner ?g = gp_runner g" by (simp add: stream_leases_def)
  ultimately show ?thesis using inv unfolding gpu_inv_def by (metis rtranclp.rtrancl_into_rtrancl)
qed

lemma stream_ready_inv:
  assumes inv: "gpu_inv timeout fpr g" and "gp_stream g n = Some (StreamAcquires t)" "oc_pc (gp_orch g) t = Some (Finished Returned)"
  shows "gpu_inv timeout fpr (set_stream n Streaming g)"
proof -
  have "gp_lease g = Some (Stream n)" using inv assms(2) by (auto simp: gpu_inv_def lease_ok_def stream_holds_def)
  then have "claim_of g = Want t stream_target" "claim_of (set_stream n Streaming g) = Have stream_target"
    using assms(2) by (simp_all add: claim_of_def stream_claim_def)
  moreover have "lease_ok (set_stream n Streaming g)"
    using inv \<open>gp_lease g = Some (Stream n)\<close> by (auto simp: gpu_inv_def lease_ok_def stream_holds_def)
  ultimately show ?thesis using inv assms(3) by (auto simp: gpu_inv_def)
qed

lemma stream_waits_inv:
  assumes inv: "gpu_inv timeout fpr g" and "\<not> stream_holds (gp_stream g n)" "\<not> stream_holds (Some pc)"
  shows "gpu_inv timeout fpr (set_stream n pc g)"
proof -
  have "gp_lease g \<noteq> Some (Stream n)" using inv assms(2) by (auto simp: gpu_inv_def lease_ok_def)
  then have "claim_of (set_stream n pc g) = claim_of g" by (auto simp: claim_of_def split: option.split holder.split)
  moreover have "lease_ok (set_stream n pc g)" using inv assms(2,3) by (auto simp: gpu_inv_def lease_ok_def)
  ultimately show ?thesis using inv by (simp add: gpu_inv_def)
qed

lemma gpu_step_inv:
  assumes "gpu_step fpr g g'" "gpu_inv timeout fpr g"
  shows "gpu_inv timeout fpr g'"
  using assms(1)
proof (cases rule: gpu_step.cases)
  case (gp_local r)
  have step: "runner_step fpr (gp_runner g) r" using gp_local(2) by (rule local_step_runner)
  have "job_holds (rn_pc r) = job_holds (rn_pc (gp_runner g)) \<and> job_claim r (gp_call g) \<in> {job_claim (gp_runner g) (gp_call g), NoClaim}"
    using local_keeps [OF gp_local(2)]
  proof
    assume "rn_pc r = rn_pc (gp_runner g) \<and> rn_cancelled (gp_runner g) \<subseteq> rn_cancelled r"
    then show ?thesis using job_claim_stays [OF step gpu_inv_manager(2) [OF assms(2)]] by simp
  qed (auto simp: job_holds_def job_claim_def split: runner_pc.splits)
  then show ?thesis using gpu_inv_runner [OF assms(2) step, of "gp_evictions g"] gp_local(1) by simp
next
  case (gp_job_leases i r t)
  then show ?thesis using job_leases_inv [OF assms(2)] by blast
next
  case (gp_acquired i t t')
  then show ?thesis using acquired_inv [OF assms(2)] by blast
next
  case (gp_acquire_failed i t t' exc)
  then show ?thesis using acquire_failed_pc [of i exc "gp_runner g"]
    unfolding gp_acquire_failed(1) by (intro after_job_inv [OF assms(2) rs_acquire_failed, where i = i]) (auto simp: job_holds_def)
next
  case (gp_work_failed i t' exc)
  then show ?thesis using work_failed_pc [of i exc "gp_runner g"]
    unfolding gp_work_failed(1) by (intro after_job_inv [OF assms(2) rs_work_failed, where i = i]) (auto simp: job_holds_def)
next
  case (gp_work_returned i t' res)
  then show ?thesis using work_returned_pc [of i res "gp_runner g"]
    unfolding gp_work_returned(1) by (intro after_job_inv [OF assms(2) rs_work_returned]) (auto simp: job_holds_def)
next
  case (gp_evicted i t t')
  have "rn_pc (finish_process i (gp_runner g)) = Idle" by (simp add: finish_process_def)
  moreover have "job_holds (rn_pc (gp_runner g))" using gp_evicted(2) by (auto simp: job_holds_def)
  ultimately show ?thesis using after_job_inv [OF assms(2) rs_evicted [OF gp_evicted(2)] gp_evicted(5)] gp_evicted(1) by blast
next
  case (gp_evict_raised i t t')
  have "rn_pc (crash EvictionRaised i (gp_runner g)) = Idle" by (simp add: crash_def finish_process_def)
  moreover have "job_holds (rn_pc (gp_runner g))" using gp_evict_raised(2) by (auto simp: job_holds_def)
  ultimately show ?thesis
    using after_job_inv [OF assms(2) rs_evict_raises [OF gp_evict_raised(2)] gp_evict_raised(5)] gp_evict_raised(1) by blast
next
  case (gp_cancel i r c t)
  then show ?thesis using cancel_inv [OF assms(2)] by blast
next
  case (gp_cancel_resumes c i t)
  have step: "runner_step fpr (gp_runner g) (cancel_resume c i (gp_runner g))" using gp_cancel_resumes(2) by (rule rs_cancel_resumes)
  show ?thesis unfolding gp_cancel_resumes(1)
    using cancel_resume_keeps [of c i "gp_runner g"] job_claim_stays [OF step gpu_inv_manager(2) [OF assms(2)]]
    by (intro gpu_inv_runner [OF assms(2) step]) auto
next
  case (gp_cancel_lost c i t res)
  have step: "runner_step fpr (gp_runner g) (cancel_lost c i (gp_runner g))" using gp_cancel_lost(2) by (rule rs_cancel_lost)
  show ?thesis unfolding gp_cancel_lost(1)
    using job_claim_stays [OF step gpu_inv_manager(2) [OF assms(2)]]
    by (intro gpu_inv_runner [OF assms(2) step]) (auto simp: cancel_lost_def)
next
  case (gp_stream_opens n)
  then show ?thesis using stream_waits_inv [OF assms(2)] by (simp add: stream_holds_def)
next
  case (gp_stream_leases n t)
  then show ?thesis using stream_leases_inv [OF assms(2)] by blast
next
  case (gp_stream_ready n t)
  then show ?thesis using stream_ready_inv [OF assms(2)] by blast
next
  case (gp_stream_failed n t)
  have "filter (waits (gp_orch g)) (gp_waiters g) = gp_waiters g"
    using assms(2) by (intro filter_same) (simp add: gpu_inv_def queue_ok_def)
  then show ?thesis using stream_leaves_inv [OF assms(2), of n "gp_orch g" g'] gp_stream_failed
    by (simp add: stream_failed_def stream_holds_def)
next
  case (gp_stream_gone n)
  then show ?thesis using stream_waits_inv [OF assms(2)] by (simp add: stream_holds_def)
next
  case (gp_stream_cancelled n t pc)
  have "orch_step (gp_orch g) (interrupt t (gp_orch g))" using gp_stream_cancelled(3,4) by (rule interrupt_orch)
  then show ?thesis using stream_leaves_inv [OF assms(2), of n "interrupt t (gp_orch g)" g'] interrupt_waits gp_stream_cancelled(1,2)
    by (simp add: stream_failed_def stream_holds_def)
next
  case (gp_stream_ends n)
  then show ?thesis using stream_leaves_inv [OF assms(2), of n "notify_idle (gp_orch g)" g'] notify_waits idle_notified
    by (simp add: stream_ends_def stream_holds_def)
qed (use manager_steps_inv [OF assms(2)] in blast)+

interpretation leased: step_invariant "gpu_step fpr" "gpu_inv timeout fpr" for fpr timeout
  by unfold_locales (rule gpu_step_inv)

lemma gpu_reachable: "(gpu_step fpr)\<^sup>*\<^sup>* (new_gpu timeout) g \<Longrightarrow> gpu_inv timeout fpr g"
  by (rule leased.along_run)
     (auto simp: gpu_inv_def new_gpu_def queue_ok_def waits_simps new_orchestrator_def lease_ok_def job_holds_def
       stream_holds_def claim_of_def new_runner_def)

lemma streaming_claim:
  assumes "gpu_inv timeout fpr g" "gp_stream g n = Some Streaming"
  shows "gp_lease g = Some (Stream n) \<and> claim_ok (Have stream_target) (gp_orch g) (gp_waiters g)"
proof -
  have "gp_lease g = Some (Stream n)" using assms by (auto simp: gpu_inv_def lease_ok_def stream_holds_def)
  then show ?thesis using assms by (auto simp: gpu_inv_def claim_of_def stream_claim_def)
qed

lemma working_claim:
  assumes "gpu_inv timeout fpr g" "rn_pc (gp_runner g) = Working i" "i \<notin> rn_cancelled (gp_runner g)"
  shows "gp_lease g = Some JobLoop \<and> claim_ok (Have (target_of (gp_runner g) i)) (gp_orch g) (gp_waiters g)"
proof -
  have "gp_lease g = Some JobLoop" using assms by (auto simp: gpu_inv_def lease_ok_def job_holds_def)
  then show ?thesis using assms by (auto simp: gpu_inv_def claim_of_def job_claim_def)
qed

lemma have_worker:
  assumes "orch_step\<^sup>*\<^sup>* (new_orchestrator timeout) m" "claim_ok (Have r) m ws"
  shows "(\<exists>w. oc_worker m = Some w \<and> oc_made m w = Some r) \<and> \<not> oc_timer m \<and> (\<forall>t pc. oc_pc m t = Some pc \<longrightarrow> pc \<in> range Finished)"
proof -
  have "\<And>u. idle_over m u" "oc_slot m = Some r" "calm m" using assms(2) by auto
  then show ?thesis using recorded_worker [OF assms(1)] by (cases "oc_worker m") (auto simp: calm_def idle_over_def)
qed

section \<open>Properties\<close>

text \<open>A stream that finds the GPU cold, loads the reasoner and relays.\<close>

definition demo_orch :: "residency_id option \<Rightarrow> worker option \<Rightarrow> task option \<Rightarrow> orch_pc \<Rightarrow> nat \<Rightarrow> orch" where
  "demo_orch slot wk lock pc k = \<lparr>oc_slot = slot, oc_worker = wk, oc_lock = lock, oc_timer = False, oc_idle = None,
     oc_idle_timeout = 60, oc_pc = [0 \<mapsto> pc], oc_made = (if k = 0 then (\<lambda>w. None) else [0 \<mapsto> stream_target]), oc_next = k,
     oc_live = (if k = 0 then {} else {0}), oc_let_go = {}, oc_orphans = {}, oc_dirty = False\<rparr>"

definition demo_gpu :: "orch \<Rightarrow> task list \<Rightarrow> stream_pc \<Rightarrow> gpu" where
  "demo_gpu m ws pc = (new_gpu 60)\<lparr>gp_orch := m, gp_waiters := ws, gp_lease := Some (Stream 0), gp_stream := [0 \<mapsto> pc]\<rparr>"

abbreviation "demo_1 \<equiv> demo_gpu (demo_orch None None None (AcqLock stream_target) 0) [0] (StreamAcquires 0)"
abbreviation "demo_2 \<equiv> demo_gpu (demo_orch None None (Some 0) (AcqStart stream_target 0) 1) [] (StreamAcquires 0)"
abbreviation "demo_3 \<equiv> demo_gpu (demo_orch None None (Some 0) (AcqReady stream_target 0) 1) [] (StreamAcquires 0)"
abbreviation "demo_4 \<equiv> demo_gpu (demo_orch (Some stream_target) (Some 0) None (Finished Returned) 1) [] (StreamAcquires 0)"
abbreviation "demo_5 \<equiv> demo_gpu (demo_orch (Some stream_target) (Some 0) None (Finished Returned) 1) [] Streaming"

lemma demo_states:
  "stream_leases 0 0 (set_stream 0 StreamWaits (new_gpu 60)) = demo_1"
  "with_orch (acquire_enter True 0 stream_target (gp_orch demo_1)) demo_1 = demo_2"
  "with_orch (goto 0 (AcqReady stream_target 0) (gp_orch demo_2)) demo_2 = demo_3"
  "with_orch (acquire_ready True 0 stream_target 0 (gp_orch demo_3)) demo_3 = demo_4"
  "set_stream 0 Streaming demo_4 = demo_5"
  by (simp_all add: demo_gpu_def demo_orch_def new_gpu_def new_orchestrator_def set_stream_def stream_leases_def call_manager_def
      with_orch_def acquire_enter_def acquire_load_def acquire_ready_def cancel_idle_timer_def cancel_idle_handle_def
      plan_acquire_def goto_def finish_def waits_def Let_def fun_eq_iff)

lemma demo_stream_run: "(gpu_step fpr)\<^sup>*\<^sup>* (new_gpu 60) demo_5"
proof -
  have "(gpu_step fpr)\<^sup>*\<^sup>* (new_gpu 60) (set_stream 0 StreamWaits (new_gpu 60))" by (rule r_into_rtranclp, rule gp_stream_opens) (simp add: new_gpu_def)
  also have "(gpu_step fpr)\<^sup>*\<^sup>* (set_stream 0 StreamWaits (new_gpu 60)) demo_1"
    by (rule r_into_rtranclp, subst demo_states(1) [symmetric], rule gp_stream_leases) (simp_all add: new_gpu_def new_orchestrator_def)
  also have "(gpu_step fpr)\<^sup>*\<^sup>* demo_1 demo_2"
    by (rule r_into_rtranclp, subst demo_states(2) [symmetric], rule gp_enter) (simp_all add: demo_gpu_def demo_orch_def)
  also have "(gpu_step fpr)\<^sup>*\<^sup>* demo_2 demo_3"
    by (rule r_into_rtranclp, subst demo_states(3) [symmetric], rule gp_manager, rule mg_started) (simp add: demo_gpu_def demo_orch_def)
  also have "(gpu_step fpr)\<^sup>*\<^sup>* demo_3 demo_4"
    by (rule r_into_rtranclp, subst demo_states(4) [symmetric], rule gp_manager, rule mg_ready) (simp add: demo_gpu_def demo_orch_def)
  also have "(gpu_step fpr)\<^sup>*\<^sup>* demo_4 demo_5"
    by (rule r_into_rtranclp, subst demo_states(5) [symmetric], rule gp_stream_ready) (simp_all add: demo_gpu_def demo_orch_def)
  finally show ?thesis .
qed



end
