(* ===== verification/Float_Rounding.thy ===== *)
theory Float_Rounding
  imports Py_Values "HOL-Library.Log_Nat"
begin

text \<open>
  Binary floating point as the array library and the processor have it: a real result is rounded to the
  nearest number with \<open>prec\<close> significant bits, ties to even, no finer than \<open>2 powi emin\<close>, and past
  \<open>2 powi emax\<close> to an infinity. Values stay exact rationals; the two zeros are one.
\<close>

section \<open>Rounding\<close>

text \<open>\<open>np.rint\<close>: the nearest integer, ties to even.\<close>

definition round_even :: "rat \<Rightarrow> int" where
  "round_even x =
     (let n = \<lfloor>x\<rfloor>; d = x - of_int n
      in if d < 1 / 2 then n else if 1 / 2 < d then n + 1 else if even n then n else n + 1)"

text \<open>The exponent of the leading bit of a positive number.\<close>

definition leading_bit :: "rat \<Rightarrow> int" where
  "leading_bit x =
     (let (p, q) = quotient_of x; k = bitlen p - bitlen q in if 2 powi k \<le> x then k else k - 1)"

definition ieee :: "nat \<Rightarrow> int \<Rightarrow> int \<Rightarrow> rat \<Rightarrow> pyfloat" where
  "ieee prec emin emax x =
     (if x = 0 then Finite 0
      else (let ulp = 2 powi (max emin (leading_bit \<bar>x\<bar> - int prec + 1));
                r = of_int (round_even (x / ulp)) * ulp
            in if \<bar>r\<bar> < 2 powi emax then Finite r else if 0 < r then PosInf else NegInf))"

definition binary32 :: "rat \<Rightarrow> pyfloat" where "binary32 = ieee 24 (- 149) 128"
definition binary64 :: "rat \<Rightarrow> pyfloat" where "binary64 = ieee 53 (- 1074) 1024"

section \<open>Error bounds\<close>

lemma round_even_error: "\<bar>of_int (round_even x) - x\<bar> \<le> 1 / 2"
  by (auto simp: round_even_def Let_def abs_if) linarith+

lemma round_even_near: "\<bar>x - of_int n\<bar> < 1 / 2 \<Longrightarrow> round_even x = n"
  using round_even_error [of x] by linarith

lemma round_even_of_int [simp]: "round_even (of_int n) = n"
  by (rule round_even_near) simp

lemma bitlen_le: "0 < p \<Longrightarrow> (2::rat) powi (bitlen p - 1) \<le> of_int p"
proof -
  assume p: "0 < p"
  then have b: "1 \<le> bitlen p" using bitlen_eq_zero_iff [of p] bitlen_nonneg [of p] by linarith
  have "(2::rat) powi (bitlen p - 1) = of_int (2 ^ nat (bitlen p - 1))"
    using b by (simp add: power_int_def)
  also have "\<dots> \<le> of_int p" using bitlen_bounds [OF p] by (subst of_int_le_iff) simp
  finally show ?thesis .
qed

lemma bitlen_gt: "0 < p \<Longrightarrow> of_int p < (2::rat) powi bitlen p"
proof -
  assume p: "0 < p"
  have "(of_int p :: rat) < of_int (2 ^ nat (bitlen p))" using bitlen_bounds [OF p] by (subst of_int_less_iff) simp
  also have "\<dots> = (2::rat) powi bitlen p" by (simp add: power_int_def bitlen_nonneg)
  finally show ?thesis .
qed

lemma leading_bit_le: "0 < x \<Longrightarrow> 2 powi leading_bit x \<le> x"
proof -
  assume x: "0 < x"
  obtain p q where pq: "quotient_of x = (p, q)" by (cases "quotient_of x")
  have q: "0 < q" and xq: "x = of_int p / of_int q"
    using quotient_of_denom_pos [OF pq] quotient_of_div [OF pq] by simp_all
  then have p: "0 < p" using x by (simp add: zero_less_divide_iff)
  have "(2::rat) powi (bitlen p - bitlen q - 1) = 2 powi (bitlen p - 1) / 2 powi bitlen q"
    by (simp add: power_int_diff)
  also have "\<dots> \<le> of_int p / of_int q"
    using bitlen_le [OF p] bitlen_gt [OF q] p q by (intro frac_le) simp_all
  also have "\<dots> = x" by (simp add: xq)
  finally show ?thesis by (simp add: leading_bit_def pq Let_def)
qed

lemma leading_bit_less: "0 < x \<Longrightarrow> x < 2 powi e \<Longrightarrow> leading_bit x < e"
proof (rule ccontr)
  assume x: "0 < x" "x < 2 powi e" and "\<not> leading_bit x < e"
  then have "(2::rat) powi e \<le> 2 powi leading_bit x" by (simp add: power_int_increasing)
  with leading_bit_le [OF x(1)] x(2) show False by simp
qed

text \<open>
  Below \<open>2 powi e\<close> the error is at most half a unit in the last place of that binade, and the result
  does not leave the binade's closure.
\<close>

lemma ieee_error:
  assumes x: "\<bar>x\<bar> < 2 powi e" and e: "emin \<le> e - int prec" "e < emax"
  obtains r where "ieee prec emin emax x = Finite r" "\<bar>r - x\<bar> \<le> 2 powi (e - int prec - 1)"
proof (cases "x = 0")
  case False
  define u where "u = (2::rat) powi (max emin (leading_bit \<bar>x\<bar> - int prec + 1))"
  define r where "r = of_int (round_even (x / u)) * u"
  have "leading_bit \<bar>x\<bar> < e" using leading_bit_less [of "\<bar>x\<bar>" e] x False by simp
  then have "u \<le> 2 powi (e - int prec)" using e(1) by (auto simp: u_def intro!: power_int_increasing)
  moreover have u: "0 < u" by (simp add: u_def)
  have "r - x = (of_int (round_even (x / u)) - x / u) * u" using u by (simp add: r_def field_simps)
  then have "\<bar>r - x\<bar> = \<bar>of_int (round_even (x / u)) - x / u\<bar> * u" using u by (simp add: abs_mult)
  then have "\<bar>r - x\<bar> \<le> 1 / 2 * u" using round_even_error [of "x / u"] u by (simp add: mult_right_mono)
  ultimately have d: "\<bar>r - x\<bar> \<le> 2 powi (e - int prec) / 2" by linarith
  have half: "(2::rat) powi (e - int prec - 1) = 2 powi (e - int prec) / 2" by (simp add: power_int_diff)
  have "(2::rat) powi (e - int prec) / 2 \<le> 2 powi e"
  proof -
    have "(2::rat) powi (e - int prec) \<le> 2 powi e" by (intro power_int_increasing) simp_all
    moreover have "0 \<le> (2::rat) powi e" by simp
    ultimately show ?thesis by linarith
  qed
  then have "\<bar>r\<bar> < 2 * 2 powi e" using d x by linarith
  also have "\<dots> = 2 powi (e + 1)" by (simp add: power_int_add)
  also have "\<dots> \<le> 2 powi emax" using e(2) by (intro power_int_increasing) simp_all
  finally have "ieee prec emin emax x = Finite r"
    using False by (simp add: ieee_def u_def [symmetric] r_def [symmetric] Let_def)
  with that d half show ?thesis by simp
qed (use that [of 0] in \<open>simp add: ieee_def\<close>)

lemma binary32_error:
  assumes "\<bar>x\<bar> < 2 powi e" "- 125 \<le> e" "e < 128"
  obtains r where "binary32 x = Finite r" "\<bar>r - x\<bar> \<le> 2 powi (e - 25)"
  using ieee_error [of x e "- 149" 24 128] assms by (auto simp: binary32_def)

lemma powi_neg: "(2::rat) powi (- numeral n) = 1 / 2 ^ numeral n"
  using power_int_minus [of "2::rat" "numeral n"] by (simp add: inverse_eq_divide)

section \<open>Operations on the values of an array\<close>

fun flt_scale :: "(rat \<Rightarrow> pyfloat) \<Rightarrow> rat \<Rightarrow> pyfloat \<Rightarrow> pyfloat" where
  "flt_scale fl c (Finite r) = fl (c * r)"
| "flt_scale fl c x = x"

fun flt_clip :: "rat \<Rightarrow> rat \<Rightarrow> pyfloat \<Rightarrow> pyfloat" where
  "flt_clip lo hi (Finite r) = Finite (min (max r lo) hi)"
| "flt_clip lo hi PosInf = Finite hi"
| "flt_clip lo hi NegInf = Finite lo"
| "flt_clip lo hi NotANumber = NotANumber"

text \<open>\<open>round().astype\<close> to an integer type: what the platform makes of a NaN is the argument \<open>nan\<close>.\<close>

fun flt_to_int :: "int \<Rightarrow> pyfloat \<Rightarrow> int" where
  "flt_to_int nan (Finite r) = round_even r"
| "flt_to_int nan x = nan"

end
