(* ===== verification/Artifact_Encoders.thy ===== *)
theory Artifact_Encoders
  imports Media Float_Rounding
begin

text \<open>
  The array half of the artifact encoders: frames between the engine's floats and the encoders' bytes
  (\<open>_frames_to_float\<close> of \<open>api/engines/diffusers_oracle/adapter.py\<close>, \<open>_frames_to_uint8\<close> and \<open>_write_wav\<close> of
  \<open>api/jobs/artifacts.py\<close>). An array is its shape and its elements in C order, of bytes or of floats of
  one of two widths; every operation rounds as its width does. \<open>nan\<close> is what the platform's cast makes of
  a NaN.
\<close>

section \<open>Arrays\<close>

datatype np_array =
  U8 "nat list" "byte list"
| F32 "nat list" "pyfloat list"
| F64 "nat list" "pyfloat list"

definition byte_value :: "byte \<Rightarrow> int" where "byte_value b = uint b"

fun as_float32 :: "np_array \<Rightarrow> np_array" where
  "as_float32 (U8 s px) = F32 s (map (\<lambda>b. binary32 (of_int (byte_value b))) px)"
| "as_float32 (F32 s xs) = F32 s xs"
| "as_float32 (F64 s xs) = F32 s (map (flt_scale binary32 1) xs)"

fun array_scale :: "rat \<Rightarrow> np_array \<Rightarrow> np_array" where
  "array_scale c (U8 s px) = U8 s px"
| "array_scale c (F32 s xs) = F32 s (map (flt_scale binary32 c) xs)"
| "array_scale c (F64 s xs) = F64 s (map (flt_scale binary64 c) xs)"

fun array_clip :: "rat \<Rightarrow> rat \<Rightarrow> np_array \<Rightarrow> np_array" where
  "array_clip lo hi (U8 s px) = U8 s px"
| "array_clip lo hi (F32 s xs) = F32 s (map (flt_clip lo hi) xs)"
| "array_clip lo hi (F64 s xs) = F64 s (map (flt_clip lo hi) xs)"

fun array_floats :: "np_array \<Rightarrow> pyfloat list" where
  "array_floats (U8 s px) = map (\<lambda>b. Finite (of_int (byte_value b))) px"
| "array_floats (F32 s xs) = xs"
| "array_floats (F64 s xs) = xs"

fun array_shape :: "np_array \<Rightarrow> nat list" where
  "array_shape (U8 s px) = s" | "array_shape (F32 s xs) = s" | "array_shape (F64 s xs) = s"

section \<open>Frames\<close>

text \<open>One frame to \<open>float32\<close>: bytes are divided by 255, anything else is only converted.\<close>

definition frame_to_float :: "np_array \<Rightarrow> np_array" where
  "frame_to_float arr = (case arr of
     U8 s px \<Rightarrow> array_scale (1 / 255) (as_float32 arr) | _ \<Rightarrow> as_float32 arr)"

definition frame_to_uint8 :: "int \<Rightarrow> np_array \<Rightarrow> np_array" where
  "frame_to_uint8 nan arr = (case arr of
     U8 s px \<Rightarrow> arr
   | _ \<Rightarrow> U8 (array_shape arr)
        (map (\<lambda>x. word_of_int (flt_to_int nan x)) (array_floats (array_scale 255 (array_clip 0 1 arr)))))"

definition frames_to_uint8 :: "int \<Rightarrow> np_array list \<Rightarrow> np_array list" where
  "frames_to_uint8 nan frames = map (frame_to_uint8 nan) frames"

section \<open>Sound\<close>

definition transpose2 :: "nat \<Rightarrow> nat \<Rightarrow> 'a list \<Rightarrow> 'a list" where
  "transpose2 rows cols xs = concat (map (\<lambda>j. map (\<lambda>i. xs ! (i * cols + j)) [0..<rows]) [0..<cols])"

text \<open>A vector becomes one column; a wide matrix is taken for channels by samples.\<close>

definition audio_layout :: "nat list \<Rightarrow> 'a list \<Rightarrow> nat list \<times> 'a list" where
  "audio_layout shape xs =
     (let shape1 = (case shape of [n] \<Rightarrow> [n, 1] | _ \<Rightarrow> shape)
      in case shape1 of
           [a, b] \<Rightarrow> if a < b then ([b, a], transpose2 a b xs) else (shape1, xs)
         | _ \<Rightarrow> (shape1, xs))"

definition pcm16 :: "int \<Rightarrow> pyfloat \<Rightarrow> int" where
  "pcm16 nan x = flt_to_int nan (flt_scale binary32 32767 (flt_clip (- 1) 1 x))"

definition pcm_bytes :: "int list \<Rightarrow> byte list" where
  "pcm_bytes pcm = concat (map (\<lambda>v. le_bytes 2 (nat (v mod 65536))) pcm)"

text \<open>What is left at the path, and the exception: a scalar has no second axis.\<close>

definition write_wav :: "int \<Rightarrow> nat \<Rightarrow> nat list \<Rightarrow> pyfloat list \<Rightarrow> byte list \<times> string option" where
  "write_wav nan sample_rate shape xs =
     (let (shape1, ys) = audio_layout shape xs
      in case shape1 of
           _ # channels # _ \<Rightarrow> wave_write channels 2 sample_rate (pcm_bytes (map (pcm16 nan) ys))
         | _ \<Rightarrow> ([], Some ''tuple index out of range''))"

section \<open>Pixels survive\<close>

lemma binary32_int: "\<bar>n\<bar> < 2 ^ 24 \<Longrightarrow> binary32 (of_int n) = Finite (of_int n)"
proof (cases "n = 0")
  case False
  assume n: "\<bar>n\<bar> < 2 ^ 24"
  define k where "k = nat (- max (- 149) (leading_bit \<bar>of_int n\<bar> - 23))"
  have "\<bar>of_int n :: rat\<bar> < 2 powi 24"
    using n by (simp flip: of_int_abs)
  then have "leading_bit \<bar>of_int n\<bar> < 24" using leading_bit_less [of "\<bar>of_int n\<bar>" 24] False by simp
  then have e: "max (- 149) (leading_bit \<bar>of_int n\<bar> - 23) = - int k" by (simp add: k_def)
  have u: "(2::rat) powi (- int k) = 1 / 2 ^ k" by (simp add: power_int_minus divide_inverse)
  have r: "round_even (rat_of_int n * 2 ^ k) = n * 2 ^ k" using round_even_of_int [of "n * 2 ^ k"] by simp
  have "\<bar>of_int n :: rat\<bar> < 2 powi 128"
    using \<open>\<bar>of_int n :: rat\<bar> < 2 powi 24\<close> power_int_increasing [of 24 128 "2::rat"] by simp
  then show ?thesis using False by (simp add: binary32_def ieee_def e u r Let_def)
qed (simp add: binary32_def ieee_def)

lemma byte_range: "0 \<le> byte_value b" "byte_value b < 256"
  using uint_lt2p [of b] by (simp_all add: byte_value_def)

lemma pixel_float:
  obtains r where "flt_scale binary32 (1 / 255) (binary32 (of_int (byte_value b))) = Finite r"
    "\<bar>r - of_int (byte_value b) / 255\<bar> \<le> 1 / 2 ^ 24"
proof -
  have b: "0 \<le> (of_int (byte_value b) :: rat)" "(of_int (byte_value b) :: rat) \<le> 255" using byte_range [of b] by simp_all
  then have "\<bar>of_int (byte_value b) / 255 :: rat\<bar> < 2 powi 1" by simp
  from binary32_error [OF this] obtain r where
    r: "binary32 (of_int (byte_value b) / 255) = Finite r" "\<bar>r - of_int (byte_value b) / 255\<bar> \<le> 2 powi (1 - 25)" by auto
  have "binary32 (of_int (byte_value b)) = Finite (of_int (byte_value b))"
    using byte_range [of b] by (intro binary32_int) simp
  moreover have "\<bar>r - of_int (byte_value b) / 255\<bar> \<le> 1 / 2 ^ 24" using r(2) by (simp add: powi_neg)
  ultimately show ?thesis using that r(1) by simp
qed

lemma clip_near:
  assumes "\<bar>r - x\<bar> \<le> d" "lo \<le> x" "x \<le> hi"
  shows "\<bar>min (max r lo) hi - (x::rat)\<bar> \<le> d" "lo \<le> min (max r lo) hi" "min (max r lo) hi \<le> hi"
  using assms by (auto simp: min_def max_def abs_if split: if_splits)

lemma pixel_byte:
  "word_of_int (flt_to_int nan (flt_scale binary32 255 (flt_clip 0 1
     (flt_scale binary32 (1 / 255) (binary32 (of_int (byte_value b))))))) = b"
proof -
  define x where "x = (of_int (byte_value b) :: rat) / 255"
  obtain r where r: "flt_scale binary32 (1 / 255) (binary32 (of_int (byte_value b))) = Finite r" "\<bar>r - x\<bar> \<le> 1 / 2 ^ 24"
    using pixel_float [of b] by (auto simp: x_def)
  have x: "0 \<le> x" "x \<le> 1" using byte_range [of b] by (simp_all add: x_def)
  define c where "c = min (max r 0) 1"
  note c = clip_near [OF r(2) x, folded c_def]
  have "\<bar>255 * c\<bar> < 2 powi 8" using c(2,3) by simp
  from binary32_error [OF this] obtain s where
    s: "binary32 (255 * c) = Finite s" "\<bar>s - 255 * c\<bar> \<le> 2 powi (8 - 25)" by auto
  have "\<bar>s - 255 * c\<bar> \<le> 1 / 2 ^ 17" using s(2) by (simp add: powi_neg)
  moreover have "255 * c - of_int (byte_value b) = 255 * (c - x)" by (simp add: x_def)
  then have "\<bar>255 * c - of_int (byte_value b)\<bar> = 255 * \<bar>c - x\<bar>" by (simp only: abs_mult abs_numeral)
  then have "\<bar>255 * c - of_int (byte_value b)\<bar> \<le> 255 / 2 ^ 24" using c(1) by simp
  ultimately have "\<bar>s - of_int (byte_value b)\<bar> \<le> 1 / 2 ^ 17 + 255 / 2 ^ 24" by linarith
  then have "\<bar>s - of_int (byte_value b)\<bar> < 1 / 2" by (rule order.strict_trans1) simp
  then have "round_even s = byte_value b" by (rule round_even_near)
  moreover have "word_of_int (byte_value b) = b" by (simp add: byte_value_def)
  ultimately show ?thesis using s(1) by (simp add: r(1) c_def)
qed

lemma frame_round_trip: "frame_to_uint8 nan (frame_to_float (U8 s px)) = U8 s px"
  by (simp add: frame_to_float_def frame_to_uint8_def comp_def pixel_byte)

section \<open>Samples are kept within half a step\<close>

lemma pcm16_finite: "\<bar>of_int (pcm16 nan (Finite r)) - 32767 * min (max r (- 1)) 1\<bar> \<le> 1 / 2 + 1 / 2 ^ 10"
proof -
  define c where "c = min (max r (- 1)) 1"
  have c: "\<bar>c\<bar> \<le> 1" by (auto simp: c_def abs_if min_def max_def)
  then have "\<bar>32767 * c\<bar> < 2 powi 15" by (simp add: abs_mult)
  from binary32_error [OF this] obtain s where
    s: "binary32 (32767 * c) = Finite s" "\<bar>s - 32767 * c\<bar> \<le> 2 powi (15 - 25)" by auto
  then have "\<bar>s - 32767 * c\<bar> \<le> 1 / 2 ^ 10" by (simp add: powi_neg)
  with round_even_error [of s] have "\<bar>of_int (round_even s) - 32767 * c\<bar> \<le> 1 / 2 + 1 / 2 ^ 10" by linarith
  then show ?thesis using s(1) by (simp add: pcm16_def c_def [symmetric])
qed

lemma pcm16_range:
  assumes "x \<noteq> NotANumber"
  shows "pcm16 nan x \<in> {- 32767 .. 32767}"
proof -
  obtain r where "pcm16 nan x = pcm16 nan (Finite r)"
  proof (cases x)
    case PosInf then show ?thesis using that [of 1] by (simp add: pcm16_def)
  next
    case NegInf then show ?thesis using that [of "- 1"] by (simp add: pcm16_def)
  qed (use assms that in simp_all)
  note r = this
  have "\<bar>32767 * min (max r (- 1)) (1::rat)\<bar> \<le> 32767" by (auto simp: abs_if min_def max_def)
  moreover have "1 / 2 + 1 / 2 ^ 10 < (1::rat)" by simp
  ultimately have "\<bar>rat_of_int (pcm16 nan (Finite r))\<bar> < 32768" using pcm16_finite [of nan r] by linarith
  then have "\<bar>pcm16 nan (Finite r)\<bar> < 32768" by (simp flip: of_int_abs)
  with r show ?thesis by (auto simp: abs_less_iff)
qed

section \<open>The file is one the service accepts\<close>

lemma length_pcm_bytes [simp]: "length (pcm_bytes pcm) = 2 * length pcm"
  by (induction pcm) (simp_all add: pcm_bytes_def)

lemma length_transpose2 [simp]: "length (transpose2 rows cols xs) = rows * cols"
  by (simp add: transpose2_def length_concat comp_def sum_list_triv)

lemma sniff_wave: "sniff_mime (wave_head channels width rate n @ frames) = Some ''audio/wav''"
  by (simp add: sniff_mime_def wave_head_def PNG_MAGIC_def ascii_bytes_def slice_def)

lemma probe_written:
  assumes "wave_packable channels width rate (length frames)" "0 < channels" "0 < width" "0 < rate"
  shows "probe_audio (wave_head channels width rate (length frames) @ frames) =
    Inr ((probed ''audio'' (int (44 + length frames)) (Some ''audio/wav''))
      \<lparr>pm_sample_rate := Some (int rate), pm_channels := Some (int channels),
       pm_duration_s := Some (Finite (of_nat (length frames div (channels * width)) / of_nat rate))\<rparr>)"
proof -
  have "length (wave_head channels width rate (length frames) @ frames) = 44 + length frames"
    by (simp add: wave_head_def fmt_fields_def)
  then show ?thesis using assms(4)
    by (simp only: probe_audio_def sniff_wave wave_header_written [OF assms(1-3)] Let_def) simp
qed

lemma stereo_layout:
  assumes "shape = [2, n] \<or> shape = [n, 2]" "2 \<le> n" "length xs = 2 * n"
  shows "\<exists>ys. audio_layout shape xs = ([n, 2], ys) \<and> length ys = 2 * n"
  using assms by (cases "n = 2") (auto simp: audio_layout_def)

text \<open>
  C36: The sound the service writes beside a video is sound it accepts: whatever the two channels hold,
  stereo samples of at most a minute, in either layout, become a WAV file without an exception, and the
  edge's own probe and validator read that file back as 48 kHz stereo within the default limits.
\<close>

theorem sidecar_audio_accepted:
  assumes "shape = [2, n] \<or> shape = [n, 2]" "2 \<le> n" "n \<le> 60 * 48000" "length xs = 2 * n"
  shows "\<exists>bytes meta. write_wav nan 48000 shape xs = (bytes, None) \<and> probe_audio bytes = Inr meta \<and>
    pm_duration_s meta = Some (Finite (of_nat n / 48000)) \<and> validate_audio meta default_limits = None"
proof -
  obtain ys where ys: "audio_layout shape xs = ([n, 2], ys)" "length ys = 2 * n"
    using stereo_layout [OF assms(1,2,4)] by auto
  define pcm where "pcm = pcm_bytes (map (pcm16 nan) ys)"
  have l: "length pcm = 4 * n" by (simp add: pcm_def ys(2))
  have p: "wave_packable 2 2 48000 (length pcm)" using assms(3) by (simp add: wave_packable_def l)
  have w: "write_wav nan 48000 shape xs = (wave_head 2 2 48000 (length pcm) @ pcm, None)"
    using p by (simp add: write_wav_def ys wave_write_def l flip: pcm_def)
  from probe_written [OF p] obtain meta where
    m: "probe_audio (wave_head 2 2 48000 (length pcm) @ pcm) = Inr meta" "pm_size_bytes meta = int (44 + 4 * n)"
      "pm_mime meta = Some ''audio/wav''" "pm_sample_rate meta = Some 48000" "pm_channels meta = Some 2"
      "pm_duration_s meta = Some (Finite (of_nat n / 48000))"
    by (simp add: l probed_def)
  have "(of_nat n :: rat) \<le> of_nat (60 * 48000)" using assms(3) by (simp only: of_nat_le_iff)
  then have "of_nat n / 48000 \<le> (60 :: rat)" by simp
  then have "validate_audio meta default_limits = None"
    using assms(3) m(2-6) by (simp add: validate_audio_def default_limits_def MiB_def mime_in_def AUDIO_MIMES_def)
  with w m(1,6) show ?thesis by blast
qed

lemma sidecar_audio_accepted_witness:
  "\<exists>bytes meta. write_wav 0 48000 [2, 3] (replicate 6 (Finite (1 / 2))) = (bytes, None) \<and> probe_audio bytes = Inr meta \<and>
    pm_duration_s meta = Some (Finite (of_nat 3 / 48000)) \<and> validate_audio meta default_limits = None"
  by (rule sidecar_audio_accepted) simp_all

end
