(* ===== verification/Engine_Adapters.thy ===== *)
theory Engine_Adapters
  imports Gen_Facts Diffusers_Loader Artifact_Encoders
begin

text \<open>
  The resident engines of the generation worker: the adapters over the diffusers pipeline
  (\<open>api/engines/diffusers_oracle/adapter.py\<close>, \<open>api/engines/diffusers_action/adapter.py\<close>) and the start of
  the worker process (\<open>main\<close>, \<open>build_adapters\<close>, \<open>_listen\<close> and \<open>serve\<close> of \<open>api/orchestrator/gen_worker.py\<close>).
  The pipeline, torch and the image readers are one argument; the process's random generators, its
  environment and the allocator's peak are the state. \<open>'r\<close> is a generator's state, \<open>'x\<close> an object of the
  libraries.
\<close>

section \<open>The process\<close>

record 'r machine =
  mc_env :: "(string, string) dict"
  mc_python :: 'r
  mc_numpy :: 'r
  mc_torch :: 'r
  mc_cuda :: 'r
  mc_deterministic :: bool
  mc_peak :: int

text \<open>A value the pipeline returns for \<open>video\<close> or \<open>action\<close>: one object, or a batch.\<close>

datatype 'x batch = One 'x | Many "'x list"

datatype 'x video = SingleImage 'x | Sequence "'x batch list"

record 'x pipe_out =
  po_video :: "'x video option"
  po_sound :: "'x option"
  po_action :: "'x batch option"

text \<open>
  One run of the pipeline: the calls it makes of the step callback, with the latents it passes; the
  process after that many calls have returned; and its end, when every call returned. An exception of
  the callback ends the run.
\<close>

record ('r, 'x) pipe_run =
  pr_steps :: "(int \<times> 'x option) list"
  pr_after :: "nat \<Rightarrow> 'r machine"
  pr_end :: "string + 'x pipe_out"

record 'x action_condition =
  cd_mode :: string
  cd_chunk_size :: int
  cd_domain_name :: string
  cd_resolution_tier :: int
  cd_raw_actions :: "'x option"
  cd_image :: "'x option"
  cd_video :: "'x option"
  cd_view_point :: string

datatype 'x kwarg =
  KVal pyval
| KRat rat
| KObj 'x
| KCallback
| KNames "string list"

text \<open>
  The libraries of an engine. \<open>en_resident\<close> is the CUDA memory allocated between two runs, which is that of
  the resident weights: a run gives back what it takes.
\<close>

record ('r, 'x) engine_libs =
  en_seed_python :: "int \<Rightarrow> 'r"
  en_seed_numpy :: "int \<Rightarrow> string + 'r"
  en_seed_torch :: "int \<Rightarrow> string + 'r"
  en_seed_cuda :: "int \<Rightarrow> string + 'r"
  en_use_deterministic :: bool
  en_generator :: "string \<Rightarrow> int \<Rightarrow> string + 'x"
  en_open_image :: "pyval \<Rightarrow> string + 'x"
  en_open_video :: "pyval \<Rightarrow> string + 'x"
  en_condition :: "'x action_condition \<Rightarrow> string + 'x"
  en_asarray :: "'x batch \<Rightarrow> np_array"
  en_to_cpu :: "'x \<Rightarrow> 'x"
  en_empty :: 'x
  en_accepts_sound :: bool
  en_resident :: int
  en_pipe :: "(string, 'x kwarg) dict \<Rightarrow> 'r machine \<Rightarrow> ('r, 'x) pipe_run"

section \<open>Seeding\<close>

text \<open>\<open>os.environ.setdefault\<close>.\<close>

definition env_setdefault :: "string \<Rightarrow> string \<Rightarrow> (string, string) dict \<Rightarrow> (string, string) dict" where
  "env_setdefault k v env = (case dict_get env k of None \<Rightarrow> dict_set k v env | Some _ \<Rightarrow> env)"

definition reseed :: "(int \<Rightarrow> string + 'r) \<Rightarrow> ('r \<Rightarrow> 'r machine \<Rightarrow> 'r machine) \<Rightarrow> int \<Rightarrow> ('r machine, string, unit) op" where
  "reseed gen put seed m = (case gen seed of Inl e \<Rightarrow> (Inl e, m) | Inr r \<Rightarrow> (Inr (), put r m))"

text \<open>The last call is guarded: when it raises, the flag stays as it was.\<close>

definition seed_everything :: "('r, 'x) engine_libs \<Rightarrow> int \<Rightarrow> ('r machine, string, unit) op" where
  "seed_everything libs seed =
     then_op (\<lambda>m. (Inr (), m\<lparr>mc_env := env_setdefault ''CUBLAS_WORKSPACE_CONFIG'' '':4096:8'' (mc_env m)\<rparr>)) (\<lambda>_.
     then_op (reseed (Inr \<circ> en_seed_python libs) (\<lambda>r m. m\<lparr>mc_python := r\<rparr>) seed) (\<lambda>_.
     then_op (reseed (en_seed_numpy libs) (\<lambda>r m. m\<lparr>mc_numpy := r\<rparr>) seed) (\<lambda>_.
     then_op (reseed (en_seed_torch libs) (\<lambda>r m. m\<lparr>mc_torch := r\<rparr>) seed) (\<lambda>_.
     then_op (reseed (en_seed_cuda libs) (\<lambda>r m. m\<lparr>mc_cuda := r\<rparr>) seed) (\<lambda>_ m.
       (Inr (), if en_use_deterministic libs then m\<lparr>mc_deterministic := True\<rparr> else m))))))"

section \<open>Frames\<close>

text \<open>An image, a batch of lists (its first is taken), or a flat list.\<close>

definition flat_frames :: "'x video \<Rightarrow> 'x batch list" where
  "flat_frames video = (case video of
     SingleImage f \<Rightarrow> [One f]
   | Sequence (Many fs # _) \<Rightarrow> map One fs
   | Sequence fs \<Rightarrow> fs)"

definition frames_to_float :: "('r, 'x) engine_libs \<Rightarrow> 'x video \<Rightarrow> np_array list" where
  "frames_to_float libs video = map (frame_to_float \<circ> en_asarray libs) (flat_frames video)"

text \<open>What the worker handles of the engines' results: arrays of the model, and objects of the libraries.\<close>

datatype 'x obj = Arr np_array | Obj 'x

section \<open>Running the pipeline\<close>

text \<open>
  The state of an adapter call is the process and the state \<open>'s\<close> the progress callback works on. The step
  callback reports progress, if anybody listens, and keeps the latest latents.
\<close>

type_synonym ('r, 's, 'a) engine_op = "('r machine \<times> 's, gen_worker_exc, 'a) op"

type_synonym 's progress_sink = "(int \<times> int) \<Rightarrow> ('s, gen_worker_exc, unit) op"

fun drive :: "'s progress_sink option \<Rightarrow> int \<Rightarrow> (int \<times> 'x option) list \<Rightarrow> 'x option \<Rightarrow> nat \<Rightarrow> 's
    \<Rightarrow> (gen_worker_exc + 'x option) \<times> nat \<times> 's" where
  "drive cb n [] captured k s = (Inr captured, k, s)"
| "drive cb n ((i, latents) # steps) captured k s =
     (case (case cb of None \<Rightarrow> (Inr (), s) | Some f \<Rightarrow> f (i + 1, n) s) of
        (Inl e, s1) \<Rightarrow> (Inl e, k, s1)
      | (Inr _, s1) \<Rightarrow> drive cb n steps (case latents of None \<Rightarrow> captured | Some l \<Rightarrow> Some l) (Suc k) s1)"

definition run_pipe ::
  "('r, 'x) engine_libs \<Rightarrow> (string, 'x kwarg) dict \<Rightarrow> 's progress_sink option \<Rightarrow> int
     \<Rightarrow> ('r, 's, 'x pipe_out \<times> 'x option) engine_op" where
  "run_pipe libs kwargs cb n = (\<lambda>(m, s).
     let run = en_pipe libs kwargs m in
     case drive cb n (pr_steps run) None 0 s of
       (Inl e, k, s1) \<Rightarrow> (Inl e, pr_after run k, s1)
     | (Inr captured, k, s1) \<Rightarrow>
         (map_errE WorkerError (mapE (\<lambda>out. (out, captured)) (pr_end run)), pr_after run k, s1))"

definition on_machine :: "('r machine, string, 'a) op \<Rightarrow> ('r, 's, 'a) engine_op" where
  "on_machine f = (\<lambda>(m, s). case f m of (r, m1) \<Rightarrow> (map_errE WorkerError r, m1, s))"

definition lib_call :: "string + 'a \<Rightarrow> ('r, 's, 'a) engine_op" where
  "lib_call r = pure_op (\<lambda>_. map_errE WorkerError r)"

text \<open>\<open>reset_peak_memory_stats\<close> sets the peak to what is allocated at that moment.\<close>

definition reset_peak :: "('r, 'x) engine_libs \<Rightarrow> ('r machine, string, unit) op" where
  "reset_peak libs m = (Inr (), m\<lparr>mc_peak := en_resident libs\<rparr>)"

definition read_peak :: "('r machine, string, int) op" where
  "read_peak m = (Inr (mc_peak m), m)"

text \<open>A conditioning file is opened when its path is true.\<close>

definition open_if :: "(pyval \<Rightarrow> string + 'x) \<Rightarrow> pyval \<Rightarrow> ('r, 's, 'x option) engine_op" where
  "open_if opener path = lib_call (if py_truthy path then mapE Some (opener path) else Inr None)"

section \<open>The generation adapter\<close>

definition generation_kwargs ::
  "('r, 'x) engine_libs \<Rightarrow> generation_request \<Rightarrow> 'x \<Rightarrow> 'x option \<Rightarrow> (string, 'x kwarg) dict" where
  "generation_kwargs libs rq generator img =
     [(''prompt'', KVal (gq_prompt rq)), (''num_frames'', KVal (PInt (gq_num_frames rq))),
      (''height'', KVal (PInt (gq_height rq))), (''width'', KVal (PInt (gq_width rq))),
      (''num_inference_steps'', KVal (PInt (gq_num_inference_steps rq))), (''guidance_scale'', KRat (gq_guidance_scale rq)),
      (''generator'', KObj generator), (''output_type'', KVal (PStr ''pil'')), (''return_dict'', KVal (PBool True)),
      (''enable_safety_check'', KVal (PBool False)), (''callback_on_step_end'', KCallback),
      (''callback_on_step_end_tensor_inputs'', KNames [''latents''])]
     @ (if gq_negative_prompt rq = PNone then [] else [(''negative_prompt'', KVal (gq_negative_prompt rq))])
     @ (case img of None \<Rightarrow> [] | Some x \<Rightarrow> [(''image'', KObj x)])
     @ (if gq_generate_sound rq \<and> en_accepts_sound libs then [(''enable_sound'', KVal (PBool True))] else [])"

text \<open>\<open>a or b\<close>.\<close>

definition py_or :: "pyval \<Rightarrow> pyval \<Rightarrow> pyval" where "py_or a b = (if py_truthy a then a else b)"

definition generation_result ::
  "('r, 'x) engine_libs \<Rightarrow> engine_info option \<Rightarrow> generation_request \<Rightarrow> 'x pipe_out \<Rightarrow> 'x option \<Rightarrow> int
     \<Rightarrow> string + 'x obj generation_out" where
  "generation_result libs info rq out captured peak =
     (case po_video out of
        None \<Rightarrow> Inl ''object has no len()''
      | Some video \<Rightarrow> Inr
          \<lparr>go_case_id = py_or (gq_case_id rq) (PStr (gq_mode rq)),
           go_frames = map Arr (frames_to_float libs video),
           go_audio = map_option Obj (po_sound out),
           go_latents = Some (Obj (case captured of Some l \<Rightarrow> en_to_cpu libs l | None \<Rightarrow> en_empty libs)),
           go_vram_peak_bytes = peak, go_info = info\<rparr>)"

definition generate ::
  "('r, 'x) engine_libs \<Rightarrow> string \<Rightarrow> engine_info option \<Rightarrow> generation_request \<Rightarrow> 's progress_sink option
     \<Rightarrow> ('r, 's, 'x obj generation_out) engine_op" where
  "generate libs device info rq cb =
     then_op (on_machine (seed_everything libs (gq_seed rq))) (\<lambda>_.
     then_op (lib_call (en_generator libs device (gq_seed rq))) (\<lambda>generator.
     then_op (open_if (en_open_image libs) (gq_image_path rq)) (\<lambda>img.
     then_op (on_machine (reset_peak libs)) (\<lambda>_.
     then_op (run_pipe libs (generation_kwargs libs rq generator img) cb (gq_num_inference_steps rq)) (\<lambda>(out, captured).
     then_op (on_machine read_peak) (\<lambda>peak.
       lib_call (generation_result libs info rq out captured peak)))))))"

definition warmup_request :: generation_request where
  "warmup_request =
     \<lparr>gq_mode = ''warmup'', gq_case_id = PStr '''', gq_prompt = PStr ''a robotic arm'', gq_negative_prompt = PNone,
      gq_image_path = PNone, gq_generate_sound = False, gq_seed = 123, gq_flow_shift = 10, gq_guidance_scale = 6,
      gq_num_frames = 1, gq_height = 480, gq_width = 480, gq_num_inference_steps = 1\<rparr>"

definition warm :: "('r, 'x) engine_libs \<Rightarrow> string \<Rightarrow> engine_info option \<Rightarrow> ('r, 's, unit) engine_op" where
  "warm libs device info = then_op (generate libs device info warmup_request None) (\<lambda>_ s. (Inr (), s))"

section \<open>The action adapter\<close>

definition ACTION_GUIDANCE_SCALE :: rat where "ACTION_GUIDANCE_SCALE = 6"

definition action_kwargs :: "'x obj action_request \<Rightarrow> 'x \<Rightarrow> 'x \<Rightarrow> (string, 'x kwarg) dict" where
  "action_kwargs rq cond generator =
     [(''prompt'', KVal (if aq_prompt rq \<noteq> PNone then aq_prompt rq else PStr '''')), (''action'', KObj cond),
      (''num_inference_steps'', KVal (PInt (aq_num_inference_steps rq))), (''guidance_scale'', KRat ACTION_GUIDANCE_SCALE),
      (''generator'', KObj generator), (''output_type'', KVal (PStr ''pil'')), (''return_dict'', KVal (PBool True)),
      (''enable_safety_check'', KVal (PBool False))]"

text \<open>The driving actions are the tensor \<open>_to_action_request\<close> built, an object of the libraries.\<close>

definition raw_object :: "'x obj option \<Rightarrow> 'x option" where
  "raw_object raw = (case raw of Some (Obj x) \<Rightarrow> Some x | _ \<Rightarrow> None)"

definition condition_of :: "'x obj action_request \<Rightarrow> 'x option \<Rightarrow> 'x option \<Rightarrow> 'x action_condition" where
  "condition_of rq img video =
     \<lparr>cd_mode = action_mode_value (aq_mode rq), cd_chunk_size = aq_chunk_size rq, cd_domain_name = aq_domain_name rq,
      cd_resolution_tier = aq_resolution_tier rq, cd_raw_actions = raw_object (aq_raw_actions rq), cd_image = img,
      cd_video = video, cd_view_point = aq_view_point rq\<rparr>"

definition to_trajectory :: "('r, 'x) engine_libs \<Rightarrow> 'x batch option \<Rightarrow> string + 'x option" where
  "to_trajectory libs action = (case action of
     None \<Rightarrow> Inr None
   | Some (One x) \<Rightarrow> Inr (Some (en_to_cpu libs x))
   | Some (Many []) \<Rightarrow> Inl ''list index out of range''
   | Some (Many (x # _)) \<Rightarrow> Inr (Some (en_to_cpu libs x)))"

definition action_result ::
  "('r, 'x) engine_libs \<Rightarrow> engine_info option \<Rightarrow> 'x obj action_request \<Rightarrow> 'x pipe_out \<Rightarrow> int \<Rightarrow> string + 'x obj action_out" where
  "action_result libs info rq out peak =
     mapE (\<lambda>trajectory.
       \<lparr>ao_case_id = py_or (aq_case_id rq) (PStr (action_mode_value (aq_mode rq))),
        ao_frames = (case po_video out of None \<Rightarrow> [] | Some video \<Rightarrow> map Arr (frames_to_float libs video)),
        ao_trajectory = map_option Obj trajectory, ao_vram_peak_bytes = peak, ao_info = info\<rparr>)
     (to_trajectory libs (po_action out))"

text \<open>Past the validation; the pipeline gets no step callback.\<close>

definition act ::
  "('r, 'x) engine_libs \<Rightarrow> string \<Rightarrow> engine_info option \<Rightarrow> 'x obj action_request \<Rightarrow> ('r, 's, 'x obj action_out) engine_op" where
  "act libs device info rq =
     then_op (open_if (en_open_image libs) (aq_image_path rq)) (\<lambda>img.
     then_op (open_if (en_open_video libs) (aq_video_path rq)) (\<lambda>video.
     then_op (lib_call (en_condition libs (condition_of rq img video))) (\<lambda>cond.
     then_op (on_machine (seed_everything libs (aq_seed rq))) (\<lambda>_.
     then_op (lib_call (en_generator libs device (aq_seed rq))) (\<lambda>generator.
     then_op (on_machine (reset_peak libs)) (\<lambda>_.
     then_op (run_pipe libs (action_kwargs rq cond generator) None (aq_num_inference_steps rq)) (\<lambda>(out, captured).
     then_op (on_machine read_peak) (\<lambda>peak.
       lib_call (action_result libs info rq out peak)))))))))"

section \<open>The worker around the engines\<close>

text \<open>The encoders' libraries: what each leaves at the path it writes, and its exception.\<close>

record 'x encoder_libs =
  ec_tensor :: "pyval \<Rightarrow> string + 'x"
  ec_shape :: "'x \<Rightarrow> int list option"
  ec_audio :: "'x \<Rightarrow> string + (nat list \<times> pyfloat list)"
  ec_save_png :: "np_array \<Rightarrow> writing"
  ec_save_mp4 :: "np_array list \<Rightarrow> writing"
  ec_save_npy :: "'x \<Rightarrow> writing"
  ec_save_json :: "'x \<Rightarrow> writing"
  ec_mux :: "byte list option \<Rightarrow> byte list option \<Rightarrow> byte list option \<times> bool"
  ec_str_exc :: "gen_worker_exc \<Rightarrow> string"
  ec_nan :: int

definition AUDIO_SAMPLE_RATE :: nat where "AUDIO_SAMPLE_RATE = 48000"

definition unbox :: "'x obj \<Rightarrow> string + 'x" where
  "unbox v = (case v of Obj x \<Rightarrow> Inr x | Arr a \<Rightarrow> Inl ''an array'')"

text \<open>Only frames are arrays of the model, so the encoders of anything else get a library object.\<close>

definition save_object :: "('x \<Rightarrow> writing) \<Rightarrow> 'x obj \<Rightarrow> writing" where
  "save_object save v = (case unbox v of Inl e \<Rightarrow> (None, Some e) | Inr x \<Rightarrow> save x)"

definition frame_arrays :: "'x obj list \<Rightarrow> np_array list" where
  "frame_arrays vs = concat (map (\<lambda>v. case v of Arr a \<Rightarrow> [a] | Obj x \<Rightarrow> []) vs)"

definition save_sound :: "'x encoder_libs \<Rightarrow> 'x obj \<Rightarrow> writing" where
  "save_sound ec v = (case bindE (unbox v) (ec_audio ec) of
     Inl e \<Rightarrow> (None, Some e)
   | Inr (shape, xs) \<Rightarrow> (case write_wav (ec_nan ec) AUDIO_SAMPLE_RATE shape xs of (bytes, err) \<Rightarrow> (Some bytes, err)))"

text \<open>A progress callback that only records, and the text of the exceptions an engine raises.\<close>

definition record_progress :: "(int \<times> int) list progress_sink" where
  "record_progress p ps = (Inr (), ps @ [p])"

definition exc_text :: "gen_worker_exc \<Rightarrow> string" where
  "exc_text e = (case e of WorkerError t \<Rightarrow> t | _ \<Rightarrow> [])"

text \<open>The worker the two adapters make, as seen from the process \<open>m\<close>.\<close>

definition engine_worker ::
  "('r, 'x) engine_libs \<Rightarrow> string \<Rightarrow> engine_info option \<Rightarrow> engine_info option \<Rightarrow> 'x encoder_libs \<Rightarrow> 'r machine \<Rightarrow> 'x obj worker" where
  "engine_worker libs device gen_info act_info ec m =
     \<lparr>wk_generate = (\<lambda>rq. case generate libs device gen_info rq (Some record_progress) (m, []) of
        (r, m1, ps) \<Rightarrow> (ps, map_errE exc_text r)),
      wk_act = (\<lambda>rq. map_errE exc_text (fst (act libs device act_info rq (m, ())))),
      wk_tensor = (\<lambda>v. mapE Obj (ec_tensor ec v)),
      wk_shape = (\<lambda>v. case v of Obj x \<Rightarrow> ec_shape ec x | Arr a \<Rightarrow> Some (map int (array_shape a))),
      wk_png = (\<lambda>v. case v of Arr a \<Rightarrow> ec_save_png ec (frame_to_uint8 (ec_nan ec) a) | Obj x \<Rightarrow> (None, Some ''no array'')),
      wk_mp4 = (\<lambda>vs. ec_save_mp4 ec (frames_to_uint8 (ec_nan ec) (frame_arrays vs))),
      wk_wav = save_sound ec, wk_npy = save_object (ec_save_npy ec), wk_json = save_object (ec_save_json ec),
      wk_mux = ec_mux ec, wk_str_exc = ec_str_exc ec\<rparr>"

text \<open>The action adapter's method: the request is validated before anything else happens.\<close>

definition adapter_generate_action ::
  "('r, 'x) engine_libs \<Rightarrow> string \<Rightarrow> engine_info option \<Rightarrow> 'x obj worker \<Rightarrow> 'x obj action_request \<Rightarrow> ('r, 's, 'x obj action_out) engine_op" where
  "adapter_generate_action libs device info wk rq =
     (case validate_action (spec_of wk rq) of
        Some e \<Rightarrow> pure_op (\<lambda>_. Inl (ActionValidationFailed e))
      | None \<Rightarrow> act libs device info rq)"

section \<open>Starting the worker\<close>

text \<open>
  The process at its start: its machine, the files it sees and the sockets it listens on. The operating
  system's errors are the arguments \<open>pl_bind\<close> and \<open>pl_open\<close>.
\<close>

record 'r process =
  px_machine :: "'r machine"
  px_files :: files
  px_listening :: "string list"

record platform =
  pl_bind :: "string \<Rightarrow> string option"
  pl_open :: "string \<Rightarrow> string option"

datatype start_exc = LoadFailed diffusers_exc | WarmFailed gen_worker_exc | OsFailed string

type_synonym ('r, 'a) starting = "('r process, start_exc, 'a) op"

text \<open>A stale socket file is removed first; binding makes the file, listening opens the socket.\<close>

definition listen_on :: "platform \<Rightarrow> string \<Rightarrow> ('r, unit) starting" where
  "listen_on pl sock_path p =
     (let p1 = (if px_files p sock_path \<noteq> None then p\<lparr>px_files := (px_files p)(sock_path := None)\<rparr> else p)
      in case pl_bind pl sock_path of
           Some e \<Rightarrow> (Inl (OsFailed e), p1)
         | None \<Rightarrow> (Inr (), p1\<lparr>px_files := (px_files p1)(sock_path \<mapsto> []), px_listening := px_listening p1 @ [sock_path]\<rparr>))"

definition write_ready :: "platform \<Rightarrow> string \<Rightarrow> ('r, unit) starting" where
  "write_ready pl ready_path p = (case pl_open pl ready_path of
     Some e \<Rightarrow> (Inl (OsFailed e), p)
   | None \<Rightarrow> (Inr (), p\<lparr>px_files := (px_files p)(ready_path \<mapsto> ascii_bytes ''ready'')\<rparr>))"

text \<open>\<open>serve\<close> up to its loop, which \<^const>\<open>serve_one\<close> has one round of.\<close>

definition serve_start :: "platform \<Rightarrow> string \<Rightarrow> string option \<Rightarrow> ('r, unit) starting" where
  "serve_start pl ready_path sock_path =
     then_op (\<lambda>p. listen_on pl (case sock_path of Some q \<Rightarrow> if q \<noteq> [] then q else environ_get (mc_env (px_machine p)) ''COSMOS3_GEN_SOCK'' DEFAULT_GEN_SOCK
                               | None \<Rightarrow> environ_get (mc_env (px_machine p)) ''COSMOS3_GEN_SOCK'' DEFAULT_GEN_SOCK) p)
       (\<lambda>_. write_ready pl ready_path)"

text \<open>One load gives both adapters; the generation view reports the oracle's name.\<close>

record 'p adapters =
  ad_pipe :: 'p
  ad_gen_info :: engine_info
  ad_act_info :: engine_info
  ad_device :: string

definition build_action_pipeline ::
  "('m, 's, 't, 'p) torch_libs \<Rightarrow> action_config \<Rightarrow> 'm \<Rightarrow> diffusers_exc + 'p" where
  "build_action_pipeline libs cfg m = map_errE LibError (tl_pipeline libs (ac_quant_dir cfg) m (ac_device cfg) True)"

definition build_adapters :: "('m, 's, 't, 'p) torch_libs \<Rightarrow> fs \<Rightarrow> action_config \<Rightarrow> diffusers_exc + 'p adapters" where
  "build_adapters libs fs cfg =
     bindE (load_action_transformer libs fs cfg) (\<lambda>(m, info).
     mapE (\<lambda>pipe. \<lparr>ad_pipe = pipe, ad_gen_info = info\<lparr>ei_engine := ''diffusers_oracle''\<rparr>, ad_act_info = info, ad_device = ac_device cfg\<rparr>)
       (build_action_pipeline libs cfg m))"

definition on_process :: "('r, unit, 'a) engine_op \<Rightarrow> ('r, 'a) starting" where
  "on_process f p = (case f (px_machine p, ()) of (r, m, _) \<Rightarrow> (map_errE WarmFailed r, p\<lparr>px_machine := m\<rparr>))"

definition worker_main ::
  "('m, 's, 't, 'p) torch_libs \<Rightarrow> ('p \<Rightarrow> ('r, 'x) engine_libs) \<Rightarrow> platform \<Rightarrow> fs \<Rightarrow> string \<Rightarrow> ('r, 'p adapters) starting" where
  "worker_main libs engines pl fs ready_path =
     then_op (\<lambda>p. (map_errE LoadFailed (build_adapters libs fs (action_from_env (mc_env (px_machine p)))), p)) (\<lambda>ad.
     then_op (on_process (warm (engines (ad_pipe ad)) (ad_device ad) (Some (ad_gen_info ad)))) (\<lambda>_.
     then_op (serve_start pl ready_path None) (\<lambda>_ p. (Inr ad, p))))"

end
