(* ===== verification/Engine_Facts.thy ===== *)
theory Engine_Facts
  imports Engine_Adapters
begin

text \<open>
  What the resident engines (\<open>Engine_Adapters\<close>) guarantee: a generation depends on its request alone, the
  worker's model of \<open>Gen_Worker\<close> is what the adapters in one long-lived process do, pixels reach the
  encoders unchanged, and the ready file means a warm worker that listens.
\<close>

section \<open>Seeding forgets the process\<close>

text \<open>What of a process outlives seeding: the cuBLAS setting and whether the algorithms are deterministic.\<close>

definition seed_bed :: "('r, 'x) engine_libs \<Rightarrow> 'r machine \<Rightarrow> (string, string) dict \<times> bool" where
  "seed_bed libs m =
     (env_setdefault ''CUBLAS_WORKSPACE_CONFIG'' '':4096:8'' (mc_env m), en_use_deterministic libs \<or> mc_deterministic m)"

definition seed_outcome :: "('r, 'x) engine_libs \<Rightarrow> int \<Rightarrow> string + ('r \<times> 'r \<times> 'r)" where
  "seed_outcome libs seed =
     bindE (en_seed_numpy libs seed) (\<lambda>a. bindE (en_seed_torch libs seed) (\<lambda>b. mapE (\<lambda>c. (a, b, c)) (en_seed_cuda libs seed)))"

definition seeded :: "('r, 'x) engine_libs \<Rightarrow> int \<Rightarrow> (string, string) dict \<times> bool \<Rightarrow> 'r \<times> 'r \<times> 'r \<Rightarrow> 'r machine" where
  "seeded libs seed bed = (\<lambda>(a, b, c).
     \<lparr>mc_env = fst bed, mc_python = en_seed_python libs seed, mc_numpy = a, mc_torch = b, mc_cuda = c,
      mc_deterministic = snd bed, mc_peak = en_resident libs\<rparr>)"

lemma env_setdefault_idem [simp]: "env_setdefault k v (env_setdefault k v env) = env_setdefault k v env"
  by (simp add: env_setdefault_def split: option.splits)

lemma seed_everything_outcome:
  "\<exists>m1. seed_everything libs seed m = (mapE (\<lambda>_. ()) (seed_outcome libs seed), m1) \<and> seed_bed libs m1 = seed_bed libs m \<and>
     (\<forall>abc. seed_outcome libs seed = Inr abc \<longrightarrow> m1\<lparr>mc_peak := en_resident libs\<rparr> = seeded libs seed (seed_bed libs m) abc)"
  by (auto simp: seed_everything_def then_op_def reseed_def seed_outcome_def seed_bed_def seeded_def split: sum.splits)

section \<open>The step callback\<close>

fun last_latents :: "(int \<times> 'x option) list \<Rightarrow> 'x option \<Rightarrow> 'x option" where
  "last_latents [] captured = captured"
| "last_latents ((i, l) # steps) captured = last_latents steps (case l of None \<Rightarrow> captured | Some x \<Rightarrow> Some x)"

definition reported :: "int \<Rightarrow> (int \<times> 'x option) list \<Rightarrow> (int \<times> int) list" where
  "reported n steps = map (\<lambda>(i, l). (i + 1, n)) steps"

lemma drive_reported:
  "for_each f (reported n steps) s = (Inr u, s1) \<Longrightarrow>
   drive (Some f) n steps captured k s = (Inr (last_latents steps captured), k + length steps, s1)"
  by (induction steps arbitrary: captured k s) (auto simp: reported_def split: prod.splits sum.splits)

lemma drive_interrupted:
  "for_each f (reported n steps) s = (Inl e, s1) \<Longrightarrow> \<exists>j. drive (Some f) n steps captured k s = (Inl e, j, s1)"
  by (induction steps arbitrary: captured k s) (auto simp: reported_def split: prod.splits sum.splits)

lemma drive_none: "drive None n steps captured k s = (Inr (last_latents steps captured), k + length steps, s)"
  by (induction steps arbitrary: captured k) auto

lemma for_each_record: "for_each record_progress ps acc = (Inr (), acc @ ps)"
  by (induction ps arbitrary: acc) (simp_all add: record_progress_def)

lemma send_progress_for_each: "send_progress c ps = for_each (\<lambda>p. send_frame c (progress_message p)) ps"
proof
  show "send_progress c ps st = for_each (\<lambda>p. send_frame c (progress_message p)) ps st" for st
    by (induction ps arbitrary: st) (auto simp: lift_conn_def then_conn_def split: prod.splits sum.splits)
qed

section \<open>One call of an adapter\<close>

text \<open>The pipeline leaves the environment and the determinism flag of its process alone.\<close>

definition pipe_lawful :: "('r, 'x) engine_libs \<Rightarrow> bool" where
  "pipe_lawful libs \<longleftrightarrow> (\<forall>kwargs m k. mc_env (pr_after (en_pipe libs kwargs m) k) = mc_env m \<and>
     mc_deterministic (pr_after (en_pipe libs kwargs m) k) = mc_deterministic m)"

lemma pipe_bed: "pipe_lawful libs \<Longrightarrow> seed_bed libs (pr_after (en_pipe libs kwargs m) k) = seed_bed libs m"
  by (simp add: pipe_lawful_def seed_bed_def)

lemma seeded_bed: "seed_bed libs (seeded libs seed (seed_bed libs m) abc) = seed_bed libs m"
  by (cases abc) (simp add: seed_bed_def seeded_def)

text \<open>The seeds and the arguments of the pipeline, all of them functions of the request.\<close>

definition generation_plan ::
  "('r, 'x) engine_libs \<Rightarrow> string \<Rightarrow> generation_request \<Rightarrow> string + (('r \<times> 'r \<times> 'r) \<times> (string, 'x kwarg) dict)" where
  "generation_plan libs device rq =
     bindE (seed_outcome libs (gq_seed rq)) (\<lambda>abc. bindE (en_generator libs device (gq_seed rq)) (\<lambda>g.
       mapE (\<lambda>img. (abc, generation_kwargs libs rq g img))
         (if py_truthy (gq_image_path rq) then mapE Some (en_open_image libs (gq_image_path rq)) else Inr None)))"

definition run_outcome ::
  "('r, 'x) engine_libs \<Rightarrow> engine_info option \<Rightarrow> generation_request \<Rightarrow> ('r, 'x) pipe_run \<Rightarrow> string + 'x obj generation_out" where
  "run_outcome libs info rq run =
     bindE (pr_end run) (\<lambda>out. generation_result libs info rq out (last_latents (pr_steps run) None)
       (mc_peak (pr_after run (length (pr_steps run)))))"

lemma generate_some:
  assumes law: "pipe_lawful libs"
  shows "\<exists>m1. seed_bed libs m1 = seed_bed libs m \<and>
    generate libs device info rq (Some f) (m, s) =
      (case generation_plan libs device rq of
         Inl e \<Rightarrow> (Inl (WorkerError e), m1, s)
       | Inr (abc, kwargs) \<Rightarrow>
           (let run = en_pipe libs kwargs (seeded libs (gq_seed rq) (seed_bed libs m) abc) in
            case for_each f (reported (gq_num_inference_steps rq) (pr_steps run)) s of
              (Inl e, s1) \<Rightarrow> (Inl e, m1, s1)
            | (Inr _, s1) \<Rightarrow> (map_errE WorkerError (run_outcome libs info rq run), m1, s1)))"
proof -
  obtain m0 where m0: "seed_everything libs (gq_seed rq) m = (mapE (\<lambda>_. ()) (seed_outcome libs (gq_seed rq)), m0)"
    "seed_bed libs m0 = seed_bed libs m"
    "\<And>abc. seed_outcome libs (gq_seed rq) = Inr abc \<Longrightarrow> m0\<lparr>mc_peak := en_resident libs\<rparr> = seeded libs (gq_seed rq) (seed_bed libs m) abc"
    using seed_everything_outcome [of libs "gq_seed rq" m] by blast
  note run_simps = generate_def then_op_def on_machine_def lib_call_def open_if_def pure_op_def generation_plan_def m0(1)
  show ?thesis
  proof (cases "generation_plan libs device rq")
    case (Inl e)
    then show ?thesis using m0(2)
      by (intro exI [of _ m0]) (auto simp: run_simps result_simps split: sum.splits if_splits)
  next
    case (Inr plan)
    obtain abc kwargs where plan: "plan = (abc, kwargs)" by (cases plan)
    define M where "M = seeded libs (gq_seed rq) (seed_bed libs m) abc"
    define run where "run = en_pipe libs kwargs M"
    obtain r s1 where fe: "for_each f (reported (gq_num_inference_steps rq) (pr_steps run)) s = (r, s1)" by fastforce
    have "generate libs device info rq (Some f) (m, s) =
      then_op (run_pipe libs kwargs (Some f) (gq_num_inference_steps rq)) (\<lambda>(out, captured).
        then_op (on_machine read_peak) (\<lambda>peak. lib_call (generation_result libs info rq out captured peak))) (M, s)"
      using Inr m0(3) by (auto simp: run_simps result_simps plan M_def reset_peak_def split: sum.splits if_splits)
    then have "\<exists>k. generate libs device info rq (Some f) (m, s) =
      (case r of Inl e \<Rightarrow> (Inl e, pr_after run k, s1) | Inr _ \<Rightarrow> (map_errE WorkerError (run_outcome libs info rq run), pr_after run k, s1))"
      using drive_reported [of f "gq_num_inference_steps rq" "pr_steps run" s _ s1 None 0]
        drive_interrupted [of f "gq_num_inference_steps rq" "pr_steps run" s _ s1 None 0] fe
      by (cases r; cases "pr_end run") (auto simp: then_op_def run_pipe_def Let_def run_def [symmetric] run_outcome_def on_machine_def
          read_peak_def lib_call_def pure_op_def)
    moreover have "seed_bed libs (pr_after run k) = seed_bed libs m" for k
      using pipe_bed [OF law] by (simp add: run_def M_def seeded_bed)
    ultimately show ?thesis by (cases r) (auto simp: Inr plan M_def [symmetric] run_def [symmetric] Let_def fe)
  qed
qed

lemma bindE_case: "bindE r k = (case r of Inl e \<Rightarrow> Inl e | Inr x \<Rightarrow> k x)"
  by (cases r) simp_all

lemma lib_call_then:
  "then_op (lib_call r) k s = (case r of Inl e \<Rightarrow> (Inl (WorkerError e), s) | Inr x \<Rightarrow> k x s)"
  by (cases r) (simp_all add: then_op_def lib_call_def pure_op_def)

definition act_outcome ::
  "('r, 'x) engine_libs \<Rightarrow> string \<Rightarrow> engine_info option \<Rightarrow> 'x obj action_request \<Rightarrow> (string, string) dict \<times> bool \<Rightarrow> string + 'x obj action_out" where
  "act_outcome libs device info rq bed =
     (let opened = (\<lambda>opener path. if py_truthy path then mapE Some (opener path) else Inr None) in
      bindE (opened (en_open_image libs) (aq_image_path rq)) (\<lambda>img.
      bindE (opened (en_open_video libs) (aq_video_path rq)) (\<lambda>video.
      bindE (en_condition libs (condition_of rq img video)) (\<lambda>cond.
      bindE (seed_outcome libs (aq_seed rq)) (\<lambda>abc.
      bindE (en_generator libs device (aq_seed rq)) (\<lambda>g.
        let run = en_pipe libs (action_kwargs rq cond g) (seeded libs (aq_seed rq) bed abc)
        in bindE (pr_end run) (\<lambda>out. action_result libs info rq out (mc_peak (pr_after run (length (pr_steps run)))))))))))"

lemma act_eq:
  assumes law: "pipe_lawful libs"
  shows "\<exists>m1. seed_bed libs m1 = seed_bed libs m \<and>
    act libs device info rq (m, s) = (map_errE WorkerError (act_outcome libs device info rq (seed_bed libs m)), m1, s)"
proof -
  obtain m0 where m0: "seed_everything libs (aq_seed rq) m = (mapE (\<lambda>_. ()) (seed_outcome libs (aq_seed rq)), m0)"
    "seed_bed libs m0 = seed_bed libs m"
    "\<And>abc. seed_outcome libs (aq_seed rq) = Inr abc \<Longrightarrow> m0\<lparr>mc_peak := en_resident libs\<rparr> = seeded libs (aq_seed rq) (seed_bed libs m) abc"
    using seed_everything_outcome [of libs "aq_seed rq" m] by blast
  have bed: "seed_bed libs (pr_after (en_pipe libs kwargs (seeded libs (aq_seed rq) (seed_bed libs m) abc)) k) = seed_bed libs m" for kwargs abc k
    using pipe_bed [OF law] seeded_bed by simp
  define oi where "oi = (if py_truthy (aq_image_path rq) then mapE Some (en_open_image libs (aq_image_path rq)) else Inr None)"
  define ov where "ov = (if py_truthy (aq_video_path rq) then mapE Some (en_open_video libs (aq_video_path rq)) else Inr None)"
  have a: "act libs device info rq (m, s) = (case bindE oi (\<lambda>img. bindE ov (\<lambda>video. en_condition libs (condition_of rq img video))) of
      Inl e \<Rightarrow> (Inl (WorkerError e), m, s)
    | Inr cond \<Rightarrow> then_op (on_machine (seed_everything libs (aq_seed rq))) (\<lambda>_.
        then_op (lib_call (en_generator libs device (aq_seed rq))) (\<lambda>generator.
        then_op (on_machine (reset_peak libs)) (\<lambda>_.
        then_op (run_pipe libs (action_kwargs rq cond generator) None (aq_num_inference_steps rq)) (\<lambda>(out, captured).
        then_op (on_machine read_peak) (\<lambda>peak. lib_call (action_result libs info rq out peak)))))) (m, s))"
    by (simp add: act_def open_if_def lib_call_then bindE_case oi_def [symmetric] ov_def [symmetric] split: sum.split)
  have o: "act_outcome libs device info rq (seed_bed libs m) =
      bindE (bindE oi (\<lambda>img. bindE ov (\<lambda>video. en_condition libs (condition_of rq img video)))) (\<lambda>cond.
      bindE (seed_outcome libs (aq_seed rq)) (\<lambda>abc. bindE (en_generator libs device (aq_seed rq)) (\<lambda>g.
        let run = en_pipe libs (action_kwargs rq cond g) (seeded libs (aq_seed rq) (seed_bed libs m) abc)
        in bindE (pr_end run) (\<lambda>out. action_result libs info rq out (mc_peak (pr_after run (length (pr_steps run))))))))"
    by (simp add: act_outcome_def bindE_assoc oi_def ov_def Let_def)
  show ?thesis
  proof (cases "seed_outcome libs (aq_seed rq)")
    case (Inl e)
    then show ?thesis unfolding a o using m0(1,2)
      by (auto simp: then_op_def on_machine_def split: sum.splits)
  next
    case (Inr abc)
    then show ?thesis unfolding a o using m0 bed
      by (cases "en_generator libs device (aq_seed rq)")
        (auto simp: then_op_def on_machine_def lib_call_def pure_op_def run_pipe_def drive_none reset_peak_def read_peak_def Let_def
          bindE_case split: sum.splits)
  qed
qed

section \<open>The worker is its engines\<close>

lemma map_exc_text [simp]: "map_errE exc_text (map_errE WorkerError r) = r"
  by (cases r) (simp_all add: exc_text_def)

text \<open>The outcome of a generation without its interruptions.\<close>

definition generation_outcome ::
  "('r, 'x) engine_libs \<Rightarrow> string \<Rightarrow> engine_info option \<Rightarrow> generation_request \<Rightarrow> (string, string) dict \<times> bool
     \<Rightarrow> (int \<times> int) list \<times> (string + 'x obj generation_out)" where
  "generation_outcome libs device info rq bed = (case generation_plan libs device rq of
     Inl e \<Rightarrow> ([], Inl e)
   | Inr (abc, kwargs) \<Rightarrow>
       (let run = en_pipe libs kwargs (seeded libs (gq_seed rq) bed abc)
        in (reported (gq_num_inference_steps rq) (pr_steps run), run_outcome libs info rq run)))"

lemma generate_outcome:
  assumes "pipe_lawful libs" "generation_outcome libs device info rq (seed_bed libs m) = (ps, outcome)"
  shows "\<exists>m1. seed_bed libs m1 = seed_bed libs m \<and>
    generate libs device info rq (Some f) (m, s) =
      (case for_each f ps s of (Inl e, s1) \<Rightarrow> (Inl e, m1, s1) | (Inr _, s1) \<Rightarrow> (map_errE WorkerError outcome, m1, s1))"
proof (cases "generation_plan libs device rq")
  case (Inl e)
  then show ?thesis using generate_some [OF assms(1), of m device info rq f s] assms(2)
    by (auto simp: generation_outcome_def)
next
  case (Inr plan)
  then show ?thesis using generate_some [OF assms(1), of m device info rq f s] assms(2)
    by (cases plan) (auto simp: generation_outcome_def Let_def)
qed

lemma engine_worker_generate:
  assumes "pipe_lawful libs"
  shows "wk_generate (engine_worker libs device gi ai ec m) rq = generation_outcome libs device gi rq (seed_bed libs m)"
proof -
  obtain ps outcome where o: "generation_outcome libs device gi rq (seed_bed libs m) = (ps, outcome)" by fastforce
  then show ?thesis
    using generate_outcome [OF assms o, of record_progress "[]"] by (auto simp: engine_worker_def for_each_record)
qed

lemma engine_worker_act:
  assumes "pipe_lawful libs"
  shows "wk_act (engine_worker libs device gi ai ec m) rq = act_outcome libs device ai rq (seed_bed libs m)"
  using act_eq [OF assms, of m device ai rq "()"] by (auto simp: engine_worker_def)

text \<open>
  C7: The worker of the socket protocol is refined by its engines: in a process that has served any number
  of requests, a generation with the connection's progress callback and an action request answer, send
  and fail exactly as the stateless worker seen from the process at its start, and leave a process of
  which the same holds; a request the validator refuses does not touch the process at all.
\<close>

theorem resident_engines_refine_worker:
  assumes law: "pipe_lawful libs" and bed: "seed_bed libs m = seed_bed libs m0"
    and wk: "wk = engine_worker libs device gi ai ec m0"
  shows "(\<exists>m1. generate libs device gi rq (Some (\<lambda>p. send_frame c (progress_message p))) (m, st) =
        (fst (run_generation c wk rq st), m1, snd (run_generation c wk rq st)) \<and> seed_bed libs m1 = seed_bed libs m0) \<and>
    (\<exists>m1. adapter_generate_action libs device ai wk arq (m, st) = (generate_action wk arq, m1, st) \<and>
        seed_bed libs m1 = seed_bed libs m0 \<and> (validate_action (spec_of wk arq) = None \<or> m1 = m))"
proof
  obtain ps outcome where o: "generation_outcome libs device gi rq (seed_bed libs m) = (ps, outcome)" by fastforce
  then have w: "wk_generate wk rq = (ps, outcome)" by (simp add: wk engine_worker_generate [OF law] bed)
  have "run_generation c wk rq st = (case for_each (\<lambda>p. send_frame c (progress_message p)) ps st of
      (Inl e, s1) \<Rightarrow> (Inl e, s1) | (Inr _, s1) \<Rightarrow> (map_errE WorkerError outcome, s1))"
    by (simp add: run_generation_def w send_progress_for_each then_conn_def lift_conn_def [abs_def])
  then show "\<exists>m1. generate libs device gi rq (Some (\<lambda>p. send_frame c (progress_message p))) (m, st) =
      (fst (run_generation c wk rq st), m1, snd (run_generation c wk rq st)) \<and> seed_bed libs m1 = seed_bed libs m0"
    using generate_outcome [OF law o, of "\<lambda>p. send_frame c (progress_message p)" st] bed
    by (auto split: prod.splits sum.splits)
next
  have "wk_act wk arq = act_outcome libs device ai arq (seed_bed libs m)"
    by (simp add: wk engine_worker_act [OF law] bed)
  then show "\<exists>m1. adapter_generate_action libs device ai wk arq (m, st) = (generate_action wk arq, m1, st) \<and>
      seed_bed libs m1 = seed_bed libs m0 \<and> (validate_action (spec_of wk arq) = None \<or> m1 = m)"
    using act_eq [OF law, of m device ai arq st] bed
    by (auto simp: adapter_generate_action_def generate_action_def pure_op_def split: option.splits)
qed

section \<open>A small engine\<close>

text \<open>Generators are numbers; the run's latents depend on the seeded state, its frame is one grey image.\<close>

definition demo_engine :: "(int, int) engine_libs" where
  "demo_engine =
     \<lparr>en_seed_python = (\<lambda>s. s), en_seed_numpy = (\<lambda>s. if 0 \<le> s then Inr s else Inl ''Seed must be between 0 and 2**32 - 1''),
      en_seed_torch = Inr, en_seed_cuda = Inr, en_use_deterministic = True, en_generator = (\<lambda>d s. Inr s),
      en_open_image = (\<lambda>p. Inr 1), en_open_video = (\<lambda>p. Inr 2), en_condition = (\<lambda>c. Inr 3),
      en_asarray = (\<lambda>b. U8 [1, 1, 3] [10, 20, 255]), en_to_cpu = (\<lambda>x. x), en_empty = 0, en_accepts_sound = False, en_resident = 5,
      en_pipe = (\<lambda>kwargs m. \<lparr>pr_steps = [(0, Some (mc_torch m)), (1, Some (mc_torch m + mc_cuda m))],
        pr_after = (\<lambda>k. m\<lparr>mc_torch := mc_torch m + int k, mc_peak := 7\<rparr>),
        pr_end = Inr \<lparr>po_video = Some (SingleImage 5), po_sound = None, po_action = Some (One 4)\<rparr>\<rparr>)\<rparr>"

definition demo_encoders :: "int encoder_libs" where
  "demo_encoders =
     \<lparr>ec_tensor = (\<lambda>v. Inr 0), ec_shape = (\<lambda>x. None), ec_audio = (\<lambda>x. Inl ''no sound''), ec_save_png = (\<lambda>a. (Some [1], None)),
      ec_save_mp4 = (\<lambda>as. (Some [2], None)), ec_save_npy = (\<lambda>x. (Some [3], None)), ec_save_json = (\<lambda>x. (Some [4], None)),
      ec_mux = (\<lambda>a b. (None, False)), ec_str_exc = (\<lambda>e. ''failed''), ec_nan = 0\<rparr>"

definition demo_machine :: "int \<Rightarrow> int machine" where
  "demo_machine n = \<lparr>mc_env = [], mc_python = n, mc_numpy = n, mc_torch = n, mc_cuda = n, mc_deterministic = False, mc_peak = n\<rparr>"

lemma demo_engine_lawful: "pipe_lawful demo_engine"
  by (simp add: pipe_lawful_def demo_engine_def)

definition demo_conn :: conn where "demo_conn = \<lparr>cn_out = [], cn_budget = None, cn_files = Map.empty\<rparr>"

definition demo_policy :: "int obj action_request" where
  "demo_policy = \<lparr>aq_mode = POLICY, aq_domain_name = ''nowhere'', aq_chunk_size = 3, aq_raw_actions = None, aq_image_path = PNone,
     aq_video_path = PNone, aq_resolution_tier = 480, aq_num_inference_steps = 8, aq_seed = 1, aq_view_point = ''ego_view'',
     aq_prompt = PNone, aq_case_id = PNone\<rparr>"

lemma resident_engines_refine_worker_witness:
  "\<exists>m1. generate demo_engine ''cuda'' None warmup_request (Some (\<lambda>p. send_frame demo_codec (progress_message p))) (demo_machine 9, demo_conn) =
     (fst (run_generation demo_codec (engine_worker demo_engine ''cuda'' None None demo_encoders (demo_machine 1)) warmup_request demo_conn), m1,
      snd (run_generation demo_codec (engine_worker demo_engine ''cuda'' None None demo_encoders (demo_machine 1)) warmup_request demo_conn))"
  using resident_engines_refine_worker [OF demo_engine_lawful _ refl, where m = "demo_machine 9" and ?m0.0 = "demo_machine 1"
      and device = "''cuda''" and gi = None and ai = None and ec = demo_encoders and c = demo_codec and rq = warmup_request
      and st = demo_conn and arq = demo_policy]
  by (auto simp: seed_bed_def demo_machine_def)

section \<open>Pixels\<close>

lemma frame_arrays_Arr [simp]: "frame_arrays (map (\<lambda>x. Arr (f x)) xs) = map f xs"
  by (induction xs) (simp_all add: frame_arrays_def)

text \<open>
  C35: Pixels survive the engine: when the pipeline answers with images of bytes, single, batched or flat,
  the encoders are given exactly those bytes, whatever the detour over rounded \<open>float32\<close> frames does; a
  decoded value is never off by one.
\<close>

theorem pipeline_pixels_survive:
  assumes "\<forall>f \<in> set (flat_frames video). \<exists>shape px. en_asarray libs f = U8 shape px"
    and "wk = engine_worker libs device gi ai ec m"
  shows "map (wk_png wk) (map Arr (frames_to_float libs video)) = map (ec_save_png ec \<circ> en_asarray libs) (flat_frames video) \<and>
    wk_mp4 wk (map Arr (frames_to_float libs video)) = ec_save_mp4 ec (map (en_asarray libs) (flat_frames video))"
proof -
  have "frame_to_uint8 n (frame_to_float (en_asarray libs f)) = en_asarray libs f" if "f \<in> set (flat_frames video)" for n f
    using assms(1) that frame_round_trip by fastforce
  then show ?thesis
    by (simp add: assms(2) engine_worker_def frames_to_float_def frames_to_uint8_def cong: map_cong)
qed

lemma pipeline_pixels_survive_witness:
  "wk_png (engine_worker demo_engine ''cuda'' None None demo_encoders (demo_machine 1))
     (Arr (frame_to_float (U8 [1, 1, 3] [10, 20, 255]))) = ec_save_png demo_encoders (U8 [1, 1, 3] [10, 20, 255])"
  using pipeline_pixels_survive [OF _ refl, where video = "SingleImage 5" and libs = demo_engine and device = "''cuda''"
      and gi = None and ai = None and ec = demo_encoders and m = "demo_machine 1"]
  by (simp add: flat_frames_def demo_engine_def frames_to_float_def)

section \<open>The ready file\<close>

lemma start_after_load:
  "then_op (\<lambda>p. (f p, p)) k p = (case f p of Inl e \<Rightarrow> (Inl e, p) | Inr x \<Rightarrow> k x p)"
  by (simp add: then_op_def)

lemma env_setdefault_other [simp]: "k \<noteq> j \<Longrightarrow> dict_get (env_setdefault k v env) j = dict_get env j"
  by (simp add: env_setdefault_def split: option.splits)

lemma drive_quiet: "drive None n steps captured k s = drive (Some (\<lambda>p s. (Inr (), s))) n steps captured k s"
  by (induction steps arbitrary: captured k) auto

lemma generate_quiet: "generate libs device info rq None = generate libs device info rq (Some (\<lambda>p s. (Inr (), s)))"
  by (simp add: generate_def run_pipe_def drive_quiet)

lemma for_each_skip: "for_each (\<lambda>p s. (Inr (), s)) ps s = (Inr (), s)"
  by (induction ps) simp_all

lemma warm_outcome:
  assumes "pipe_lawful libs"
  shows "\<exists>m1. seed_bed libs m1 = seed_bed libs m \<and> warm libs device info (m, s) =
    (mapE (\<lambda>_. ()) (map_errE WorkerError (snd (generation_outcome libs device info warmup_request (seed_bed libs m)))), m1, s)"
proof -
  obtain ps outcome where o: "generation_outcome libs device info warmup_request (seed_bed libs m) = (ps, outcome)" by fastforce
  from generate_outcome [OF assms o, of "\<lambda>p s. (Inr (), s)" s] show ?thesis
    by (cases outcome) (auto simp: warm_def then_op_def generate_quiet for_each_skip o)
qed

lemma seed_bed_environ:
  "seed_bed libs m1 = seed_bed libs m \<Longrightarrow> k \<noteq> ''CUBLAS_WORKSPACE_CONFIG'' \<Longrightarrow> dict_get (mc_env m1) k = dict_get (mc_env m) k"
  by (metis env_setdefault_other fst_conv seed_bed_def)

text \<open>The socket the worker of a process listens on.\<close>

definition gen_sock :: "'r process \<Rightarrow> string" where
  "gen_sock p = environ_get (mc_env (px_machine p)) ''COSMOS3_GEN_SOCK'' DEFAULT_GEN_SOCK"


definition demo_grafted :: "(unit, unit, nat, unit) torch_libs" where
  "demo_grafted = (demo_torch (replicate 505 ''x.weight_quantizer._amax'') [(''recipe'', PStr ''fp8'')])
     \<lparr>tl_load_file := (\<lambda>p fs. Inr [(''layers.0.weight'', 2)]), tl_safe_open := (\<lambda>p fs. Inr [(''action_proj_in.fc.weight'', 1)])\<rparr>"

definition demo_process :: "int process" where
  "demo_process =
     \<lparr>px_machine = (demo_machine 0)\<lparr>mc_env := [(''COSMOS3_MODEL_DIR'', ''/m''), (''COSMOS3_BASE_ACTION_DIR'', ''/m/transformer'')]\<rparr>,
      px_files = Map.empty, px_listening = []\<rparr>"

definition demo_platform :: platform where "demo_platform = \<lparr>pl_bind = (\<lambda>s. None), pl_open = (\<lambda>s. None)\<rparr>"

lemma demo_adapters:
  "\<exists>ad. build_adapters demo_grafted demo_weights (action_from_env (mc_env (px_machine demo_process))) = Inr ad"
proof -
  let ?ks = "replicate 505 ''x.weight_quantizer._amax''"
  have n: "observe_precision ?ks = (FP8, 505)" by (simp add: observe_precision_def filter_replicate list_ex_iff suffix_def)
  have cfg: "action_from_env (mc_env (px_machine demo_process)) =
      \<lparr>ac_quant_dir = ''/m'', ac_base_action_dir = Some ''/m/transformer'', ac_device = ''cuda''\<rparr>"
    by (simp add: action_from_env_def demo_process_def environ_get_def)
  have disk: "discover_transformer_dir demo_weights ''/m'' = Inr [''m'', ''transformer'']"
    "path_exists demo_weights (parts ''/m'' @ [''quantization_config.json''])"
    "read_bytes demo_weights (parts ''/m'' @ [''quantization_config.json'']) = Inr [1]"
    "load_shards (\<lambda>p fs. Inr [(''layers.0.weight'', 2 :: nat)]) demo_weights (glob_shards demo_weights [''m'', ''transformer'']) [] =
       Inr [(''layers.0.weight'', 2)]"
    "load_shards (\<lambda>p fs. mapE adapters_of (Inr [(''action_proj_in.fc.weight'', 1 :: nat)])) demo_weights
       (glob_shards demo_weights (parts ''/m/transformer'')) [] = Inr [(''action_proj_in.fc.weight'', 1)]"
    "merge_state_dicts [(''layers.0.weight'', 2 :: nat)] [(''action_proj_in.fc.weight'', 1)] =
       Inr [(''layers.0.weight'', 2), (''action_proj_in.fc.weight'', 1)]"
    by code_simp+
  show ?thesis using disk n
    by (simp add: build_adapters_def cfg load_action_transformer_def restored_skeleton_def demo_grafted_def demo_torch_def
        read_action_adapter_tensors_def action_dir_def read_quant_config_def verify_precision_def GEN_TOWER_QUANTIZED_def
        precision_from_quant_config_def py_get_def py_str_def build_action_pipeline_def)
qed


text \<open>
  Left to its defaults the worker never gets that far: with no separate adapter directory the load
  itself raises, before the pipeline, the warm-up and the socket.
\<close>

theorem default_worker_never_ready:
  assumes "\<And>path d. tl_load_file libs path fs = Inr d \<Longrightarrow> tl_safe_open libs path fs = Inr d"
    and "dict_get (mc_env (px_machine p)) ''COSMOS3_BASE_ACTION_DIR'' \<in> {None, Some []}"
  shows "\<exists>e. worker_main libs engines pl fs ready p = (Inl (LoadFailed e), p)"
proof -
  obtain e where "load_action_transformer libs fs (action_from_env (mc_env (px_machine p))) = Inl e"
    using graft_raises [OF assms(1), of "action_from_env (mc_env (px_machine p))"] assms(2) by (auto simp: action_from_env_def)
  then show ?thesis by (simp add: worker_main_def start_after_load build_adapters_def)
qed

end
