(* ===== verification/Reasoner_Engine.thy ===== *)
theory Reasoner_Engine
  imports Preflight Reasoner
begin

text \<open>
  The two engines behind a reasoning request: the in-process greedy engine and how it is built
  (\<open>api/engines/vllm/loader.py\<close>), and the streaming client of the served one (\<open>VllmReasonerStream\<close> of
  \<open>api/app/routes/reasoning.py\<close>). vLLM, base64, the MIME table, the JSON library and the HTTP library are
  one argument; files are what can be read by path.
\<close>

section \<open>Objects with attributes\<close>

text \<open>An object of a library is its attributes and the value it has for truth; an attribute may be missing.\<close>

datatype pobj = PObj "(string \<times> pobj) list" pyval

definition NoneObj :: pobj where "NoneObj = PObj [] PNone"

definition attr :: "pobj \<Rightarrow> string \<Rightarrow> pobj \<Rightarrow> pobj" where
  "attr v k dflt = (case v of PObj attrs _ \<Rightarrow> (case dict_get attrs k of None \<Rightarrow> dflt | Some w \<Rightarrow> w))"

definition obj_value :: "pobj \<Rightarrow> pyval" where "obj_value v = (case v of PObj _ w \<Rightarrow> w)"

definition obj_or :: "pobj \<Rightarrow> pobj \<Rightarrow> pobj" where "obj_or v w = (if py_truthy (obj_value v) then v else w)"

text \<open>\<open>list(v)\<close>.\<close>

definition py_elements :: "pyval \<Rightarrow> py_exc + pyval list" where
  "py_elements v = (case v of
     PList xs \<Rightarrow> Inr xs | PStr s \<Rightarrow> Inr (map (\<lambda>c. PStr [c]) s) | PDict d \<Rightarrow> Inr (map (PStr \<circ> fst) d) | _ \<Rightarrow> Inl TypeError)"

text \<open>The architecture and the data type the loaded engine reports.\<close>

definition observe_arch_dtype :: "(pobj \<Rightarrow> string) \<Rightarrow> pobj \<Rightarrow> py_exc + (pyval \<times> string)" where
  "observe_arch_dtype to_str llm =
     (let engine = attr llm ''llm_engine'' llm;
          model_config = obj_or (attr engine ''model_config'' NoneObj)
            (attr (attr engine ''vllm_config'' NoneObj) ''model_config'' NoneObj);
          hf_config = attr model_config ''hf_config'' NoneObj;
          architectures = obj_value (attr hf_config ''architectures'' NoneObj)
      in mapE (\<lambda>archs. (if archs \<noteq> [] then hd archs else PStr '''', to_str (attr model_config ''dtype'' (PObj [] (PStr '''')))))
           (py_elements (if py_truthy architectures then architectures else PList [])))"

section \<open>The libraries\<close>

record llm_args =
  la_model :: string
  la_dtype :: string
  la_max_model_len :: int
  la_gpu_memory_utilization :: pyfloat
  la_seed :: int
  la_enforce_eager :: bool

record sampling_params =
  sp_temperature :: rat
  sp_seed :: int
  sp_max_tokens :: int

record completion =
  cp_text :: string
  cp_token_ids :: "int list"

datatype chat_part = MediaPart string string | TextPart string

record 'l vllm_libs =
  vl_llm :: "llm_args \<Rightarrow> string + 'l"
  vl_view :: "'l \<Rightarrow> pobj"
  vl_str :: "pobj \<Rightarrow> string"
  vl_encode :: "'l \<Rightarrow> string \<Rightarrow> nat"
  vl_generate :: "'l \<Rightarrow> string list \<Rightarrow> sampling_params \<Rightarrow> string + completion list list"
  vl_chat :: "'l \<Rightarrow> chat_part list \<Rightarrow> sampling_params \<Rightarrow> string + completion list list"
  vl_smi :: "string option"
  vl_guess_type :: "string \<Rightarrow> string option"
  vl_b64encode :: "byte list \<Rightarrow> string"
  vl_json_dumps :: "pyval \<Rightarrow> string"
  vl_json_loads :: "string \<Rightarrow> py_exc + pyval"
  vl_parse_float :: "string \<Rightarrow> py_exc + pyfloat"
  vl_str_exc :: "py_exc \<Rightarrow> string"
  vl_urlopen :: "string \<Rightarrow> (string, string) dict \<Rightarrow> string \<Rightarrow> pyfloat \<Rightarrow> string + (string list \<times> string option)"

text \<open>What the two engines raise; \<open>VllmFailure\<close> is an exception of an argument with its text.\<close>

datatype engine_exc =
  SourceRefused source_exc
| IdentityRefused load_exc
| EngineRaise py_exc
| VllmFailure string
| NoMedia string

section \<open>Media as data URIs\<close>

definition data_uri :: "'l vllm_libs \<Rightarrow> files \<Rightarrow> string \<Rightarrow> engine_exc + string" where
  "data_uri libs fs path =
     (let mime = (case vl_guess_type libs path of None \<Rightarrow> ''application/octet-stream''
                  | Some t \<Rightarrow> if t \<noteq> [] then t else ''application/octet-stream'')
      in case fs path of
           None \<Rightarrow> Inl (NoMedia path)
         | Some bytes \<Rightarrow> Inr (''data:'' @ mime @ '';base64,'' @ vl_b64encode libs bytes))"

section \<open>The in-process engine\<close>

text \<open>A part for each file that is given, \<open>None\<close> being the only absence, then the prompt.\<close>

definition media_part :: "'l vllm_libs \<Rightarrow> files \<Rightarrow> string \<Rightarrow> string option \<Rightarrow> engine_exc + chat_part list" where
  "media_part libs fs kind path = (case path of
     None \<Rightarrow> Inr [] | Some p \<Rightarrow> mapE (\<lambda>url. [MediaPart kind url]) (data_uri libs fs p))"

definition generate_greedy ::
  "'l vllm_libs \<Rightarrow> files \<Rightarrow> 'l \<Rightarrow> string \<Rightarrow> int \<Rightarrow> int \<Rightarrow> string option \<Rightarrow> string option \<Rightarrow> engine_exc + greedy_output" where
  "generate_greedy libs fs llm prompt max_tokens seed image_path video_path =
     (let params = \<lparr>sp_temperature = 0, sp_seed = seed, sp_max_tokens = max_tokens\<rparr> in
      bindE (if image_path = None \<and> video_path = None then map_errE VllmFailure (vl_generate libs llm [prompt] params)
             else bindE (media_part libs fs ''image_url'' image_path) (\<lambda>img.
                  bindE (media_part libs fs ''video_url'' video_path) (\<lambda>video.
                    map_errE VllmFailure (vl_chat libs llm (img @ video @ [TextPart prompt]) params)))) (\<lambda>outputs.
      case outputs of
        (out # _) # _ \<Rightarrow>
          mapE (\<lambda>n. \<lparr>go_text = cp_text out, go_output_tokens = int (length (cp_token_ids out)), go_vram_peak_bytes = n\<rparr>)
            (map_errE EngineRaise (gpu_memory_used_bytes (vl_smi libs)))
      | _ \<Rightarrow> Inl (EngineRaise IndexError)))"

definition count_prompt_tokens :: "'l vllm_libs \<Rightarrow> 'l \<Rightarrow> reasoning_request \<Rightarrow> int" where
  "count_prompt_tokens libs llm request = int (vl_encode libs llm (rr_prompt request))"

text \<open>\<open>reason\<close> over the built engine: validated first, then one generation.\<close>

record 'l reasoner =
  rz_llm :: 'l
  rz_info :: engine_info
  rz_cap :: context_cap

datatype reason_failure = OverCap reasoning_error | EngineFailed engine_exc

definition reasoner_reason :: "'l vllm_libs \<Rightarrow> files \<Rightarrow> 'l reasoner \<Rightarrow> reasoning_request \<Rightarrow> reason_failure + reasoning_result" where
  "reasoner_reason libs fs rz request =
     (let prompt_tokens = count_prompt_tokens libs (rz_llm rz) request in
      case validate_context prompt_tokens (rr_max_output_tokens request) (rz_cap rz) of
        Some error \<Rightarrow> Inl (OverCap error)
      | None \<Rightarrow> mapE (\<lambda>out.
          \<lparr>rs_case_id = (if rr_case_id request \<noteq> [] then rr_case_id request else ''reason''), rs_text = go_text out,
           rs_prompt_tokens = prompt_tokens, rs_output_tokens = go_output_tokens out,
           rs_vram_peak_bytes = go_vram_peak_bytes out, rs_info = Some (rz_info rz)\<rparr>)
          (map_errE EngineFailed (generate_greedy libs fs (rz_llm rz) (rr_prompt request) (rr_max_output_tokens request)
             (rr_seed request) (rr_image_path request) (rr_video_path request))))"

text \<open>Building the engine; the state is the models vLLM was asked to load.\<close>

definition llm_args_of :: "reasoner_config \<Rightarrow> llm_args" where
  "llm_args_of cfg =
     \<lparr>la_model = rc_model_dir cfg, la_dtype = rc_dtype cfg, la_max_model_len = rc_max_model_len cfg,
      la_gpu_memory_utilization = rc_gpu_memory_utilization cfg, la_seed = rc_seed cfg, la_enforce_eager = True\<rparr>"

text \<open>An architecture that is no string differs from the expected one.\<close>

definition verified_info :: "pyval \<Rightarrow> string \<Rightarrow> string \<Rightarrow> engine_exc + engine_info" where
  "verified_info arch dtype model_dir = (case arch of
     PStr s \<Rightarrow> map_errE IdentityRefused (verify_reasoner_info s dtype model_dir)
   | v \<Rightarrow> Inl (IdentityRefused (ReasonerLoadError [MStr model_dir, MLit '': served architecture '', MVal v,
       MLit '' is not '', MRepr EXPECTED_ARCH])))"

definition load_llm :: "'l vllm_libs \<Rightarrow> llm_args \<Rightarrow> (llm_args list, engine_exc, 'l) op" where
  "load_llm libs args loads = (map_errE VllmFailure (vl_llm libs args), loads @ [args])"

definition build_reasoner ::
  "ck_libs \<Rightarrow> 'l vllm_libs \<Rightarrow> disk \<Rightarrow> reasoner_config \<Rightarrow> (llm_args list, engine_exc, 'l reasoner) op" where
  "build_reasoner ck libs d cfg =
     then_op (pure_op (\<lambda>_. map_errE SourceRefused (assert_reasoner_source ck (rc_model_dir cfg) d))) (\<lambda>_.
     then_op (load_llm libs (llm_args_of cfg)) (\<lambda>llm.
     pure_op (\<lambda>_.
       bindE (map_errE EngineRaise (observe_arch_dtype (vl_str libs) (vl_view libs llm))) (\<lambda>(arch, dtype).
       mapE (\<lambda>info. \<lparr>rz_llm = llm, rz_info = info, rz_cap = cap_config cfg\<rparr>) (verified_info arch dtype (rc_model_dir cfg))))))"

section \<open>The streaming client\<close>

record upstream =
  us_base_url :: string
  us_model :: string

definition vllm_stream :: "(string, string) dict \<Rightarrow> string option \<Rightarrow> upstream" where
  "vllm_stream environ base_url =
     \<lparr>us_base_url = rstrip_slash (case base_url of
        Some u \<Rightarrow> if u \<noteq> [] then u else environ_get environ ''COSMOS3_VLLM_REASONER_URL'' ''http://vllm-reasoner:8000''
      | None \<Rightarrow> environ_get environ ''COSMOS3_VLLM_REASONER_URL'' ''http://vllm-reasoner:8000''),
      us_model = ''cosmos3-reasoner''\<rparr>"

text \<open>Here a path that is empty is no path.\<close>

definition media_message :: "'l vllm_libs \<Rightarrow> files \<Rightarrow> string \<Rightarrow> string option \<Rightarrow> engine_exc + pyval list" where
  "media_message libs fs kind path = (case path of
     None \<Rightarrow> Inr []
   | Some p \<Rightarrow> if p = [] then Inr []
       else mapE (\<lambda>url. [PDict [(''type'', PStr kind), (kind, PDict [(''url'', PStr url)])]]) (data_uri libs fs p))"

definition messages :: "'l vllm_libs \<Rightarrow> files \<Rightarrow> reason_payload \<Rightarrow> engine_exc + pyval" where
  "messages libs fs pay =
     bindE (media_message libs fs ''image_url'' (rp_image_path pay)) (\<lambda>img.
     mapE (\<lambda>video. PList [PDict [(''role'', PStr ''user''),
         (''content'', PList (img @ video @ [PDict [(''type'', PStr ''text''), (''text'', PStr (rp_prompt pay))]]))]])
       (media_message libs fs ''video_url'' (rp_video_path pay)))"

definition chat_body :: "'l vllm_libs \<Rightarrow> files \<Rightarrow> upstream \<Rightarrow> reason_payload \<Rightarrow> engine_exc + pyval" where
  "chat_body libs fs us pay =
     mapE (\<lambda>ms. PDict [(''model'', PStr (us_model us)), (''messages'', ms), (''stream'', PBool True),
         (''max_tokens'', PInt (rp_max_tokens pay)), (''temperature'', PInt 0)])
       (messages libs fs pay)"

definition exc_message :: "'l vllm_libs \<Rightarrow> engine_exc \<Rightarrow> string" where
  "exc_message libs e = (case e of
     VllmFailure t \<Rightarrow> t | EngineRaise x \<Rightarrow> vl_str_exc libs x | NoMedia p \<Rightarrow> ''No such file: '' @ p | _ \<Rightarrow> [])"

text \<open>
  What iterating the stream gives: the deltas and the exception it ends with. The response is its lines
  and the failure of the connection, if it has one.
\<close>

definition upstream_stream ::
  "'l vllm_libs \<Rightarrow> files \<Rightarrow> (string, string) dict \<Rightarrow> upstream \<Rightarrow> reason_payload \<Rightarrow> pyval list \<times> string option" where
  "upstream_stream libs fs environ us pay =
     (case bindE (chat_body libs fs us pay) (\<lambda>body.
        bindE (map_errE EngineRaise (vl_parse_float libs (environ_get environ ''COSMOS3_REASONER_TIMEOUT'' ''300''))) (\<lambda>timeout.
          map_errE VllmFailure (vl_urlopen libs (us_base_url us @ ''/v1/chat/completions'')
            [(''Content-Type'', ''application/json'')] (vl_json_dumps libs body) timeout))) of
        Inl e \<Rightarrow> ([], Some (exc_message libs e))
      | Inr (raws, failure) \<Rightarrow>
          (case chat_stream (vl_json_loads libs) raws of
             (deltas, Some e) \<Rightarrow> (deltas, Some (vl_str_exc libs e))
           | (deltas, None) \<Rightarrow>
               (deltas, if list_ex (\<lambda>raw. prefix ''data:'' (strip raw) \<and> strip (drop 5 (strip raw)) = ''[DONE]'') raws
                        then None else failure)))"

section \<open>What is loaded\<close>

lemma source_ok_iff:
  "assert_reasoner_source ck dir d = Inr u \<longleftrightarrow>
    (\<exists>ts. read_transformer_headers ck dir d = Inr ts \<and> list_ex kept_weight ts \<and> \<not> list_ex blocks_serving ts)"
  by (auto simp: assert_reasoner_source_def result_simps reasoner_source_verdict_def map_option_case scan_headers_None
      list_all_iff list_ex_iff split: option.splits)

lemma verified_info_Inr:
  "verified_info arch dtype dir = Inr info \<longleftrightarrow>
     arch = PStr EXPECTED_ARCH \<and> (sublist ''bfloat16'' (str_lower dtype) \<or> dtype = ''bf16'') \<and> info = engine_info ''vllm'' BF16 dir"
  by (auto simp: verified_info_def verify_reasoner_info_def result_simps split: pyval.splits if_splits)

text \<open>
  C25: The in-process reasoner is never the wrong model: a source whose understanding tower is missing or
  quantized is refused before vLLM is asked for anything, and an engine that is returned was loaded once
  from such a source, reports the expected architecture at bf16, and carries the cap of its
  configuration.
\<close>

theorem reasoner_built_from_bf16_tower:
  assumes "build_reasoner ck libs d cfg loads = (r, loads1)"
  shows "(case assert_reasoner_source ck (rc_model_dir cfg) d of
       Inl e \<Rightarrow> r = Inl (SourceRefused e) \<and> loads1 = loads | Inr _ \<Rightarrow> loads1 = loads @ [llm_args_of cfg]) \<and>
    (\<forall>rz. r = Inr rz \<longrightarrow>
       (\<exists>ts. read_transformer_headers ck (rc_model_dir cfg) d = Inr ts \<and> list_ex kept_weight ts \<and> \<not> list_ex blocks_serving ts) \<and>
       (\<exists>dtype. vl_llm libs (llm_args_of cfg) = Inr (rz_llm rz) \<and>
          observe_arch_dtype (vl_str libs) (vl_view libs (rz_llm rz)) = Inr (PStr EXPECTED_ARCH, dtype) \<and>
          (sublist ''bfloat16'' (str_lower dtype) \<or> dtype = ''bf16'')) \<and>
       rz_info rz = engine_info ''vllm'' BF16 (rc_model_dir cfg) \<and> rz_cap rz = cap_config cfg)"
proof (cases "assert_reasoner_source ck (rc_model_dir cfg) d")
  case (Inl e)
  then show ?thesis using assms by (auto simp: build_reasoner_def then_op_def pure_op_def)
next
  case (Inr u)
  then have "\<exists>ts. read_transformer_headers ck (rc_model_dir cfg) d = Inr ts \<and> list_ex kept_weight ts \<and> \<not> list_ex blocks_serving ts"
    by (simp only: source_ok_iff)
  with Inr show ?thesis using assms
    by (auto simp: build_reasoner_def then_op_def pure_op_def load_llm_def result_simps verified_info_Inr
        split: sum.splits)
qed

definition tower_ck :: ck_libs where
  "tower_ck = \<lparr>ck_dumps = (\<lambda>h. []),
     ck_loads = (\<lambda>b. Inr \<lparr>hd_tensors = [(''layers.0.weight'', \<lparr>tm_dtype = ''BF16'', tm_shape = [1], tm_offsets = (0, 2)\<rparr>)], hd_metadata = None\<rparr>),
     ck_sha = (\<lambda>b. []), ck_json_loads = (\<lambda>b. Inr []), ck_json_text = (\<lambda>p. [])\<rparr>"

definition tower_disk :: disk where "tower_disk = [(''/m/transformer/a.safetensors'', le_bytes 8 1 @ [0])]"

definition tower_vllm :: "unit vllm_libs" where
  "tower_vllm =
     \<lparr>vl_llm = (\<lambda>a. Inr ()),
      vl_view = (\<lambda>l. PObj [(''model_config'', PObj [(''hf_config'', PObj [(''architectures'', PObj [] (PList [PStr EXPECTED_ARCH]))] (PBool True)),
        (''dtype'', PObj [] (PStr ''torch.bfloat16''))] (PBool True))] (PBool True)),
      vl_str = (\<lambda>v. case obj_value v of PStr t \<Rightarrow> t | _ \<Rightarrow> []), vl_encode = (\<lambda>l p. length p), vl_generate = (\<lambda>l ps sp. Inr []),
      vl_chat = (\<lambda>l ps sp. Inr []), vl_smi = None, vl_guess_type = (\<lambda>p. None), vl_b64encode = (\<lambda>b. map (char_of \<circ> unat) b),
      vl_json_dumps = (\<lambda>v. []), vl_json_loads = (\<lambda>t. Inl ValueError), vl_parse_float = (\<lambda>t. Inr (Finite 300)),
      vl_str_exc = (\<lambda>e. ''bad''), vl_urlopen = (\<lambda>u h b t. Inr ([], None))\<rparr>"

definition tower_config :: reasoner_config where
  "tower_config = \<lparr>rc_model_dir = ''/m'', rc_max_model_len = 100, rc_max_output_tokens = 50, rc_gpu_memory_utilization = Finite (1 / 2),
     rc_dtype = ''bfloat16'', rc_seed = 1, rc_served_model_name = ''cosmos3-reasoner'', rc_device = ''cuda''\<rparr>"

lemma reasoner_built_from_bf16_tower_witness:
  "\<exists>rz. build_reasoner tower_ck tower_vllm tower_disk tower_config [] = (Inr rz, [llm_args_of tower_config]) \<and>
     rz_info rz = engine_info ''vllm'' BF16 ''/m'' \<and> rz_cap rz = cap_config tower_config"
proof -
  have glob: "glob_safetensors ''/m/transformer'' [(''/m/transformer/a.safetensors'', bs)] = [''/m/transformer/a.safetensors'']" for bs
    by (simp add: glob_safetensors_def in_directory_def suffix_def dict_keys_def)
  have "read_transformer_headers tower_ck ''/m'' tower_disk = Inr [(''layers.0.weight'', \<lparr>tm_dtype = ''BF16'', tm_shape = [1], tm_offsets = (0, 2)\<rparr>)]"
    by (simp add: read_transformer_headers_def glob read_safetensors_header_def read_file_def tower_disk_def tower_ck_def MAX_HEADER_BYTES_def
        dict_merge_def)
  moreover have "reasoner_source_verdict [(''layers.0.weight'', \<lparr>tm_dtype = ''BF16'', tm_shape = [1], tm_offsets = (0, 2)\<rparr>)] = None"
    by code_simp
  ultimately have src: "assert_reasoner_source tower_ck ''/m'' tower_disk = Inr ()"
    by (simp add: assert_reasoner_source_def)
  have "sublist ''bfloat16'' (str_lower ''torch.bfloat16'')" by code_simp
  then obtain rz where b: "build_reasoner tower_ck tower_vllm tower_disk tower_config [] = (Inr rz, [llm_args_of tower_config])"
    using src by (auto simp: build_reasoner_def then_op_def pure_op_def load_llm_def tower_config_def tower_vllm_def observe_arch_dtype_def
        attr_def obj_or_def obj_value_def py_elements_def NoneObj_def verified_info_def verify_reasoner_info_def Let_def)
  from reasoner_built_from_bf16_tower [OF b] b show ?thesis by (auto simp: tower_config_def)
qed

section \<open>What is sent\<close>

lemma data_uri_cong: "fs p = fs1 p \<Longrightarrow> data_uri libs fs p = data_uri libs fs1 p"
  by (simp add: data_uri_def)

lemma media_message_cong: "(\<And>p. path = Some p \<Longrightarrow> fs p = fs1 p) \<Longrightarrow> media_message libs fs kind path = media_message libs fs1 kind path"
  by (cases path) (simp_all add: media_message_def data_uri_cong [of fs _ fs1])

lemma request_paths_within:
  assumes "reason_request realpath al tok cap body = Inr pay"
  shows "rp_image_path pay = Some p \<or> rp_video_path pay = Some p \<Longrightarrow> \<exists>root\<in>set al. is_within p (realpath root)"
  using assms
  by (auto simp: reason_request_def Let_def result_simps resolve_optional_Inr resolve_within_Inr split: option.splits)

text \<open>
  C37: A reasoning request cannot read past the trust boundary: for a request the endpoint accepts, what
  is posted upstream and everything streamed back is the same for any two file systems that agree on
  the files inside the allowlisted roots.
\<close>

theorem reasoning_upstream_confined:
  assumes "reason_request realpath al tok cap body = Inr pay"
    and "\<And>p. \<exists>root\<in>set al. is_within p (realpath root) \<Longrightarrow> fs p = fs1 p"
  shows "chat_body libs fs us pay = chat_body libs fs1 us pay \<and>
    upstream_stream libs fs environ us pay = upstream_stream libs fs1 environ us pay"
proof -
  have "media_message libs fs kind (rp_image_path pay) = media_message libs fs1 kind (rp_image_path pay)"
    "media_message libs fs kind (rp_video_path pay) = media_message libs fs1 kind (rp_video_path pay)" for kind
    using request_paths_within [OF assms(1)] assms(2) by (auto intro!: media_message_cong)
  then have "chat_body libs fs us pay = chat_body libs fs1 us pay" by (simp add: chat_body_def messages_def)
  then show ?thesis by (simp add: upstream_stream_def)
qed

lemma reasoning_upstream_confined_witness:
  "chat_body tower_vllm (Map.empty(''/in/a.png'' \<mapsto> [65])) (vllm_stream [] None)
       \<lparr>rp_prompt = ''hi there'', rp_max_tokens = 7, rp_image_path = Some ''/in/a.png'', rp_video_path = None\<rparr> =
   chat_body tower_vllm (\<lambda>p. if is_within p (lexical_realpath ''/in'') then (Map.empty(''/in/a.png'' \<mapsto> [65])) p else Some [0]) (vllm_stream [] None)
       \<lparr>rp_prompt = ''hi there'', rp_max_tokens = 7, rp_image_path = Some ''/in/a.png'', rp_video_path = None\<rparr>"
proof -
  let ?body = "\<lparr>rb_prompt = ''hi there'', rb_image_path = Some ''/in/a.png'', rb_video_path = None,
    rb_max_output_tokens = None\<rparr>"
  let ?pay = "\<lparr>rp_prompt = ''hi there'', rp_max_tokens = 7, rp_image_path = Some ''/in/a.png'', rp_video_path = None\<rparr>"
  let ?fs = "Map.empty(''/in/a.png'' \<mapsto> [65]) :: files"
  let ?fs1 = "(\<lambda>p. if \<exists>root\<in>set [''/in'']. is_within p (lexical_realpath root) then ?fs p else Some [0]) :: files"
  have "reason_request lexical_realpath [''/in''] None \<lparr>cc_max_context_tokens = 10, cc_max_output_tokens = 10\<rparr> ?body = Inr ?pay"
    by (simp add: reason_request_def count_tokens_def effective_budget_def validate_context_def
        resolve_optional_def resolve_within_def url_scheme_def is_letter_def lexical_realpath_def
        components_def path_of_def is_within_def Let_def)
  from reasoning_upstream_confined [OF this, of ?fs ?fs1 tower_vllm "vllm_stream [] None" "[]"] show ?thesis
    by simp
qed

end
