(* ===== verification/Vllm_Patch.thy ===== *)
theory Vllm_Patch
  imports Trust_Paths "HOL-Library.Sublist"
begin

text \<open>
  The vLLM modules that the reasoner images replace (\<open>deploy/vllm-reasoner/patch-nvfp4\<close> and
  \<open>deploy/vllm-reasoner/patch\<close>): the registry of quantization methods with the registration of the
  service's own method, and the two configurations, which quantize the MLP projections of the language
  tower and nothing else. vLLM's own classes are names; what its imports do is an argument.
\<close>

section \<open>The registry\<close>

datatype 'c quant_class =
    Stock string
  | Nvfp4BlockwiseW4A16
  | Fp8BlockwiseW8A16
  | Plugin 'c

datatype quant_exc =
    InvalidMethod string
  | NotAConfig
  | NoConfig string
  | ImportFailed string

text \<open>
  The build the module is part of: the shorthands of \<open>vllm.config.quantization\<close>, the failure of the
  deferred imports and of the import of the service's module, and which classes derive from
  \<open>QuantizationConfig\<close>.
\<close>

record 'c vllm_build =
  vb_shorthands :: "string list"
  vb_import_error :: "string option"
  vb_patch_error :: "string option"
  vb_subclass :: "'c quant_class \<Rightarrow> bool"

record 'c quant_registry =
  qr_methods :: "string list"
  qr_custom :: "(string, 'c quant_class) dict"
  qr_platform :: "string list"

definition QUANTIZATION_METHODS :: "string list" where
  "QUANTIZATION_METHODS =
     [''awq'', ''auto_awq'', ''fp8'', ''fbgemm_fp8'', ''fp_quant'', ''modelopt'', ''modelopt_fp4'', ''modelopt_mxfp8'',
      ''modelopt_mixed'', ''auto_gptq'', ''gptq'', ''gptq_marlin'', ''awq_marlin'', ''humming'', ''compressed-tensors'',
      ''bitsandbytes'', ''experts_int8'', ''quark'', ''moe_wna16'', ''torchao'', ''inc'', ''mxfp4'', ''gpt_oss_mxfp4'',
      ''deepseek_v4_fp8'', ''online'', ''fp8_per_tensor'', ''fp8_per_block'', ''fp8_per_channel'',
      ''int8_per_channel_weight_only'', ''mxfp8'']"

definition method_to_config :: "(string, 'c quant_class) dict" where
  "method_to_config =
     [(''awq'', Stock ''AutoAWQConfig''), (''awq_marlin'', Stock ''AutoAWQConfig''), (''auto_awq'', Stock ''AutoAWQConfig''),
      (''fp8'', Stock ''Fp8Config''), (''fbgemm_fp8'', Stock ''FBGEMMFp8Config''), (''fp_quant'', Stock ''FPQuantConfig''),
      (''modelopt'', Stock ''ModelOptFp8Config''), (''modelopt_fp4'', Stock ''ModelOptNvFp4Config''),
      (''modelopt_mxfp8'', Stock ''ModelOptMxFp8Config''), (''modelopt_mixed'', Stock ''ModelOptMixedPrecisionConfig''),
      (''auto_gptq'', Stock ''AutoGPTQConfig''), (''gptq'', Stock ''AutoGPTQConfig''), (''gptq_marlin'', Stock ''AutoGPTQConfig''),
      (''compressed-tensors'', Stock ''CompressedTensorsConfig''), (''bitsandbytes'', Stock ''BitsAndBytesConfig''),
      (''experts_int8'', Stock ''ExpertsInt8Config''), (''quark'', Stock ''QuarkConfig''), (''moe_wna16'', Stock ''MoeWNA16Config''),
      (''torchao'', Stock ''TorchAOConfig''), (''inc'', Stock ''INCConfig''), (''mxfp4'', Stock ''Mxfp4Config''),
      (''gpt_oss_mxfp4'', Stock ''GptOssMxfp4Config''), (''deepseek_v4_fp8'', Stock ''DeepseekV4FP8Config''),
      (''humming'', Stock ''HummingConfig''), (''online'', Stock ''OnlineQuantizationConfig''),
      (''mxfp8'', Stock ''ModelOptMxFp8Config'')]"

text \<open>The decorator: the name is listed before the class is looked at.\<close>

definition list_method :: "string \<Rightarrow> 'c quant_registry \<Rightarrow> 'c quant_registry" where
  "list_method name r =
     (if name \<in> set (qr_methods r) then r
      else r\<lparr>qr_methods := qr_methods r @ [name],
             qr_platform := (if qr_platform r \<noteq> [] then qr_platform r @ [name] else [])\<rparr>)"

definition register_quantization_config ::
  "'c vllm_build \<Rightarrow> string \<Rightarrow> 'c quant_class \<Rightarrow> ('c quant_registry, quant_exc, 'c quant_class) op" where
  "register_quantization_config vb name cls r =
     (let r1 = list_method name r in
      if \<not> vb_subclass vb cls then (Inl NotAConfig, r1)
      else (Inr cls, r1\<lparr>qr_custom := dict_set name cls (qr_custom r1)\<rparr>))"

definition setdefault :: "'v \<Rightarrow> 'k \<Rightarrow> ('k, 'v) dict \<Rightarrow> ('k, 'v) dict" where
  "setdefault v k d = (if dict_get d k = None then dict_set k v d else d)"

definition config_table :: "'c vllm_build \<Rightarrow> 'c quant_registry \<Rightarrow> (string, 'c quant_class) dict" where
  "config_table vb r =
     dict_merge (fold (setdefault (Stock ''OnlineQuantizationConfig'')) (vb_shorthands vb) method_to_config) (qr_custom r)"

definition get_quantization_config :: "'c vllm_build \<Rightarrow> string \<Rightarrow> 'c quant_registry \<Rightarrow> quant_exc + 'c quant_class" where
  "get_quantization_config vb name r =
     (if name \<notin> set (qr_methods r) then Inl (InvalidMethod name)
      else (case vb_import_error vb of
              Some e \<Rightarrow> Inl (ImportFailed e)
            | None \<Rightarrow> (case dict_get (config_table vb r) name of None \<Rightarrow> Inl (NoConfig name) | Some c \<Rightarrow> Inr c)))"

text \<open>
  Importing the package: vLLM's own registry, then the registration at the end of the module, which
  a failing import only logs.
\<close>

definition fresh_registry :: "string list \<Rightarrow> 'c quant_registry" where
  "fresh_registry platform = \<lparr>qr_methods = QUANTIZATION_METHODS, qr_custom = [], qr_platform = platform\<rparr>"

definition install :: "'c vllm_build \<Rightarrow> string \<Rightarrow> 'c quant_class \<Rightarrow> 'c quant_registry \<Rightarrow> 'c quant_registry" where
  "install vb name cls r = (case vb_patch_error vb of
       Some e \<Rightarrow> r
     | None \<Rightarrow> r\<lparr>qr_custom := dict_set name cls (qr_custom r),
                 qr_methods := (if name \<in> set (qr_methods r) then qr_methods r else qr_methods r @ [name])\<rparr>)"

definition nvfp4_registry :: "'c vllm_build \<Rightarrow> string list \<Rightarrow> 'c quant_registry" where
  "nvfp4_registry vb platform = install vb ''nvfp4_blockwise_w4a16'' Nvfp4BlockwiseW4A16 (fresh_registry platform)"

definition fp8_registry :: "'c vllm_build \<Rightarrow> string list \<Rightarrow> 'c quant_registry" where
  "fp8_registry vb platform = install vb ''fp8_blockwise_w8a16'' Fp8BlockwiseW8A16 (fresh_registry platform)"

text \<open>Plugins register their methods one after the other.\<close>

definition register_all :: "'c vllm_build \<Rightarrow> (string \<times> 'c quant_class) list \<Rightarrow> ('c quant_registry, quant_exc, unit) op" where
  "register_all vb = for_each (\<lambda>(name, cls). then_op (register_quantization_config vb name cls) (\<lambda>_ r. (Inr (), r)))"

section \<open>The two configurations\<close>

text \<open>
  The pattern \<open>language_model.model.layers.N.mlp.gate_up_proj\<close> or \<open>down_proj\<close>, searched for at every
  position; Python's \<open>$\<close> also matches before a final newline.
\<close>

definition LM_LAYERS :: string where "LM_LAYERS = ''language_model.model.layers.''"

definition mlp_ends :: "string list" where
  "mlp_ends = [''.mlp.gate_up_proj'', ''.mlp.down_proj'', ''.mlp.gate_up_proj'' @ [CHR 0x0A], ''.mlp.down_proj'' @ [CHR 0x0A]]"

definition target_at :: "string \<Rightarrow> bool" where
  "target_at s =
     (prefix LM_LAYERS s \<and>
      (let r = drop (length LM_LAYERS) s in takeWhile is_digit r \<noteq> [] \<and> dropWhile is_digit r \<in> set mlp_ends))"

definition lm_target :: "string \<Rightarrow> bool" where "lm_target p = list_ex target_at (suffixes p)"

record modelopt_args =
  ma_quant_method :: string
  ma_serialized :: bool
  ma_kv_cache_algo :: "string option"
  ma_exclude :: "string list"
  ma_group_size :: int

definition NVFP4_ARGS :: modelopt_args where
  "NVFP4_ARGS =
     \<lparr>ma_quant_method = ''W4A16_NVFP4'', ma_serialized = True, ma_kv_cache_algo = None, ma_exclude = [], ma_group_size = 16\<rparr>"

record 'm modelopt =
  mo_config :: "modelopt_args \<Rightarrow> string + 'm"
  mo_method_name :: "'m \<Rightarrow> string"

datatype 'm linear_method = ModelOptMethod 'm | BlockwiseFp8 | Unquantized

datatype method_exc = ModelOptRaised string | WrongMethod string | NoOmni string

text \<open>The lazily built configuration, with the record of the configurations that were built.\<close>

type_synonym ('m, 'a) quant_op = "('m option \<times> modelopt_args list, method_exc, 'a) op"

definition base_config :: "'m modelopt \<Rightarrow> ('m, 'm) quant_op" where
  "base_config mo s = (case s of
       (Some cfg, built) \<Rightarrow> (Inr cfg, s)
     | (None, built) \<Rightarrow> (case mo_config mo NVFP4_ARGS of
           Inl e \<Rightarrow> (Inl (ModelOptRaised e), (None, built @ [NVFP4_ARGS]))
         | Inr cfg \<Rightarrow>
             if mo_method_name mo cfg \<noteq> ''ModelOptNvFp4W4A16LinearMethod''
             then (Inl (WrongMethod (mo_method_name mo cfg)), (None, built @ [NVFP4_ARGS]))
             else (Inr cfg, (Some cfg, built @ [NVFP4_ARGS]))))"

definition nvfp4_quant_method :: "'m modelopt \<Rightarrow> bool \<Rightarrow> string \<Rightarrow> ('m, 'm linear_method option) quant_op" where
  "nvfp4_quant_method mo is_linear layer_prefix =
     (if is_linear then
        if lm_target layer_prefix then then_op (base_config mo) (\<lambda>cfg s. (Inr (Some (ModelOptMethod cfg)), s))
        else (\<lambda>s. (Inr (Some Unquantized), s))
      else (\<lambda>s. (Inr None, s)))"

definition fp8_quant_method :: "string option \<Rightarrow> bool \<Rightarrow> string \<Rightarrow> method_exc + 'm linear_method option" where
  "fp8_quant_method omni_import is_linear layer_prefix =
     (if is_linear then
        if lm_target layer_prefix
        then (case omni_import of Some e \<Rightarrow> Inl (NoOmni e) | None \<Rightarrow> Inr (Some BlockwiseFp8))
        else Inr (Some Unquantized)
      else Inr None)"

text \<open>vLLM asks for the method of each layer in turn.\<close>

fun quantize_layers :: "'m modelopt \<Rightarrow> (bool \<times> string) list \<Rightarrow> ('m, 'm linear_method option list) quant_op" where
  "quantize_layers mo [] s = (Inr [], s)"
| "quantize_layers mo ((lin, p) # ls) s =
     then_op (nvfp4_quant_method mo lin p) (\<lambda>m. then_op (quantize_layers mo ls) (\<lambda>ms s. (Inr (m # ms), s))) s"

section \<open>What the registry answers\<close>

lemma get_setdefaults:
  "dict_get (fold (setdefault v) ks d) k = (case dict_get d k of Some w \<Rightarrow> Some w | None \<Rightarrow> if k \<in> set ks then Some v else None)"
  by (induction ks arbitrary: d) (auto simp: setdefault_def split: option.splits)

lemma distinct_keys_set: "distinct (map fst d) \<Longrightarrow> distinct (map fst (dict_set k v d))"
  by (rule distinct_update)

lemma get_merge_distinct:
  "distinct (map fst e) \<Longrightarrow> dict_get (dict_merge d e) k = (case dict_get e k of Some v \<Rightarrow> Some v | None \<Rightarrow> dict_get d k)"
  unfolding dict_merge_def
proof (induction e arbitrary: d)
  case (Cons a e)
  obtain j v where a: "a = (j, v)" by (cases a)
  have "dict_get e j = None" using Cons.prems a by (simp add: map_of_eq_None_iff)
  then show ?case using Cons.IH [of "dict_set j v d"] Cons.prems a by (auto split: option.splits)
qed simp

lemma get_config_table:
  assumes "distinct (map fst (qr_custom r))"
  shows "dict_get (config_table vb r) name =
    (case dict_get (qr_custom r) name of Some c \<Rightarrow> Some c
     | None \<Rightarrow> (case dict_get method_to_config name of Some c \<Rightarrow> Some c
               | None \<Rightarrow> if name \<in> set (vb_shorthands vb) then Some (Stock ''OnlineQuantizationConfig'') else None))"
  using assms by (auto simp: config_table_def get_merge_distinct get_setdefaults split: option.splits)

text \<open>What a sequence of accepted registrations leaves.\<close>

lemma register_all_ok:
  assumes "\<forall>(n, c) \<in> set regs. vb_subclass vb c" "distinct (map fst (qr_custom r))"
  shows "\<exists>r1. register_all vb regs r = (Inr (), r1) \<and> set (qr_methods r1) = set (qr_methods r) \<union> fst ` set regs \<and>
    distinct (map fst (qr_custom r1)) \<and>
    (\<forall>k. dict_get (qr_custom r1) k = (case map_of (rev regs) k of Some c \<Rightarrow> Some c | None \<Rightarrow> dict_get (qr_custom r) k))"
  using assms
proof (induction regs arbitrary: r)
  case (Cons a regs)
  obtain n c where a: "a = (n, c)" by (cases a)
  define q where "q = (list_method n r)\<lparr>qr_custom := dict_set n c (qr_custom r)\<rparr>"
  have q: "set (qr_methods q) = insert n (set (qr_methods r))" "qr_custom q = dict_set n c (qr_custom r)"
    by (auto simp: q_def list_method_def)
  have "register_all vb (a # regs) r = register_all vb regs q"
    using Cons.prems(1) a
    by (simp add: register_all_def then_op_def register_quantization_config_def Let_def q_def list_method_def)
  moreover have "distinct (map fst (qr_custom q))" using Cons.prems(2) q(2) by (simp add: distinct_update)
  moreover have "\<forall>(n, c) \<in> set regs. vb_subclass vb c" using Cons.prems(1) by auto
  ultimately obtain r1 where "register_all vb (a # regs) r = (Inr (), r1)"
    "set (qr_methods r1) = set (qr_methods q) \<union> fst ` set regs" "distinct (map fst (qr_custom r1))"
    "\<And>k. dict_get (qr_custom r1) k = (case map_of (rev regs) k of Some c \<Rightarrow> Some c | None \<Rightarrow> dict_get (qr_custom q) k)"
    using Cons.IH [of q] by auto
  moreover have "(case map_of (rev regs) k of Some c \<Rightarrow> Some c | None \<Rightarrow> dict_get (qr_custom q) k) =
      (case map_of (rev (a # regs)) k of Some c \<Rightarrow> Some c | None \<Rightarrow> dict_get (qr_custom r) k)" for k
    by (auto simp: q(2) a map_add_def split: option.splits)
  ultimately show ?case using q(1) a by (intro exI [of _ r1]) auto
qed (simp add: register_all_def)

definition SHORTHANDS :: "string list" where
  "SHORTHANDS = [''fp8_per_tensor'', ''fp8_per_block'', ''fp8_per_channel'', ''int8_per_channel_weight_only'']"

lemma stock_methods_resolve:
  assumes "name \<in> set QUANTIZATION_METHODS"
  shows "dict_get method_to_config name \<noteq> None \<or> name \<in> set SHORTHANDS"
  using assms by (auto simp: QUANTIZATION_METHODS_def method_to_config_def SHORTHANDS_def)

lemma fresh_config:
  "get_quantization_config vb name (fresh_registry platform) =
    (if name \<notin> set QUANTIZATION_METHODS then Inl (InvalidMethod name)
     else (case vb_import_error vb of Some e \<Rightarrow> Inl (ImportFailed e)
       | None \<Rightarrow> (case dict_get method_to_config name of Some c \<Rightarrow> Inr c
           | None \<Rightarrow> if name \<in> set (vb_shorthands vb) then Inr (Stock ''OnlineQuantizationConfig'') else Inl (NoConfig name))))"
  by (simp add: get_quantization_config_def fresh_registry_def get_config_table split: option.splits)

lemma fresh_listed:
  fixes vb :: "'c vllm_build"
  assumes "name \<in> set QUANTIZATION_METHODS" "set SHORTHANDS \<subseteq> set (vb_shorthands vb)" "vb_import_error vb = None"
  shows "\<exists>c. get_quantization_config vb name (fresh_registry platform) = Inr c"
  using assms stock_methods_resolve [OF assms(1), where 'a = 'c] by (auto simp: fresh_config split: option.splits)

text \<open>
  The patched registry is vLLM's registry with the service's method added, and it stays complete:
  after any plugins have registered their classes, a name resolves to the class registered last under
  it, else the service's name to the service's configuration, else to what unpatched vLLM answers; and
  every name that is listed resolves.
\<close>

theorem patched_registry_extends_vllm:
  assumes build: "vb_import_error vb = None" "vb_patch_error vb = None" "set SHORTHANDS \<subseteq> set (vb_shorthands vb)"
    and accepted: "\<forall>(n, c) \<in> set regs. vb_subclass vb c"
  shows "\<exists>r. register_all vb regs (nvfp4_registry vb platform) = (Inr (), r) \<and>
    (\<forall>name. get_quantization_config vb name r =
      (case map_of (rev regs) name of Some c \<Rightarrow> Inr c
       | None \<Rightarrow> if name = ''nvfp4_blockwise_w4a16'' then Inr Nvfp4BlockwiseW4A16
                 else get_quantization_config vb name (fresh_registry platform))) \<and>
    (\<forall>name \<in> set (qr_methods r). \<exists>c. get_quantization_config vb name r = Inr c)"
proof -
  let ?p = "nvfp4_registry vb platform" and ?n = "''nvfp4_blockwise_w4a16''"
  have p: "set (qr_methods ?p) = insert ?n (set QUANTIZATION_METHODS)" "qr_custom ?p = [(?n, Nvfp4BlockwiseW4A16)]"
    using build(2) by (auto simp: nvfp4_registry_def install_def fresh_registry_def)
  obtain r where r: "register_all vb regs ?p = (Inr (), r)" "set (qr_methods r) = set (qr_methods ?p) \<union> fst ` set regs"
    "distinct (map fst (qr_custom r))"
    "\<And>k. dict_get (qr_custom r) k = (case map_of (rev regs) k of Some c \<Rightarrow> Some c | None \<Rightarrow> dict_get (qr_custom ?p) k)"
    using register_all_ok [OF accepted, of ?p] p(2) by auto
  have reg: "map_of (rev regs) k \<noteq> None \<longleftrightarrow> k \<in> fst ` set regs" for k by (simp add: map_of_eq_None_iff image_image)
  have answer: "get_quantization_config vb name r =
      (case map_of (rev regs) name of Some c \<Rightarrow> Inr c
       | None \<Rightarrow> if name = ?n then Inr Nvfp4BlockwiseW4A16 else get_quantization_config vb name (fresh_registry platform))" for name
    using reg [of name] build(1)
    by (auto simp: get_quantization_config_def [of vb name r] get_config_table [OF r(3)] r(2,4) p fresh_config split: option.splits)
  moreover have "\<exists>c. get_quantization_config vb name r = Inr c" if "name \<in> set (qr_methods r)" for name
    using that reg [of name] fresh_listed [OF _ build(3,1)]
    by (auto simp: answer r(2) p(1) split: option.splits)
  ultimately show ?thesis using r(1) by blast
qed

lemma unlisted_method: "name \<notin> set QUANTIZATION_METHODS \<Longrightarrow> dict_get method_to_config name = None"
  by (auto simp: QUANTIZATION_METHODS_def method_to_config_def)

text \<open>A refused registration leaves a name that is listed and has no configuration.\<close>

lemma refused_config_stays_listed:
  assumes "\<not> vb_subclass vb cls" "vb_import_error vb = None" "name \<notin> set QUANTIZATION_METHODS" "name \<notin> set (vb_shorthands vb)"
  shows "\<exists>r. register_quantization_config vb name cls (fresh_registry platform) = (Inl NotAConfig, r) \<and>
    name \<in> set (qr_methods r) \<and> get_quantization_config vb name r = Inl (NoConfig name)"
  using assms
  by (auto simp: unlisted_method register_quantization_config_def list_method_def Let_def fresh_registry_def get_quantization_config_def get_config_table)

definition demo_build :: "string vllm_build" where
  "demo_build = \<lparr>vb_shorthands = SHORTHANDS @ [''mxfp8''], vb_import_error = None, vb_patch_error = None, vb_subclass = (\<lambda>c. True)\<rparr>"

lemma patched_registry_extends_vllm_witness:
  "\<exists>r. register_all demo_build [(''fp8'', Plugin ''MyFp8'')] (nvfp4_registry demo_build []) = (Inr (), r) \<and>
    get_quantization_config demo_build ''fp8'' r = Inr (Plugin ''MyFp8'') \<and>
    get_quantization_config demo_build ''nvfp4_blockwise_w4a16'' r = Inr Nvfp4BlockwiseW4A16"
proof -
  let ?regs = "[(''fp8'', Plugin ''MyFp8'')]"
  have b: "vb_import_error demo_build = None" "vb_patch_error demo_build = None" "set SHORTHANDS \<subseteq> set (vb_shorthands demo_build)"
    "\<forall>(n, c) \<in> set ?regs. vb_subclass demo_build c"
    by (auto simp: demo_build_def)
  obtain r where r: "register_all demo_build ?regs (nvfp4_registry demo_build []) = (Inr (), r)"
    "\<And>name. get_quantization_config demo_build name r = (case map_of (rev ?regs) name of Some c \<Rightarrow> Inr c
       | None \<Rightarrow> if name = ''nvfp4_blockwise_w4a16'' then Inr Nvfp4BlockwiseW4A16
                 else get_quantization_config demo_build name (fresh_registry []))"
    using patched_registry_extends_vllm [OF b, of "[]"] by blast
  show ?thesis using r(1) r(2) [of "''fp8''"] r(2) [of "''nvfp4_blockwise_w4a16''"] by simp
qed

section \<open>Which layers are quantized\<close>

lemma mlp_ends_drop: "w \<in> set mlp_ends \<Longrightarrow> dropWhile is_digit w = w"
  by (auto simp: mlp_ends_def is_digit_def)

lemma target_at_iff:
  "target_at s \<longleftrightarrow> (\<exists>ds w. ds \<noteq> [] \<and> (\<forall>c \<in> set ds. is_digit c) \<and> w \<in> set mlp_ends \<and> s = LM_LAYERS @ ds @ w)"
proof
  assume "target_at s"
  then obtain r where r: "s = LM_LAYERS @ r" "takeWhile is_digit r \<noteq> []" "dropWhile is_digit r \<in> set mlp_ends"
    by (auto simp: target_at_def Let_def prefix_def)
  have "s = LM_LAYERS @ takeWhile is_digit r @ dropWhile is_digit r" using r(1) by simp
  with r(2,3) show "\<exists>ds w. ds \<noteq> [] \<and> (\<forall>c \<in> set ds. is_digit c) \<and> w \<in> set mlp_ends \<and> s = LM_LAYERS @ ds @ w"
    by (blast dest: set_takeWhileD)
qed (auto simp: target_at_def Let_def takeWhile_append dropWhile_append mlp_ends_drop)

lemma lm_target_iff:
  "lm_target p \<longleftrightarrow> (\<exists>pre ds w. ds \<noteq> [] \<and> (\<forall>c \<in> set ds. is_digit c) \<and> w \<in> set mlp_ends \<and> p = pre @ LM_LAYERS @ ds @ w)"
  unfolding lm_target_def list_ex_iff set_suffixes_eq by (auto simp: suffix_def target_at_iff)

definition layer_method :: "'m \<Rightarrow> bool \<times> string \<Rightarrow> 'm linear_method option" where
  "layer_method cfg l = (if fst l then Some (if lm_target (snd l) then ModelOptMethod cfg else Unquantized) else None)"

lemma quantize_cached:
  "quantize_layers mo ls (Some cfg, built) = (Inr (map (layer_method cfg) ls), (Some cfg, built))"
proof (induction ls)
  case (Cons l ls)
  then show ?case by (cases l) (simp add: then_op_def nvfp4_quant_method_def base_config_def layer_method_def)
qed simp

text \<open>
  C24: The NVFP4 reasoner quantizes exactly the MLP projections of the language tower: when vLLM has the
  W4A16 method, every layer whose name ends in a gate/up or down projection of a language layer gets it,
  over one configuration that is built once and only if such a layer exists, every other linear layer
  stays at full precision, and layers that are not linear are left to vLLM; the FP8 reasoner treats the
  same layers.
\<close>

theorem reasoner_quantizes_language_mlp:
  assumes "mo_config mo NVFP4_ARGS = Inr cfg" "mo_method_name mo cfg = ''ModelOptNvFp4W4A16LinearMethod''"
  shows "quantize_layers mo ls (None, []) =
      (Inr (map (layer_method cfg) ls),
       (if list_ex (\<lambda>(lin, p). lin \<and> lm_target p) ls then (Some cfg, [NVFP4_ARGS]) else (None, []))) \<and>
    (\<forall>p. lm_target p \<longleftrightarrow> (\<exists>pre ds w. ds \<noteq> [] \<and> (\<forall>c \<in> set ds. is_digit c) \<and> w \<in> set mlp_ends \<and> p = pre @ LM_LAYERS @ ds @ w)) \<and>
    (\<forall>(lin, p) \<in> set ls. fp8_quant_method None lin p =
      Inr (case layer_method cfg (lin, p) of Some (ModelOptMethod _) \<Rightarrow> Some BlockwiseFp8 | m \<Rightarrow> m))"
proof (intro conjI)
  show "quantize_layers mo ls (None, []) = (Inr (map (layer_method cfg) ls),
      (if list_ex (\<lambda>(lin, p). lin \<and> lm_target p) ls then (Some cfg, [NVFP4_ARGS]) else (None, [])))"
  proof (induction ls)
    case (Cons l ls)
    then show ?case using assms
      by (cases l) (auto simp: then_op_def nvfp4_quant_method_def base_config_def layer_method_def quantize_cached)
  qed simp
  show "\<forall>(lin, p) \<in> set ls. fp8_quant_method None lin p =
      Inr (case layer_method cfg (lin, p) of Some (ModelOptMethod _) \<Rightarrow> Some BlockwiseFp8 | m \<Rightarrow> m)"
    by (auto simp: fp8_quant_method_def layer_method_def)
qed (simp add: lm_target_iff)

definition demo_modelopt :: "unit modelopt" where
  "demo_modelopt = \<lparr>mo_config = (\<lambda>a. Inr ()), mo_method_name = (\<lambda>m. ''ModelOptNvFp4W4A16LinearMethod'')\<rparr>"

lemma reasoner_quantizes_language_mlp_witness:
  "quantize_layers demo_modelopt
     [(True, ''language_model.model.layers.12.mlp.down_proj''), (True, ''visual.blocks.3.mlp.down_proj''), (False, ''norm'')] (None, []) =
   (Inr [Some (ModelOptMethod ()), Some Unquantized, None], (Some (), [NVFP4_ARGS]))"
proof -
  have t: "lm_target ''language_model.model.layers.12.mlp.down_proj''" "\<not> lm_target ''visual.blocks.3.mlp.down_proj''" by code_simp+
  show ?thesis
    using reasoner_quantizes_language_mlp [of demo_modelopt "()" "[(True, ''language_model.model.layers.12.mlp.down_proj''),
      (True, ''visual.blocks.3.mlp.down_proj''), (False, ''norm'')]"] t
    by (simp add: demo_modelopt_def layer_method_def)
qed

end
