(* ===== verification/Lfs_Probe.thy ===== *)
theory Lfs_Probe
  imports Py_Values "HOL-Library.Sublist" "HOL-Library.List_Lexorder" "HOL-Library.Char_ord"
begin

text \<open>
  The packaging probe of the published checkpoints
  (\<open>docs/archive/phase-2/session_2/probes/verify_gpu_s2_checkpoints.py\<close>): which files of a repository
  belong in LFS, which of them changed between two revisions, and the verdict of a run. The hub's answers
  are an argument.
\<close>

definition FP8_REPO :: string where "FP8_REPO = ''wfen/Cosmos3-Nano-FP8-Blockwise''"
definition NVFP4_REPO :: string where "NVFP4_REPO = ''wfen/Cosmos3-Nano-NVFP4-Blockwise''"
definition FP8_REVISION :: string where "FP8_REVISION = ''9bf5d6ae164688487bdb71947ccc6ebe70d12900''"
definition NVFP4_REVISION :: string where "NVFP4_REVISION = ''5514c42b9759739f545e0d0dee453db8d8525fbc''"
definition PRE_FIX_FP8_REVISION :: string where "PRE_FIX_FP8_REVISION = ''4e181f996abf03f3425298ef692e6e5e56fd46a4''"
definition PRE_FIX_NVFP4_REVISION :: string where "PRE_FIX_NVFP4_REVISION = ''b5c9332efbaefa72c99890b1b1150da12ca9256c''"

definition STALE_INDEX_NAME :: string where "STALE_INDEX_NAME = ''model.safetensors.index.json''"
definition SIZE_THRESHOLD_BYTES :: int where "SIZE_THRESHOLD_BYTES = 10 * 1024 * 1024"

definition BINARY_PATTERNS :: "string list" where
  "BINARY_PATTERNS = [''*.safetensors'', ''*.pt'', ''*.pth'', ''*.ckpt'', ''*.mp4'', ''*.webm'', ''*.png'', ''*.jpg'', ''*.jpeg'', ''*.mp3'']"

definition LARGE_FILE_PATTERNS :: "string list" where
  "LARGE_FILE_PATTERNS = BINARY_PATTERNS @ [''text_tokenizer/tokenizer.json'']"

definition KNOWN_DEV_SCRATCH_ORPHANS :: "(string, string list) dict" where
  "KNOWN_DEV_SCRATCH_ORPHANS =
     [(FP8_REPO, [''_s2_postfix.md'', ''_s2_rerun.md'', ''_s2_verify.md'']),
      (NVFP4_REPO, [''transformer/producer_provenance.json''])]"

datatype lfs_verdict = LfsOk | ShouldNotBeLfs | ShouldBeLfs | KnownDevScratchOrphan | LfsShaChanged | NotProbed

text \<open>Python's \<open>fnmatch\<close> for patterns of literals, \<open>*\<close> and \<open>?\<close>; a star also matches slashes.\<close>

fun fnmatch :: "string \<Rightarrow> string \<Rightarrow> bool" where
  "fnmatch s [] = (s = [])"
| "fnmatch s (p # ps) =
     (if p = CHR ''*'' then list_ex (\<lambda>t. fnmatch t ps) (suffixes s)
      else (case s of [] \<Rightarrow> False | c # cs \<Rightarrow> (p = CHR ''?'' \<or> c = p) \<and> fnmatch cs ps))"

definition is_large_or_binary :: "string \<Rightarrow> int option \<Rightarrow> bool" where
  "is_large_or_binary path sz =
     ((case sz of Some n \<Rightarrow> SIZE_THRESHOLD_BYTES < n | None \<Rightarrow> False) \<or> list_ex (fnmatch path) BINARY_PATTERNS)"

definition has_stale_index :: "string list \<Rightarrow> bool" where
  "has_stale_index names = (STALE_INDEX_NAME \<in> set names)"

definition scratch_orphan :: "string \<Rightarrow> string \<Rightarrow> bool" where
  "scratch_orphan repo path = (case dict_get KNOWN_DEV_SCRATCH_ORPHANS repo of Some ps \<Rightarrow> path \<in> set ps | None \<Rightarrow> False)"

definition classify_lfs_placement :: "string \<Rightarrow> string \<Rightarrow> int option \<Rightarrow> bool \<Rightarrow> lfs_verdict" where
  "classify_lfs_placement repo path sz is_lfs =
     (if scratch_orphan repo path then KnownDevScratchOrphan
      else (let expect_lfs = is_large_or_binary path sz in
            if is_lfs \<and> \<not> expect_lfs then ShouldNotBeLfs
            else if expect_lfs \<and> \<not> is_lfs then ShouldBeLfs
            else LfsOk))"

definition is_large_file_pattern :: "string \<Rightarrow> bool" where
  "is_large_file_pattern path = list_ex (fnmatch path) LARGE_FILE_PATTERNS"

definition classify_large_file_stability :: "string option \<Rightarrow> string option \<Rightarrow> lfs_verdict" where
  "classify_large_file_stability pre_sha post_sha =
     (case (pre_sha, post_sha) of
        (Some a, Some b) \<Rightarrow> if a = b then LfsOk else LfsShaChanged
      | _ \<Rightarrow> NotProbed)"

record file_meta =
  fm_size :: "int option"
  fm_is_lfs :: bool
  fm_lfs_sha :: "string option"

type_synonym hub_manifest = "(string, file_meta) dict"

text \<open>A path that is missing from a manifest reads as an empty dict.\<close>

definition meta_of :: "hub_manifest \<Rightarrow> string \<Rightarrow> file_meta" where
  "meta_of mf path = (case dict_get mf path of Some m \<Rightarrow> m | None \<Rightarrow> \<lparr>fm_size = None, fm_is_lfs = False, fm_lfs_sha = None\<rparr>)"

record lfs_findings =
  lf_stale_index :: bool
  lf_placement :: "(string, lfs_verdict) dict"
  lf_stability :: "(string, lfs_verdict) dict"

definition note_verdict :: "string \<Rightarrow> lfs_verdict \<Rightarrow> (string, lfs_verdict) dict \<Rightarrow> (string, lfs_verdict) dict" where
  "note_verdict path v d = (if v \<noteq> LfsOk then dict_set path v d else d)"

definition judge_file :: "string \<Rightarrow> hub_manifest \<Rightarrow> hub_manifest \<Rightarrow> string \<Rightarrow> lfs_findings \<Rightarrow> lfs_findings" where
  "judge_file repo mf pre path f =
     (let m = meta_of mf path;
          f1 = f\<lparr>lf_placement := note_verdict path (classify_lfs_placement repo path (fm_size m) (fm_is_lfs m)) (lf_placement f)\<rparr>
      in if is_large_file_pattern path
         then f1\<lparr>lf_stability := note_verdict path (classify_large_file_stability (fm_lfs_sha (meta_of pre path)) (fm_lfs_sha m)) (lf_stability f)\<rparr>
         else f1)"

definition derive_findings :: "string \<Rightarrow> string list \<Rightarrow> hub_manifest \<Rightarrow> hub_manifest \<Rightarrow> lfs_findings" where
  "derive_findings repo names mf pre =
     fold (judge_file repo mf pre) names \<lparr>lf_stale_index = has_stale_index names, lf_placement = [], lf_stability = []\<rparr>"

definition probe_passed :: "lfs_findings \<Rightarrow> bool" where
  "probe_passed f =
     (if lf_stale_index f then False
      else filter (\<lambda>(p, v). v \<noteq> KnownDevScratchOrphan) (lf_placement f) = [] \<and>
           filter (\<lambda>(p, v). v = LfsShaChanged) (lf_stability f) = [])"

section \<open>The run\<close>

text \<open>
  The hub: the file list of a revision and the information on paths, each possibly raising. A path's
  LFS entry is the outer option, its SHA-256 the inner one.
\<close>

record path_info =
  pi_path :: string
  pi_size :: "int option"
  pi_lfs :: "string option option"

record hub =
  hb_files :: "string \<Rightarrow> string \<Rightarrow> string + string list"
  hb_paths_info :: "string \<Rightarrow> string list \<Rightarrow> string \<Rightarrow> string + path_info list"

definition fetch_manifest :: "hub \<Rightarrow> string \<Rightarrow> string \<Rightarrow> string + (string list \<times> hub_manifest)" where
  "fetch_manifest hb repo rv =
     bindE (hb_files hb repo rv) (\<lambda>listed. let names = sort listed in
     mapE (\<lambda>infos. (names, fold (\<lambda>i. dict_set (pi_path i)
         \<lparr>fm_size = pi_size i, fm_is_lfs = (pi_lfs i \<noteq> None), fm_lfs_sha = (case pi_lfs i of Some sha \<Rightarrow> sha | None \<Rightarrow> None)\<rparr>) infos []))
       (hb_paths_info hb repo names rv))"

record lfs_report =
  lr_repo :: string
  lr_revision :: string
  lr_pre_fix :: string
  lr_n_files :: nat
  lr_findings :: lfs_findings
  lr_passed :: bool

definition probe_hub_repo :: "hub \<Rightarrow> string \<Rightarrow> string \<Rightarrow> string \<Rightarrow> string + lfs_report" where
  "probe_hub_repo hb repo rv pre_rv =
     bindE (fetch_manifest hb repo rv) (\<lambda>(names, mf).
     mapE (\<lambda>(_, pre). let f = derive_findings repo names mf pre in
         \<lparr>lr_repo = repo, lr_revision = rv, lr_pre_fix = pre_rv, lr_n_files = length names, lr_findings = f, lr_passed = probe_passed f\<rparr>)
       (fetch_manifest hb repo pre_rv))"

definition probe_bundle :: "hub \<Rightarrow> string + lfs_report list" where
  "probe_bundle hb =
     bindE (probe_hub_repo hb FP8_REPO FP8_REVISION PRE_FIX_FP8_REVISION) (\<lambda>a.
     mapE (\<lambda>b. [a, b]) (probe_hub_repo hb NVFP4_REPO NVFP4_REVISION PRE_FIX_NVFP4_REVISION))"

definition lfs_exit_code :: "hub \<Rightarrow> string + int" where
  "lfs_exit_code hb = mapE (\<lambda>rs. if list_all lr_passed rs then 0 else 1) (probe_bundle hb)"

section \<open>What a passing repository is\<close>

lemma set_update_same: "(\<And>w. (k, w) \<in> set d \<Longrightarrow> w = v) \<Longrightarrow> set (dict_set k v d) = insert (k, v) (set d)"
  by (induction d) auto

abbreviation placed :: "string \<Rightarrow> hub_manifest \<Rightarrow> string \<Rightarrow> lfs_verdict" where
  "placed repo mf p \<equiv> classify_lfs_placement repo p (fm_size (meta_of mf p)) (fm_is_lfs (meta_of mf p))"

abbreviation stable :: "hub_manifest \<Rightarrow> hub_manifest \<Rightarrow> string \<Rightarrow> lfs_verdict" where
  "stable mf pre p \<equiv> classify_large_file_stability (fm_lfs_sha (meta_of pre p)) (fm_lfs_sha (meta_of mf p))"

lemma note_verdict_set:
  assumes "set d = {(p, g p) | p. p \<in> S \<and> g p \<noteq> LfsOk}"
  shows "set (note_verdict q (g q) d) = {(p, g p) | p. p \<in> insert q S \<and> g p \<noteq> LfsOk}"
proof (cases "g q = LfsOk")
  case False
  have "set (dict_set q (g q) d) = insert (q, g q) (set d)" by (rule set_update_same) (use assms in auto)
  then show ?thesis using False assms by (auto simp: note_verdict_def)
qed (use assms in \<open>auto simp: note_verdict_def\<close>)

lemma judge_file_fields:
  "lf_stale_index (judge_file repo mf pre q f) = lf_stale_index f"
  "lf_placement (judge_file repo mf pre q f) = note_verdict q (placed repo mf q) (lf_placement f)"
  "lf_stability (judge_file repo mf pre q f) =
    (if is_large_file_pattern q then note_verdict q (stable mf pre q) (lf_stability f) else lf_stability f)"
  by (simp_all add: judge_file_def Let_def)

lemma derived_findings:
  fixes names repo mf pre
  defines "f \<equiv> derive_findings repo names mf pre"
  shows "lf_stale_index f = has_stale_index names"
    and "set (lf_placement f) = {(p, placed repo mf p) | p. p \<in> set names \<and> placed repo mf p \<noteq> LfsOk}"
    and "set (lf_stability f) = {(p, stable mf pre p) | p. p \<in> {p \<in> set names. is_large_file_pattern p} \<and> stable mf pre p \<noteq> LfsOk}"
proof -
  have "lf_stale_index (fold (judge_file repo mf pre) xs e) = lf_stale_index e \<and>
      set (lf_placement (fold (judge_file repo mf pre) xs e)) = {(p, placed repo mf p) | p. p \<in> set xs \<and> placed repo mf p \<noteq> LfsOk} \<and>
      set (lf_stability (fold (judge_file repo mf pre) xs e)) =
        {(p, stable mf pre p) | p. p \<in> {p \<in> set xs. is_large_file_pattern p} \<and> stable mf pre p \<noteq> LfsOk}"
    if "lf_placement e = []" "lf_stability e = []" for xs e
    using that
  proof (induction xs rule: rev_induct)
    case (snoc q xs)
    let ?g = "fold (judge_file repo mf pre) xs e"
    note IH = snoc.IH [OF snoc.prems]
    have "set (note_verdict q (placed repo mf q) (lf_placement ?g)) =
        {(p, placed repo mf p) | p. p \<in> insert q (set xs) \<and> placed repo mf p \<noteq> LfsOk}"
      by (rule note_verdict_set) (use IH in simp)
    moreover have "set (if is_large_file_pattern q then note_verdict q (stable mf pre q) (lf_stability ?g) else lf_stability ?g) =
        {(p, stable mf pre p) | p. p \<in> {p \<in> insert q (set xs). is_large_file_pattern p} \<and> stable mf pre p \<noteq> LfsOk}"
    proof (cases "is_large_file_pattern q")
      case True
      then have "{p \<in> insert q (set xs). is_large_file_pattern p} = insert q {p \<in> set xs. is_large_file_pattern p}" by auto
      moreover have "set (note_verdict q (stable mf pre q) (lf_stability ?g)) =
          {(p, stable mf pre p) | p. p \<in> insert q {p \<in> set xs. is_large_file_pattern p} \<and> stable mf pre p \<noteq> LfsOk}"
        by (rule note_verdict_set) (use IH in simp)
      ultimately show ?thesis using True by simp
    next
      case False
      then have "{p \<in> insert q (set xs). is_large_file_pattern p} = {p \<in> set xs. is_large_file_pattern p}" by auto
      then show ?thesis using False IH by simp
    qed
    ultimately show ?case using IH by (simp add: judge_file_fields)
  qed simp
  then show "lf_stale_index f = has_stale_index names"
    "set (lf_placement f) = {(p, placed repo mf p) | p. p \<in> set names \<and> placed repo mf p \<noteq> LfsOk}"
    "set (lf_stability f) = {(p, stable mf pre p) | p. p \<in> {p \<in> set names. is_large_file_pattern p} \<and> stable mf pre p \<noteq> LfsOk}"
    unfolding f_def derive_findings_def by simp_all
qed

text \<open>
  The packaging probe passes a repository exactly when its stale weight index is gone, every file
  outside the approved leftovers is in LFS if and only if it is large or binary, and no tracked large
  file whose hash is known at both revisions has changed.
\<close>

theorem lfs_probe_exact:
  "probe_passed (derive_findings repo names mf pre) \<longleftrightarrow>
    STALE_INDEX_NAME \<notin> set names \<and>
    (\<forall>p \<in> set names. scratch_orphan repo p \<or> (fm_is_lfs (meta_of mf p) \<longleftrightarrow> is_large_or_binary p (fm_size (meta_of mf p)))) \<and>
    (\<forall>p \<in> set names. \<forall>a b. is_large_file_pattern p \<and> fm_lfs_sha (meta_of pre p) = Some a \<and> fm_lfs_sha (meta_of mf p) = Some b
       \<longrightarrow> a = b)"
proof -
  have "placed repo mf p \<in> {LfsOk, KnownDevScratchOrphan} \<longleftrightarrow>
      scratch_orphan repo p \<or> (fm_is_lfs (meta_of mf p) \<longleftrightarrow> is_large_or_binary p (fm_size (meta_of mf p)))" for p
    by (auto simp: classify_lfs_placement_def Let_def)
  then have placement: "filter (\<lambda>(p, v). v \<noteq> KnownDevScratchOrphan) (lf_placement (derive_findings repo names mf pre)) = [] \<longleftrightarrow>
      (\<forall>p \<in> set names. scratch_orphan repo p \<or> (fm_is_lfs (meta_of mf p) \<longleftrightarrow> is_large_or_binary p (fm_size (meta_of mf p))))"
    by (auto simp: filter_empty_conv derived_findings)
  have changed: "stable mf pre p = LfsShaChanged \<longleftrightarrow>
      (\<exists>a b. fm_lfs_sha (meta_of pre p) = Some a \<and> fm_lfs_sha (meta_of mf p) = Some b \<and> a \<noteq> b)" for p
    by (auto simp: classify_large_file_stability_def split: option.splits)
  have stability: "filter (\<lambda>(p, v). v = LfsShaChanged) (lf_stability (derive_findings repo names mf pre)) = [] \<longleftrightarrow>
      (\<forall>p \<in> set names. is_large_file_pattern p \<longrightarrow> stable mf pre p \<noteq> LfsShaChanged)"
    by (auto simp: filter_empty_conv derived_findings)
  have unchanged: "(\<forall>p \<in> set names. is_large_file_pattern p \<longrightarrow> stable mf pre p \<noteq> LfsShaChanged) \<longleftrightarrow>
      (\<forall>p \<in> set names. \<forall>a b. is_large_file_pattern p \<and> fm_lfs_sha (meta_of pre p) = Some a \<and> fm_lfs_sha (meta_of mf p) = Some b
         \<longrightarrow> a = b)"
    unfolding changed by fast
  show ?thesis unfolding probe_passed_def derived_findings(1) has_stale_index_def placement stability unchanged by simp
qed

definition demo_manifest :: hub_manifest where
  "demo_manifest =
     [(''config.json'', \<lparr>fm_size = Some 8166, fm_is_lfs = False, fm_lfs_sha = None\<rparr>),
      (''vae/model.safetensors'', \<lparr>fm_size = Some 9, fm_is_lfs = True, fm_lfs_sha = Some ''aa''\<rparr>)]"

lemma lfs_probe_exact_witness:
  "probe_passed (derive_findings FP8_REPO [''config.json'', ''vae/model.safetensors''] demo_manifest demo_manifest)"
proof -
  have "is_large_or_binary ''vae/model.safetensors'' (Some 9)" "\<not> is_large_or_binary ''config.json'' (Some 8166)" by code_simp+
  then show ?thesis unfolding lfs_probe_exact by (simp add: STALE_INDEX_NAME_def meta_of_def demo_manifest_def)
qed

text \<open>A tracked file that is gone from the new revision is not noticed: only the files still listed are judged.\<close>

lemma removed_weights_unnoticed:
  "probe_passed (derive_findings FP8_REPO [''config.json''] [(''config.json'', \<lparr>fm_size = Some 8166, fm_is_lfs = False, fm_lfs_sha = None\<rparr>)]
     demo_manifest)"
  by code_simp

end
