(* ===== verification/Spec2Isabelle.thy ===== *)
theory Spec2Isabelle
  imports Plane_Workers Orchestrator Job_Stream Reasoner Omni_Facts Gen_Facts Checkpoint_Undo Probe_Facts Preflight
    Self_Contained_Facts Diffusers_Loader App_Lifespan Lease_Facts Engine_Facts Reasoner_Engine
    Vllm_Patch Lfs_Probe
begin

text \<open>
  A model of the Cosmos3-Nano-WebUI service (\<open>src/api\<close>) and of its checkpoint tools
  (\<open>src/tools/checkpoint_prep\<close>).

  \<^bold>\<open>The program.\<close> A FastAPI service accepts generation, action and reasoning requests for one GPU. The
  edge (\<open>app/jobs_router.py\<close>, \<open>app/routes\<close>) validates a request and stores a job; the runner
  (\<open>jobs/runner.py\<close>) drains the queue one job at a time, asks the orchestrator
  (\<open>orchestrator/manager.py\<close>) for the plane that serves the job's mode, and calls the plane's work: the
  vllm-omni server over HTTP (\<open>engines/vllm_omni\<close>) or the resident worker process over a socket
  (\<open>jobs/gen_client.py\<close>, \<open>orchestrator/gen_worker.py\<close>). The orchestrator keeps at most one plane resident
  and starts and stops its worker (\<open>orchestrator/container.py\<close>, \<open>worker.py\<close>). Clients poll the job or
  follow its events as a stream. The tools rewrite a quantized checkpoint on disk, verify it and probe
  the result.

  \<^bold>\<open>Foundations.\<close> \<open>Prelude\<close> has results as sums (an \<open>Inl\<close> for each raise), association-list dicts and shared
  lemmas; \<open>Py_Values\<close> the dynamic values of parsed JSON with \<open>int\<close>, \<open>float\<close>, \<open>str\<close>, subscripts and truth as
  Python has them, floats being exact rationals or the three special values. A message is the list of
  the pieces of its f-string.

  \<^bold>\<open>Jobs.\<close> \<open>Schemas\<close> (\<open>app/schemas.py\<close>), \<open>Job_Model\<close> (\<open>jobs/model.py\<close>: the record and its transitions),
  \<open>Job_Store\<close> (\<open>jobs/store.py\<close>, \<open>jobs/events.py\<close>: every operation under its lock, refined to a board with
  unbounded histories through a locale), \<open>Job_Runner\<close> (\<open>jobs/runner.py\<close>: one step from an await to the
  next, with the work thread's callback and the cancel coroutines interleaved), \<open>Job_Stream\<close> (the job,
  stream, artifact and cancel routes), \<open>Submission\<close> (validation and enqueueing, the typed routes),
  \<open>Errors\<close> (\<open>app/errors.py\<close>). They show that jobs only follow the life cycle, that none is lost or
  overtaken by a late result (a raising eviction, the one way to leave a job running, is a step of the
  model and exhibited), and that a stream delivers what is logged up to its last look, once and in order.

  \<^bold>\<open>Planes.\<close> \<open>Residency\<close> (\<open>orchestrator/planes.py\<close>, \<open>residency.py\<close>), \<open>Orchestrator\<close> (\<open>manager.py\<close> as a step
  relation of tasks over the lock, the slot and the idle timer), \<open>Plane_Workers\<close> (both workers over a
  parametric host, their polling as partial functions that are shown to return). The invariant is that
  at most one worker is tracked, and that any other which may still hold GPU memory was let go without
  its release being confirmed; two theorems exhibit the runs on which a cancelled load or a failed VRAM
  wait leaves two such workers. \<open>Preflight\<close> has the co-residency verdicts and the reasoner-source guard
  (\<open>engines/vllm/coresidency.py\<close>, \<open>reasoner_preflight.py\<close>).

  \<^bold>\<open>Inputs.\<close> \<open>Trust_Paths\<close> (\<open>preprocessing/paths.py\<close> and the naming half of \<open>jobs/artifacts.py\<close>), \<open>Media\<close>
  (\<open>preprocessing/media.py\<close>, \<open>limits.py\<close>: byte-level probes), \<open>Action_Schema\<close>
  (\<open>preprocessing/action_schema.py\<close>), \<open>Reasoner\<close> (\<open>engines/vllm\<close>, \<open>app/routes/reasoning.py\<close>).

  \<^bold>\<open>Generation over HTTP.\<close> \<open>Omni_Form\<close> (requests, forms and their multipart encoding), \<open>Multipart\<close> (an
  independent reader of the format and the round trip), \<open>Omni_Client\<close> (submission, polling and download
  over a host that is a record of operations on a world; every call is recorded), \<open>Omni_Transport\<close> (the
  urllib half of that host), \<open>Omni_Work\<close> (the runner's work for each mode) and \<open>Omni_Facts\<close>. The poll loop is a
  \<open>partial_function (option)\<close>; it is shown to return under a clock that advances with each sleep.

  \<^bold>\<open>Generation over the socket.\<close> \<open>Gen_Channel\<close> (frames, replies, the client's work), \<open>Gen_Worker\<close> (dispatch,
  the encoders' flow of \<open>jobs/artifacts.py\<close>, one served connection) and \<open>Gen_Facts\<close>: the two ends composed,
  for any way in which the socket cuts the streams. All loops there recurse on the bytes that remain.

  \<^bold>\<open>Checkpoint tools.\<close> \<open>Safetensors\<close> (the container: headers, ranges read in chunks of 64 MiB),
  \<open>Checkpoint_Mutation\<close> (the pure plan, layout and sidecars of \<open>mutation.py\<close>), \<open>Checkpoint_Rewrite\<close> (the
  disk effects of \<open>rewrite.py\<close>, an operation giving a result and the disk it leaves), \<open>Checkpoint_Demo\<close> (a
  small checkpoint the witnesses run on), \<open>Checkpoint_Facts\<close> (the new file holds every tensor byte for
  byte), \<open>Checkpoint_Undo\<close> (restoring undoes a commit, a refusal changes nothing), \<open>Integrity_Probe\<close>
  (\<open>integrity_probe.py\<close>) and \<open>Probe_Facts\<close> (what the mutation verified, the probe accepts). A disk is a dict
  from paths to bytes; a directory is a prefix of paths. Python iterates the planned names as a set,
  the model in the header's order. The four sizes of a model's configuration are taken to be integers.

  \<^bold>\<open>The self-contained copy\<close> (\<open>copy_shared.py\<close>, \<open>__main__.py\<close>). \<open>Link_Files\<close> is a file system with
  symbolic links (a name is a file, a directory or a link; a path is resolved name by name, following at
  most 40 links, the kernel's limit), \<open>Link_Facts\<close> what its calls leave alone, \<open>Copy_Plan\<close> the pure plan,
  \<open>Self_Contained\<close> the sweep, the copy and the verification, with a field \<open>ce_depth\<close> for the depth of the
  directory walks (the theorems name the depth they need). \<open>Copy_Facts\<close>, \<open>Copy_Contents\<close> and
  \<open>Self_Contained_Facts\<close> show that a run copies the inventory byte for byte, writes nothing outside its
  target, and that a clean verdict means what it says.

  \<^bold>\<open>Engines.\<close> \<open>Diffusers_Loader\<close> (the configurations and loaders of \<open>engines/diffusers_oracle\<close> and
  \<open>diffusers_action\<close>: precision, recipe and count gates, the grafted adapters), \<open>Engine_Adapters\<close> (both
  \<open>adapter.py\<close>: seeding, the calls of the pipeline with their arguments, the conversion of its results;
  and the start of \<open>gen_worker.py\<close>: building, warming, listening, the readiness file) and \<open>Engine_Facts\<close>
  (the resident engines implement the worker that the socket theorems assume; pixels survive the
  float detour; readiness is announced only by a serving worker). \<open>Float_Rounding\<close> has IEEE rounding of
  rationals to the binary formats, \<open>Artifact_Encoders\<close> the arrays, pixels and PCM samples of
  \<open>jobs/artifacts.py\<close>, \<open>Wave_Files\<close> and \<open>Byte_Layout\<close> the RIFF reader and writer of Python's \<open>wave\<close>
  module, which both the probes and the sidecar use. \<open>Reasoner_Engine\<close> has the in-process reasoner
  (\<open>engines/vllm/loader.py\<close>, \<open>adapter.py\<close>) and the upstream call of \<open>app/routes/reasoning.py\<close>.

  \<^bold>\<open>Deployment.\<close> \<open>Vllm_Patch\<close> has the modules the reasoner images put into vLLM
  (\<open>deploy/vllm-reasoner/patch*\<close>): the registry of quantization methods, which stays complete under
  further registrations, and the two configurations, which quantize the MLP layers of the language tower
  and no other. \<open>Lfs_Probe\<close> is the packaging probe of the published checkpoints
  (\<open>docs/archive/phase-2/session_2/probes\<close>).

  \<^bold>\<open>Composition.\<close> \<open>App_Wiring\<close> (\<open>app/main.py\<close>: the choice of engine, worker factory and configuration;
  \<open>health.py\<close>, \<open>readiness.py\<close>), \<open>App_Lifespan\<close> (start and shutdown over the runner and the manager),
  \<open>Gpu_Lease\<close> and \<open>Lease_Facts\<close> (job loop and reasoning streams sharing the lease and the manager, with
  the exceptions each call may end in: every run is a run of the parts, and a plane in use is never
  evicted), \<open>Observability\<close>
  (\<open>app/observability\<close>: metered work, the middleware over a tree of interactions, the scrape).

  \<^bold>\<open>Parameters.\<close> What is not under \<open>src\<close> is an argument: \<open>realpath\<close>, SHA-256, base64, the JSON library, float
  parsing, \<open>str\<close> of values that are no strings, the docker command line and the process table, clocks,
  the network, \<open>nvidia-smi\<close>, the Prometheus client, torch, diffusers, modelopt and vLLM, the video and
  image encoders. The laws the theorems need of them (\<open>realpath_lawful\<close>, \<open>host_lawful\<close>, \<open>clock_lawful\<close>,
  \<open>json_lawful\<close>, \<open>codec_lawful\<close>, \<open>utf8_lawful\<close>) are named hypotheses, and each such theorem has a witness
  with a concrete instance. Floats are exact rationals except where \<open>Float_Rounding\<close> rounds them.

  \<^bold>\<open>Not modelled.\<close> FastAPI's own object construction, router registration and request parsing; argument
  parsing of the command lines; \<open>openapi_export.py\<close> (writes a generated schema); the key tables of the
  patched \<open>cosmos3.py\<close> (data for a mapper of vLLM that is not in the repository); the archived smoke runs
  and probes under \<open>docs\<close> other than the one above; the test suite.
\<close>

end
